(* ===== verification/Prelude.thy ===== *)
theory Prelude
  imports
    Main
    "HOL-Library.Word"
    "HOL-Library.Sublist"
    "HOL-Library.Monad_Syntax"
begin

text \<open>
  Shared vocabulary of the development: type synonyms for the C types, the collections of
  hints the component proofs use, and generic facts about lists, options and words.

  A computation that may leave the defined behaviour of C (an access outside an object, a
  write past a buffer, a loop that never ends) has an option type: \<open>None\<close> is that fault.
\<close>

unbundle bit_operations_syntax

type_synonym byte = "8 word"
type_synonym cstring = string  \<comment> \<open>the characters of a C string, its terminator left out\<close>

named_theorems lib_simps \<open>rewrite rules of the C library model\<close>
named_theorems lens_simps \<open>lengths of what the operations return\<close>
named_theorems frame_simps \<open>fields an operation leaves alone\<close>

subsection \<open>Options as faults\<close>

definition guard :: "bool \<Rightarrow> unit option" where
  "guard b = (if b then Some () else None)"

lemma guard_simps [simp]:
  "guard True = Some ()"
  "guard False = None"
  "guard b = Some u \<longleftrightarrow> b"
  "guard b = None \<longleftrightarrow> \<not> b"
  by (simp_all add: guard_def)

lemma bind_guard [simp]: "(guard b \<bind> f) = (if b then f () else None)"
  by (simp add: guard_def)

lemma bind_SomeD: "(m \<bind> f) = Some y \<Longrightarrow> \<exists>x. m = Some x \<and> f x = Some y"
  by (cases m) auto

lemma bind_SomeE [elim]:
  assumes "(m \<bind> f) = Some y"
  obtains x where "m = Some x" and "f x = Some y"
  using assms by (cases m) auto

definition nth_opt :: "'a list \<Rightarrow> nat \<Rightarrow> 'a option" where
  "nth_opt xs i = (if i < length xs then Some (xs ! i) else None)"

lemma nth_opt_Some [simp]: "nth_opt xs i = Some x \<longleftrightarrow> i < length xs \<and> xs ! i = x"
  by (simp add: nth_opt_def)

lemma nth_opt_None [simp]: "nth_opt xs i = None \<longleftrightarrow> length xs \<le> i"
  by (auto simp: nth_opt_def)

lemma nth_opt_in [intro]: "i < length xs \<Longrightarrow> nth_opt xs i = Some (xs ! i)"
  by simp

subsection \<open>Arrays as lists\<close>

text \<open>A write of a run of elements into an array, starting at an index.\<close>

definition poke :: "'a list \<Rightarrow> nat \<Rightarrow> 'a list \<Rightarrow> 'a list" where
  "poke buf off xs = take off buf @ xs @ drop (off + length xs) buf"

definition poke_opt :: "'a list \<Rightarrow> nat \<Rightarrow> 'a list \<Rightarrow> 'a list option" where
  "poke_opt buf off xs =
     (if off + length xs \<le> length buf then Some (poke buf off xs) else None)"

lemma length_poke [lens_simps, simp]:
  "off + length xs \<le> length buf \<Longrightarrow> length (poke buf off xs) = length buf"
  by (simp add: poke_def)

lemma poke_opt_Some [simp]:
  "poke_opt buf off xs = Some r \<longleftrightarrow> off + length xs \<le> length buf \<and> r = poke buf off xs"
  by (auto simp: poke_opt_def)

lemma take_poke [simp]:
  "off + length xs \<le> length buf \<Longrightarrow> take (off + length xs) (poke buf off xs) = take off buf @ xs"
  by (simp add: poke_def)

lemma map_nth_upt_drop: "n + k \<le> length xs \<Longrightarrow> map (\<lambda>i. xs ! (n + i)) [0..<k] = take k (drop n xs)"
  by (rule nth_equalityI) auto

lemma take_drop_append: "n \<le> length xs \<Longrightarrow> take k (drop n (xs @ ys)) = take k (drop n xs @ ys)"
  by simp

lemma takeWhile_all: "(\<And>x. x \<in> set xs \<Longrightarrow> P x) \<Longrightarrow> takeWhile P xs = xs"
  by (simp add: takeWhile_eq_all_conv)

lemma foldl_inv:
  assumes "I s" and "\<And>s x. x \<in> set xs \<Longrightarrow> I s \<Longrightarrow> I (f s x)"
  shows "I (foldl f s xs)"
  using assms by (induction xs arbitrary: s) auto

subsection \<open>Buffers that hold C strings\<close>

text \<open>
  A buffer is the list of its bytes. \<open>cstr\<close> is the string it holds, a fault when no byte of it
  is zero; the others are \<open>memcpy\<close> out of a buffer, \<open>strcpy\<close> and \<open>strcat\<close> into one.
\<close>

definition cstr :: "byte list \<Rightarrow> byte list option" where
  "cstr buf = (if 0 \<in> set buf then Some (takeWhile (\<lambda>b. b \<noteq> 0) buf) else None)"

definition rd :: "byte list \<Rightarrow> nat \<Rightarrow> nat \<Rightarrow> byte list option" where
  "rd buf off n = (if off + n \<le> length buf then Some (take n (drop off buf)) else None)"

definition strcpy_buf :: "byte list \<Rightarrow> byte list \<Rightarrow> byte list option" where
  "strcpy_buf buf s = poke_opt buf 0 (s @ [0])"

definition strcat_buf :: "byte list \<Rightarrow> byte list \<Rightarrow> byte list option" where
  "strcat_buf buf s = do { t \<leftarrow> cstr buf; poke_opt buf (length t) (s @ [0]) }"

lemma cstr_prefix [simp]: "0 \<notin> set s \<Longrightarrow> cstr (s @ 0 # r) = Some s"
  by (induction s) (auto simp: cstr_def split: if_splits)

lemma cstr_zeros [simp]: "0 \<notin> set s \<Longrightarrow> 0 < k \<Longrightarrow> cstr (s @ replicate k 0) = Some s"
  by (cases k) simp_all

lemma cstr_nonzero: "cstr buf = Some s \<Longrightarrow> 0 \<notin> set s"
  by (auto simp: cstr_def split: if_splits dest: set_takeWhileD)

lemma cstr_Cons: "cstr (b # buf) = (if b = 0 then Some [] else map_option ((#) b) (cstr buf))"
  by (auto simp: cstr_def)

lemma cstr_Some: "cstr buf = Some s \<Longrightarrow> take (length s) buf = s \<and> length s < length buf"
proof (induction buf arbitrary: s)
  case Nil
  then show ?case by (simp add: cstr_def)
next
  case (Cons b buf)
  then show ?case by (auto simp: cstr_Cons split: if_splits)
qed

lemma rd_Some [simp]: "rd buf off n = Some xs \<longleftrightarrow> off + n \<le> length buf \<and> xs = take n (drop off buf)"
  by (auto simp: rd_def)

lemma strcpy_cstr:
  "0 \<notin> set s \<Longrightarrow> length s < length buf \<Longrightarrow>
   \<exists>buf'. strcpy_buf buf s = Some buf' \<and> cstr buf' = Some s \<and> length buf' = length buf"
  by (simp add: strcpy_buf_def) (simp add: poke_def)

lemma strcat_cstr:
  assumes "cstr buf = Some t" and "0 \<notin> set s" and "length t + length s < length buf"
  shows "\<exists>buf'. strcat_buf buf s = Some buf' \<and> cstr buf' = Some (t @ s) \<and> length buf' = length buf"
proof -
  from cstr_Some[OF assms(1)] cstr_nonzero[OF assms(1)] assms(2)
  have "poke buf (length t) (s @ [0]) = (t @ s) @ 0 # drop (length t + length (s @ [0])) buf"
    and "0 \<notin> set (t @ s)"
    by (simp_all add: poke_def)
  then have "cstr (poke buf (length t) (s @ [0])) = Some (t @ s)"
    by (metis cstr_prefix)
  with assms show ?thesis by (simp add: strcat_buf_def)
qed

end
