(* ===== verification/Des.thy ===== *)
theory Des
  imports Prelude
begin

text \<open>
  The DES block cipher of \<^verbatim>\<open>DBRecord/datasafe.h\<close> (lines 20 to 335): bit expansion, key
  schedule, the sixteen rounds, encryption and decryption of one block.

  A \<open>uchar\<close> array is a list of 8-bit words; bit arrays hold one bit in each \<open>uchar\<close>, as in the
  source. The C functions write their result through a pointer and the global arrays \<open>C\<close>, \<open>D\<close>
  and \<open>K\<close>; here they return it. \<open>DES\<close> and its inverse read the whole input block before they
  write the output, so the calls with the same array for both (as in \<open>sssDES\<close>) are covered.
\<close>

type_synonym uchar = byte

subsection \<open>Bytes and bit arrays\<close>

definition expand0 :: "uchar list \<Rightarrow> uchar list" where
  "expand0 inp = concat (map (\<lambda>i. map (\<lambda>j. (inp ! i div (0x80 div 2 ^ j)) AND 1) [0..<8]) [0..<8])"

definition compress0 :: "uchar list \<Rightarrow> uchar list" where
  "compress0 out =
     map (\<lambda>i. foldl (\<lambda>a j. a + out ! (8 * i + j) * (0x80 div 2 ^ j)) 0 [0..<8]) [0..<8]"

definition compress016 :: "uchar list \<Rightarrow> uchar list" where
  "compress016 out =
     map (\<lambda>i. foldl (\<lambda>a j. a + out ! (4 * i + j) * (0x8 div 2 ^ j)) 0x30 [0..<4]) [0..<16]"

subsection \<open>Key schedule\<close>

definition pc_1_c :: "nat list" where
  "pc_1_c =
    [57, 49, 41, 33, 25, 17, 9,
     1, 58, 50, 42, 34, 26, 18,
     10, 2, 59, 51, 43, 35, 27,
     19, 11, 3, 60, 52, 44, 36]"

definition pc_1_d :: "nat list" where
  "pc_1_d =
    [63, 55, 47, 39, 31, 23, 15,
     7, 62, 54, 46, 38, 30, 22,
     14, 6, 61, 53, 45, 37, 29,
     21, 13, 5, 28, 20, 12, 4]"

definition pc_2 :: "nat list" where
  "pc_2 =
    [14, 17, 11, 24, 1, 5,
     3, 28, 15, 6, 21, 10,
     23, 19, 12, 4, 26, 8,
     16, 7, 27, 20, 13, 2,
     41, 52, 31, 37, 47, 55,
     30, 40, 51, 45, 33, 48,
     44, 49, 39, 56, 34, 53,
     46, 42, 50, 36, 29, 32]"

definition ls_count :: "nat list" where
  "ls_count =
    [1, 1, 2, 2, 2, 2, 2, 2, 1, 2, 2, 2, 2, 2, 2, 1]"


definition LS :: "uchar list \<Rightarrow> nat \<Rightarrow> uchar list" where
  "LS bits count = map (\<lambda>i. bits ! ((i + count) mod 28)) [0..<28]"

definition son :: "uchar list \<Rightarrow> uchar list \<Rightarrow> uchar list" where
  "son cc dd = (let buffer = take 28 cc @ take 28 dd in map (\<lambda>i. buffer ! (pc_2 ! i - 1)) [0..<48])"

text \<open>
  One turn of the loop of \<open>setkeystar\<close>: the halves \<open>C[j]\<close>, \<open>D[j]\<close> and the keys so far become
  \<open>C[j+1]\<close>, \<open>D[j+1]\<close> and the keys with \<open>K[j+1]\<close>.
\<close>

definition key_turn :: "uchar list \<times> uchar list \<times> uchar list list \<Rightarrow> nat
    \<Rightarrow> uchar list \<times> uchar list \<times> uchar list list" where
  "key_turn s j =
     (case s of (c, d, K) \<Rightarrow>
        let c' = LS c (ls_count ! j); d' = LS d (ls_count ! j)
        in (c', d', K @ [son c' d']))"

text \<open>The array \<open>K\<close>; its row 0 is never written and keeps the zeros of a global array.\<close>

definition setkeystar :: "uchar list \<Rightarrow> uchar list list" where
  "setkeystar bits =
     (let C0 = map (\<lambda>i. bits ! (pc_1_c ! i - 1)) [0..<28];
          D0 = map (\<lambda>i. bits ! (pc_1_d ! i - 1)) [0..<28]
      in snd (snd (foldl key_turn (C0, D0, [replicate 48 0]) [0..<16])))"

subsection \<open>Initial permutation and its inverse\<close>

definition ip_tab :: "nat list" where
  "ip_tab =
    [58, 50, 42, 34, 26, 18, 10, 2,
     60, 52, 44, 36, 28, 20, 12, 4,
     62, 54, 46, 38, 30, 22, 14, 6,
     64, 56, 48, 40, 32, 24, 16, 8,
     57, 49, 41, 33, 25, 17, 9, 1,
     59, 51, 43, 35, 27, 19, 11, 3,
     61, 53, 45, 37, 29, 21, 13, 5,
     63, 55, 47, 39, 31, 23, 15, 7]"

definition ip_inv_tab :: "nat list" where
  "ip_inv_tab =
    [40, 8, 48, 16, 56, 24, 64, 32,
     39, 7, 47, 15, 55, 23, 63, 31,
     38, 6, 46, 14, 54, 22, 62, 30,
     37, 5, 45, 13, 53, 21, 61, 29,
     36, 4, 44, 12, 52, 20, 60, 28,
     35, 3, 43, 11, 51, 19, 59, 27,
     34, 2, 42, 10, 50, 18, 58, 26,
     33, 1, 41, 9, 49, 17, 57, 25]"


definition ip :: "uchar list \<Rightarrow> uchar list \<times> uchar list" where
  "ip txt =
     (let buffer = expand0 txt
      in (map (\<lambda>i. buffer ! (ip_tab ! i - 1)) [0..<32],
          map (\<lambda>i. buffer ! (ip_tab ! (i + 32) - 1)) [0..<32]))"

definition ip_inv :: "uchar list \<Rightarrow> uchar list \<Rightarrow> uchar list" where
  "ip_inv ll rr =
     (let tmp = take 32 ll @ take 32 rr in map (\<lambda>i. tmp ! (ip_inv_tab ! i - 1)) [0..<64])"

subsection \<open>The round function\<close>

definition e_r :: "nat list" where
  "e_r =
    [32, 1, 2, 3, 4, 5, 4, 5, 6, 7, 8, 9,
     8, 9, 10, 11, 12, 13, 12, 13, 14, 15, 16, 17,
     16, 17, 18, 19, 20, 21, 20, 21, 22, 23, 24, 25,
     24, 25, 26, 27, 28, 29, 28, 29, 30, 31, 32, 1]"

definition P_tab :: "nat list" where
  "P_tab =
    [16, 7, 20, 21, 29, 12, 28, 17,
     1, 15, 23, 26, 5, 18, 31, 10,
     2, 8, 24, 14, 32, 27, 3, 9,
     19, 13, 30, 6, 22, 11, 4, 25]"

definition SSS :: "nat list list list" where
  "SSS =
    [[[14, 4, 13, 1, 2, 15, 11, 8, 3, 10, 6, 12, 5, 9, 0, 7],
      [0, 15, 7, 4, 14, 2, 13, 1, 10, 6, 12, 11, 9, 5, 3, 8],
      [4, 1, 14, 8, 13, 6, 2, 11, 15, 12, 9, 7, 3, 10, 5, 0],
      [15, 12, 8, 2, 4, 9, 1, 7, 5, 11, 3, 14, 10, 0, 6, 13]],
     [[15, 1, 8, 14, 6, 11, 3, 4, 9, 7, 2, 13, 12, 0, 5, 10],
      [3, 13, 4, 7, 15, 2, 8, 14, 12, 0, 1, 10, 6, 9, 11, 5],
      [0, 14, 7, 11, 10, 4, 13, 1, 5, 8, 12, 6, 9, 3, 2, 15],
      [13, 8, 10, 1, 3, 15, 4, 2, 11, 6, 7, 12, 0, 5, 14, 9]],
     [[10, 0, 9, 14, 6, 3, 15, 5, 1, 13, 12, 7, 11, 4, 2, 8],
      [13, 7, 0, 9, 3, 4, 6, 10, 2, 8, 5, 14, 12, 11, 15, 1],
      [13, 6, 4, 9, 8, 15, 3, 0, 11, 1, 2, 12, 5, 10, 14, 7],
      [1, 10, 13, 0, 6, 9, 8, 7, 4, 15, 14, 3, 11, 5, 2, 12]],
     [[7, 13, 14, 3, 0, 6, 9, 10, 1, 2, 8, 5, 11, 12, 4, 15],
      [13, 8, 11, 5, 6, 15, 0, 3, 4, 7, 2, 12, 1, 10, 14, 9],
      [10, 6, 9, 0, 12, 11, 7, 13, 15, 1, 3, 14, 5, 2, 8, 4],
      [3, 15, 0, 6, 10, 1, 13, 8, 9, 4, 5, 11, 12, 7, 2, 14]],
     [[2, 12, 4, 1, 7, 10, 11, 6, 8, 5, 3, 15, 13, 0, 14, 9],
      [14, 11, 2, 12, 4, 7, 13, 1, 5, 0, 15, 10, 3, 9, 8, 6],
      [4, 2, 1, 11, 10, 13, 7, 8, 15, 9, 12, 5, 6, 3, 0, 14],
      [11, 8, 12, 7, 1, 14, 2, 13, 6, 15, 0, 9, 10, 4, 5, 3]],
     [[12, 1, 10, 15, 9, 2, 6, 8, 0, 13, 3, 4, 14, 7, 5, 11],
      [10, 15, 4, 2, 7, 12, 9, 5, 6, 1, 13, 14, 0, 11, 3, 8],
      [9, 14, 15, 5, 2, 8, 12, 3, 7, 0, 4, 10, 1, 13, 11, 6],
      [4, 3, 2, 12, 9, 5, 15, 10, 11, 14, 1, 7, 6, 0, 8, 13]],
     [[4, 11, 2, 14, 15, 0, 8, 13, 3, 12, 9, 7, 5, 10, 6, 1],
      [13, 0, 11, 7, 4, 9, 1, 10, 14, 3, 5, 12, 2, 15, 8, 6],
      [1, 4, 11, 13, 12, 3, 7, 14, 10, 15, 6, 8, 0, 5, 9, 2],
      [6, 11, 13, 8, 1, 4, 10, 7, 9, 5, 0, 15, 14, 2, 3, 12]],
     [[13, 2, 8, 4, 6, 15, 11, 1, 10, 9, 3, 14, 5, 0, 12, 7],
      [1, 15, 13, 8, 10, 3, 7, 4, 12, 5, 6, 11, 0, 14, 9, 2],
      [7, 11, 4, 1, 9, 12, 14, 2, 0, 6, 10, 13, 15, 3, 5, 8],
      [2, 1, 14, 7, 4, 10, 8, 13, 15, 12, 9, 0, 3, 5, 6, 11]]]"

text \<open>The four bits a box gives, the entry of the table read at a row and a column.\<close>

definition s_bits :: "nat \<Rightarrow> nat \<Rightarrow> nat \<Rightarrow> uchar list" where
  "s_bits i y z =
     (let ss = word_of_nat (SSS ! i ! y ! z) :: uchar
      in map (\<lambda>k. (ss div (0x08 div 2 ^ k)) AND 1) [0..<4])"

definition s_box :: "uchar list \<Rightarrow> uchar list" where
  "s_box aa =
     concat (map (\<lambda>i.
       let j = 6 * i;
           y = unat (aa ! j) * 2 + unat (aa ! (j + 5));
           z = unat (aa ! (j + 1)) * 8 + unat (aa ! (j + 2)) * 4
               + unat (aa ! (j + 3)) * 2 + unat (aa ! (j + 4))
       in s_bits i y z) [0..<8])"

text \<open>The part of \<open>F\<close> that depends on the right half and the round key only.\<close>

definition F_core :: "uchar list \<Rightarrow> uchar list \<Rightarrow> uchar list" where
  "F_core k rr =
     (let buffer = map (\<lambda>i. rr ! (e_r ! i - 1)) [0..<48];
          buffer = map (\<lambda>i. (buffer ! i + k ! i) AND 1) [0..<48];
          tmp = s_box buffer
      in map (\<lambda>i. tmp ! (P_tab ! i - 1)) [0..<32])"

definition F :: "uchar list \<Rightarrow> uchar list \<times> uchar list \<Rightarrow> uchar list \<times> uchar list" where
  "F k lr =
     (case lr of (ll, rr) \<Rightarrow>
        let buffer = F_core k rr
        in (map (\<lambda>i. rr ! i) [0..<32], map (\<lambda>i. (buffer ! i + ll ! i) AND 1) [0..<32]))"

subsection \<open>One block\<close>

definition encrypt0 :: "uchar list list \<Rightarrow> uchar list \<Rightarrow> uchar list" where
  "encrypt0 K txt =
     (let (ll, rr) = foldl (\<lambda>lr i. F (K ! i) lr) (ip txt) [1..<17]
      in compress0 (ip_inv rr ll))"

definition discrypt0 :: "uchar list list \<Rightarrow> uchar list \<Rightarrow> uchar list" where
  "discrypt0 K mtext =
     (let (ll, rr) = foldl (\<lambda>lr i. F (K ! i) lr) (ip mtext) (rev [1..<17])
      in compress0 (ip_inv rr ll))"

definition DES :: "uchar list \<Rightarrow> uchar list \<Rightarrow> uchar list" where
  "DES key txt = encrypt0 (setkeystar (expand0 key)) txt"

definition DES_inv :: "uchar list \<Rightarrow> uchar list \<Rightarrow> uchar list" where
  "DES_inv key txt = discrypt0 (setkeystar (expand0 key)) txt"

subsection \<open>Bits, lengths and inverses\<close>

definition bits :: "nat \<Rightarrow> uchar list \<Rightarrow> bool" where
  "bits n xs \<longleftrightarrow> length xs = n \<and> set xs \<subseteq> {0, 1}"

lemma bits_length [lens_simps]: "bits n xs \<Longrightarrow> length xs = n"
  by (simp add: bits_def)

lemma bits_nth: "bits n xs \<Longrightarrow> i < n \<Longrightarrow> xs ! i = 0 \<or> xs ! i = 1"
  by (auto simp: bits_def dest: nth_mem)

lemma and1_bit: "(w :: uchar) AND 1 = of_bool (odd w)"
  by (simp add: and_one_eq mod_2_eq_odd)

lemma bits_map_and1: "bits (length is) (map (\<lambda>i. f i AND 1) is)"
  by (auto simp: bits_def and1_bit)

lemma bits_map_nth:
  assumes "bits n xs" and "\<forall>i\<in>set is. g i < n"
  shows "bits (length is) (map (\<lambda>i. xs ! g i) is)"
  using assms bits_nth by (fastforce simp: bits_def)

lemma concat_map_length: "(\<And>i. i \<in> set is \<Longrightarrow> length (f i) = m) \<Longrightarrow> length (concat (map f is)) = length is * m"
  by (induction "is") auto

lemma concat_map_nth:
  assumes "\<And>i. i < n \<Longrightarrow> length (f i) = m" and "i < n" and "j < m"
  shows "concat (map f [0..<n]) ! (m * i + j) = f i ! j"
  using assms(1,2)
proof (induction n)
  case 0
  then show ?case by simp
next
  case (Suc n)
  have len: "length (concat (map f [0..<n])) = n * m"
    using concat_map_length[of "[0..<n]" f m] Suc.prems(1) by simp
  show ?case
  proof (cases "i < n")
    case True
    have "m * i + j < n * m"
    proof -
      have "m * i + j < m * Suc i" using assms(3) by simp
      also have "\<dots> \<le> m * n" using True by (intro mult_le_mono2) simp
      finally show ?thesis by (simp add: mult.commute)
    qed
    with Suc True len show ?thesis by (simp add: nth_append)
  next
    case False
    with Suc.prems(2) have "i = n" by simp
    with len show ?thesis by (simp add: nth_append mult.commute)
  qed
qed

lemma expand0_bits [intro]: "bits 64 (expand0 inp)"
proof -
  have "length (expand0 inp) = 64"
    unfolding expand0_def by (subst concat_map_length[where m = 8]) auto
  moreover have "set (expand0 inp) \<subseteq> {0, 1}"
    by (fastforce simp: expand0_def and1_bit)
  ultimately show ?thesis by (simp add: bits_def)
qed

lemma expand0_nth:
  "i < 8 \<Longrightarrow> j < 8 \<Longrightarrow> expand0 inp ! (8 * i + j) = (inp ! i div (0x80 div 2 ^ j)) AND 1"
  unfolding expand0_def by (subst concat_map_nth) auto

lemma upt8: "[0..<8] = [0, 1, 2, 3, 4, 5, 6, 7 :: nat]"
  by (simp add: upt_rec)

lemma div_and1: "j < 8 \<Longrightarrow> (b div (0x80 div 2 ^ j)) AND 1 = (of_bool (bit b (7 - j)) :: uchar)"
proof -
  assume j: "j < 8"
  have "(0x80 :: uchar) div 2 ^ j = 2 ^ (7 - j)"
  proof -
    from j have "j = 0 \<or> j = 1 \<or> j = 2 \<or> j = 3 \<or> j = 4 \<or> j = 5 \<or> j = 6 \<or> j = 7" by linarith
    then show ?thesis by (elim disjE) simp_all
  qed
  then show ?thesis by (simp add: and1_bit bit_iff_odd)
qed

lemma horner8: "horner_sum of_bool 2 [g, f, e, d, c, b, a, z] =
   (of_bool z * 128 + of_bool a * 64 + of_bool b * 32 + of_bool c * 16 + of_bool d * 8 + of_bool e * 4 + of_bool f * 2 + of_bool g :: uchar)"
  by (simp add: algebra_simps)

lemma byte_from_bits: "foldl (\<lambda>a j. a + ((b div (0x80 div 2 ^ j)) AND 1) * (0x80 div 2 ^ j)) 0 [0..<8] = (b :: uchar)"
proof -
  have "b = horner_sum of_bool 2 (map (bit b) [0..<8])"
    unfolding horner_sum_bit_eq_take_bit by (rule bit_word_eqI) (simp add: bit_take_bit_iff)
  then have "b = of_bool (bit b 7) * 128 + of_bool (bit b 6) * 64 + of_bool (bit b 5) * 32 + of_bool (bit b 4) * 16
    + of_bool (bit b 3) * 8 + of_bool (bit b 2) * 4 + of_bool (bit b 1) * 2 + of_bool (bit b 0)"
    by (simp only: upt8 list.map horner8)
  moreover have "foldl (\<lambda>a j. a + ((b div (0x80 div 2 ^ j)) AND 1) * (0x80 div 2 ^ j)) 0 [0..<8]
      = foldl (\<lambda>a j. a + of_bool (bit b (7 - j)) * (0x80 div 2 ^ j)) 0 [0..<8]"
    by (rule foldl_cong) (simp_all add: div_and1)
  ultimately show ?thesis by (simp add: upt8)
qed

lemma bits_to_byte:
  assumes "j < 8" and x: "\<forall>i<8. x i = 0 \<or> x i = (1 :: uchar)"
  shows "(foldl (\<lambda>a j. a + x j * (0x80 div 2 ^ j)) 0 [0..<8] div (0x80 div 2 ^ j)) AND 1 = x j"
proof -
  have xb: "x i = of_bool (x i = 1)" if "i < 8" for i using x that by auto
  have "foldl (\<lambda>a j. a + x j * (0x80 div 2 ^ j)) 0 [0..<8]
      = horner_sum of_bool 2 (map (\<lambda>k. x (7 - k) = 1) [0..<8])"
    unfolding upt8 list.map horner8 using xb by simp
  then show ?thesis
    using assms xb[of j] by (auto simp: div_and1 bit_horner_sum_bit_iff)
qed

lemma length_compress0 [simp, lens_simps]: "length (compress0 xs) = 8"
  by (simp add: compress0_def)

lemma compress0_expand0:
  assumes "length xs = 8"
  shows "compress0 (expand0 xs) = xs"
proof -
  have "compress0 (expand0 xs) = map (\<lambda>i. xs ! i) [0..<8]"
    unfolding compress0_def
  proof (rule map_cong)
    fix i :: nat
    assume "i \<in> set [0..<8]"
    then have i: "i < 8" by simp
    have "foldl (\<lambda>a j. a + expand0 xs ! (8 * i + j) * (0x80 div 2 ^ j)) 0 [0..<8]
        = foldl (\<lambda>a j. a + ((xs ! i div (0x80 div 2 ^ j)) AND 1) * (0x80 div 2 ^ j)) 0 [0..<8]"
      by (rule foldl_cong) (simp_all add: expand0_nth i)
    then show "foldl (\<lambda>a j. a + expand0 xs ! (8 * i + j) * (0x80 div 2 ^ j)) 0 [0..<8] = xs ! i"
      by (simp only: byte_from_bits)
  qed simp
  then show ?thesis using assms by (metis map_nth)
qed

lemma expand0_compress0:
  assumes "bits 64 xs"
  shows "expand0 (compress0 xs) = xs"
proof (rule nth_equalityI)
  show "length (expand0 (compress0 xs)) = length xs"
    using assms by (simp add: bits_length[OF expand0_bits] bits_length)
next
  fix n
  assume "n < length (expand0 (compress0 xs))"
  then have n: "n < 64" by (simp add: bits_length[OF expand0_bits])
  define i j where "i = n div 8" and "j = n mod 8"
  then have ij: "i < 8" "j < 8" "n = 8 * i + j" using n by auto
  have "\<forall>j<8. xs ! (8 * i + j) = 0 \<or> xs ! (8 * i + j) = 1"
    using bits_nth[OF assms] ij(1) by auto
  from bits_to_byte[OF ij(2) this] show "expand0 (compress0 xs) ! n = xs ! n"
    using ij by (simp add: expand0_nth compress0_def)
qed

subsection \<open>The permutations undo each other\<close>

lemma ip_tables:
  "list_all (\<lambda>i. ip_inv_tab ! i - 1 < 64 \<and> ip_tab ! (ip_inv_tab ! i - 1) - 1 = i) [0..<64]"
  "list_all (\<lambda>i. ip_tab ! i - 1 < 64 \<and> ip_inv_tab ! (ip_tab ! i - 1) - 1 = i) [0..<64]"
  by code_simp+

lemma ip_inv_tab_at:
  "i < 64 \<Longrightarrow> ip_inv_tab ! i - 1 < 64" "i < 64 \<Longrightarrow> ip_tab ! (ip_inv_tab ! i - 1) - 1 = i"
  using ip_tables(1) by (auto simp: list_all_iff)

lemma ip_tab_at:
  "i < 64 \<Longrightarrow> ip_tab ! i - 1 < 64" "i < 64 \<Longrightarrow> ip_inv_tab ! (ip_tab ! i - 1) - 1 = i"
  using ip_tables(2) by (auto simp: list_all_iff)

definition half_ok :: "uchar list \<times> uchar list \<Rightarrow> bool" where
  "half_ok p \<longleftrightarrow> bits 32 (fst p) \<and> bits 32 (snd p)"

lemma half_ok_swap [simp]: "half_ok (prod.swap p) = half_ok p"
  by (auto simp: half_ok_def prod.swap_def)

lemma ip_half_ok [intro]: "half_ok (ip t)"
proof -
  have "bits (length [0..<32]) (map (\<lambda>i. expand0 t ! (ip_tab ! i - 1)) [0..<32])"
    by (rule bits_map_nth[OF expand0_bits]) (simp add: ip_tab_at del: One_nat_def)
  moreover have "bits (length [0..<32]) (map (\<lambda>i. expand0 t ! (ip_tab ! (i + 32) - 1)) [0..<32])"
    by (rule bits_map_nth[OF expand0_bits]) (simp add: ip_tab_at del: One_nat_def)
  ultimately show ?thesis by (simp add: ip_def half_ok_def Let_def)
qed

lemma ip_halves: "i < 64 \<Longrightarrow> (fst (ip t) @ snd (ip t)) ! i = expand0 t ! (ip_tab ! i - 1)"
  by (auto simp: ip_def Let_def nth_append)

lemma ip_inv_bits: "half_ok (l, r) \<Longrightarrow> bits 64 (ip_inv l r)"
proof -
  assume ok: "half_ok (l, r)"
  then have b: "bits 64 (take 32 l @ take 32 r)" by (auto simp: half_ok_def bits_def)
  have "bits (length [0..<64]) (map (\<lambda>i. (take 32 l @ take 32 r) ! (ip_inv_tab ! i - 1)) [0..<64])"
    by (rule bits_map_nth[OF b]) (simp add: ip_inv_tab_at del: One_nat_def)
  then show ?thesis by (simp add: ip_inv_def Let_def)
qed

lemma ip_inv_ip: "ip_inv (fst (ip t)) (snd (ip t)) = expand0 t"
proof (rule nth_equalityI)
  have l: "length (fst (ip t)) = 32" "length (snd (ip t)) = 32"
    using ip_half_ok[of t] by (simp_all add: half_ok_def bits_def)
  show "length (ip_inv (fst (ip t)) (snd (ip t))) = length (expand0 t)"
    by (simp add: ip_inv_def Let_def bits_length[OF expand0_bits])
  fix i
  assume "i < length (ip_inv (fst (ip t)) (snd (ip t)))"
  then have i: "i < 64" by (simp add: ip_inv_def Let_def)
  then show "ip_inv (fst (ip t)) (snd (ip t)) ! i = expand0 t ! i"
    using ip_inv_tab_at[OF i] l by (simp add: ip_inv_def Let_def ip_halves)
qed

lemma ip_ip_inv:
  assumes "half_ok (l, r)"
  shows "ip (compress0 (ip_inv l r)) = (l, r)"
proof -
  have len: "length l = 32" "length r = 32" using assms by (simp_all add: half_ok_def bits_def)
  have e: "expand0 (compress0 (ip_inv l r)) = ip_inv l r"
    by (rule expand0_compress0) (rule ip_inv_bits[OF assms])
  have nth: "ip_inv l r ! (ip_tab ! i - 1) = (l @ r) ! i" if "i < 64" for i
    using ip_tab_at[OF that] len by (simp add: ip_inv_def Let_def)
  have "map (\<lambda>i. ip_inv l r ! (ip_tab ! i - 1)) [0..<32] = l"
    by (rule nth_equalityI) (simp_all add: len nth nth_append del: One_nat_def)
  moreover have "map (\<lambda>i. ip_inv l r ! (ip_tab ! (i + 32) - 1)) [0..<32] = r"
    by (rule nth_equalityI) (simp_all add: len nth nth_append del: One_nat_def)
  ultimately show ?thesis by (simp add: ip_def e)
qed

subsection \<open>Feistel rounds\<close>

text \<open>
  What decryption needs of a round: it keeps well-formed halves well-formed, and applied to the
  swapped result it gives the swapped input.
\<close>

locale feistel =
  fixes step :: "'k \<Rightarrow> 'h \<times> 'h \<Rightarrow> 'h \<times> 'h" and ok :: "'h \<times> 'h \<Rightarrow> bool"
  assumes step_ok: "ok p \<Longrightarrow> ok (step k p)"
    and ok_swap: "ok p \<Longrightarrow> ok (prod.swap p)"
    and step_undo: "ok p \<Longrightarrow> step k (prod.swap (step k p)) = prod.swap p"
begin

lemma rounds_ok: "ok p \<Longrightarrow> ok (foldl (\<lambda>q k. step k q) p ks)"
proof (induction ks arbitrary: p)
  case Nil
  then show ?case by simp
next
  case (Cons k ks)
  from Cons.IH[OF step_ok[OF Cons.prems]] show ?case by simp
qed

lemma rounds_undo:
  "ok p \<Longrightarrow> foldl (\<lambda>q k. step k q) (prod.swap (foldl (\<lambda>q k. step k q) p ks)) (rev ks) = prod.swap p"
proof (induction ks arbitrary: p)
  case Nil
  then show ?case by simp
next
  case (Cons k ks)
  from Cons.prems have "ok (step k p)" by (rule step_ok)
  from Cons.IH[OF this] Cons.prems show ?case by (simp add: step_undo)
qed

end

lemma F_ok: "half_ok p \<Longrightarrow> half_ok (F k p)"
proof -
  assume "half_ok p"
  then have r: "bits 32 (snd p)" by (simp add: half_ok_def)
  have "bits (length [0..<32]) (map (\<lambda>i. snd p ! i) [0..<32])"
    by (rule bits_map_nth[OF r]) simp
  moreover have "bits (length [0..<32]) (map (\<lambda>i. (F_core k (snd p) ! i + fst p ! i) AND 1) [0..<32])"
    by (rule bits_map_and1)
  ultimately show ?thesis by (simp add: F_def half_ok_def Let_def split_beta)
qed

lemma add_and1_cancel:
  assumes "b = 0 \<or> b = (1 :: uchar)"
  shows "(x + ((x + b) AND 1)) AND 1 = b"
  using assms by (auto simp: and1_bit)

lemma F_undo:
  assumes "half_ok p"
  shows "F k (prod.swap (F k p)) = prod.swap p"
proof -
  obtain l r where p: "p = (l, r)" by (cases p)
  from assms p have l: "bits 32 l" and r: "bits 32 r" by (simp_all add: half_ok_def)
  have rr: "map (\<lambda>i. r ! i) [0..<32] = r" using bits_length[OF r] by (metis map_nth)
  have "map (\<lambda>i. (F_core k r ! i + ((F_core k r ! i + l ! i) AND 1)) AND 1) [0..<32] = l"
  proof (rule nth_equalityI)
    show "length (map (\<lambda>i. (F_core k r ! i + ((F_core k r ! i + l ! i) AND 1)) AND 1) [0..<32]) = length l"
      using bits_length[OF l] by simp
  next
    fix i
    assume "i < length (map (\<lambda>i. (F_core k r ! i + ((F_core k r ! i + l ! i) AND 1)) AND 1) [0..<32])"
    then have "i < 32" by simp
    with bits_nth[OF l this] show
      "map (\<lambda>i. (F_core k r ! i + ((F_core k r ! i + l ! i) AND 1)) AND 1) [0..<32] ! i = l ! i"
      by (simp add: add_and1_cancel)
  qed
  moreover have "map (\<lambda>i. (F_core k r ! i
        + map (\<lambda>j. (F_core k r ! j + l ! j) AND 1) [0..<32] ! i) AND 1) [0..<32]
      = map (\<lambda>i. (F_core k r ! i + ((F_core k r ! i + l ! i) AND 1)) AND 1) [0..<32]"
    by (rule map_cong) simp_all
  ultimately show ?thesis by (simp add: p F_def rr Let_def)
qed

interpretation des_rounds: feistel "\<lambda>k p. F k p" half_ok
  by unfold_locales (auto intro: F_ok F_undo)

subsection \<open>Decryption\<close>

lemma foldl_rows: "foldl (\<lambda>lr i. F (K ! i) lr) p ns = foldl (\<lambda>q k. F k q) p (map ((!) K) ns)"
  by (induction ns arbitrary: p) simp_all

lemma discrypt0_encrypt0:
  assumes "length blk = 8"
  shows "discrypt0 K (encrypt0 K blk) = blk"
proof -
  let ?ks = "map ((!) K) [1..<17]"
  obtain l r where lr: "foldl (\<lambda>q k. F k q) (ip blk) ?ks = (l, r)" by fastforce
  have "half_ok (l, r)" using des_rounds.rounds_ok[OF ip_half_ok, of blk ?ks] by (simp only: lr)
  then have ok: "half_ok (r, l)" by (simp add: half_ok_def)
  have enc: "encrypt0 K blk = compress0 (ip_inv r l)"
    by (simp add: encrypt0_def foldl_rows lr del: One_nat_def)
  have "foldl (\<lambda>q k. F k q) (r, l) (rev ?ks) = prod.swap (ip blk)"
    using des_rounds.rounds_undo[OF ip_half_ok, of blk ?ks] by (simp only: lr) (simp add: prod.swap_def)
  then have "foldl (\<lambda>q k. F k q) (ip (encrypt0 K blk)) (map ((!) K) (rev [1..<17]))
      = (snd (ip blk), fst (ip blk))"
    by (simp add: enc ip_ip_inv[OF ok] rev_map prod.swap_def del: One_nat_def)
  then show ?thesis
    by (simp add: discrypt0_def foldl_rows ip_inv_ip compress0_expand0 assms del: One_nat_def)
qed

lemma length_encrypt0 [simp, lens_simps]:
  "length (encrypt0 K t) = 8" "length (discrypt0 K t) = 8"
  by (simp_all add: encrypt0_def discrypt0_def split_beta)

lemma encrypt0_discrypt0:
  assumes "length blk = 8"
  shows "encrypt0 K (discrypt0 K blk) = blk"
proof -
  let ?ks = "map ((!) K) (rev [1..<17])"
  obtain l r where lr: "foldl (\<lambda>q k. F k q) (ip blk) ?ks = (l, r)" by fastforce
  have "half_ok (l, r)" using des_rounds.rounds_ok[OF ip_half_ok, of blk ?ks] by (simp only: lr)
  then have ok: "half_ok (r, l)" by (simp add: half_ok_def)
  have dec: "discrypt0 K blk = compress0 (ip_inv r l)"
    by (simp add: discrypt0_def foldl_rows lr del: One_nat_def)
  have "foldl (\<lambda>q k. F k q) (r, l) (rev ?ks) = prod.swap (ip blk)"
    using des_rounds.rounds_undo[OF ip_half_ok, of blk ?ks] by (simp only: lr) (simp add: prod.swap_def)
  then have "foldl (\<lambda>q k. F k q) (ip (discrypt0 K blk)) (map ((!) K) [1..<17])
      = (snd (ip blk), fst (ip blk))"
    by (simp add: dec ip_ip_inv[OF ok] rev_map prod.swap_def del: One_nat_def)
  then show ?thesis
    by (simp add: encrypt0_def foldl_rows ip_inv_ip compress0_expand0 assms del: One_nat_def)
qed

lemma length_DES [simp, lens_simps]: "length (DES key t) = 8" "length (DES_inv key t) = 8"
  by (simp_all add: DES_def DES_inv_def)

lemma DES_inv_DES: "length blk = 8 \<Longrightarrow> DES_inv key (DES key blk) = blk"
  by (simp add: DES_def DES_inv_def discrypt0_encrypt0)

lemma DES_DES_inv: "length blk = 8 \<Longrightarrow> DES key (DES_inv key blk) = blk"
  by (simp add: DES_def DES_inv_def encrypt0_discrypt0)

end
