(* ===== verification/Cipher.thy ===== *)
theory Cipher
  imports Des
begin

text \<open>
  The rest of \<^verbatim>\<open>DBRecord/datasafe.h\<close> (lines 343 to 821): single and double length keys,
  the hexadecimal coding of a cipher text, the randomised encryption of up to sixteen bytes and
  the routines \<open>encrypt\<close> and \<open>_encrypts\<close> that cut a longer text in pieces.

  A function that writes through an \<open>out\<close> pointer takes the bytes of that buffer and returns
  them updated. \<open>None\<close> is a fault: a read or a write outside a buffer. The source's leading
  underscore is the suffix \<open>_inv\<close>.
\<close>

definition S_LEN :: nat where "S_LEN = 8"
definition D_LEN :: nat where "D_LEN = 16"

text \<open>\<open>"@WSX$RFV"\<close>\<close>

definition DES_KEY :: "uchar list" where
  "DES_KEY = [0x40, 0x57, 0x53, 0x58, 0x24, 0x52, 0x46, 0x56]"

subsection \<open>Single and double keys\<close>

text \<open>
  The result code and the bytes written to \<open>out\<close>. In the source the later calls have \<open>out\<close> as
  input and output.
\<close>

definition sssDES :: "uchar list \<Rightarrow> int \<Rightarrow> uchar list \<Rightarrow> int \<Rightarrow> int \<times> uchar list" where
  "sssDES key key_length inp in_length =
     (if key_length = 8 then
        (if in_length = 16 then
           let out = DES key inp; out = DES_inv key out; out = DES key out;
               out2 = DES key (drop S_LEN inp); out2 = DES_inv key out2; out2 = DES key out2
           in (0, out @ out2)
         else if in_length \<noteq> 8 then (-1, [])
         else (0, DES key inp))
      else if key_length \<noteq> 16 then (-1, [])
      else if in_length = 8 then
        let out = DES key inp; out = DES_inv (drop S_LEN key) out; out = DES key out
        in (0, out)
      else if in_length \<noteq> 16 then (-1, [])
      else
        let out = DES key inp; out = DES_inv (drop S_LEN key) out; out = DES key out;
            out2 = DES key (drop S_LEN inp); out2 = DES_inv (drop S_LEN key) out2;
            out2 = DES key out2
        in (0, out @ out2))"

definition sssDES_inv :: "uchar list \<Rightarrow> int \<Rightarrow> uchar list \<Rightarrow> int \<Rightarrow> int \<times> uchar list" where
  "sssDES_inv key key_length inp in_length =
     (if key_length = 8 then
        (if in_length = 16 then
           let out = DES_inv key inp; out = DES key out; out = DES_inv key out;
               out2 = DES_inv key (drop S_LEN inp); out2 = DES key out2; out2 = DES_inv key out2
           in (0, out @ out2)
         else if in_length \<noteq> 8 then (-1, [])
         else (0, DES_inv key inp))
      else if key_length \<noteq> 16 then (-1, [])
      else if in_length = 8 then
        let out = DES_inv key inp; out = DES (drop S_LEN key) out; out = DES_inv key out
        in (0, out)
      else if in_length \<noteq> 16 then (-1, [])
      else
        let out = DES_inv key inp; out = DES (drop S_LEN key) out; out = DES_inv key out;
            out2 = DES_inv key (drop S_LEN inp); out2 = DES (drop S_LEN key) out2;
            out2 = DES_inv key out2
        in (0, out @ out2))"

subsection \<open>Key components, random bytes and key offset\<close>

definition component_para :: "uchar list" where
  "component_para =
     [0x12, 0x38, 0xab, 0x67, 0xcb, 0x91, 0x54, 0x9a,
      0x00, 0x12, 0xfb, 0x00, 0xcb, 0xfb, 0x38, 0x9a,
      0x44, 0x38, 0x12, 0x67, 0x00, 0x38, 0xfb, 0x00,
      0xfb, 0xd0, 0x38, 0x12, 0x9a, 0x2a, 0x54, 0x54,
      0xfd, 0x2a, 0x00, 0x54, 0x12, 0xcb, 0x9a, 0x9a,
      0x2a, 0xd0, 0xab, 0x00, 0x00, 0x12, 0x2a, 0x99,
      0x44, 0x99, 0xd0, 0x67, 0x91, 0x99, 0x12, 0x9b,
      0x9a, 0x44, 0x9b, 0xab, 0x00, 0x91, 0x00, 0x12] @ replicate 448 0"

definition components_key :: "nat \<Rightarrow> uchar list \<Rightarrow> nat \<Rightarrow> uchar list option" where
  "components_key component_number components key_no =
     (if component_number * D_LEN \<le> length components \<and> D_LEN + key_no \<le> 512
      then Some (map (\<lambda>i.
             foldl (\<lambda>c j. c XOR components ! (j * D_LEN + i)) 0 [0..<component_number]
             XOR component_para ! (i + key_no)) [0..<D_LEN])
      else None)"

text \<open>
  \<open>rand\<close> is the sequence the C library's generator gives after \<open>srand\<close>; \<open>n\<close> counts the calls
  so far. The result is the return code, the bytes and the new count.
\<close>

definition sss_rn_gen :: "(nat \<Rightarrow> int) \<Rightarrow> nat \<Rightarrow> int \<Rightarrow> int \<times> uchar list \<times> nat" where
  "sss_rn_gen rand n rn_length =
     (if rn_length = 8 then (0, map (\<lambda>i. word_of_int (rand (n + i) mod 256)) [0..<8], n + 8)
      else if rn_length = 16 then (0, map (\<lambda>i. word_of_int (rand (n + i) mod 256)) [0..<16], n + 16)
      else (-1, [], n))"

definition offset_key :: "uchar list \<Rightarrow> uchar list \<Rightarrow> uchar list" where
  "offset_key key counter =
     (let counter1 = take 7 counter @ take 7 counter
      in map (\<lambda>i. foldl (\<lambda>t j.
                t XOR drop_bit j (push_bit ((i * 7 + j) mod 8) (counter1 ! ((i * 7 + j) div 8)) AND 0x80))
              (key ! i) [0..<7]) [0..<D_LEN])"

subsection \<open>Hexadecimal coding\<close>

definition hex_nibble :: "uchar \<Rightarrow> uchar option" where
  "hex_nibble a =
     (if 0x30 \<le> a \<and> a \<le> 0x39 then Some (a - 0x30)
      else if 0x61 \<le> a \<and> a \<le> 0x66 then Some (a - 0x61 + 10)
      else if 0x41 \<le> a \<and> a \<le> 0x46 then Some (a - 0x41 + 10)
      else None)"

text \<open>
  \<open>asctobcd\<close>: the return code and the bytes written. An odd length makes the code write
  \<open>p[len+1]\<close>, one byte past what it allocated.
\<close>

definition asctobcd :: "uchar list \<Rightarrow> nat \<Rightarrow> (int \<times> uchar list) option" where
  "asctobcd asc len =
     (if length asc < len then None
      else case those (map hex_nibble (take len asc)) of
        None \<Rightarrow> Some (-1, [])
      | Some p \<Rightarrow>
          if odd len then None
          else Some (0, map (\<lambda>i. push_bit 4 (p ! (2 * i) AND 0x0f) OR (p ! (2 * i + 1) AND 0x0f))
                       [0..<(len + len mod 2) div 2]))"

definition ascii_nibble :: "uchar \<Rightarrow> uchar" where
  "ascii_nibble a = (if a > 0x09 then 0x41 + a - 0x0a else a + 0x30)"

text \<open>\<open>bcdtoasc\<close>: the characters it writes before the terminator.\<close>

definition bcdtoasc :: "uchar list \<Rightarrow> nat \<Rightarrow> uchar list" where
  "bcdtoasc bcd len =
     (let j = (len + len mod 2) div 2;
          asc = concat (map (\<lambda>i. [drop_bit 4 (bcd ! i) AND 0x0f, bcd ! i AND 0x0f]) [0..<j])
      in map ascii_nibble (take len asc))"

definition singleDES :: "uchar list \<Rightarrow> int \<Rightarrow> uchar list \<Rightarrow> int \<Rightarrow> uchar list \<Rightarrow> uchar list option" where
  "singleDES key key_length inp in_length out =
     (let bcdtxt = replicate 50 0
      in if key_length \<noteq> 8 \<and> key_length \<noteq> 16 then Some out
         else if in_length \<noteq> 8 \<and> in_length \<noteq> 16 then Some out
         else let bcdtxt = poke bcdtxt 0 (snd (sssDES key key_length inp in_length))
              in poke_opt out 0 (bcdtoasc bcdtxt (nat in_length * 2) @ [0]))"

text \<open>The code ignores the result of \<open>asctobcd\<close>: on failure it decrypts zeros.\<close>

definition singleDES_inv :: "uchar list \<Rightarrow> int \<Rightarrow> uchar list \<Rightarrow> int \<Rightarrow> uchar list \<Rightarrow> uchar list option" where
  "singleDES_inv key key_length inp in_length out =
     (let bcdtxt = replicate 50 0
      in if key_length \<noteq> 8 \<and> key_length \<noteq> 16 then Some out
         else if in_length \<noteq> 8 \<and> in_length \<noteq> 16 then Some out
         else do {
           (_, written) \<leftarrow> asctobcd inp (nat in_length * 2);
           let bcdtxt = poke bcdtxt 0 written;
           poke_opt out 0 (snd (sssDES_inv key key_length bcdtxt in_length))
         })"

definition IntToHex :: "int \<Rightarrow> bool \<Rightarrow> uchar" where
  "IntToHex len lowcase =
     (if len < 10 \<and> len \<ge> 0 then word_of_int (48 + len)
      else if len \<ge> 10 \<and> len < 16 then
        (if lowcase then word_of_int (90 + len) else word_of_int (55 + len))
      else 0)"

definition HexToInt :: "uchar \<Rightarrow> int" where
  "HexToInt ch =
     (let ch = sint ch
      in if ch \<le> 57 \<and> ch \<ge> 48 then ch - 48
         else if ch \<ge> 65 \<and> ch \<le> 70 then ch - 55
         else if ch \<ge> 100 \<and> ch \<le> 105 then ch - 90
         else 0)"

subsection \<open>Randomised encryption of up to sixteen bytes\<close>

text \<open>The local array \<open>intxt\<close>, zeroed, with the text and the random padding copied in.\<close>

definition randomDES_text :: "uchar list \<Rightarrow> uchar list \<Rightarrow> nat \<Rightarrow> uchar list option" where
  "randomDES_text randomTxt inp in_length =
     (let intxt = replicate 20 0
      in if in_length \<ge> 16 then do { t \<leftarrow> rd inp 0 16; Some (poke intxt 0 t) }
         else do {
           t \<leftarrow> rd inp 0 in_length;
           let intxt = poke intxt 0 t;
           if in_length < 8 then Some (poke intxt in_length (take (8 - in_length) randomTxt))
           else if in_length > 8 \<and> in_length < 16
             then Some (poke intxt in_length (take (16 - in_length) randomTxt))
           else Some intxt
         })"

text \<open>The local array \<open>randomKey\<close>: random bytes 5 to 7, the length, the end of the key.\<close>

definition randomDES_key :: "uchar list \<Rightarrow> int \<Rightarrow> uchar list \<Rightarrow> uchar list" where
  "randomDES_key randomTxt inlen k4 =
     take 3 (drop 5 randomTxt) @ [IntToHex inlen False] @ k4 @ replicate 2 0"

definition randomDES :: "(nat \<Rightarrow> int) \<Rightarrow> nat \<Rightarrow> uchar list \<Rightarrow> uchar list \<Rightarrow> int \<Rightarrow> uchar list
    \<Rightarrow> (uchar list \<times> nat) option" where
  "randomDES rand n key inp in_length out =
     (let randomTxt = replicate 60 0
      in if in_length = 0 then Some (out, n)
         else do {
           let (_, rn, n) = sss_rn_gen rand n 8;
           let randomTxt = poke randomTxt 0 rn;
           guard (0 \<le> in_length);
           let inlen = (if in_length \<ge> 16 then 0 else in_length);
           intxt \<leftarrow> randomDES_text randomTxt inp (nat in_length);
           k4 \<leftarrow> rd key 4 4;
           let randomKey = randomDES_key randomTxt inlen k4;
           s \<leftarrow> cstr intxt;
           randombcdtxt \<leftarrow> singleDES randomKey 8 intxt (int (length s)) (replicate 60 0);
           let randomTxt = poke (poke (replicate 60 0) 0 (take 4 randomKey)) 4 (take 4 randombcdtxt);
           out \<leftarrow> singleDES key 8 randomTxt 8 out;
           t \<leftarrow> cstr (drop 4 randombcdtxt);
           out \<leftarrow> strcat_buf out t;
           Some (out, n)
         })"

definition randomDES_inv :: "uchar list \<Rightarrow> uchar list \<Rightarrow> int \<Rightarrow> uchar list \<Rightarrow> uchar list option" where
  "randomDES_inv key inp in_length out =
     (if in_length \<noteq> 28 \<and> in_length \<noteq> 44 then Some out
      else do {
        t \<leftarrow> rd inp 0 16;
        let randomTxt = poke (replicate 60 0) 0 t;
        randombcdtxt \<leftarrow> singleDES_inv key 8 randomTxt 8 (replicate 60 0);
        k4 \<leftarrow> rd key 4 4;
        let randomKey = take 4 randombcdtxt @ k4 @ replicate 2 0;
        let randomTxt = poke (replicate 60 0) 0 (take 4 (drop 4 randombcdtxt));
        rest \<leftarrow> cstr (drop 16 inp);
        randomTxt \<leftarrow> strcat_buf randomTxt rest;
        s \<leftarrow> cstr randomTxt;
        randombcdtxt \<leftarrow> singleDES_inv randomKey 8 randomTxt (int (length s) div 2) (replicate 60 0);
        let lenkey = HexToInt (randomKey ! 3);
        (if lenkey > 0 then do {
           let randomTxt = poke (replicate 60 0) 0 (take (nat lenkey) randombcdtxt);
           r \<leftarrow> cstr randomTxt;
           strcpy_buf out r
         } else do {
           r \<leftarrow> cstr randombcdtxt;
           strcpy_buf out r
         })
      })"

subsection \<open>Longer texts\<close>

text \<open>
  One turn of the loops of \<open>encrypt\<close> and \<open>_encrypts\<close>: \<open>len\<close> bytes from offset \<open>off\<close> go
  through the zeroed local arrays \<open>sour\<close> and \<open>dest\<close>.
\<close>

definition encrypt_turn :: "(nat \<Rightarrow> int) \<Rightarrow> uchar list \<Rightarrow> nat \<Rightarrow> nat \<Rightarrow> uchar list \<times> nat
    \<Rightarrow> (uchar list \<times> nat) option" where
  "encrypt_turn rand inp off len st =
     (case st of (out, n) \<Rightarrow> do {
        t \<leftarrow> rd inp off len;
        let sour = poke (replicate 45 0) 0 t;
        s \<leftarrow> cstr sour;
        (dest, n) \<leftarrow> randomDES rand n DES_KEY sour (int (length s)) (replicate 45 0);
        d \<leftarrow> cstr dest;
        out \<leftarrow> strcat_buf out d;
        Some (out, n)
      })"

fun encrypt_loop :: "(nat \<Rightarrow> int) \<Rightarrow> uchar list \<Rightarrow> nat \<Rightarrow> nat \<Rightarrow> uchar list \<times> nat
    \<Rightarrow> (uchar list \<times> nat) option" where
  "encrypt_loop rand inp i 0 st = Some st"
| "encrypt_loop rand inp i (Suc k) st =
     do { st \<leftarrow> encrypt_turn rand inp (i * 16) 16 st; encrypt_loop rand inp (i + 1) k st }"

definition encrypt :: "(nat \<Rightarrow> int) \<Rightarrow> nat \<Rightarrow> uchar list \<Rightarrow> int \<Rightarrow> uchar list
    \<Rightarrow> (uchar list \<times> nat) option" where
  "encrypt rand n inp in_length out =
     (if in_length < 16 then randomDES rand n DES_KEY inp in_length out
      else let t_len = nat in_length; r_len = t_len mod 16; num = t_len div 16
           in do {
             st \<leftarrow> encrypt_loop rand inp 0 num (out, n);
             if r_len > 0 then encrypt_turn rand inp (num * 16) r_len st else Some st
           })"

definition encrypts_inv_turn :: "uchar list \<Rightarrow> nat \<Rightarrow> nat \<Rightarrow> uchar list \<Rightarrow> uchar list option" where
  "encrypts_inv_turn inp off len out =
     do {
       t \<leftarrow> rd inp off len;
       let sour = poke (replicate 45 0) 0 t;
       s \<leftarrow> cstr sour;
       dest \<leftarrow> randomDES_inv DES_KEY sour (int (length s)) (replicate 45 0);
       d \<leftarrow> cstr dest;
       strcat_buf out d
     }"

fun encrypts_inv_loop :: "uchar list \<Rightarrow> nat \<Rightarrow> nat \<Rightarrow> uchar list \<Rightarrow> uchar list option" where
  "encrypts_inv_loop inp i 0 out = Some out"
| "encrypts_inv_loop inp i (Suc k) out =
     do { out \<leftarrow> encrypts_inv_turn inp (i * 44) 44 out; encrypts_inv_loop inp (i + 1) k out }"

definition encrypts_inv :: "uchar list \<Rightarrow> int \<Rightarrow> uchar list \<Rightarrow> uchar list option" where
  "encrypts_inv inp in_length out =
     (if in_length < 44 then randomDES_inv DES_KEY inp in_length out
      else let t_len = nat in_length; r_len = t_len mod 44; num = t_len div 44
           in do {
             out \<leftarrow> encrypts_inv_loop inp 0 num out;
             if r_len > 0 then encrypts_inv_turn inp (num * 44) r_len out else Some out
           })"

subsection \<open>The block cipher as an interface\<close>

text \<open>What triple encryption and the routines above it need of the block cipher.\<close>

locale block_cipher =
  fixes E D :: "'k \<Rightarrow> uchar list \<Rightarrow> uchar list" and size :: nat
  assumes len_E: "length (E k t) = size" and len_D: "length (D k t) = size"
    and D_E: "length t = size \<Longrightarrow> D k (E k t) = t"
    and E_D: "length t = size \<Longrightarrow> E k (D k t) = t"
    and E_prefix: "length t = size \<Longrightarrow> E k (t @ r) = E k t"
    and D_prefix: "length t = size \<Longrightarrow> D k (t @ r) = D k t"
begin

lemma triple_inv: "length t = size \<Longrightarrow> D k (E k' (D k (E k (D k' (E k t))))) = t"
  by (simp add: D_E E_D len_E len_D)

lemma E_inj: "length t = size \<Longrightarrow> length u = size \<Longrightarrow> E k t = E k u \<longleftrightarrow> t = u"
  by (metis D_E)

lemma E_take: "size \<le> length t \<Longrightarrow> E k t = E k (take size t)"
  by (metis E_prefix append_take_drop_id length_take min.absorb2)

lemma triple_inv_take:
  assumes "size \<le> length t"
  shows "D k (E k' (D k (E k (D k' (E k t))))) = take size t"
    and "D k (E k' (D k (E k (D k' (E k t)) @ r))) = take size t"
  using assms triple_inv[of "take size t" k k'] E_take[of t k] by (simp_all add: D_prefix len_E)

lemma single_inv_take: "size \<le> length t \<Longrightarrow> D k (E k t) = take size t"
    "size \<le> length t \<Longrightarrow> D k (E k t @ r) = take size t"
  using D_E[of "take size t" k] E_take[of t k] by (simp_all add: D_prefix len_E)

end

lemma expand0_append: "8 \<le> length t \<Longrightarrow> expand0 (t @ r) = expand0 t"
  unfolding expand0_def by (rule arg_cong[where f = concat]) (simp add: nth_append)

lemma DES_append: "8 \<le> length t \<Longrightarrow> DES k (t @ r) = DES k t" "8 \<le> length t \<Longrightarrow> DES_inv k (t @ r) = DES_inv k t"
  by (simp_all add: DES_def DES_inv_def encrypt0_def discrypt0_def ip_def expand0_append)

interpretation des: block_cipher DES DES_inv S_LEN
  by unfold_locales (simp_all add: S_LEN_def DES_inv_DES DES_DES_inv DES_append)

text \<open>Only the first eight bytes of a key are used.\<close>

lemma DES_key_append: "8 \<le> length k \<Longrightarrow> DES (k @ r) t = DES k t" "8 \<le> length k \<Longrightarrow> DES_inv (k @ r) t = DES_inv k t"
  by (simp_all add: DES_def DES_inv_def expand0_append)

definition good_len :: "int \<Rightarrow> bool" where
  "good_len n \<longleftrightarrow> n = 8 \<or> n = 16"

lemma good_len_cases: "good_len n \<Longrightarrow> (n = 8 \<Longrightarrow> P) \<Longrightarrow> (n = 16 \<Longrightarrow> P) \<Longrightarrow> P"
  by (auto simp: good_len_def)

lemma sssDES_length [lens_simps]:
  "good_len kl \<Longrightarrow> good_len il \<Longrightarrow> length (snd (sssDES key kl inp il)) = nat il"
  by (auto simp: good_len_def sssDES_def Let_def)

lemma sssDES_inv_length [lens_simps]:
  "good_len kl \<Longrightarrow> good_len il \<Longrightarrow> length (snd (sssDES_inv key kl inp il)) = nat il"
  by (auto simp: good_len_def sssDES_inv_def Let_def)

lemma sssDES_inv_sssDES:
  assumes "good_len kl" and "good_len il" and "nat il \<le> length inp"
  shows "snd (sssDES_inv key kl (snd (sssDES key kl inp il) @ r) il) = take (nat il) inp"
proof -
  have dd: "take 8 (drop 8 inp) = drop 8 (take 16 inp)" by (simp add: drop_take)
  have tk: "take 8 inp @ drop 8 (take 16 inp) = take 16 inp"
    by (metis append_take_drop_id min.absorb1 numeral_le_iff semiring_norm(68) semiring_norm(71) take_take)
  note inv = des.triple_inv_take[unfolded S_LEN_def] des.single_inv_take[unfolded S_LEN_def]
  from assms show ?thesis
    by (auto simp: good_len_def sssDES_def sssDES_inv_def Let_def S_LEN_def inv dd tk DES_DES_inv)
qed

lemma sssDES_bad: "\<not> (good_len kl \<and> good_len il) \<Longrightarrow> sssDES key kl inp il = (-1, [])"
  by (auto simp: sssDES_def good_len_def)

subsection \<open>Hexadecimal coding\<close>

lemma nibble_mask: "(0x0f :: uchar) = mask 4"
  by (simp add: mask_eq_exp_minus_1)

lemma hex_ascii_table:
  "list_all (\<lambda>k. hex_nibble (ascii_nibble (word_of_nat k)) = Some (word_of_nat k)) [0..<16]"
  by (simp add: upt_rec hex_nibble_def ascii_nibble_def)

lemma hex_ascii: "hex_nibble (ascii_nibble (b AND 0x0f)) = Some (b AND 0x0f)"
proof -
  define k where "k = unat (b AND 0x0f)"
  have "b AND 0x0f \<le> 0x0f" by (rule word_and_le1)
  then have "k < 16" by (simp add: k_def word_le_nat_alt)
  with hex_ascii_table have "hex_nibble (ascii_nibble (word_of_nat k)) = Some (word_of_nat k)"
    by (simp add: list_all_iff)
  then show ?thesis by (simp add: k_def)
qed

lemma nibbles_join:
  "push_bit 4 ((drop_bit 4 b AND 0x0f) AND 0x0f) OR ((b AND 0x0f) AND 0x0f) = (b :: uchar)"
  unfolding nibble_mask by (rule bit_word_eqI) (auto simp: bit_simps)

lemma ascii_nonzero: "ascii_nibble (b AND 0x0f) \<noteq> 0"
  using hex_ascii[of b] by (auto simp: hex_nibble_def)

definition nibbles :: "uchar list \<Rightarrow> uchar list" where
  "nibbles bs = concat (map (\<lambda>b. [drop_bit 4 b AND 0x0f, b AND 0x0f]) bs)"

lemma nibbles_simps [simp]: "nibbles [] = []"
  "nibbles (b # bs) = (drop_bit 4 b AND 0x0f) # (b AND 0x0f) # nibbles bs"
  "length (nibbles bs) = 2 * length bs"
  by (simp_all add: nibbles_def) (induction bs; simp)

lemma nibbles_nth: "i < length bs \<Longrightarrow>
    nibbles bs ! (2 * i) = drop_bit 4 (bs ! i) AND 0x0f \<and> nibbles bs ! (2 * i + 1) = bs ! i AND 0x0f"
proof (induction bs arbitrary: i)
  case (Cons b bs)
  then show ?case by (cases i) auto
qed simp

lemma bcdtoasc_even:
  assumes "n \<le> length b"
  shows "bcdtoasc b (2 * n) = map ascii_nibble (nibbles (take n b))"
proof -
  have "map (\<lambda>i. [drop_bit 4 (b ! i) AND 0x0f, b ! i AND 0x0f]) [0..<n]
      = map (\<lambda>b. [drop_bit 4 b AND 0x0f, b AND 0x0f]) (take n b)"
    using assms by (intro nth_equalityI) auto
  then have "concat (map (\<lambda>i. [drop_bit 4 (b ! i) AND 0x0f, b ! i AND 0x0f]) [0..<n]) = nibbles (take n b)"
    by (simp add: nibbles_def)
  with assms show ?thesis by (simp add: bcdtoasc_def Let_def)
qed

lemma bcdtoasc_nonzero: "n \<le> length b \<Longrightarrow> 0 \<notin> set (bcdtoasc b (2 * n))"
  by (auto simp: bcdtoasc_even nibbles_def ascii_nonzero dest: sym)

lemma length_bcdtoasc [lens_simps]: "n \<le> length b \<Longrightarrow> length (bcdtoasc b (2 * n)) = 2 * n"
  by (simp add: bcdtoasc_even)

lemma hex_nibbles: "those (map hex_nibble (map ascii_nibble (nibbles bs))) = Some (nibbles bs)"
  by (induction bs) (simp_all add: hex_ascii)

lemma nibbles_at:
  assumes "i < length bs"
  shows "push_bit 4 (nibbles bs ! (2 * i) AND 0x0f) OR (nibbles bs ! (2 * i + 1) AND 0x0f) = bs ! i"
  by (simp only: nibbles_nth[OF assms, THEN conjunct1] nibbles_nth[OF assms, THEN conjunct2] nibbles_join)

text \<open>The hexadecimal text of some bytes, as both directions of the code have it.\<close>

definition hexenc :: "uchar list \<Rightarrow> uchar list" where
  "hexenc bs = map ascii_nibble (nibbles bs)"

lemma length_hexenc [simp, lens_simps]: "length (hexenc bs) = 2 * length bs"
  by (simp add: hexenc_def)

lemma hexenc_nonzero [simp]: "0 \<notin> set (hexenc bs)"
  by (auto simp: hexenc_def nibbles_def ascii_nonzero dest: sym)

lemma bcdtoasc_hexenc: "n \<le> length b \<Longrightarrow> bcdtoasc b (2 * n) = hexenc (take n b)"
  by (simp add: bcdtoasc_even hexenc_def)

lemma asctobcd_hexenc: "asctobcd (hexenc bs @ r) (2 * length bs) = Some (0, bs)"
proof -
  have "map (\<lambda>i. push_bit 4 (nibbles bs ! (2 * i) AND 0x0f) OR (nibbles bs ! (2 * i + 1) AND 0x0f)) [0..<length bs] = bs"
    by (rule nth_equalityI) (simp_all only: nibbles_at length_map length_upt nth_map_upt, simp_all)
  moreover have "take (2 * length bs) (hexenc bs @ r) = map ascii_nibble (nibbles bs)"
    by (simp add: hexenc_def)
  ultimately show ?thesis
    by (simp add: asctobcd_def hex_nibbles[simplified])
qed

text \<open>A coding and its inverse, and what follows for sequences of blocks.\<close>

locale codec =
  fixes enc :: "'a \<Rightarrow> 'b" and dec :: "'b \<Rightarrow> 'a option" and ok :: "'a \<Rightarrow> bool"
  assumes dec_enc: "ok x \<Longrightarrow> dec (enc x) = Some x"
begin

lemma enc_inj: "ok x \<Longrightarrow> ok y \<Longrightarrow> enc x = enc y \<longleftrightarrow> x = y"
  by (metis dec_enc option.inject)

lemma decs_encs: "(\<forall>x\<in>set xs. ok x) \<Longrightarrow> those (map dec (map enc xs)) = Some xs"
  by (induction xs) (simp_all add: dec_enc)

end

interpretation hex: codec hexenc "\<lambda>c. map_option snd (asctobcd c (length c))" "\<lambda>bs. True"
  using asctobcd_hexenc[where r = "[]"] by unfold_locales simp

subsection \<open>\<open>singleDES\<close>\<close>

lemma poke_zeros [simp]:
  "length xs \<le> m \<Longrightarrow> poke (replicate m 0) 0 xs = xs @ replicate (m - length xs) 0"
  by (simp add: poke_def)

lemma sssDES_append:
  "good_len kl \<Longrightarrow> good_len il \<Longrightarrow> nat il \<le> length t \<Longrightarrow> sssDES key kl (t @ r) il = sssDES key kl t il"
  by (auto simp: good_len_def sssDES_def Let_def S_LEN_def DES_append)

lemma good_len_le: "good_len n \<Longrightarrow> nat n \<le> 16"
  by (auto simp: good_len_def)

lemma singleDES_eval:
  assumes "good_len kl" and "good_len il" and "2 * nat il < length out"
  shows "singleDES key kl inp il out = Some (poke out 0 (hexenc (snd (sssDES key kl inp il)) @ [0]))"
proof -
  have "length (snd (sssDES key kl inp il)) = nat il" using assms(1,2) by (rule sssDES_length)
  then show ?thesis
    using assms good_len_le[OF assms(2)]
    by (auto simp: singleDES_def good_len_def Let_def bcdtoasc_hexenc[where n = 8, simplified]
        bcdtoasc_hexenc[where n = 16, simplified])
qed

lemma singleDES_inv_eval:
  assumes "good_len kl" and "good_len il" and "nat il \<le> length out"
    and "t = take (nat il) inp" and "nat il \<le> length inp"
  shows "singleDES_inv key kl (hexenc (snd (sssDES key kl inp il)) @ r) il out = Some (poke out 0 t)"
proof -
  let ?c = "snd (sssDES key kl inp il)"
  have len: "length ?c = nat il" using assms(1,2) by (rule sssDES_length)
  then have "asctobcd (hexenc ?c @ r) (nat il * 2) = Some (0, ?c)"
    using asctobcd_hexenc[of ?c r] by (simp add: mult.commute)
  moreover have "snd (sssDES_inv key kl (poke (replicate 50 0) 0 ?c) il) = t"
    using sssDES_inv_sssDES[OF assms(1,2,5)] good_len_le[OF assms(2)] len assms(4) by simp
  ultimately show ?thesis
    using assms(1-3,5) assms(4)
    by (auto simp: singleDES_inv_def good_len_def Let_def)
qed

text \<open>Any other length leaves the output alone, in both directions.\<close>

lemma singleDES_bad:
  "\<not> (good_len kl \<and> good_len il) \<Longrightarrow> singleDES key kl inp il out = Some out"
  "\<not> (good_len kl \<and> good_len il) \<Longrightarrow> singleDES_inv key kl inp il out = Some out"
  by (auto simp: singleDES_def singleDES_inv_def good_len_def)

subsection \<open>What \<open>randomDES\<close> computes\<close>

definition pad_len :: "nat \<Rightarrow> nat" where
  "pad_len L = (if L \<le> 8 then 8 else 16)"

definition session_key :: "uchar list \<Rightarrow> uchar list \<Rightarrow> nat \<Rightarrow> uchar list" where
  "session_key key rn L =
     take 3 (drop 5 rn) @ [IntToHex (if L \<ge> 16 then 0 else int L) False] @ take 4 (drop 4 key) @ [0, 0]"

definition random_body :: "uchar list \<Rightarrow> uchar list \<Rightarrow> uchar list \<Rightarrow> uchar list" where
  "random_body key rn s =
     hexenc (snd (sssDES (session_key key rn (length s)) 8 (s @ take (pad_len (length s) - length s) rn)
       (int (pad_len (length s)))))"

text \<open>
  The cipher text of a string of 1 to 16 bytes under the eight random bytes \<open>rn\<close>: the session
  key and the head of the body under \<open>key\<close>, then the rest of the body.
\<close>

definition random_cipher :: "uchar list \<Rightarrow> uchar list \<Rightarrow> uchar list \<Rightarrow> uchar list" where
  "random_cipher key rn s =
     hexenc (snd (sssDES key 8 (take 4 (session_key key rn (length s)) @ take 4 (random_body key rn s)) 8))
     @ drop 4 (random_body key rn s)"

lemma pad_len_good [simp]: "good_len (int (pad_len L))"
  by (simp add: pad_len_def good_len_def)

lemma pad_len_bounds: "L \<le> 16 \<Longrightarrow> L \<le> pad_len L" "pad_len L \<le> 16" "8 \<le> pad_len L"
    "0 < L \<Longrightarrow> pad_len L - L \<le> 7"
  by (auto simp: pad_len_def)

lemma IntToHex_HexToInt: "0 \<le> n \<Longrightarrow> n < 16 \<Longrightarrow> HexToInt (IntToHex n low) = n"
proof -
  have t: "list_all (\<lambda>k. HexToInt (IntToHex (int k) True) = int k \<and> HexToInt (IntToHex (int k) False) = int k) [0..<16]"
    by (simp add: upt_rec HexToInt_def IntToHex_def)
  assume n: "0 \<le> n" "n < 16"
  then have "nat n < 16" and e: "int (nat n) = n" by simp_all
  with t have "HexToInt (IntToHex (int (nat n)) True) = int (nat n) \<and> HexToInt (IntToHex (int (nat n)) False) = int (nat n)"
    unfolding list_all_iff by fastforce
  then show ?thesis unfolding e by (cases low) simp_all
qed

lemma good_len_8 [simp]: "good_len 8"
  by (simp add: good_len_def)

lemma length_random_body [simp]: "length (random_body key rn s) = 2 * pad_len (length s)"
  by (simp add: random_body_def sssDES_length)

lemma random_body_nonzero [simp]: "0 \<notin> set (random_body key rn s)"
  by (simp add: random_body_def)

lemma length_random_cipher [lens_simps]:
  "length (random_cipher key rn s) = (if length s \<le> 8 then 28 else 44)"
  by (simp add: random_cipher_def sssDES_length pad_len_def)

lemma random_cipher_nonzero [simp]: "0 \<notin> set (random_cipher key rn s)"
  by (auto simp: random_cipher_def dest: in_set_dropD)

definition rand_bytes :: "(nat \<Rightarrow> int) \<Rightarrow> nat \<Rightarrow> uchar list" where
  "rand_bytes rand n = map (\<lambda>i. word_of_int (rand (n + i) mod 256)) [0..<8]"

lemma sss_rn_gen_8: "sss_rn_gen rand n 8 = (0, rand_bytes rand n, n + 8)" "length (rand_bytes rand n) = 8"
  by (simp_all add: sss_rn_gen_def rand_bytes_def)

lemma poke_after: "length s \<le> m \<Longrightarrow> length s + length xs \<le> m \<Longrightarrow>
    poke (s @ replicate (m - length s) 0) (length s) xs = s @ xs @ replicate (m - length s - length xs) 0"
  by (simp add: poke_def)

lemma randomDES_text_eval:
  assumes "0 < length s" and "length s \<le> 16" and "length rn = 8"
  shows "randomDES_text (rn @ z) (s @ r) (length s)
    = Some (s @ take (pad_len (length s) - length s) rn @ replicate (20 - pad_len (length s)) 0)"
proof -
  consider "length s = 16" | "8 < length s" "length s < 16" | "length s = 8" | "length s < 8"
    using assms(2) by linarith
  then show ?thesis
    by cases (use assms poke_after[of s 20] in \<open>simp_all add: randomDES_text_def pad_len_def Let_def rd_def\<close>)
qed

lemma singleDES_append:
  "good_len kl \<Longrightarrow> good_len il \<Longrightarrow> nat il \<le> length t \<Longrightarrow>
   singleDES key kl (t @ r) il out = singleDES key kl t il out"
  unfolding singleDES_def by (simp only: sssDES_append)

lemma randomDES_eval:
  assumes s: "0 < length s" "length s \<le> 16" "0 \<notin> set s"
    and pad: "0 \<notin> set (take (pad_len (length s) - length s) (rand_bytes rand n))"
    and key: "8 \<le> length key" and room: "length (random_cipher key (rand_bytes rand n) s) < length out"
  shows "\<exists>out'. randomDES rand n key (s @ r) (int (length s)) out = Some (out', n + 8)
    \<and> cstr out' = Some (random_cipher key (rand_bytes rand n) s) \<and> length out' = length out"
proof -
  define rn where "rn = rand_bytes rand n"
  define L where "L = length s"
  define t where "t = s @ take (pad_len L - L) rn"
  have rn: "length rn = 8" by (simp add: rn_def sss_rn_gen_8)
  have L: "0 < L" "L \<le> 16" using s by (simp_all add: L_def)
  have lt: "length t = pad_len L" "0 \<notin> set t"
    using pad_len_bounds[of L] L rn pad s(3) by (auto simp: t_def rn_def L_def)
  have intxt: "randomDES_text (rn @ z) (s @ r) L = Some (t @ replicate (20 - pad_len L) 0)" for z
    using randomDES_text_eval[OF s(1,2) rn] by (simp add: t_def L_def)
  have str: "cstr (t @ replicate (20 - pad_len L) 0) = Some t"
    using cstr_zeros[OF lt(2)] pad_len_bounds(2)[of L] by simp
  define inl where "inl = (if 16 \<le> L then 0 else int L)"
  have sk: "randomDES_key (rn @ z) inl (take 4 (drop 4 key)) = session_key key rn L" for z
    using rn by (simp add: session_key_def randomDES_key_def inl_def numeral_2_eq_2)
  have rb: "random_body key rn s = hexenc (snd (sssDES (session_key key rn L) 8 t (int (pad_len L))))"
    by (simp add: random_body_def t_def L_def)
  have body: "singleDES (session_key key rn L) 8 (t @ z) (int (pad_len L)) (replicate 60 0)
      = Some (random_body key rn s @ replicate (60 - 2 * pad_len L) 0)" for z
  proof -
    have "singleDES (session_key key rn L) 8 (t @ z) (int (pad_len L)) (replicate 60 0)
        = Some (poke (replicate 60 0) 0 (random_body key rn s @ [0]))"
      using lt(1) pad_len_bounds(2)[of L] rb by (simp add: singleDES_eval sssDES_append)
    also have "poke (replicate 60 0) 0 (random_body key rn s @ [0])
        = random_body key rn s @ replicate (Suc (59 - 2 * pad_len L)) 0"
      using pad_len_bounds(2)[of L] by (simp add: L_def)
    also have "Suc (59 - 2 * pad_len L) = 60 - 2 * pad_len L"
      using pad_len_bounds(2)[of L] by linarith
    finally show ?thesis .
  qed
  let ?hd = "hexenc (snd (sssDES key 8 (take 4 (session_key key rn L) @ take 4 (random_body key rn s)) 8))"
  have lsk: "length (session_key key rn L) = 10" using rn key by (simp add: session_key_def)
  have lb: "length (random_body key rn s) = 2 * pad_len L" by (simp add: L_def)
  have cat: "random_cipher key rn s = ?hd @ drop 4 (random_body key rn s)" by (simp add: random_cipher_def L_def)
  have lh: "length ?hd = 16" by (simp add: sssDES_length)
  have first: "poke (poke (replicate 60 0) 0 (take 4 (session_key key rn L))) 4
        (take 4 (random_body key rn s @ replicate (60 - 2 * pad_len L) 0))
      = (take 4 (session_key key rn L) @ take 4 (random_body key rn s)) @ replicate 52 0"
    using lsk lb pad_len_bounds(3)[of L] by (simp add: poke_def)
  have head: "singleDES key 8 ((take 4 (session_key key rn L) @ take 4 (random_body key rn s)) @ z) 8 out
      = Some (poke out 0 (?hd @ [0]))" for z
    using room lh cat lsk lb pad_len_bounds(3)[of L]
    by (simp only: rn_def[symmetric]) (subst singleDES_append, simp_all add: singleDES_eval)
  have nz: "0 \<notin> set (drop 4 (random_body key rn s))"
    using random_body_nonzero in_set_dropD by metis
  have tail: "cstr (drop 4 (random_body key rn s @ replicate (60 - 2 * pad_len L) 0)) = Some (drop 4 (random_body key rn s))"
    using cstr_zeros[OF nz] lb pad_len_bounds(2,3)[of L] by simp
  have lo: "16 < length out" using room cat lh by (simp add: rn_def)
  have "cstr (poke out 0 (?hd @ [0])) = Some ?hd"
    using cstr_prefix[of ?hd] by (simp add: poke_def)
  from strcat_cstr[OF this nz] obtain out' where
    out': "strcat_buf (poke out 0 (?hd @ [0])) (drop 4 (random_body key rn s)) = Some out'"
      "cstr out' = Some (random_cipher key rn s)" "length out' = length out"
    using room[folded rn_def] lh lo unfolding cat by fastforce
  define B where "B = random_body key rn s @ replicate (60 - 2 * pad_len L) 0"
  have "randomDES rand n key (s @ r) (int L) out = Some (out', n + 8)"
    using L(1) key
    by (simp del: poke_zeros add: randomDES_def poke_zeros[of rn 60] Let_def sss_rn_gen_8 rn intxt str sk lt(1) rn_def[symmetric] inl_def[symmetric]
        body[folded B_def] first[folded B_def] head[simplified] tail[folded B_def] out' rd_def)
  with out' show ?thesis by (simp add: rn_def L_def)
qed

subsection \<open>\<open>_randomDES\<close> undoes it\<close>

lemma session_key_parts:
  assumes "length rn = 8" and "8 \<le> length key"
  shows "length (session_key key rn L) = 10"
    and "take 4 (session_key key rn L) @ take 4 (drop 4 key) @ replicate 2 0 = session_key key rn L"
    and "L \<le> 16 \<Longrightarrow> HexToInt (session_key key rn L ! 3) = (if L = 16 then 0 else int L)"
proof -
  have "take 4 (take 3 (drop 5 rn) @ x # xs) = take 3 (drop 5 rn) @ [x]" for x and xs :: "uchar list"
    using assms by simp
  then show "take 4 (session_key key rn L) @ take 4 (drop 4 key) @ replicate 2 0 = session_key key rn L"
    using assms(1) by (simp add: session_key_def numeral_2_eq_2)
  have "session_key key rn L ! 3 = IntToHex (if L \<ge> 16 then 0 else int L) False"
    using assms(1) by (simp add: session_key_def nth_append)
  then show "L \<le> 16 \<Longrightarrow> HexToInt (session_key key rn L ! 3) = (if L = 16 then 0 else int L)"
    by (simp add: IntToHex_HexToInt)
qed (use assms in \<open>simp add: session_key_def\<close>)

lemma singleDES_inv_zeros:
  assumes "good_len il" and "length t = nat il"
  shows "singleDES_inv key 8 (hexenc (snd (sssDES key 8 t il)) @ r) il (replicate 60 0)
    = Some (t @ replicate (60 - nat il) 0)"
  using singleDES_inv_eval[of 8 il "replicate 60 0" t t key r] assms good_len_le[OF assms(1)] by simp

lemma randomDES_inv_eval:
  assumes s: "0 < length s" "length s \<le> 16" "0 \<notin> set s"
    and rn: "length rn = 8" and key: "8 \<le> length key" and room: "length s < length out"
  shows "\<exists>out'. randomDES_inv key (random_cipher key rn s @ 0 # r) (int (length (random_cipher key rn s))) out = Some out'
    \<and> cstr out' = Some s \<and> length out' = length out"
proof -
  define L pl sk body where "L = length s" and "pl = pad_len L" and "sk = session_key key rn L"
    and "body = random_body key rn s"
  define hb t where "hb = take 4 sk @ take 4 body" and "t = s @ take (pl - L) rn"
  note pl = pad_len_bounds[of L, folded pl_def]
  have L: "0 < L" "L \<le> 16" using s by (simp_all add: L_def)
  have lb: "length body = 2 * pl" by (simp add: body_def pl_def L_def)
  have lt: "length t = pl" using pl(1) L pl(4) rn by (simp add: t_def L_def)
  note sk = session_key_parts[OF rn key, of L, folded sk_def]
  have lhb: "length hb = 8" using sk(1) lb pl(3) by (simp add: hb_def)
  have body: "body = hexenc (snd (sssDES sk 8 t (int pl)))"
    by (simp add: body_def random_body_def sk_def t_def L_def pl_def)
  define hd where "hd = hexenc (snd (sssDES key 8 hb 8))"
  have lhd: "length hd = 16" by (simp add: hd_def sssDES_length)
  have c: "random_cipher key rn s = hd @ drop 4 body"
    by (simp add: random_cipher_def hd_def hb_def sk_def body_def L_def)
  have lc: "int (length (random_cipher key rn s)) \<in> {28, 44}" by (simp add: length_random_cipher)
  have i1: "singleDES_inv key 8 (hd @ replicate 44 0) 8 (replicate 60 0) = Some (hb @ replicate 52 0)"
    using singleDES_inv_zeros[of 8 hb key "replicate 44 0"] lhb by (simp add: hd_def)
  have nzb: "0 \<notin> set body" "0 \<notin> set (drop 4 body)"
    using random_body_nonzero in_set_dropD unfolding body_def by metis+
  have cat: "strcat_buf (take 4 body @ replicate 56 0) (drop 4 body) = Some (body @ 0 # replicate (59 - 2 * pl) 0)"
  proof -
    have tdx: "take 4 body @ drop 4 body @ x = body @ x" for x by (simp flip: append_assoc)
    have "cstr (take 4 body @ replicate 56 0) = Some (take 4 body)"
      by (rule cstr_zeros) (use nzb(1) in_set_takeD in \<open>metis\<close>, simp)
    moreover have "poke (take 4 body @ replicate 56 0) 4 (drop 4 body @ [0]) = body @ 0 # replicate (59 - 2 * pl) 0"
      using lb pl(3) tdx by (simp add: poke_def)
    ultimately show ?thesis using lb pl(2,3) by (simp add: strcat_buf_def)
  qed
  have i2: "singleDES_inv sk 8 (body @ z) (int pl) (replicate 60 0) = Some (t @ replicate (60 - pl) 0)" for z
    using singleDES_inv_zeros[of "int pl" t sk z] lt by (simp add: body pl_def)
  have zs: "(0 \<notin> set s) \<Longrightarrow> cstr (s @ replicate (60 - L) 0) = Some s" using L by simp
  obtain out' where out': "strcpy_buf out s = Some out'" "cstr out' = Some s" "length out' = length out"
    using strcpy_cstr[OF s(3) room] by blast
  have parts: "take 4 hb = take 4 sk" "drop 4 hb = take 4 body" using lhb sk(1) by (simp_all add: hb_def)
  have "randomDES_inv key ((hd @ drop 4 body) @ 0 # r) (int (length (random_cipher key rn s))) out = Some out'"
  proof -
    have key3: "HexToInt (sk ! 3) = (if L = 16 then 0 else int L)"
      by (rule sk(3)[OF L(2)])
    have L16: "t = s" "pl = L" if "L = 16" using lt that by (simp_all add: t_def pl_def pad_len_def)
    have i16: "singleDES_inv sk 8 (body @ z) 16 (replicate 60 0) = Some (s @ replicate 44 0)" if "L = 16" for z
      using i2[of z] L16[OF that] that by simp
    have short: "take L t = s" "L - length t = 0" using lt pl(1) L by (simp_all add: t_def L_def)
    have 28: "int (length (random_cipher key rn s)) = 28 \<or> int (length (random_cipher key rn s)) = 44"
      using lc by simp
    show ?thesis
      using 28 lhd lhb lb key pl(1,3) zs[OF s(3)] out'(1) L lt
      by (cases "L = 16")
        (auto simp: i16 randomDES_inv_def Let_def rd_def i1 parts cat cstr_prefix[OF nzb(2)] cstr_prefix[OF nzb(1)]
          i2 sk(2) key3 short L16)
  qed
  with out' show ?thesis by (auto simp: c)
qed

subsection \<open>Longer texts\<close>

lemma length_DES_KEY [simp]: "8 \<le> length DES_KEY"
  by (simp add: DES_KEY_def)

lemma encrypt_turn_eval:
  assumes t: "rd inp off (length t) = Some t" "0 < length t" "length t \<le> 16" "0 \<notin> set t"
    and pad: "0 \<notin> set (take (pad_len (length t) - length t) (rand_bytes rand n))"
    and out: "cstr out = Some d" "length d + length (random_cipher DES_KEY (rand_bytes rand n) t) < length out"
  shows "\<exists>out'. encrypt_turn rand inp off (length t) (out, n) = Some (out', n + 8)
    \<and> cstr out' = Some (d @ random_cipher DES_KEY (rand_bytes rand n) t) \<and> length out' = length out"
proof -
  let ?c = "random_cipher DES_KEY (rand_bytes rand n) t"
  have "length ?c < length (replicate 45 (0 :: uchar))" by (simp add: length_random_cipher)
  from randomDES_eval[OF t(2-4) pad length_DES_KEY this] obtain dest where
    dest: "randomDES rand n DES_KEY (t @ replicate (45 - length t) 0) (int (length t)) (replicate 45 0) = Some (dest, n + 8)"
      "cstr dest = Some ?c" by blast
  from strcat_cstr[OF out(1) random_cipher_nonzero out(2)] obtain out' where
    "strcat_buf out ?c = Some out'" "cstr out' = Some (d @ ?c)" "length out' = length out" by blast
  with dest t(2-4) show ?thesis
    by (simp add: t(1) encrypt_turn_def Let_def)
qed

lemma encrypt_loop_eval:
  assumes "\<forall>j<k. rd inp ((i + j) * 16) 16 = Some (t j) \<and> length (t j) = 16 \<and> 0 \<notin> set (t j)"
    and "cstr out = Some d" and "length d + 44 * k < length out"
  shows "\<exists>out'. encrypt_loop rand inp i k (out, n) = Some (out', n + 8 * k)
    \<and> cstr out' = Some (d @ concat (map (\<lambda>j. random_cipher DES_KEY (rand_bytes rand (n + 8 * j)) (t j)) [0..<k]))
    \<and> length out' = length out"
  using assms
proof (induction k arbitrary: i t out d n)
  case 0
  then show ?case by simp
next
  case (Suc k)
  have t0: "rd inp (i * 16) 16 = Some (t 0)" "length (t 0) = 16" "0 \<notin> set (t 0)"
    using Suc.prems(1) by force+
  have "\<exists>out'. encrypt_turn rand inp (i * 16) (length (t 0)) (out, n) = Some (out', n + 8)
    \<and> cstr out' = Some (d @ random_cipher DES_KEY (rand_bytes rand n) (t 0)) \<and> length out' = length out"
    using t0 Suc.prems(2,3) by (intro encrypt_turn_eval) (simp_all add: pad_len_def length_random_cipher)
  then obtain o1 where o1: "encrypt_turn rand inp (i * 16) 16 (out, n) = Some (o1, n + 8)"
    "cstr o1 = Some (d @ random_cipher DES_KEY (rand_bytes rand n) (t 0))" "length o1 = length out"
    using t0(2) by auto
  have "\<forall>j<k. rd inp ((Suc i + j) * 16) 16 = Some (t (Suc j)) \<and> length (t (Suc j)) = 16 \<and> 0 \<notin> set (t (Suc j))"
    using Suc.prems(1) by (metis Suc_less_eq add_Suc_right add_Suc)
  from Suc.IH[OF this o1(2), of "n + 8"] o1 t0(2) Suc.prems(3)
  show ?case by (simp add: length_random_cipher map_upt_Suc add.assoc del: upt_Suc)
qed

lemma encrypts_inv_turn_eval:
  assumes c: "rd inp off (length (random_cipher DES_KEY rn t)) = Some (random_cipher DES_KEY rn t)"
    and t: "0 < length t" "length t \<le> 16" "0 \<notin> set t" and rn: "length rn = 8"
    and out: "cstr out = Some d" "length d + length t < length out"
  shows "\<exists>out'. encrypts_inv_turn inp off (length (random_cipher DES_KEY rn t)) out = Some out'
    \<and> cstr out' = Some (d @ t) \<and> length out' = length out"
proof -
  let ?c = "random_cipher DES_KEY rn t"
  have "length t < length (replicate 45 (0 :: uchar))" using t by simp
  from randomDES_inv_eval[OF t rn length_DES_KEY this, of "replicate (44 - length ?c) 0"] obtain dest where
    dest: "randomDES_inv DES_KEY (?c @ 0 # replicate (44 - length ?c) 0) (int (length ?c)) (replicate 45 0) = Some dest"
      "cstr dest = Some t" by blast
  have le: "length ?c \<le> 45" by (simp add: length_random_cipher)
  have z: "replicate (45 - length ?c) (0 :: uchar) = 0 # replicate (44 - length ?c) 0"
    by (simp add: length_random_cipher flip: replicate_Suc)
  from strcat_cstr[OF out(1) t(3) out(2)] obtain out' where
    "strcat_buf out t = Some out'" "cstr out' = Some (d @ t)" "length out' = length out" by blast
  with dest show ?thesis
    by (simp add: c le encrypts_inv_turn_def Let_def z)
qed

lemma encrypts_inv_loop_eval:
  assumes "\<forall>j<k. rd inp ((i + j) * 44) 44 = Some (random_cipher DES_KEY (rn j) (t j))
      \<and> length (rn j) = 8 \<and> 8 < length (t j) \<and> length (t j) \<le> 16 \<and> 0 \<notin> set (t j)"
    and "cstr out = Some d" and "length d + length (concat (map t [0..<k])) < length out"
  shows "\<exists>out'. encrypts_inv_loop inp i k out = Some out'
    \<and> cstr out' = Some (d @ concat (map t [0..<k])) \<and> length out' = length out"
  using assms
proof (induction k arbitrary: i t rn out d)
  case 0
  then show ?case by simp
next
  case (Suc k)
  have t0: "rd inp (i * 44) 44 = Some (random_cipher DES_KEY (rn 0) (t 0))" "length (rn 0) = 8"
    "8 < length (t 0)" "length (t 0) \<le> 16" "0 \<notin> set (t 0)"
    using Suc.prems(1) by force+
  have l44: "length (random_cipher DES_KEY (rn 0) (t 0)) = 44" using t0(3) by (simp add: length_random_cipher)
  have room: "length d + (length (t 0) + length (concat (map (\<lambda>j. t (Suc j)) [0..<k]))) < length out"
    using Suc.prems(3) by (simp add: map_upt_Suc del: upt_Suc)
  have "\<exists>out'. encrypts_inv_turn inp (i * 44) (length (random_cipher DES_KEY (rn 0) (t 0))) out = Some out'
    \<and> cstr out' = Some (d @ t 0) \<and> length out' = length out"
    by (rule encrypts_inv_turn_eval) (use t0 Suc.prems(2) room in \<open>simp_all only: l44\<close>, simp_all)
  then obtain o1 where o1: "encrypts_inv_turn inp (i * 44) 44 out = Some o1"
    "cstr o1 = Some (d @ t 0)" "length o1 = length out"
    by (auto simp: l44)
  have "\<forall>j<k. rd inp ((Suc i + j) * 44) 44 = Some (random_cipher DES_KEY (rn (Suc j)) (t (Suc j)))
      \<and> length (rn (Suc j)) = 8 \<and> 8 < length (t (Suc j)) \<and> length (t (Suc j)) \<le> 16 \<and> 0 \<notin> set (t (Suc j))"
    using Suc.prems(1) by (metis Suc_less_eq add_Suc_right add_Suc)
  from Suc.IH[OF this o1(2)] o1 room
  show ?case by (simp add: map_upt_Suc add.assoc del: upt_Suc)
qed

text \<open>The block of the plain text a turn works on, and the whole cipher text.\<close>

definition piece :: "uchar list \<Rightarrow> nat \<Rightarrow> uchar list" where
  "piece s j = take 16 (drop (16 * j) s)"

definition cipher_text :: "(nat \<Rightarrow> int) \<Rightarrow> nat \<Rightarrow> uchar list \<Rightarrow> uchar list" where
  "cipher_text rand n s =
     concat (map (\<lambda>j. random_cipher DES_KEY (rand_bytes rand (n + 8 * j)) (piece s j))
       [0..<(length s + 15) div 16])"

text \<open>The random bytes that pad the last block; none when the length is 0 or 8 modulo 16.\<close>

definition last_pad :: "(nat \<Rightarrow> int) \<Rightarrow> nat \<Rightarrow> uchar list \<Rightarrow> uchar list" where
  "last_pad rand n s =
     (let m = length s mod 16
      in if m = 0 then [] else take (pad_len m - m) (rand_bytes rand (n + 8 * (length s div 16))))"

lemma piece_simps:
  "length (piece s j) = min (length s - 16 * j) 16" "0 \<notin> set s \<Longrightarrow> 0 \<notin> set (piece s j)"
  by (auto simp: piece_def dest!: in_set_takeD in_set_dropD)

lemma concat_piece: "concat (map (piece s) [0..<k]) = take (16 * k) s"
proof (induction k)
  case 0
  then show ?case by simp
next
  case (Suc k)
  then show ?case by (simp add: piece_def take_add[of "16 * k" 16, simplified add.commute])
qed

lemma rd_concat:
  assumes "\<And>j. j < k \<Longrightarrow> length (f j) = m" and "j < k"
  shows "rd (concat (map f [0..<k]) @ r) (j * m) m = Some (f j)"
  using assms
proof (induction k arbitrary: r)
  case 0
  then show ?case by simp
next
  case (Suc k)
  have len: "length (concat (map f [0..<k])) = k * m"
    using concat_map_length[of "[0..<k]" f m] Suc.prems(1) by simp
  show ?case
  proof (cases "j < k")
    case True
    with Suc.IH[of "f k @ r"] Suc.prems(1) show ?thesis by simp
  next
    case False
    with Suc.prems have "j = k" "length (f k) = m" by simp_all
    with len show ?thesis by (simp add: rd_def)
  qed
qed

lemma cipher_text_split:
  assumes "q = length s div 16" and "m = length s mod 16"
  shows "cipher_text rand n s =
     concat (map (\<lambda>j. random_cipher DES_KEY (rand_bytes rand (n + 8 * j)) (piece s j)) [0..<q])
     @ (if m = 0 then [] else random_cipher DES_KEY (rand_bytes rand (n + 8 * q)) (piece s q))"
    and "(length s + 15) div 16 = (if m = 0 then q else Suc q)"
proof -
  have L: "length s = 16 * q + m" "m < 16" using assms by simp_all
  show "(length s + 15) div 16 = (if m = 0 then q else Suc q)"
    unfolding L(1) using L(2) by (auto intro!: div_nat_eqI)
  then show "cipher_text rand n s =
     concat (map (\<lambda>j. random_cipher DES_KEY (rand_bytes rand (n + 8 * j)) (piece s j)) [0..<q])
     @ (if m = 0 then [] else random_cipher DES_KEY (rand_bytes rand (n + 8 * q)) (piece s q))"
    by (simp add: cipher_text_def)
qed

lemma encrypt_eval:
  assumes s: "s \<noteq> []" "0 \<notin> set s" and pad: "0 \<notin> set (last_pad rand n s)"
    and out: "cstr out = Some []" "length (cipher_text rand n s) < length out"
  shows "\<exists>out'. encrypt rand n (s @ r) (int (length s)) out = Some (out', n + 8 * ((length s + 15) div 16))
    \<and> cstr out' = Some (cipher_text rand n s) \<and> length out' = length out"
proof (cases "length s < 16")
  case True
  then have m: "length s mod 16 = length s" "piece s 0 = s" "length s div 16 = 0" by (simp_all add: piece_def)
  then have c: "cipher_text rand n s = random_cipher DES_KEY (rand_bytes rand n) s" and "(length s + 15) div 16 = 1"
    using cipher_text_split(1)[OF refl refl, where s = s and rand = rand and n = n] cipher_text_split(2)[OF refl refl, of s] s(1) by simp_all
  moreover have "0 \<notin> set (take (pad_len (length s) - length s) (rand_bytes rand n))"
    using pad s(1) m by (simp add: last_pad_def Let_def)
  ultimately show ?thesis
    using randomDES_eval[of s rand n DES_KEY out r] True s out by (simp add: encrypt_def)
next
  case False
  define q m where "q = length s div 16" and "m = length s mod 16"
  note sp = cipher_text_split(1)[OF q_def m_def, where rand = rand and n = n] cipher_text_split(2)[OF q_def m_def]
  let ?f = "\<lambda>j. random_cipher DES_KEY (rand_bytes rand (n + 8 * j)) (piece s j)"
  have L: "length s = 16 * q + m" "m < 16" by (simp_all add: q_def m_def)
  have p16: "length (piece s j) = 16" if "j < q" for j using that L by (simp add: piece_simps)
  have pm: "length (piece s q) = m" using L by (simp add: piece_simps)
  have lf: "length (concat (map ?f [0..<q])) = 44 * q"
    using concat_map_length[of "[0..<q]" ?f 44] p16 by (simp add: length_random_cipher)
  have rds: "\<forall>j<q. rd (s @ r) ((0 + j) * 16) 16 = Some (piece s j) \<and> length (piece s j) = 16 \<and> 0 \<notin> set (piece s j)"
    using L s(2) p16 by (auto simp: piece_def rd_def mult.commute dest: in_set_takeD in_set_dropD)
  have "length [] + 44 * q < length out" using out(2) lf by (simp add: sp)
  from encrypt_loop_eval[OF rds out(1) this, of rand n] obtain o1 where
    o1: "encrypt_loop rand (s @ r) 0 q (out, n) = Some (o1, n + 8 * q)"
      "cstr o1 = Some (concat (map ?f [0..<q]))" "length o1 = length out"
    by auto
  show ?thesis
  proof (cases "m = 0")
    case True
    with o1 sp False show ?thesis by (simp add: encrypt_def Let_def flip: q_def m_def)
  next
    case m: False
    have "rd (s @ r) (q * 16) (length (piece s q)) = Some (piece s q)"
      using L pm by (simp add: piece_def mult.commute)
    moreover have "0 \<notin> set (take (pad_len (length (piece s q)) - length (piece s q)) (rand_bytes rand (n + 8 * q)))"
      using pad m pm by (simp add: last_pad_def Let_def flip: q_def m_def)
    moreover have "0 < length (piece s q)" "length (piece s q) \<le> 16" "0 \<notin> set (piece s q)"
      using m pm L(2) piece_simps(2)[OF s(2)] by simp_all
    moreover have "length (concat (map ?f [0..<q])) + length (?f q) < length o1"
      using out(2) sp(1) m o1(3) by simp
    ultimately obtain o2 where
      "encrypt_turn rand (s @ r) (q * 16) (length (piece s q)) (o1, n + 8 * q) = Some (o2, n + 8 * q + 8)"
      "cstr o2 = Some (concat (map ?f [0..<q]) @ ?f q)" "length o2 = length o1"
      using encrypt_turn_eval[of "s @ r" "q * 16" "piece s q" rand "n + 8 * q" o1 "concat (map ?f [0..<q])"]
        o1(2) by blast
    moreover have "n + 8 * q + 8 = n + 8 * Suc q" by simp
    ultimately show ?thesis
      using o1 sp False m pm by (simp only: encrypt_def Let_def) (simp flip: q_def m_def)
  qed
qed
lemma encrypts_inv_nat:
  assumes "x = 44 * k + t" and "t < 44" and "0 < k"
  shows "encrypts_inv inp (int x) out =
    do { out \<leftarrow> encrypts_inv_loop inp 0 k out; if t > 0 then encrypts_inv_turn inp (k * 44) t out else Some out }"
proof -
  have "x div 44 = k" "x mod 44 = t" "\<not> x < 44" using assms by (auto intro: div_nat_eqI)
  then show ?thesis by (simp add: encrypts_inv_def Let_def cong: if_cong)
qed

text \<open>\<open>_encrypts\<close> recovers the plain text from the cipher text of any random bytes.\<close>

lemma encrypts_inv_eval:
  assumes s: "s \<noteq> []" "0 \<notin> set s"
    and out: "cstr out = Some []" "length s < length out"
  shows "\<exists>out'. encrypts_inv (cipher_text rand n s @ 0 # r) (int (length (cipher_text rand n s))) out = Some out'
    \<and> cstr out' = Some s \<and> length out' = length out"
proof -
  define q m where "q = length s div 16" and "m = length s mod 16"
  define rn where "rn j = rand_bytes rand (n + 8 * j)" for j
  note sp = cipher_text_split(1)[OF q_def m_def, where rand = rand and n = n, folded rn_def]
  let ?c = "cipher_text rand n s" and ?f = "\<lambda>j. random_cipher DES_KEY (rn j) (piece s j)"
  have L: "length s = 16 * q + m" "m < 16" by (simp_all add: q_def m_def)
  have rn: "length (rn j) = 8" for j by (simp add: rn_def sss_rn_gen_8)
  have p16: "length (piece s j) = 16" if "j < q" for j using that L by (simp add: piece_simps)
  have pm: "length (piece s q) = m" using L by (simp add: piece_simps)
  have pz: "0 \<notin> set (piece s j)" for j using piece_simps(2)[OF s(2)] .
  have cat: "concat (map (piece s) [0..<k]) = s" if "length s \<le> 16 * k" for k using that by (simp add: concat_piece)
  define k where "k = (if m \<le> 8 then q else Suc q)"
  have fk: "length (?f j) = 44" if "j < k" for j
    using that p16 pm by (cases "j < q") (auto simp: k_def length_random_cipher less_Suc_eq split: if_splits)
  have tk: "8 < length (piece s j) \<and> length (piece s j) \<le> 16" if "j < k" for j
    using that p16 pm L by (cases "j < q") (auto simp: k_def less_Suc_eq split: if_splits)
  define tl where "tl = (if 0 < m \<and> m \<le> 8 then ?f q else [])"
  have c: "?c = concat (map ?f [0..<k]) @ tl" by (simp add: sp k_def tl_def)
  have lc: "length ?c = 44 * k + length tl" unfolding c
    using concat_map_length[of "[0..<k]" ?f 44] fk by simp
  have ltl: "length tl = (if 0 < m \<and> m \<le> 8 then 28 else 0)" using pm by (simp add: tl_def length_random_cipher)
  have rds: "\<forall>j<k. rd (?c @ 0 # r) ((0 + j) * 44) 44 = Some (?f j) \<and> length (rn j) = 8
      \<and> 8 < length (piece s j) \<and> length (piece s j) \<le> 16 \<and> 0 \<notin> set (piece s j)"
    using rd_concat[of k ?f 44 _ "tl @ 0 # r"] fk tk rn pz by (simp add: c)
  have "length (concat (map (piece s) [0..<k])) \<le> length s" by (simp add: concat_piece)
  then have "length [] + length (concat (map (piece s) [0..<k])) < length out" using out(2) by simp
  from encrypts_inv_loop_eval[OF rds out(1) this] obtain o1 where
    o1: "encrypts_inv_loop (?c @ 0 # r) 0 k out = Some o1" "cstr o1 = Some (concat (map (piece s) [0..<k]))"
      "length o1 = length out"
    by auto
  show ?thesis
  proof (cases "tl = []")
    case True
    then have "m = 0 \<or> 8 < m" and "length ?c = 44 * k" using ltl lc by (auto split: if_splits)
    moreover from this(1) have "length s \<le> 16 * k" using L by (auto simp: k_def)
    moreover have "0 < k" using calculation s(1) by (cases k) auto
    ultimately show ?thesis using o1 cat encrypts_inv_nat[of "length ?c" k 0] by simp
  next
    case False
    then have m: "0 < m" "m \<le> 8" by (auto simp: tl_def split: if_splits)
    then have tl: "tl = ?f q" "k = q" "length tl = 28" using ltl by (simp_all add: tl_def k_def)
    have sq: "concat (map (piece s) [0..<q]) @ piece s q = s" using cat[of "Suc q"] L by simp
    show ?thesis
    proof (cases "q = 0")
      case True
      then have "piece s q = s" and "?c = random_cipher DES_KEY (rn 0) s" using sq c tl by simp_all
      moreover have "length ?c < 44" using lc tl True by simp
      moreover have "length s \<le> 16" using True L by simp
      ultimately show ?thesis
        using randomDES_inv_eval[of s "rn 0" DES_KEY out r] s out(2) rn by (simp add: encrypts_inv_def)
    next
      case False
      have "rd (?c @ 0 # r) (q * 44) (length (?f q)) = Some (?f q)"
        using lc tl by (simp add: rd_def c) 
      then obtain o2 where
        "encrypts_inv_turn (?c @ 0 # r) (q * 44) (length (?f q)) o1 = Some o2" "cstr o2 = Some s" "length o2 = length o1"
        using encrypts_inv_turn_eval[of "?c @ 0 # r" "q * 44" "rn q" "piece s q" o1 "concat (map (piece s) [0..<q])"]
          o1 m pm pz rn tl L out(2) sq by (auto simp: concat_piece)
      with o1 False lc tl show ?thesis using encrypts_inv_nat[of "length ?c" q 28] by simp
    qed
  qed
qed

lemma randomDES_zero_pad:
  assumes s: "0 < length s" "length s < 16" "length s \<noteq> 8" "0 \<notin> set s"
    and pad: "0 \<in> set (take (pad_len (length s) - length s) (rand_bytes rand n))"
    and key: "8 \<le> length key" and room: "16 < length out"
  shows "\<exists>out' c. randomDES rand n key (s @ r) (int (length s)) out = Some (out', n + 8)
    \<and> cstr out' = Some c \<and> length c = 16"
proof -
  define rn L where "rn = rand_bytes rand n" and "L = length s"
  define t where "t = s @ take (pad_len L - L) rn"
  define u where "u = takeWhile (\<lambda>b. b \<noteq> 0) t"
  have rn: "length rn = 8" by (simp add: rn_def sss_rn_gen_8)
  have L: "0 < L" "L < 16" "L \<noteq> 8" using s by (simp_all add: L_def)
  have lt: "length t = pad_len L" "0 \<in> set t"
    using pad_len_bounds[of L] L rn pad s(4) by (auto simp: t_def rn_def L_def)
  have intxt: "randomDES_text (rn @ z) (s @ r) L = Some (t @ replicate (20 - pad_len L) 0)" for z
    using randomDES_text_eval[of s rn] s rn by (simp add: t_def L_def)
  have str: "cstr (t @ z) = Some u" for z
    using lt(2) by (auto simp: cstr_def u_def intro: takeWhile_append1)
  have "length u < pad_len L"
    using cstr_Some[OF str[of "[]"]] lt(1) by simp
  moreover have "u = s @ takeWhile (\<lambda>b. b \<noteq> 0) (take (pad_len L - L) rn)"
    using s(4) unfolding u_def t_def by (subst takeWhile_append2) auto
  then have "L \<le> length u" by (simp add: L_def)
  ultimately have "\<not> good_len (int (length u))"
    using L by (auto simp: good_len_def pad_len_def split: if_splits)
  then have body: "singleDES k 8 x (int (length u)) o1 = Some o1" for k x o1
    by (simp add: singleDES_bad)
  define sk where "sk = session_key key rn L"
  have lsk: "length sk = 10" using rn key by (simp add: session_key_parts sk_def)
  have sk: "randomDES_key (rn @ z) (int L) (take 4 (drop 4 key)) = sk" for z
    using rn L by (simp add: session_key_def randomDES_key_def sk_def numeral_2_eq_2)
  have first: "poke (poke (replicate 60 0) 0 (take 4 sk)) 4 (replicate 4 0) = (take 4 sk @ replicate 4 0) @ replicate 52 0"
    using lsk by (simp add: poke_def replicate_add[symmetric] eval_nat_numeral)
  let ?hd = "hexenc (snd (sssDES key 8 (take 4 sk @ replicate 4 0) 8))"
  have lh: "length ?hd = 16" by (simp add: sssDES_length)
  have head: "singleDES key 8 ((take 4 sk @ replicate 4 0) @ z) 8 out = Some (poke out 0 (?hd @ [0]))" for z
    using room lh lsk by (subst singleDES_append) (simp_all add: singleDES_eval)
  have c1: "cstr (poke out 0 (?hd @ [0])) = Some ?hd"
    using cstr_prefix[of ?hd] by (simp add: poke_def)
  have "length (poke out 0 (?hd @ [0])) = length out" using room lh by simp
  with strcat_cstr[OF c1, of "[]"] lh room obtain out' where
    out': "strcat_buf (poke out 0 (?hd @ [0])) [] = Some out'" "cstr out' = Some ?hd"
    by auto
  have z56: "cstr (drop 4 (replicate 60 0)) = Some ([] :: uchar list)"
    by (simp add: cstr_def)
  have "randomDES rand n key (s @ r) (int L) out = Some (out', n + 8)"
    using L key
    by (simp del: poke_zeros drop_replicate add: poke_zeros[of rn 60] randomDES_def Let_def sss_rn_gen_8 rn intxt str sk
        rn_def[symmetric] body first head[simplified] out'(1) rd_def z56)
  with out' lh show ?thesis by (auto simp: L_def)
qed

lemma randomDES_inv_untouched: "n \<noteq> 28 \<Longrightarrow> n \<noteq> 44 \<Longrightarrow> randomDES_inv key inp n out = Some out"
  by (simp add: randomDES_inv_def)

subsection \<open>Keys\<close>

text \<open>The mask \<open>offset_key\<close> adds to byte \<open>i\<close> depends on the counter only.\<close>

definition offset_mask :: "uchar list \<Rightarrow> nat \<Rightarrow> uchar" where
  "offset_mask counter i =
     foldl (\<lambda>t j. t XOR drop_bit j (push_bit ((i * 7 + j) mod 8)
       ((take 7 counter @ take 7 counter) ! ((i * 7 + j) div 8)) AND 0x80)) 0 [0..<7]"

lemma foldl_xor: "foldl (\<lambda>t j. t XOR f j) (a :: uchar) js = a XOR foldl (\<lambda>t j. t XOR f j) 0 js"
proof (induction js arbitrary: a)
  case (Cons j js)
  show ?case using Cons.IH[of "a XOR f j"] Cons.IH[of "f j"] by (simp add: xor.assoc)
qed simp

lemma offset_key_mask: "offset_key key counter = map (\<lambda>i. key ! i XOR offset_mask counter i) [0..<16]"
  unfolding offset_key_def Let_def D_LEN_def offset_mask_def
  by (rule map_cong[OF refl]) (rule foldl_xor)

lemma offset_key_twice: "length key = 16 \<Longrightarrow> offset_key (offset_key key counter) counter = key"
  by (rule nth_equalityI) (simp_all add: offset_key_mask xor.assoc)

text \<open>The parity bit of a key byte is not changed.\<close>

lemma offset_mask_even: "\<not> bit (offset_mask counter i) 0"
proof -
  have "\<not> bit (foldl (\<lambda>t j. t XOR drop_bit j (g j AND 0x80)) (0 :: uchar) [0..<7]) 0" for g
  proof (rule foldl_inv[where I = "\<lambda>t. \<not> bit t 0"])
    fix t :: uchar and j :: nat
    assume "j \<in> set [0..<7]" and t: "\<not> bit t 0"
    then have "j < 7" by simp
    have e: "(0x80 :: uchar) = 2 ^ 7" by simp
    have "\<not> bit (0x80 :: uchar) j" using \<open>j < 7\<close> by (subst e) (simp only: bit_exp_iff, simp)
    with t show "\<not> bit (t XOR drop_bit j (g j AND 0x80)) 0"
      by (auto simp: bit_simps)
  qed simp
  then show ?thesis unfolding offset_mask_def .
qed

subsection \<open>Properties\<close>

definition cipher_length :: "nat \<Rightarrow> nat" where
  "cipher_length L =
     44 * (L div 16) + (if L mod 16 = 0 then 0 else if L mod 16 \<le> 8 then 28 else 44)"

lemma length_cipher_text [lens_simps]: "length (cipher_text rand n s) = cipher_length (length s)"
proof -
  define q m where "q = length s div 16" and "m = length s mod 16"
  have L: "length s = 16 * q + m" "m < 16" by (simp_all add: q_def m_def)
  have p16: "length (piece s j) = 16" if "j < q" for j using that L by (simp add: piece_simps)
  have pm: "length (piece s q) = m" using L by (simp add: piece_simps)
  let ?f = "\<lambda>j. random_cipher DES_KEY (rand_bytes rand (n + 8 * j)) (piece s j)"
  have "length (concat (map ?f [0..<q])) = q * 44"
    using concat_map_length[of "[0..<q]" ?f 44] p16 by (simp add: length_random_cipher)
  then show ?thesis
    using pm by (simp add: cipher_text_split(1)[OF q_def m_def] cipher_length_def length_random_cipher flip: q_def m_def)
qed

text \<open>C23: \<open>encrypt\<close> writes a string of the expected length inside its output buffer, and
  \<open>_encrypts\<close> gives back the plain text, for every text without a zero byte and every sequence
  of random numbers whose padding of the last block has no zero byte.\<close>

theorem encrypt_roundtrip:
  assumes "s \<noteq> []" and "0 \<notin> set s" and "0 \<notin> set (last_pad rand n s)"
    and "cstr out = Some []" and "cipher_length (length s) < length out"
    and "cstr out2 = Some []" and "length s < length out2"
  shows "\<exists>out' c out2'.
    encrypt rand n (s @ [0]) (int (length s)) out = Some (out', n + 8 * ((length s + 15) div 16))
    \<and> cstr out' = Some c \<and> length c = cipher_length (length s)
    \<and> encrypts_inv (c @ [0]) (int (length c)) out2 = Some out2' \<and> cstr out2' = Some s"
  using encrypt_eval[OF assms(1-4), of "[0]"] encrypts_inv_eval[OF assms(1,2,6,7), of rand n "[]"] assms(5)
  by (auto simp: length_cipher_text)

theorem encrypt_roundtrip_witness:
  "\<exists>out' c out2'. encrypt (\<lambda>i. int i + 1) 0 (replicate 20 0x41 @ [0]) 20 (replicate 100 0) = Some (out', 16)
    \<and> cstr out' = Some c \<and> length c = 72
    \<and> encrypts_inv (c @ [0]) 72 (replicate 40 0) = Some out2' \<and> cstr out2' = Some (replicate 20 0x41)"
proof -
  have "last_pad (\<lambda>i. int i + 1) 0 (replicate 20 0x41) = [9, 10, 11, 12]"
    by (simp add: last_pad_def rand_bytes_def pad_len_def upt_rec)
  moreover have "cstr (replicate 100 0) = Some []" "cstr (replicate 40 0) = Some []"
    by (simp_all add: cstr_def)
  moreover have "cipher_length 20 = 72" by (simp add: cipher_length_def)
  ultimately show ?thesis
    using encrypt_roundtrip[of "replicate 20 0x41" "\<lambda>i. int i + 1" 0 "replicate 100 0" "replicate 40 0"]
    by auto
qed

text \<open>If a random padding byte is zero, \<open>randomDES\<close> measures the block with \<open>strlen\<close>, encrypts
  no body and writes sixteen characters, which \<open>_randomDES\<close> refuses: the text is lost.\<close>

theorem randomDES_zero_pad_lost:
  assumes "0 < length s" and "length s < 16" and "length s \<noteq> 8" and "0 \<notin> set s"
    and "0 \<in> set (take (pad_len (length s) - length s) (rand_bytes rand n))"
    and "8 \<le> length key" and "16 < length out"
  shows "\<exists>out' c. randomDES rand n key (s @ [0]) (int (length s)) out = Some (out', n + 8)
    \<and> cstr out' = Some c \<and> length c = 16
    \<and> randomDES_inv key (c @ [0]) (int (length c)) out2 = Some out2"
  using randomDES_zero_pad[OF assms, of "[0]"] by (auto simp: randomDES_inv_untouched)

theorem randomDES_zero_pad_lost_witness:
  "\<exists>out' c. randomDES (\<lambda>i. 256) 0 DES_KEY ([0x61] @ [0]) 1 (replicate 45 0) = Some (out', 8)
    \<and> cstr out' = Some c \<and> length c = 16 \<and> randomDES_inv DES_KEY (c @ [0]) 16 [7] = Some [7]"
  using randomDES_zero_pad_lost[of "[0x61]" "\<lambda>i. 256" 0 DES_KEY "replicate 45 0" "[7]"]
  by (auto simp: rand_bytes_def pad_len_def upt_rec)

text \<open>For every admitted combination of key length and block length, decryption undoes
  encryption; for every other combination both refuse and write nothing.\<close>

theorem sssDES_roundtrip:
  "if (kl = 8 \<or> kl = 16) \<and> (il = 8 \<or> il = 16)
   then fst (sssDES key kl inp il) = 0 \<and> length (snd (sssDES key kl inp il)) = nat il
     \<and> (nat il \<le> length inp \<longrightarrow>
          sssDES_inv key kl (snd (sssDES key kl inp il)) il = (0, take (nat il) inp))
   else sssDES key kl inp il = (-1, []) \<and> sssDES_inv key kl inp il = (-1, [])"
proof -
  have a: "fst (sssDES key kl inp il) = 0 \<and> fst (sssDES_inv key kl x il) = 0" if "good_len kl" "good_len il" for x
    using that by (auto simp: sssDES_def sssDES_inv_def good_len_def Let_def)
  have b: "sssDES_inv key kl inp il = (-1, [])" if "\<not> (good_len kl \<and> good_len il)"
    using that by (auto simp: sssDES_inv_def good_len_def)
  show ?thesis
    using a b sssDES_inv_sssDES[of kl il inp key "[]"] sssDES_length[of kl il key inp] sssDES_bad[of kl il key inp]
    unfolding good_len_def by (auto intro: prod_eqI)
qed

theorem sssDES_roundtrip_witness:
  "sssDES_inv DES_KEY 8 (snd (sssDES DES_KEY 8 [1, 2, 3, 4, 5, 6, 7, 8] 8)) 8 = (0, [1, 2, 3, 4, 5, 6, 7, 8])"
  using sssDES_roundtrip[of 8 8 DES_KEY "[1, 2, 3, 4, 5, 6, 7, 8]"] by simp

lemma hex_nibble_small:
  assumes "hex_nibble a = Some v"
  shows "v AND 0x0f = v"
proof -
  have "unat v < 16"
    using assms by (auto simp: hex_nibble_def word_le_nat_alt unat_sub unat_word_ariths split: if_splits)
  moreover have "list_all (\<lambda>k. (word_of_nat k :: uchar) AND 0x0f = word_of_nat k) [0..<16]"
    by (simp add: upt_rec)
  moreover have "unat v \<in> set [0..<16]" using calculation(1) by simp
  ultimately have "(word_of_nat (unat v) :: uchar) AND 0x0f = word_of_nat (unat v)"
    unfolding list_all_iff by blast
  then show ?thesis by simp
qed

lemma those_None: "those xs = None \<longleftrightarrow> None \<in> set xs"
  by (induction xs) (auto split: option.splits)

lemma those_Some: "None \<notin> set xs \<Longrightarrow> those xs = Some (map the xs)"
proof (induction xs)
  case (Cons a xs)
  then show ?case by (cases a) auto
qed simp

text \<open>\<open>asctobcd\<close> on every input: a fault on a short buffer or on an odd number of digits,
  the code -1 exactly when a character is no hexadecimal digit, and otherwise half as many bytes;
  it reads back what \<open>bcdtoasc\<close> writes.\<close>

theorem asctobcd_result:
  "asctobcd asc len =
     (if length asc < len then None
      else if \<exists>i<len. hex_nibble (asc ! i) = None then Some (-1, [])
      else if odd len then None
      else Some (0, map (\<lambda>i. push_bit 4 (the (hex_nibble (asc ! (2 * i)))) OR the (hex_nibble (asc ! (2 * i + 1))))
             [0..<len div 2]))
   \<and> asctobcd (bcdtoasc bs (2 * length bs)) (2 * length bs) = Some (0, bs)"
proof
  let ?xs = "map hex_nibble (take len asc)"
  have none: "None \<in> set ?xs \<longleftrightarrow> (\<exists>i<len. hex_nibble (asc ! i) = None)" if "len \<le> length asc"
  proof -
    have "None \<in> set ?xs \<longleftrightarrow> (\<exists>i<length ?xs. ?xs ! i = None)" by (metis in_set_conv_nth)
    with that show ?thesis by auto
  qed
  have bytes: "map (\<lambda>i. push_bit 4 (map the ?xs ! (2 * i) AND 0x0f) OR (map the ?xs ! (2 * i + 1) AND 0x0f)) [0..<len div 2]
      = map (\<lambda>i. push_bit 4 (the (hex_nibble (asc ! (2 * i)))) OR the (hex_nibble (asc ! (2 * i + 1)))) [0..<len div 2]"
    if ok: "len \<le> length asc" "\<not> (\<exists>i<len. hex_nibble (asc ! i) = None)"
  proof (rule map_cong[OF refl])
    fix i assume "i \<in> set [0..<len div 2]"
    then have i: "2 * i + 1 < len" by auto
    then have "\<exists>v w. hex_nibble (asc ! (2 * i)) = Some v \<and> hex_nibble (asc ! (2 * i + 1)) = Some w"
      using ok(2) by (metis add_lessD1 option.exhaust)
    then show "push_bit 4 (map the ?xs ! (2 * i) AND 0x0f) OR (map the ?xs ! (2 * i + 1) AND 0x0f)
      = push_bit 4 (the (hex_nibble (asc ! (2 * i)))) OR the (hex_nibble (asc ! (2 * i + 1)))"
      using i ok(1) by (auto simp: hex_nibble_small)
  qed
  show "asctobcd asc len =
     (if length asc < len then None
      else if \<exists>i<len. hex_nibble (asc ! i) = None then Some (-1, [])
      else if odd len then None
      else Some (0, map (\<lambda>i. push_bit 4 (the (hex_nibble (asc ! (2 * i)))) OR the (hex_nibble (asc ! (2 * i + 1))))
             [0..<len div 2]))"
  proof (cases "length asc < len \<or> None \<in> set ?xs")
    case True
    show ?thesis
    proof (cases "length asc < len")
      case False
      then have "\<exists>i<len. hex_nibble (asc ! i) = None" "those ?xs = None"
        using True none those_None[of ?xs] by (metis not_less)+
      with False show ?thesis by (simp only: asctobcd_def option.case if_True if_False)
    qed (simp add: asctobcd_def)
  next
    case False
    then have "those ?xs = Some (map the ?xs)" and ok: "len \<le> length asc" "\<not> (\<exists>i<len. hex_nibble (asc ! i) = None)"
      using none those_Some[of ?xs] by (auto simp del: set_map list.map_comp)
    with bytes[OF ok] show ?thesis
      by (cases "odd len") (simp_all only: asctobcd_def option.case if_False if_True not_less simp_thms, simp_all)
  qed
  show "asctobcd (bcdtoasc bs (2 * length bs)) (2 * length bs) = Some (0, bs)"
    using asctobcd_hexenc[of bs "[]"] by (simp add: bcdtoasc_hexenc)
qed

text \<open>\<open>offset_key\<close> is undone by applying it again with the same counter, and it leaves the
  lowest bit of every key byte alone.\<close>

theorem offset_key_involution:
  assumes "length key = 16"
  shows "offset_key (offset_key key counter) counter = key
    \<and> (\<forall>i<16. bit (offset_key key counter ! i) 0 = bit (key ! i) 0)"
  using assms offset_mask_even by (simp add: offset_key_twice) (simp add: offset_key_mask bit_simps)

theorem offset_key_involution_witness:
  "offset_key (offset_key (replicate 16 0xAB) [1, 2, 3, 4, 5, 6, 7]) [1, 2, 3, 4, 5, 6, 7] = replicate 16 0xAB"
  using offset_key_involution[of "replicate 16 0xAB" "[1, 2, 3, 4, 5, 6, 7]"] by simp

end
