(* ===== verification/CLib.thy ===== *)
theory CLib
  imports Prelude "HOL-Library.Char_ord"
begin

text \<open>
  The part of the C standard library the sources call, on the contents of C strings:
  \<open>strstr\<close>, \<open>strchr\<close>, \<open>strcmp\<close>, \<open>strtok\<close>, \<open>atoi\<close>, \<open>toupper\<close> over a string (\<open>strupr\<close> of
  DBoperate.c), the conversions of \<open>printf\<close> and \<open>inet_addr\<close> / \<open>ntohl\<close>.
  Behaviour is that of glibc on a little-endian machine with 32-bit \<open>int\<close> and 64-bit
  \<open>long\<close>, which is what the Makefiles build for.
\<close>

subsection \<open>Substring search\<close>

text \<open>\<open>strstr\<close> as the offset of the first occurrence; \<open>None\<close> is the null pointer.\<close>

fun strstr :: "cstring \<Rightarrow> cstring \<Rightarrow> nat option" where
  "strstr [] p = (if p = [] then Some 0 else None)"
| "strstr (c # s) p = (if prefix p (c # s) then Some 0 else map_option Suc (strstr s p))"

definition contains :: "cstring \<Rightarrow> cstring \<Rightarrow> bool" where
  "contains s p \<longleftrightarrow> strstr s p \<noteq> None"

lemma strstr_empty [simp, lib_simps]: "strstr s [] = Some 0"
  by (cases s) simp_all

lemma strstr_Some_prefix: "strstr s p = Some i \<Longrightarrow> prefix p (drop i s)"
  by (induction s arbitrary: i) (auto split: if_splits)

lemma strstr_Some_le: "strstr s p = Some i \<Longrightarrow> i + length p \<le> length s"
  by (induction s arbitrary: i) (fastforce split: if_splits dest: prefix_length_le)+

lemma strstr_Some_first: "strstr s p = Some i \<Longrightarrow> j < i \<Longrightarrow> \<not> prefix p (drop j s)"
proof (induction s arbitrary: i j)
  case Nil
  then show ?case by (simp split: if_splits)
next
  case (Cons c s)
  then show ?case by (cases j) (auto split: if_splits)
qed

lemma strstr_None: "strstr s p = None \<longleftrightarrow> \<not> sublist p s"
  by (induction s) (auto simp: sublist_Cons_right split: if_splits)

lemma contains_sublist [lib_simps]: "contains s p \<longleftrightarrow> sublist p s"
  by (simp add: contains_def strstr_None)

lemma strstr_split:
  assumes "strstr s p = Some i"
  shows "s = take i s @ p @ drop (i + length p) s"
proof -
  from assms obtain r where r: "drop i s = p @ r"
    by (auto dest!: strstr_Some_prefix simp: prefix_def)
  then have "drop (i + length p) s = r"
    by (metis add.commute append_eq_conv_conj drop_drop)
  with r show ?thesis by (metis append_take_drop_id)
qed

lemma strstr_intro:
  assumes "prefix p (drop i s)" and "i \<le> length s" and "\<And>j. j < i \<Longrightarrow> \<not> prefix p (drop j s)"
  shows "strstr s p = Some i"
  using assms
proof (induction s arbitrary: i)
  case Nil
  then show ?case by simp
next
  case (Cons c s)
  show ?case
  proof (cases i)
    case 0
    with Cons.prems show ?thesis by simp
  next
    case (Suc k)
    have "strstr s p = Some k"
    proof (rule Cons.IH)
      show "prefix p (drop k s)" "k \<le> length s" using Cons.prems Suc by simp_all
      show "\<not> prefix p (drop j s)" if "j < k" for j
        using Cons.prems(3)[of "Suc j"] that Suc by simp
    qed
    moreover have "\<not> prefix p (c # s)" using Cons.prems(3)[of 0] Suc by simp
    ultimately show ?thesis using Suc by simp
  qed
qed

text \<open>
  The contract of a substring search, as its clients (replacement, splitting, policy
  matching) use it: the first occurrence, or none.
\<close>

locale substring_search =
  fixes find :: "cstring \<Rightarrow> cstring \<Rightarrow> nat option"
  assumes found: "find s p = Some i \<Longrightarrow> s = take i s @ p @ drop (i + length p) s \<and> i + length p \<le> length s"
    and first: "find s p = Some i \<Longrightarrow> j < i \<Longrightarrow> \<not> prefix p (drop j s)"
    and missing: "find s p = None \<longleftrightarrow> \<not> sublist p s"
begin

lemma found_length: "find s p = Some i \<Longrightarrow> length (drop (i + length p) s) = length s - i - length p"
  by simp

lemma found_shorter:
  "find s p = Some i \<Longrightarrow> p \<noteq> [] \<Longrightarrow> length (drop (i + length p) s) < length s"
  using found by (cases p) fastforce+

lemma found_sublist: "find s p = Some i \<Longrightarrow> sublist p s"
  using missing by (metis option.distinct(1))

lemma exact: "length s = length p \<Longrightarrow> find s p \<noteq> None \<longleftrightarrow> s = p"
proof
  assume len: "length s = length p" and "find s p \<noteq> None"
  then obtain i where i: "find s p = Some i" by blast
  from found[OF this] len have "i = 0" by simp
  with found[OF i] len show "s = p" by simp
next
  assume "s = p"
  then show "find s p \<noteq> None" by (simp add: missing)
qed

end

interpretation search: substring_search strstr
proof
  show "s = take i s @ p @ drop (i + length p) s \<and> i + length p \<le> length s"
    if "strstr s p = Some i" for s p i
    using strstr_split[OF that] strstr_Some_le[OF that] by blast
  show "\<not> prefix p (drop j s)" if "strstr s p = Some i" "j < i" for s p i j
    using that by (rule strstr_Some_first)
  show "(strstr s p = None) = (\<not> sublist p s)" for s p
    by (rule strstr_None)
qed

text \<open>\<open>strchr\<close> followed by a cut: the part of a string before the first occurrence.\<close>

definition upto_char :: "char \<Rightarrow> cstring \<Rightarrow> cstring" where
  "upto_char c s = takeWhile (\<lambda>x. x \<noteq> c) s"

subsection \<open>Comparison\<close>

text \<open>\<open>strcmp\<close> compares as unsigned bytes; only the sign of the result is defined.\<close>

fun strcmp :: "cstring \<Rightarrow> cstring \<Rightarrow> int" where
  "strcmp [] [] = 0"
| "strcmp [] (b # bs) = -1"
| "strcmp (a # as) [] = 1"
| "strcmp (a # as) (b # bs) =
     (if a = b then strcmp as bs else if (of_char a :: nat) < of_char b then -1 else 1)"

lemma strcmp_eq_0 [simp, lib_simps]: "strcmp a b = 0 \<longleftrightarrow> a = b"
  by (induction a b rule: strcmp.induct) auto

lemma strcmp_refl: "strcmp a a = 0"
  by simp

lemma strcmp_append: "strcmp (xs @ a) (xs @ b) = strcmp a b"
  by (induction xs) auto

lemma strcmp_le_total: "strcmp a b \<le> 0 \<or> strcmp b a \<le> 0"
  by (induction a b rule: strcmp.induct) auto

subsection \<open>Tokens\<close>

text \<open>The successive results of \<open>strtok\<close> on one string with one separator set.\<close>

function tokens :: "cstring \<Rightarrow> cstring \<Rightarrow> cstring list" where
  "tokens seps [] = []"
| "tokens seps (c # s) =
     (if c \<in> set seps then tokens seps s
      else (c # takeWhile (\<lambda>x. x \<notin> set seps) s) # tokens seps (dropWhile (\<lambda>x. x \<notin> set seps) s))"
  by pat_completeness auto
termination
  by (relation "measure (\<lambda>(seps, s). length s)")
    (auto simp: le_imp_less_Suc length_dropWhile_le)

lemma tokens_nonempty: "t \<in> set (tokens seps s) \<Longrightarrow> t \<noteq> []"
  by (induction seps s rule: tokens.induct) (auto split: if_splits)

lemma tokens_no_sep: "t \<in> set (tokens seps s) \<Longrightarrow> set t \<inter> set seps = {}"
proof (induction seps s rule: tokens.induct)
  case (2 seps c s)
  then show ?case by (auto split: if_splits dest: set_takeWhileD)
qed simp

lemma tokens_join:
  assumes "t \<noteq> []" and "set t \<inter> set seps = {}" and "c \<in> set seps"
  shows "tokens seps (t @ c # s) = t # tokens seps s"
proof -
  obtain a t' where t: "t = a # t'" using assms(1) by (cases t) auto
  have all: "\<And>x. x \<in> set t' \<Longrightarrow> x \<notin> set seps" using assms(2) t by auto
  have "takeWhile (\<lambda>x. x \<notin> set seps) (t' @ c # s) = t'"
    and "dropWhile (\<lambda>x. x \<notin> set seps) (t' @ c # s) = c # s"
    using all assms(3) by (simp_all add: takeWhile_append2 dropWhile_append2)
  with assms t show ?thesis by auto
qed

lemma tokens_single:
  assumes "t \<noteq> []" and "set t \<inter> set seps = {}"
  shows "tokens seps t = [t]"
proof -
  obtain a t' where t: "t = a # t'" using assms(1) by (cases t) auto
  have all: "\<And>x. x \<in> set t' \<Longrightarrow> x \<notin> set seps" using assms(2) t by auto
  have "takeWhile (\<lambda>x. x \<notin> set seps) t' = t'" and dw: "dropWhile (\<lambda>x. x \<notin> set seps) t' = []"
    using all by (auto simp: takeWhile_eq_all_conv dropWhile_eq_Nil_conv)
  with assms t show ?thesis by (auto simp del: dropWhile_eq_Nil_conv simp: dw)
qed

subsection \<open>Decimal and hexadecimal conversions of \<open>printf\<close>\<close>

definition digit_char :: "nat \<Rightarrow> char" where
  "digit_char d = (if d < 10 then char_of (48 + d) else char_of (55 + d))"

definition digit_char_lower :: "nat \<Rightarrow> char" where
  "digit_char_lower d = (if d < 10 then char_of (48 + d) else char_of (87 + d))"

fun show_nat :: "nat \<Rightarrow> cstring" where
  "show_nat n = (if n < 10 then [digit_char n] else show_nat (n div 10) @ [digit_char (n mod 10)])"

declare show_nat.simps [simp del]

text \<open>\<open>%d\<close>, and \<open>%0<w>d\<close> padding with zeros after the sign.\<close>

definition fmt_d :: "int \<Rightarrow> cstring" where
  "fmt_d i = (if i < 0 then CHR ''-'' # show_nat (nat (- i)) else show_nat (nat i))"

definition pad0 :: "nat \<Rightarrow> cstring \<Rightarrow> cstring" where
  "pad0 w s = replicate (w - length s) (CHR ''0'') @ s"

definition fmt_0d :: "nat \<Rightarrow> int \<Rightarrow> cstring" where
  "fmt_0d w i =
     (if i < 0 then CHR ''-'' # pad0 (w - 1) (show_nat (nat (- i))) else pad0 w (show_nat (nat i)))"

text \<open>\<open>%02X\<close> and \<open>%02x\<close> of an \<open>unsigned int\<close>.\<close>

fun show_hex :: "(nat \<Rightarrow> char) \<Rightarrow> nat \<Rightarrow> cstring" where
  "show_hex dc n = (if n < 16 then [dc n] else show_hex dc (n div 16) @ [dc (n mod 16)])"

declare show_hex.simps [simp del]

definition fmt_02X :: "32 word \<Rightarrow> cstring" where
  "fmt_02X w = pad0 2 (show_hex digit_char (unat w))"

definition fmt_02x :: "32 word \<Rightarrow> cstring" where
  "fmt_02x w = pad0 2 (show_hex digit_char_lower (unat w))"

lemma show_nat_nonempty [simp]: "show_nat n \<noteq> []"
  by (subst show_nat.simps) simp

lemma digit_char_code: "d < 10 \<Longrightarrow> (of_char (digit_char d) :: nat) = 48 + d"
  by (simp add: digit_char_def take_bit_nat_def)

lemma digit_char_eq_iff: "a < 10 \<Longrightarrow> b < 10 \<Longrightarrow> digit_char a = digit_char b \<longleftrightarrow> a = b"
  by (metis add_left_cancel digit_char_code)

lemma show_nat_digits: "c \<in> set (show_nat n) \<Longrightarrow> \<exists>d<10. c = digit_char d"
proof (induction n rule: show_nat.induct)
  case (1 n)
  show ?case
  proof (cases "n < 10")
    case True
    with "1.prems" show ?thesis by (subst (asm) show_nat.simps) auto
  next
    case False
    with "1.prems" have "c \<in> set (show_nat (n div 10)) \<or> c = digit_char (n mod 10)"
      by (subst (asm) show_nat.simps) auto
    with "1.IH"[OF False] show ?thesis by (auto intro: exI[of _ "n mod 10"])
  qed
qed

lemma fmt_02d_two: "n < 100 \<Longrightarrow> fmt_0d 2 (int n) = [digit_char (n div 10), digit_char (n mod 10)]"
proof -
  assume n: "n < 100"
  show ?thesis
  proof (cases "n < 10")
    case True
    have "digit_char 0 = CHR ''0''" by code_simp
    with True show ?thesis by (simp add: fmt_0d_def pad0_def show_nat.simps)
  next
    case False
    with n have "n div 10 < 10" by simp
    with False show ?thesis
      by (simp add: fmt_0d_def pad0_def show_nat.simps[of n] show_nat.simps[of "n div 10"])
  qed
qed

text \<open>
  \<open>atoi\<close> is \<open>(int) strtol (s, NULL, 10)\<close> in glibc: leading white space, one sign, digits,
  saturation at the range of \<open>long\<close>, then truncation to 32 bits.
\<close>

definition is_space :: "char \<Rightarrow> bool" where
  "is_space c \<longleftrightarrow> c = CHR '' '' \<or> (9 \<le> (of_char c :: nat) \<and> (of_char c :: nat) \<le> 13)"

definition is_digit :: "char \<Rightarrow> bool" where
  "is_digit c \<longleftrightarrow> 48 \<le> (of_char c :: nat) \<and> (of_char c :: nat) \<le> 57"

definition digits_value :: "cstring \<Rightarrow> int" where
  "digits_value ds = foldl (\<lambda>a c. 10 * a + (of_char c - 48)) 0 ds"

definition atoi :: "cstring \<Rightarrow> int" where
  "atoi s =
     (let t = dropWhile is_space s;
          neg = (t \<noteq> [] \<and> hd t = CHR ''-'');
          u = (if t \<noteq> [] \<and> (hd t = CHR ''-'' \<or> hd t = CHR ''+'') then tl t else t);
          v = digits_value (takeWhile is_digit u);
          l = (if neg then max (- (2 ^ 63)) (- v) else min (2 ^ 63 - 1) v)
      in sint (word_of_int l :: 32 word))"

lemma digit_char_is_digit: "d < 10 \<Longrightarrow> is_digit (digit_char d) \<and> \<not> is_space (digit_char d)"
proof -
  assume d: "d < 10"
  have "(of_char (CHR '' '') :: nat) = 32" by simp
  with d have "digit_char d \<noteq> CHR '' ''" using digit_char_code[OF d] by auto
  with d show ?thesis by (simp add: is_digit_def is_space_def digit_char_code)
qed

lemma digits_value_snoc: "digits_value (ds @ [c]) = 10 * digits_value ds + (of_char c - 48)"
  by (simp add: digits_value_def)

lemma digits_value_show_nat: "digits_value (show_nat n) = int n"
proof (induction n rule: show_nat.induct)
  case (1 n)
  have code: "(of_char (digit_char d) :: int) = 48 + int d" if "d < 10" for d
    using digit_char_code[OF that] by (metis of_nat_add of_nat_numeral of_nat_of_char)
  show ?case
  proof (cases "n < 10")
    case True
    then show ?thesis by (subst show_nat.simps) (simp add: digits_value_def code)
  next
    case False
    have "digits_value (show_nat (n div 10)) = int (n div 10)" using "1.IH" False by blast
    with False show ?thesis
      by (subst show_nat.simps) (simp add: digits_value_snoc code zdiv_int zmod_int)
  qed
qed

lemma show_nat_hd: "hd (show_nat n) \<noteq> CHR ''-'' \<and> hd (show_nat n) \<noteq> CHR ''+'' \<and> \<not> is_space (hd (show_nat n))"
proof -
  have "hd (show_nat n) \<in> set (show_nat n)" by simp
  then obtain d where d: "d < 10" "hd (show_nat n) = digit_char d" using show_nat_digits by blast
  have "(of_char (CHR ''-'') :: nat) = 45" "(of_char (CHR ''+'') :: nat) = 43" by simp_all
  with d digit_char_code[OF d(1)] digit_char_is_digit[OF d(1)] show ?thesis by auto
qed

lemma length_show_nat: "n < 10 ^ k \<Longrightarrow> 0 < k \<Longrightarrow> length (show_nat n) \<le> k"
proof (induction k arbitrary: n)
  case (Suc k)
  show ?case
  proof (cases "n < 10")
    case True
    then show ?thesis by (subst show_nat.simps) simp
  next
    case False
    then have "0 < k" using Suc.prems by (cases k) auto
    moreover have "n div 10 < 10 ^ k" using Suc.prems(1) by (simp add: less_mult_imp_div_less mult.commute)
    ultimately show ?thesis using Suc.IH[of "n div 10"] False by (subst show_nat.simps) simp
  qed
qed simp

lemma atoi_show_nat:
  assumes "n < 2 ^ 31"
  shows "atoi (show_nat n) = int n"
proof -
  have sp: "dropWhile is_space (show_nat n) = show_nat n"
    using show_nat_hd[of n] by (cases "show_nat n") auto
  have dg: "takeWhile is_digit (show_nat n) = show_nat n"
    using show_nat_digits digit_char_is_digit by (fastforce simp: takeWhile_eq_all_conv)
  have "sint (word_of_int (int n) :: 32 word) = int n"
    using assms sint_sbintrunc'[where 'a = 32, of "int n"] signed_take_bit_int_eq_self[of 31 "int n"]
    by simp
  with assms show ?thesis
    using show_nat_hd[of n] by (simp add: atoi_def Let_def sp dg digits_value_show_nat)
qed

subsection \<open>Case conversion\<close>

definition toupper :: "char \<Rightarrow> char" where
  "toupper c =
     (if 97 \<le> (of_char c :: nat) \<and> (of_char c :: nat) \<le> 122 then char_of (of_char c - 32 :: nat) else c)"

subsection \<open>Internet addresses\<close>

definition is_xdigit :: "char \<Rightarrow> bool" where
  "is_xdigit c \<longleftrightarrow> is_digit c \<or> (65 \<le> (of_char c :: nat) \<and> (of_char c :: nat) \<le> 70)
     \<or> (97 \<le> (of_char c :: nat) \<and> (of_char c :: nat) \<le> 102)"

definition is_odigit :: "char \<Rightarrow> bool" where
  "is_odigit c \<longleftrightarrow> 48 \<le> (of_char c :: nat) \<and> (of_char c :: nat) \<le> 55"

definition xdigit_value :: "char \<Rightarrow> int" where
  "xdigit_value c =
     (let n = of_char c in if n \<le> 57 then n - 48 else if n \<le> 70 then n - 55 else n - 87)"

definition base_value :: "int \<Rightarrow> cstring \<Rightarrow> int" where
  "base_value b ds = foldl (\<lambda>a c. b * a + xdigit_value c) 0 ds"

text \<open>\<open>strtoul\<close> with base 0 on a string that starts with a digit: the value and the rest.\<close>

definition strtoul0 :: "cstring \<Rightarrow> int \<times> cstring" where
  "strtoul0 s =
     (case s of
        CHR ''0'' # x # d # r \<Rightarrow>
          if (x = CHR ''x'' \<or> x = CHR ''X'') \<and> is_xdigit d
          then (base_value 16 (takeWhile is_xdigit (d # r)), dropWhile is_xdigit (d # r))
          else (base_value 8 (takeWhile is_odigit s), dropWhile is_odigit s)
      | CHR ''0'' # r \<Rightarrow> (base_value 8 (takeWhile is_odigit s), dropWhile is_odigit s)
      | _ \<Rightarrow> (base_value 10 (takeWhile is_digit s), dropWhile is_digit s))"

text \<open>
  \<open>inet_aton\<close>: up to four dotted parts, the last one filling the bytes that are left. The
  first argument counts the dots that may still come.
\<close>

fun inet_parts :: "nat \<Rightarrow> cstring \<Rightarrow> (int list \<times> int) option" where
  "inet_parts k s =
     (if s = [] \<or> \<not> is_digit (hd s) then None
      else case strtoul0 s of (v, r) \<Rightarrow>
        (case r of
           [] \<Rightarrow> Some ([], v)
         | d # r' \<Rightarrow>
             if d = CHR ''.''
             then (case k of
                     0 \<Rightarrow> None
                   | Suc k' \<Rightarrow>
                       if v > 255 then None
                       else map_option (\<lambda>(ps, w). (v # ps, w)) (inet_parts k' r'))
             else if is_space d then Some ([], v) else None))"

declare inet_parts.simps [simp del]

definition inet_host :: "cstring \<Rightarrow> 32 word option" where
  "inet_host s =
     (case inet_parts 3 s of
        None \<Rightarrow> None
      | Some (ps, v) \<Rightarrow>
          if v < 256 ^ (4 - length ps)
          then Some (word_of_int (foldl (\<lambda>a p. 256 * a + p) 0 ps * 256 ^ (4 - length ps) + v))
          else None)"

definition bswap32 :: "32 word \<Rightarrow> 32 word" where
  "bswap32 w =
     push_bit 24 (w AND mask 8) OR push_bit 16 (drop_bit 8 w AND mask 8)
     OR push_bit 8 (drop_bit 16 w AND mask 8) OR (drop_bit 24 w AND mask 8)"

definition inet_addr :: "cstring \<Rightarrow> 32 word" where
  "inet_addr s = (case inet_host s of None \<Rightarrow> 0xFFFFFFFF | Some w \<Rightarrow> bswap32 w)"

definition ntohl :: "32 word \<Rightarrow> 32 word" where
  "ntohl w = bswap32 w"

lemma bswap32_bswap32: "bswap32 (bswap32 w) = w"
proof (rule bit_word_eqI)
  fix n
  assume "n < LENGTH(32)"
  then have "n < 32" by simp
  then consider m where "n = m" "m < 8" | m where "n = 8 + m" "m < 8"
    | m where "n = 16 + m" "m < 8" | m where "n = 24 + m" "m < 8"
    by atomize_elim presburger
  then show "bit (bswap32 (bswap32 w)) n = bit w n"
    by cases (auto simp: bswap32_def bit_simps)
qed

text \<open>What the two calls compute together: the address in host order, all ones if it is none.\<close>

lemma ntohl_inet_addr:
  "ntohl (inet_addr s) = (case inet_host s of None \<Rightarrow> 0xFFFFFFFF | Some w \<Rightarrow> w)"
proof -
  have "bswap32 0xFFFFFFFF = 0xFFFFFFFF" by (simp add: bswap32_def mask_eq_exp_minus_1)
  then show ?thesis
    by (simp add: ntohl_def inet_addr_def bswap32_bswap32 split: option.splits)
qed

lemma inet_host_example: "inet_host ''10.0.3.200'' = Some 0x0A0003C8"
  by (simp add: inet_host_def inet_parts.simps strtoul0_def base_value_def is_digit_def is_odigit_def
      is_xdigit_def xdigit_value_def is_space_def)

end
