(* ===== verification/StrReplace.thy ===== *)
theory StrReplace
  imports CLib
begin

text \<open>
  The two substring replacements: \<open>strings_replace_free\<close> of \<^verbatim>\<open>DBRecord/dbrecord.c\<close> with its
  helpers, and \<open>str_replace\<close> of \<^verbatim>\<open>include/paraview/string.c\<close>. The loops search with \<open>strstr\<close>
  until it fails; they are partial functions, whose value \<open>None\<close> says that the loop does not end.
\<close>

subsection \<open>\<open>strings_replace_free\<close>\<close>

partial_function (option) find_strings_count :: "cstring \<Rightarrow> cstring \<Rightarrow> nat option" where
  "find_strings_count p_head pFindStrings =
     (case strstr p_head pFindStrings of
        None \<Rightarrow> Some 0
      | Some i \<Rightarrow>
          do { n \<leftarrow> find_strings_count (drop (i + length pFindStrings) p_head) pFindStrings;
               Some (n + 1) })"

text \<open>The bytes the loop copies to the output from \<open>output_head\<close> on.\<close>

partial_function (option) strings_replace :: "cstring \<Rightarrow> cstring \<Rightarrow> cstring \<Rightarrow> cstring option" where
  "strings_replace input_head pSrc pDst =
     (case strstr input_head pSrc of
        None \<Rightarrow> Some input_head
      | Some lens \<Rightarrow>
          do { r \<leftarrow> strings_replace (drop (lens + length pSrc) input_head) pSrc pDst;
               Some (take lens input_head @ pDst @ r) })"

text \<open>
  The result with the size of its allocation: the string and the number of bytes \<open>malloc\<close> was
  asked for. The copy goes past the allocation when the string and its terminator are longer.
\<close>

definition strings_replace_free :: "cstring \<Rightarrow> cstring \<Rightarrow> cstring \<Rightarrow> (cstring \<times> int) option" where
  "strings_replace_free pStrings pNeedReplace pNew =
     (if strstr pStrings pNeedReplace \<noteq> None then do {
        counts \<leftarrow> find_strings_count pStrings pNeedReplace;
        let len = int (length pNew) - int (length pNeedReplace);
        let malloc_len = int (length pStrings) + int counts * len + 1;
        p_back \<leftarrow> strings_replace pStrings pNeedReplace pNew;
        guard (int (length p_back) < malloc_len);
        Some (p_back, malloc_len)
      } else Some (pStrings, int (length pStrings) + 1))"

subsection \<open>\<open>str_replace\<close>\<close>

text \<open>
  One run of the loop: the rest of the source (with the search string appended), the number of
  occurrences so far, the result so far, the room in \<open>pResult\<close>. A result that does not fit is a
  write past the buffer.
\<close>

partial_function (option) str_replace_loop ::
    "cstring \<Rightarrow> cstring \<Rightarrow> nat \<Rightarrow> cstring \<Rightarrow> nat \<Rightarrow> cstring \<Rightarrow> (nat \<times> cstring) option" where
  "str_replace_loop search replace Len srcStr search_num pResult =
     (case strstr srcStr search of
        None \<Rightarrow> Some (search_num, pResult)
      | Some i \<Rightarrow>
          (let old_sub = take i srcStr;
               rest = drop (length old_sub + length search) srcStr;
               pResult = (if search_num + 1 = 1 then old_sub else pResult @ old_sub)
           in if \<not> length pResult < Len then None
              else if strstr rest search = None then Some (search_num + 1, pResult)
              else if \<not> length (pResult @ replace) < Len then None
              else str_replace_loop search replace Len rest (search_num + 1) (pResult @ replace)))"

definition str_replace :: "cstring \<Rightarrow> cstring \<Rightarrow> cstring \<Rightarrow> nat \<Rightarrow> (nat \<times> cstring) option" where
  "str_replace search replace pSrcStr Len =
     str_replace_loop search replace Len (pSrcStr @ search) 0 []"

subsection \<open>The reference: replacement left to right\<close>

function replace_all :: "cstring \<Rightarrow> cstring \<Rightarrow> cstring \<Rightarrow> cstring" where
  "replace_all p d s =
     (if p = [] then s
      else case strstr s p of
        None \<Rightarrow> s
      | Some i \<Rightarrow> take i s @ d @ replace_all p d (drop (i + length p) s))"
  by pat_completeness auto
termination
  by (relation "measure (\<lambda>(p, d, s). length s)") (use search.found_shorter in \<open>auto simp del: length_drop\<close>)

declare replace_all.simps [simp del]

function occurrences :: "cstring \<Rightarrow> cstring \<Rightarrow> nat" where
  "occurrences p s =
     (if p = [] then 0
      else case strstr s p of
        None \<Rightarrow> 0
      | Some i \<Rightarrow> Suc (occurrences p (drop (i + length p) s)))"
  by pat_completeness auto
termination
  by (relation "measure (\<lambda>(p, s). length s)") (use search.found_shorter in \<open>auto simp del: length_drop\<close>)

declare occurrences.simps [simp del]

lemma find_strings_count_eq: "p \<noteq> [] \<Longrightarrow> find_strings_count s p = Some (occurrences p s)"
proof (induction p s rule: occurrences.induct)
  case (1 p s)
  then show ?case
    by (subst find_strings_count.simps, subst occurrences.simps) (auto split: option.split)
qed

lemma strings_replace_eq: "p \<noteq> [] \<Longrightarrow> strings_replace s p d = Some (replace_all p d s)"
proof (induction p d s rule: replace_all.induct)
  case (1 p d s)
  then show ?case
    by (subst strings_replace.simps, subst replace_all.simps) (auto split: option.split)
qed

lemma length_replace_all:
  "p \<noteq> [] \<Longrightarrow> int (length (replace_all p d s))
     = int (length s) + int (occurrences p s) * (int (length d) - int (length p))"
proof (induction p d s rule: replace_all.induct)
  case (1 p d s)
  show ?case
  proof (cases "strstr s p")
    case None
    then show ?thesis using 1 by (simp add: replace_all.simps[of p d s] occurrences.simps[of p s])
  next
    case (Some i)
    have "int (length (replace_all p d (drop (i + length p) s)))
        = int (length (drop (i + length p) s)) + int (occurrences p (drop (i + length p) s)) * (int (length d) - int (length p))"
      using 1 Some by blast
    then show ?thesis
      using 1 Some strstr_Some_le[OF Some]
      by (simp add: replace_all.simps[of p d s] occurrences.simps[of p s] of_nat_diff algebra_simps)
  qed
qed

lemma find_strings_count_empty: "find_strings_count s [] = None"
proof -
  have "find_strings_count s p = Some n \<Longrightarrow> p \<noteq> []" for s p n
    by (rule find_strings_count.raw_induct[where P = "\<lambda>s p n. p \<noteq> []"])
      (fastforce split: option.splits elim!: bind_SomeE)+
  then show ?thesis by fastforce
qed

lemma strings_replace_free_empty: "strings_replace_free s [] d = None"
  by (simp add: strings_replace_free_def find_strings_count_empty)

subsection \<open>The closed loop of \<open>str_replace\<close>\<close>

text \<open>No proper prefix of the search string is also a suffix of it.\<close>

definition borderless :: "cstring \<Rightarrow> bool" where
  "borderless p \<longleftrightarrow> (\<forall>k\<in>{1..<length p}. take k p \<noteq> drop (length p - k) p)"

lemma strstr_closed:
  assumes "p \<noteq> []" and "borderless p"
  shows "strstr (s @ p) p = (case strstr s p of None \<Rightarrow> Some (length s) | Some i \<Rightarrow> Some i)"
proof -
  obtain i where i: "strstr (s @ p) p = Some i"
  proof -
    have "sublist p (s @ p)" unfolding sublist_def by (intro exI[of _ s] exI[of _ "[]"]) simp
    then show ?thesis using strstr_None[of "s @ p" p] that by auto
  qed
  have le: "i \<le> length s"
    using strstr_Some_le[OF i] by simp
  have pre: "prefix p (drop i (s @ p))" by (rule strstr_Some_prefix[OF i])
  have "i = length s \<or> i + length p \<le> length s"
  proof (rule ccontr)
    assume "\<not> ?thesis"
    with le have k: "0 < length s - i" "length s - i < length p" by auto
    from pre le obtain r where "drop i s @ p = p @ r" by (auto simp: prefix_def)
    then have "drop (length s - i) p = take (length p - (length s - i)) p"
      using k(2) by (metis append_eq_conv_conj drop_append length_drop diff_is_0_eq' drop_0 less_imp_le take_append take_all_iff
          append_take_drop_id length_take min.absorb4 order_refl append_eq_append_conv)
    then have "take (length p - (length s - i)) p = drop (length p - (length p - (length s - i))) p"
      using k by simp
    moreover have "length p - (length s - i) \<in> {1..<length p}" using k by auto
    ultimately show False using assms(2) unfolding borderless_def by blast
  qed
  then show ?thesis
  proof
    assume e: "i = length s"
    have "strstr s p = None"
    proof (rule ccontr)
      assume "strstr s p \<noteq> None"
      then obtain j where j: "strstr s p = Some j" by blast
      from strstr_Some_le[OF j] have "j < i" using assms(1) e by (cases p) auto
      moreover have "prefix p (drop j (s @ p))"
        using strstr_Some_prefix[OF j] strstr_Some_le[OF j] by (auto intro: prefix_prefix)
      ultimately show False using strstr_Some_first[OF i] by blast
    qed
    with i e show ?thesis by simp
  next
    assume b: "i + length p \<le> length s"
    have "strstr s p = Some i"
    proof (rule strstr_intro)
      show "prefix p (drop i s)" 
        by (rule prefix_length_prefix[of _ "drop i s @ p"]) (use pre b le in auto)
      show "i \<le> length s" by (rule le)
      show "\<not> prefix p (drop j s)" if "j < i" for j
        using strstr_Some_first[OF i that] that le by (auto intro: prefix_prefix)
    qed
    with i show ?thesis by simp
  qed
qed

lemma strstr_self: "p \<noteq> [] \<Longrightarrow> strstr (s @ p) p \<noteq> None"
  by (metis strstr_None sublist_append_leftI sublist_order.order_refl)

lemma str_replace_loop_eval:
  assumes "p \<noteq> []" and "borderless p" and "n = 0 \<longrightarrow> acc = []"
    and "length (acc @ replace_all p d s) < L"
  shows "str_replace_loop p d L (s @ p) n acc = Some (n + occurrences p s + 1, acc @ replace_all p d s)"
  using assms(3,4)
proof (induction s arbitrary: n acc rule: length_induct)
  case (1 s)
  have acc: "(if n + 1 = 1 then x else acc @ x) = acc @ x" for x using "1.prems"(1) by auto
  show ?case
  proof (cases "strstr s p")
    case None
    moreover from None have "strstr (s @ p) p = Some (length s)"
      using strstr_closed[OF assms(1,2), of s] by simp
    ultimately show ?thesis
      using "1.prems" assms(1) acc
      by (subst str_replace_loop.simps) (simp add: Let_def replace_all.simps[of p d s] occurrences.simps[of p s])
  next
    case (Some i)
    let ?r = "drop (i + length p) s"
    have c: "strstr (s @ p) p = Some i" using strstr_closed[OF assms(1,2), of s] Some by simp
    have le: "i + length p \<le> length s" using strstr_Some_le[OF Some] .
    have r: "replace_all p d s = take i s @ d @ replace_all p d ?r" "occurrences p s = Suc (occurrences p ?r)"
      using Some assms(1) by (simp_all add: replace_all.simps[of p d s] occurrences.simps[of p s])
    have drp: "drop (i + length p) (s @ p) = ?r @ p" "length (take i (s @ p)) = i" "take i (s @ p) = take i s"
      using le by simp_all
    have "length ?r < length s" using le assms(1) by (cases p) auto
    with "1.IH" have IH: "str_replace_loop p d L (?r @ p) (n + 1) (acc @ take i s @ d)
        = Some (n + 1 + occurrences p ?r + 1, (acc @ take i s @ d) @ replace_all p d ?r)"
      using "1.prems"(2) r(1) by simp
    have mi: "min (length s) i = i" "i - length s = 0" "i + length p - length s = 0" using le by simp_all
    show ?thesis
      using "1.prems"(2) r IH strstr_self[OF assms(1), of ?r] acc c assms(1)
      by (subst str_replace_loop.simps) (simp add: Let_def mi)
  qed
qed

subsection \<open>Properties\<close>

text \<open>For a search string that is not empty, \<open>strings_replace_free\<close> ends, replaces the
  occurrences from left to right, and its result fills the memory it asked for exactly; for an
  empty search string \<open>strstr\<close> always succeeds and the loop does not end.\<close>

theorem strings_replace_free_result:
  "strings_replace_free s p d =
     (if p = [] then None else Some (replace_all p d s, int (length (replace_all p d s)) + 1))"
proof (cases "p = []")
  case False
  show ?thesis
  proof (cases "strstr s p")
    case None
    with False show ?thesis by (simp add: strings_replace_free_def replace_all.simps[of p d s])
  next
    case (Some i)
    with False show ?thesis
      by (simp add: strings_replace_free_def find_strings_count_eq strings_replace_eq Let_def length_replace_all)
  qed
qed (simp add: strings_replace_free_empty)

text \<open>C17: \<open>str_replace\<close> agrees with left to right replacement when the search string does not
  overlap itself and the result fits, and returns one more than the number of replacements.\<close>

theorem str_replace_result:
  assumes "p \<noteq> []" and "borderless p" and "length (replace_all p d s) < L"
  shows "str_replace p d s L = Some (occurrences p s + 1, replace_all p d s)"
  using str_replace_loop_eval[OF assms(1,2), of 0 "[]" d s L] assms(3) by (simp add: str_replace_def)

theorem str_replace_result_witness:
  "str_replace ''ab'' ''X'' ''1ab2'' 10 = Some (2, ''1X2'')"
  using str_replace_result[of "''ab''" "''X''" "''1ab2''" 10]
  by (simp add: borderless_def atLeastLessThan_nat_numeral replace_all.simps occurrences.simps)

text \<open>The search string \<open>str_replace\<close> appends to close its loop can match across the end of
  the source: then characters of the source are lost, though nothing was to be replaced.\<close>

theorem str_replace_overlap:
  "str_replace ''aa'' ''X'' ''ba'' 10 = Some (1, ''b'') \<and> occurrences ''aa'' ''ba'' = 0
   \<and> replace_all ''aa'' ''X'' ''ba'' = ''ba''"
  by (simp add: str_replace_def str_replace_loop.simps replace_all.simps occurrences.simps)

end
