(* ===== verification/StrSplit.thy ===== *)
theory StrSplit
  imports CLib
begin

text \<open>
  \<open>strsplit\<close> and \<open>FindDBTable\<close> of \<^verbatim>\<open>DBRecord/DBoperate.c\<close> (lines 1568 to 1774): cutting a
  string at the first occurrence of any of several separators, and the search for a command
  followed by a table name in an SQL text. Allocation does not fail here, so the result -2 of
  \<open>strsplit\<close> does not occur; a null pointer is \<open>None\<close>.
\<close>

subsection \<open>\<open>strsplit\<close>\<close>

text \<open>
  The search for the next separator: where the first one starts, where it ends (both at the end
  of the string when there is none), and whether there is one. Of several that start at the same
  place the first in the list counts.
\<close>

definition next_separator :: "cstring \<Rightarrow> cstring list \<Rightarrow> nat \<times> nat \<times> bool" where
  "next_separator look_ahead separator =
     foldl (\<lambda>(start, stop, found) sep.
         case strstr look_ahead sep of
           None \<Rightarrow> (start, stop, found)
         | Some separator_start \<Rightarrow>
             if separator_start < start
             then (separator_start, separator_start + length sep, True)
             else (start, stop, True))
       (length look_ahead, length look_ahead, False) separator"

partial_function (option) strsplit_loop ::
    "cstring list \<Rightarrow> int \<Rightarrow> int \<Rightarrow> cstring \<Rightarrow> int \<Rightarrow> cstring list \<Rightarrow> (int \<times> cstring list) option" where
  "strsplit_loop separator compress_separator keep_separator look_ahead rtn result =
     (if look_ahead = [] then Some (rtn, result)
      else case next_separator look_ahead separator of (start, stop, find_a_separator) \<Rightarrow>
        let rtn = (if find_a_separator then 1 else rtn);
            find_a_string = (start \<noteq> 0);
            word = (if find_a_string then [take start look_ahead]
                    else if compress_separator > 0 then [] else [[]]);
            sep = (if keep_separator > 0 then [take (stop - start) (drop start look_ahead)] else [])
        in strsplit_loop separator compress_separator keep_separator (drop stop look_ahead) rtn
             (result @ word @ sep))"

definition strsplit :: "cstring option \<Rightarrow> cstring option list \<Rightarrow> int \<Rightarrow> int \<Rightarrow> (int \<times> cstring list) option" where
  "strsplit s_str separator compress_separator keep_separator =
     (if s_str = None \<or> s_str = Some [] \<or> separator = [] \<or> compress_separator < 0 \<or> keep_separator < 0
      then Some (-1, [])
      else if None \<in> set separator \<or> Some [] \<in> set separator then Some (-1, [])
      else strsplit_loop (map the separator) compress_separator keep_separator (the s_str) 0 [])"

subsection \<open>\<open>FindDBTable\<close>\<close>

fun find_adjacent :: "cstring list \<Rightarrow> cstring \<Rightarrow> cstring \<Rightarrow> int" where
  "find_adjacent (r # r' # rs) cmd table =
     (if length r = length cmd \<and> contains r cmd then
        (if contains r' table then 1 else find_adjacent (r' # rs) cmd table)
      else
        (if contains r cmd \<and> contains r' table then 1 else find_adjacent (r' # rs) cmd table))"
| "find_adjacent rs cmd table = 0"

definition sql_keywords :: "cstring list" where
  "sql_keywords = [''SELECT'', ''INSERT'', ''UPDATE'', ''DELETE'']"

definition FindDBTable :: "cstring \<Rightarrow> cstring \<Rightarrow> cstring \<Rightarrow> int option" where
  "FindDBTable sql cmd table =
     do {
       (i, result) \<leftarrow> strsplit (Some sql) (map Some sql_keywords) 1 1;
       Some (if i = 1 then find_adjacent result cmd table
             else if contains sql cmd \<and> contains sql table then 1 else 0)
     }"

subsection \<open>The next separator\<close>

definition sep_inv :: "cstring \<Rightarrow> cstring list \<Rightarrow> nat \<times> nat \<times> bool \<Rightarrow> bool" where
  "sep_inv s seps r \<longleftrightarrow>
     (case r of (start, stop, found) \<Rightarrow>
        start \<le> stop \<and> stop \<le> length s
        \<and> (found \<longleftrightarrow> (\<exists>p\<in>set seps. sublist p s))
        \<and> (if found then \<exists>p\<in>set seps. strstr s p = Some start \<and> stop = start + length p
           else start = length s \<and> stop = length s)
        \<and> (\<forall>p\<in>set seps. \<forall>j. strstr s p = Some j \<longrightarrow> start \<le> j))"

lemma next_separator_inv:
  assumes "\<forall>p\<in>set seps. p \<noteq> []"
  shows "sep_inv s seps (next_separator s seps)"
  using assms
proof (induction seps rule: rev_induct)
  case Nil
  then show ?case by (simp add: next_separator_def sep_inv_def)
next
  case (snoc p seps)
  obtain a b f where r: "next_separator s seps = (a, b, f)" by (cases "next_separator s seps")
  with snoc have inv: "sep_inv s seps (a, b, f)" by simp
  show ?case
  proof (cases "strstr s p")
    case None
    then have "next_separator s (seps @ [p]) = (a, b, f)" using r by (simp add: next_separator_def)
    with None inv strstr_None[of s p] show ?thesis by (auto simp: sep_inv_def)
  next
    case (Some j)
    then have n: "next_separator s (seps @ [p]) = (if j < a then (j, j + length p, True) else (a, b, True))"
      using r by (simp add: next_separator_def)
    have sub: "sublist p s" using search.found_sublist[OF Some] .
    have le: "j + length p \<le> length s" using strstr_Some_le[OF Some] .
    have "p \<noteq> []" using snoc.prems by simp
    then have "f" if "\<not> j < a" using that inv le by (cases p) (auto simp: sep_inv_def split: if_splits)
    with inv Some sub le n show ?thesis by (auto simp: sep_inv_def)
  qed
qed

lemma next_separator_progress:
  assumes "\<forall>p\<in>set seps. p \<noteq> []" and "s \<noteq> []" and "next_separator s seps = (a, b, f)"
  shows "0 < b"
proof -
  have inv: "sep_inv s seps (a, b, f)" using next_separator_inv[OF assms(1), of s] assms(3) by simp
  show ?thesis
  proof (cases f)
    case True
    then obtain p where "p \<in> set seps" "b = a + length p" using inv by (auto simp: sep_inv_def)
    with assms(1) show ?thesis by fastforce
  next
    case False
    with inv assms(2) show ?thesis by (simp add: sep_inv_def)
  qed
qed

lemma strstr_occurs:
  assumes "prefix p (drop j s)" and "j \<le> length s"
  shows "\<exists>i\<le>j. strstr s p = Some i"
proof -
  have "sublist p s"
    using assms(1) by (metis append_take_drop_id prefix_imp_sublist sublist_append_leftI sublist_order.order_trans)
  then obtain i where i: "strstr s p = Some i" using strstr_None[of s p] by auto
  have "i \<le> j" using strstr_Some_first[OF i, of j] assms(1) by (meson not_le)
  with i show ?thesis by blast
qed

lemma word_no_separator:
  assumes seps: "\<forall>p\<in>set seps. p \<noteq> []" and r: "next_separator s seps = (a, b, f)" and p: "p \<in> set seps"
  shows "\<not> sublist p (take a s)"
proof
  assume "sublist p (take a s)"
  then obtain j where j: "strstr (take a s) p = Some j" using strstr_None[of "take a s" p] by auto
  have inv: "sep_inv s seps (a, b, f)" using next_separator_inv[OF seps, of s] r by simp
  have le: "j + length p \<le> a" and le2: "a \<le> length s"
    using strstr_Some_le[OF j] inv by (auto simp: sep_inv_def)
  have "prefix p (drop j s)"
    using strstr_Some_prefix[OF j] by (metis drop_take prefix_order.trans take_is_prefix)
  moreover have "j \<le> length s" using le le2 by linarith
  ultimately obtain i where i: "i \<le> j" "strstr s p = Some i" using strstr_occurs by blast
  with inv p have "a \<le> i" by (simp add: sep_inv_def)
  moreover have "0 < length p" using seps p by simp
  ultimately show False using le i(1) by linarith
qed

text \<open>What one turn adds to the result.\<close>

definition split_turn :: "int \<Rightarrow> int \<Rightarrow> nat \<Rightarrow> nat \<Rightarrow> cstring \<Rightarrow> cstring list" where
  "split_turn c k start stop s =
     (if start \<noteq> 0 then [take start s] else if c > 0 then [] else [[]])
     @ (if k > 0 then [take (stop - start) (drop start s)] else [])"

lemma strsplit_loop_step:
  "s \<noteq> [] \<Longrightarrow> next_separator s seps = (a, b, f) \<Longrightarrow>
   strsplit_loop seps c k s rtn acc
   = strsplit_loop seps c k (drop b s) (if f then 1 else rtn) (acc @ split_turn c k a b s)"
  by (subst strsplit_loop.simps) (simp add: split_turn_def Let_def)

lemma split_turn_concat:
  assumes "k > 0" and "a \<le> b"
  shows "concat (split_turn c k a b s) = take b s"
proof -
  have "take a s @ take (b - a) (drop a s) = take b s"
    using assms(2) by (metis le_add_diff_inverse take_add)
  then show ?thesis using assms(1) by (auto simp: split_turn_def)
qed

text \<open>The loop ends, whatever the options; its result is characterised below.\<close>

lemma strsplit_loop_total:
  assumes seps: "\<forall>p\<in>set seps. p \<noteq> []"
  shows "\<exists>ws. strsplit_loop seps c k s rtn acc
        = Some (if \<exists>p\<in>set seps. sublist p s then 1 else rtn, acc @ ws)
    \<and> (k > 0 \<longrightarrow> concat ws = s)
    \<and> (k \<le> 0 \<longrightarrow> (\<forall>w\<in>set ws. \<forall>p\<in>set seps. \<not> sublist p w))
    \<and> (c > 0 \<and> k \<le> 0 \<longrightarrow> [] \<notin> set ws)"
proof (induction s arbitrary: rtn acc rule: length_induct)
  case (1 s)
  show ?case
  proof (cases "s = []")
    case True
    then show ?thesis using seps by (subst strsplit_loop.simps) auto
  next
    case False
    obtain a b f where r: "next_separator s seps = (a, b, f)" by (cases "next_separator s seps")
    have inv: "sep_inv s seps (a, b, f)" using next_separator_inv[OF seps, of s] r by simp
    have b: "0 < b" "a \<le> b" using next_separator_progress[OF seps False r] inv by (auto simp: sep_inv_def)
    let ?t = "drop b s"
    have "length ?t < length s" using b False by simp
    with "1.IH" obtain ws where ws: "strsplit_loop seps c k ?t (if f then 1 else rtn) (acc @ split_turn c k a b s)
        = Some (if \<exists>p\<in>set seps. sublist p ?t then 1 else (if f then 1 else rtn), (acc @ split_turn c k a b s) @ ws)"
      "k > 0 \<longrightarrow> concat ws = ?t" "k \<le> 0 \<longrightarrow> (\<forall>w\<in>set ws. \<forall>p\<in>set seps. \<not> sublist p w)"
      "c > 0 \<and> k \<le> 0 \<longrightarrow> [] \<notin> set ws"
      by blast
    have f: "f \<longleftrightarrow> (\<exists>p\<in>set seps. sublist p s)" using inv by (auto simp: sep_inv_def)
    have "?t = []" if "\<not> f" using that inv by (simp add: sep_inv_def)
    then have "(if \<exists>p\<in>set seps. sublist p ?t then 1 else (if f then 1 else rtn)) = (if f then 1 else rtn)"
      using seps by auto
    then have "strsplit_loop seps c k s rtn acc
        = Some (if \<exists>p\<in>set seps. sublist p s then 1 else rtn, acc @ (split_turn c k a b s @ ws))"
      using ws(1) f strsplit_loop_step[OF False r, of c k rtn acc] by simp
    moreover have "k > 0 \<longrightarrow> concat (split_turn c k a b s @ ws) = s"
      using ws(2) split_turn_concat[OF _ b(2), of k c s] by simp
    moreover have "k \<le> 0 \<longrightarrow> (\<forall>w\<in>set (split_turn c k a b s @ ws). \<forall>p\<in>set seps. \<not> sublist p w)"
      using ws(3) word_no_separator[OF seps r] seps by (auto simp: split_turn_def)
    moreover have "c > 0 \<and> k \<le> 0 \<longrightarrow> [] \<notin> set (split_turn c k a b s @ ws)"
      using ws(4) False by (auto simp: split_turn_def)
    ultimately show ?thesis by blast
  qed
qed

lemma find_adjacent_iff:
  "find_adjacent rs cmd table =
     (if \<exists>i. Suc i < length rs \<and> contains (rs ! i) cmd \<and> contains (rs ! Suc i) table then 1 else 0)"
proof (induction rs cmd table rule: find_adjacent.induct)
  case (1 r r' rs cmd table)
  have "(\<exists>i. Suc i < length (r # r' # rs) \<and> contains ((r # r' # rs) ! i) cmd \<and> contains ((r # r' # rs) ! Suc i) table)
    \<longleftrightarrow> (contains r cmd \<and> contains r' table)
      \<or> (\<exists>i. Suc i < length (r' # rs) \<and> contains ((r' # rs) ! i) cmd \<and> contains ((r' # rs) ! Suc i) table)"
    (is "?l \<longleftrightarrow> ?r")
  proof
    assume ?l
    then obtain i where i: "Suc i < length (r # r' # rs)" "contains ((r # r' # rs) ! i) cmd" "contains ((r # r' # rs) ! Suc i) table"
      by blast
    then show ?r by (cases i) auto
  next
    assume ?r
    then show ?l by (metis Suc_less_eq length_Cons nth_Cons_0 nth_Cons_Suc zero_less_Suc)
  qed
  with 1 show ?case by (simp only: find_adjacent.simps) (auto split: if_splits)
qed simp_all

lemma FindDBTable_total: "\<exists>r. FindDBTable sql cmd table = Some r \<and> (r = 0 \<or> r = 1)"
proof -
  have "\<forall>p\<in>set sql_keywords. p \<noteq> []" by (simp add: sql_keywords_def)
  from strsplit_loop_total[OF this, of 1 1 sql 0 "[]"] show ?thesis
    by (auto simp: FindDBTable_def strsplit_def comp_def find_adjacent_iff sql_keywords_def)
qed

subsection \<open>Properties\<close>

text \<open>\<open>strsplit\<close> returns for every input; it refuses empty input and empty separators; it
  returns 1 exactly when a separator occurs; with the separators kept, the pieces concatenate to
  the input; without them no piece contains a separator, nor is empty when compressing.\<close>

theorem strsplit_result:
  "if s = [] \<or> seps = [] \<or> c < 0 \<or> k < 0 \<or> [] \<in> set seps then strsplit (Some s) (map Some seps) c k = Some (-1, [])
   else \<exists>ws. strsplit (Some s) (map Some seps) c k
        = Some (if \<exists>p\<in>set seps. contains s p then 1 else 0, ws)
      \<and> (if k > 0 then concat ws = s
         else (\<forall>w\<in>set ws. \<forall>p\<in>set seps. \<not> contains w p) \<and> (c > 0 \<longrightarrow> [] \<notin> set ws))"
proof (cases "s = [] \<or> seps = [] \<or> c < 0 \<or> k < 0 \<or> [] \<in> set seps")
  case True
  then show ?thesis by (auto simp: strsplit_def)
next
  case False
  then have "\<forall>p\<in>set seps. p \<noteq> []" by auto
  from strsplit_loop_total[OF this, of c k s 0 "[]"] False show ?thesis
    by (auto simp: strsplit_def contains_sublist comp_def)
qed

theorem strsplit_result_witness:
  "\<exists>ws. strsplit (Some ''a,b'') [Some '',''] 0 0 = Some (1, ws) \<and> (\<forall>w\<in>set ws. \<not> contains w '','')"
  using strsplit_result[of "''a,b''" "['','']" 0 0] by (auto simp: contains_def)

text \<open>C18: \<open>FindDBTable\<close> returns for every non-empty statement. Without one of the four keywords it
  looks for the command and the table anywhere; with one it requires the command in one piece and
  the table in the next piece, never both in the same piece.\<close>

theorem FindDBTable_result:
  assumes "sql \<noteq> []"
  shows "\<exists>ws. strsplit (Some sql) (map Some sql_keywords) 1 1
      = Some (if \<exists>p\<in>set sql_keywords. contains sql p then 1 else 0, ws) \<and> concat ws = sql
    \<and> FindDBTable sql cmd table = Some
       (if \<exists>p\<in>set sql_keywords. contains sql p
        then (if \<exists>i. Suc i < length ws \<and> contains (ws ! i) cmd \<and> contains (ws ! Suc i) table then 1 else 0)
        else (if contains sql cmd \<and> contains sql table then 1 else 0))"
proof -
  have "\<forall>p\<in>set sql_keywords. p \<noteq> []" by (simp add: sql_keywords_def)
  from strsplit_loop_total[OF this, of 1 1 sql 0 "[]"] assms obtain ws where
    "strsplit (Some sql) (map Some sql_keywords) 1 1 = Some (if \<exists>p\<in>set sql_keywords. contains sql p then 1 else 0, ws)"
    "concat ws = sql"
    by (auto simp: strsplit_def contains_sublist comp_def sql_keywords_def)
  then show ?thesis by (auto simp: FindDBTable_def find_adjacent_iff)
qed

theorem FindDBTable_result_witness:
  "\<exists>ws. concat ws = ''DROP TABLE T'' \<and> FindDBTable ''DROP TABLE T'' ''DROP'' ''T'' = Some 1"
  using FindDBTable_result[of "''DROP TABLE T''" "''DROP''" "''T''"]
  by (auto simp: contains_def sql_keywords_def)

text \<open>A rule on a command that is not one of the four keywords is escaped by putting a keyword
  in the same statement text: the command and its table are then in one piece.\<close>

theorem FindDBTable_escape:
  "FindDBTable ''DROP TABLE T'' ''DROP'' ''T'' = Some 1
   \<and> FindDBTable ''SELECT 1;DROP TABLE T'' ''DROP'' ''T'' = Some 0"
  by (simp add: FindDBTable_def strsplit_def sql_keywords_def strsplit_loop.simps next_separator_def contains_def)

end
