(* ===== verification/Policy.thy ===== *)
theory Policy
  imports StrSplit "HOL-Library.Product_Lexorder"
begin

text \<open>
  The access rules of \<^verbatim>\<open>DBRecord/DBoperate.c\<close>: the address, protocol, command and time checks
  (lines 1529 to 1871) and the audit level of a command (2440 to 2452).

  A rule list and its length are one list. A null policy is \<open>None\<close>. The checks return 0 for
  "allowed" and 1 for "denied". The local time is an argument.
\<close>

subsection \<open>Rules\<close>

record ncl_item =
  ncl_startIp :: cstring
  ncl_endIp :: cstring

record pcl_item =
  pcl_name :: cstring
  pcl_code :: int

record ccl_item =
  ccl_command :: cstring
  ccl_type :: int
  ccl_table :: cstring

record tcl_item =
  tcl_cycleFlag :: int
  tcl_cycleLimit :: cstring
  tcl_statTime :: cstring
  tcl_endTime :: cstring
  tcl_timeFlag :: int
  tcl_startDate :: cstring

record Policy =
  pr_prolicyroleitem_id :: cstring
  pNclItem :: "ncl_item list"
  pPclItem :: "pcl_item list"
  pCclItem :: "ccl_item list"
  pTclItem :: "tcl_item list"

subsection \<open>Addresses\<close>

fun ncl_scan :: "cstring \<Rightarrow> ncl_item list \<Rightarrow> int" where
  "ncl_scan Ip [] = 1"
| "ncl_scan Ip (item # items) =
     (if ntohl (inet_addr Ip) \<ge> ntohl (inet_addr (ncl_startIp item))
         \<and> ntohl (inet_addr Ip) \<le> ntohl (inet_addr (ncl_endIp item))
      then 0 else ncl_scan Ip items)"

definition MatchNclItem :: "Policy option \<Rightarrow> cstring \<Rightarrow> int" where
  "MatchNclItem pPolicy Ip =
     (case pPolicy of None \<Rightarrow> 0
      | Some p \<Rightarrow> if int (length (pNclItem p)) \<le> 0 then 0 else ncl_scan Ip (pNclItem p))"

subsection \<open>Protocols\<close>

fun pcl_scan :: "int \<Rightarrow> pcl_item list \<Rightarrow> int" where
  "pcl_scan code [] = 1"
| "pcl_scan code (item # items) =
     (if code = 502 then
        (if pcl_code item = code \<or> pcl_code item = 201 \<or> pcl_code item = 202 then 0
         else pcl_scan code items)
      else if pcl_code item = code then 0 else pcl_scan code items)"

definition MatchPclItem :: "Policy option \<Rightarrow> int \<Rightarrow> int" where
  "MatchPclItem pPolicy code =
     (case pPolicy of None \<Rightarrow> 0
      | Some p \<Rightarrow> if int (length (pPclItem p)) \<le> 0 then 0 else pcl_scan code (pPclItem p))"

subsection \<open>Commands\<close>

definition islower :: "char \<Rightarrow> bool" where
  "islower c \<longleftrightarrow> 97 \<le> (of_char c :: nat) \<and> (of_char c :: nat) \<le> 122"

definition strupr :: "cstring \<Rightarrow> cstring" where
  "strupr s = map (\<lambda>c. if islower c then toupper c else c) s"

fun any_table :: "cstring \<Rightarrow> cstring \<Rightarrow> cstring list \<Rightarrow> bool option" where
  "any_table mycmd command [] = Some False"
| "any_table mycmd command (param # params) =
     do { r \<leftarrow> FindDBTable mycmd command param;
          if r = 1 then Some True else any_table mycmd command params }"

text \<open>Whether one rule applies; \<open>tname\<close> has 1024 bytes.\<close>

definition ccl_hit :: "cstring \<Rightarrow> ccl_item \<Rightarrow> bool option" where
  "ccl_hit mycmd item =
     (let tname = ccl_table item
      in if \<not> length tname < 1024 then None
         else if length tname \<le> 0 then Some (contains mycmd (ccl_command item))
         else any_table mycmd (ccl_command item) (tokens '','' tname))"

fun ccl_scan :: "cstring \<Rightarrow> int \<Rightarrow> ccl_item list \<Rightarrow> int option" where
  "ccl_scan mycmd rtn [] = Some rtn"
| "ccl_scan mycmd rtn (item # items) =
     do { hit \<leftarrow> ccl_hit mycmd item;
          if hit then (if rtn = 0 then Some 1 else Some 0) else ccl_scan mycmd rtn items }"

text \<open>Type 1 is a list of forbidden commands, type 2 of allowed ones; \<open>mycmd\<close> has 10240 bytes.\<close>

definition MatchCclItem :: "Policy option \<Rightarrow> cstring \<Rightarrow> int \<Rightarrow> int option" where
  "MatchCclItem pPolicy cmd type =
     (case pPolicy of None \<Rightarrow> Some 0
      | Some p \<Rightarrow>
          if int (length (pCclItem p)) \<le> 0 then Some 0
          else
            let rtn = (if type = 1 then 0 else if type = 2 then 1 else 0)
            in if \<not> length cmd < 10240 then None
               else ccl_scan (strupr cmd) rtn (pCclItem p))"

subsection \<open>Times\<close>

definition timenow :: "int \<times> int \<times> int \<Rightarrow> cstring" where
  "timenow now = (case now of (h, n, s) \<Rightarrow> fmt_0d 2 h @ '':'' @ fmt_0d 2 n @ '':'' @ fmt_0d 2 s)"

fun tcl_scan :: "cstring \<Rightarrow> tcl_item list \<Rightarrow> int" where
  "tcl_scan now [] = 1"
| "tcl_scan now (item # items) =
     (if strcmp (tcl_statTime item) now \<le> 0 \<and> strcmp (tcl_endTime item) now \<ge> 0
      then 0 else tcl_scan now items)"

definition MatchTclItem :: "int \<times> int \<times> int \<Rightarrow> Policy option \<Rightarrow> int" where
  "MatchTclItem now pPolicy =
     (case pPolicy of None \<Rightarrow> 0
      | Some p \<Rightarrow>
          if int (length (pTclItem p)) \<le> 0 then 0 else tcl_scan (timenow now) (pTclItem p))"

subsection \<open>Audit levels\<close>

fun level_scan :: "cstring \<Rightarrow> (int \<times> cstring) list \<Rightarrow> int" where
  "level_scan mycmd [] = 0"
| "level_scan mycmd ((level, cmd) # rest) =
     (if contains mycmd cmd then level else level_scan mycmd rest)"

text \<open>\<open>mycmd\<close> has 512 bytes.\<close>

definition FindLevelCmd :: "(int \<times> cstring) list \<Rightarrow> cstring \<Rightarrow> int option" where
  "FindLevelCmd levelcmd cmd =
     (if \<not> length cmd < 512 then None else Some (level_scan (strupr cmd) levelcmd))"

subsection \<open>The contract of a check\<close>

text \<open>
  The address, protocol and time checks are one check on three kinds of rules: a missing policy
  and an empty list allow everything, otherwise one rule has to allow the request.
\<close>

locale policy_check =
  fixes sel :: "Policy \<Rightarrow> 'i list" and allow :: "'i \<Rightarrow> 'q \<Rightarrow> bool"
    and check :: "Policy option \<Rightarrow> 'q \<Rightarrow> int"
  assumes no_policy: "check None q = 0"
    and no_rules: "sel p = [] \<Longrightarrow> check (Some p) q = 0"
    and rules: "sel p \<noteq> [] \<Longrightarrow> check (Some p) q = (if \<exists>i\<in>set (sel p). allow i q then 0 else 1)"
begin

lemma check_iff: "check (Some p) q = 0 \<longleftrightarrow> sel p = [] \<or> (\<exists>i\<in>set (sel p). allow i q)"
  by (cases "sel p = []") (simp_all add: no_rules rules)

lemma check_01: "check P q = 0 \<or> check P q = 1"
proof (cases P)
  case (Some p)
  then show ?thesis by (cases "sel p = []") (simp_all add: no_rules rules)
qed (simp add: no_policy)

lemma check_more: "sel p \<noteq> [] \<Longrightarrow> set (sel p) \<subseteq> set (sel p') \<Longrightarrow> check (Some p) q = 0 \<Longrightarrow> check (Some p') q = 0"
  by (auto simp: check_iff)

lemma check_same_rules: "set (sel p) = set (sel p') \<Longrightarrow> check (Some p) q = check (Some p') q"
  by (metis check_01 check_iff set_empty)

end

definition ncl_allow :: "ncl_item \<Rightarrow> cstring \<Rightarrow> bool" where
  "ncl_allow i ip \<longleftrightarrow> ntohl (inet_addr (ncl_startIp i)) \<le> ntohl (inet_addr ip)
     \<and> ntohl (inet_addr ip) \<le> ntohl (inet_addr (ncl_endIp i))"

definition pcl_allow :: "pcl_item \<Rightarrow> int \<Rightarrow> bool" where
  "pcl_allow i code \<longleftrightarrow> pcl_code i = code \<or> code = 502 \<and> pcl_code i \<in> {201, 202}"

definition tcl_allow :: "tcl_item \<Rightarrow> int \<times> int \<times> int \<Rightarrow> bool" where
  "tcl_allow i now \<longleftrightarrow> strcmp (tcl_statTime i) (timenow now) \<le> 0 \<and> strcmp (tcl_endTime i) (timenow now) \<ge> 0"

lemma ncl_scan_iff: "ncl_scan ip items = (if \<exists>i\<in>set items. ncl_allow i ip then 0 else 1)"
  by (induction items) (auto simp: ncl_allow_def)

lemma pcl_scan_iff: "pcl_scan code items = (if \<exists>i\<in>set items. pcl_allow i code then 0 else 1)"
  by (induction items) (auto simp: pcl_allow_def)

lemma tcl_scan_iff: "tcl_scan (timenow now) items = (if \<exists>i\<in>set items. tcl_allow i now then 0 else 1)"
  by (induction items) (auto simp: tcl_allow_def)

interpretation ncl: policy_check pNclItem ncl_allow MatchNclItem
  by unfold_locales (simp_all add: MatchNclItem_def ncl_scan_iff)

interpretation pcl: policy_check pPclItem pcl_allow MatchPclItem
  by unfold_locales (simp_all add: MatchPclItem_def pcl_scan_iff)

interpretation tcl: policy_check pTclItem tcl_allow "\<lambda>P now. MatchTclItem now P"
  by unfold_locales (simp_all add: MatchTclItem_def tcl_scan_iff)

subsection \<open>Times of the day\<close>

datatype tod = Tod (hour: nat) (minute: nat) (second: nat)

instantiation tod :: linorder
begin

definition less_eq_tod :: "tod \<Rightarrow> tod \<Rightarrow> bool" where
  "less_eq_tod a b \<longleftrightarrow> (hour a, minute a, second a) \<le> (hour b, minute b, second b)"

definition less_tod :: "tod \<Rightarrow> tod \<Rightarrow> bool" where
  "less_tod a b \<longleftrightarrow> (hour a, minute a, second a) < (hour b, minute b, second b)"

instance
  by standard (auto simp: less_eq_tod_def less_tod_def tod.expand)

end

fun tod_ok :: "tod \<Rightarrow> bool" where
  "tod_ok (Tod h m s) \<longleftrightarrow> h < 100 \<and> m < 100 \<and> s < 100"

fun show_tod :: "tod \<Rightarrow> cstring" where
  "show_tod (Tod h m s) = timenow (int h, int m, int s)"

lemma strcmp_02d:
  assumes "a < 100" and "b < 100"
  shows "strcmp (fmt_0d 2 (int a) @ x) (fmt_0d 2 (int b) @ y)
    = (if a = b then strcmp x y else if a < b then -1 else 1)"
proof -
  have d: "a div 10 < 10" "b div 10 < 10" "a mod 10 < 10" "b mod 10 < 10" using assms by simp_all
  have e: "a = b \<longleftrightarrow> a div 10 = b div 10 \<and> a mod 10 = b mod 10" by (metis div_mult_mod_eq)
  have l: "a < b \<longleftrightarrow> a div 10 < b div 10 \<or> a div 10 = b div 10 \<and> a mod 10 < b mod 10"
  proof -
    have lex: "10 * q + r < 10 * q' + r' \<longleftrightarrow> q < q' \<or> q = q' \<and> r < r'" if "r < 10" "r' < 10" for q r q' r' :: nat
      using that by (cases q q' rule: linorder_cases) auto
    show ?thesis using lex[OF d(3,4), of "a div 10" "b div 10"] by simp
  qed
  have "strcmp (fmt_0d 2 (int a) @ x) (fmt_0d 2 (int b) @ y)
      = (if a div 10 = b div 10 then
           (if a mod 10 = b mod 10 then strcmp x y else if a mod 10 < b mod 10 then -1 else 1)
         else if a div 10 < b div 10 then -1 else 1)"
    using d assms by (simp add: fmt_02d_two digit_char_eq_iff digit_char_code)
  with e l show ?thesis by auto
qed

lemma strcmp_show_tod:
  assumes "tod_ok a" and "tod_ok b"
  shows "strcmp (show_tod a) (show_tod b) = (if a = b then 0 else if a < b then -1 else 1)"
proof -
  obtain h m s where a: "a = Tod h m s" by (cases a)
  obtain h' m' s' where b: "b = Tod h' m' s'" by (cases b)
  show ?thesis
    using assms strcmp_02d[of s s' "[]" "[]"]
    by (auto simp: a b timenow_def strcmp_02d less_tod_def)
qed

lemma any_table_iff:
  "any_table cmd c ts = Some (\<exists>t\<in>set ts. FindDBTable cmd c t = Some 1)"
proof (induction ts)
  case (Cons t ts)
  obtain r where "FindDBTable cmd c t = Some r"
    using FindDBTable_total[of cmd c t] by blast
  with Cons show ?case by auto
qed simp

lemma ccl_hit_total:
  "ccl_hit cmd item = None \<longleftrightarrow> \<not> length (ccl_table item) < 1024"
  by (simp add: ccl_hit_def Let_def any_table_iff)

text \<open>Whether a command rule applies to an upper case command.\<close>

definition ccl_applies :: "cstring \<Rightarrow> ccl_item \<Rightarrow> bool" where
  "ccl_applies mycmd item \<longleftrightarrow>
     (if ccl_table item = [] then contains mycmd (ccl_command item)
      else \<exists>t\<in>set (tokens '','' (ccl_table item)). FindDBTable mycmd (ccl_command item) t = Some 1)"

lemma ccl_hit_eq: "length (ccl_table item) < 1024 \<Longrightarrow> ccl_hit cmd item = Some (ccl_applies cmd item)"
  by (simp add: ccl_hit_def Let_def any_table_iff ccl_applies_def)

lemma ccl_scan_eq:
  assumes "\<forall>i\<in>set items. length (ccl_table i) < 1024"
  shows "ccl_scan cmd rtn items =
    Some (if \<exists>i\<in>set items. ccl_applies cmd i then (if rtn = 0 then 1 else 0) else rtn)"
  using assms by (induction items) (auto simp: ccl_hit_eq)

lemma strupr_twice: "strupr (strupr s) = strupr s"
proof -
  have "(\<lambda>c. if islower c then toupper c else c) (if islower c then toupper c else c)
      = (if islower c then toupper c else c)" for c
  proof (cases "islower c")
    case True
    then have "(of_char c - 32) mod 256 = (of_char c - 32 :: nat)"
      by (auto simp: islower_def intro!: mod_less)
    with True have "(of_char (toupper c) :: nat) = of_char c - 32"
      by (simp add: islower_def toupper_def take_bit_nat_def)
    with True have "\<not> islower (toupper c)" unfolding islower_def by linarith
    with True show ?thesis by simp
  qed simp
  then show ?thesis by (simp add: strupr_def comp_def)
qed

lemma length_strupr [simp, lens_simps]: "length (strupr s) = length s"
  by (simp add: strupr_def)

subsection \<open>Properties\<close>

text \<open>The address check compares addresses as unsigned numbers in host order, a text that is no
  address counting as 255.255.255.255; the protocol check lets database protocol 502 pass on a rule
  for 201 or 202; both allow everything when there is no rule.\<close>

theorem Match_address_protocol:
  "(MatchNclItem (Some p) ip = 0 \<longleftrightarrow>
      pNclItem p = [] \<or>
      (\<exists>i\<in>set (pNclItem p).
         let host = (\<lambda>s. case inet_host s of None \<Rightarrow> 0xFFFFFFFF | Some w \<Rightarrow> w)
         in host (ncl_startIp i) \<le> host ip \<and> host ip \<le> host (ncl_endIp i)))
   \<and> (MatchPclItem (Some p) code = 0 \<longleftrightarrow>
      pPclItem p = [] \<or> (\<exists>i\<in>set (pPclItem p). pcl_code i = code \<or> code = 502 \<and> pcl_code i \<in> {201, 202}))
   \<and> MatchNclItem None ip = 0 \<and> MatchPclItem None code = 0"
  by (simp add: ncl.check_iff pcl.check_iff ncl.no_policy pcl.no_policy ncl_allow_def pcl_allow_def ntohl_inet_addr)

text \<open>With times written as two digit hours, minutes and seconds, the string comparison of the
  time check is the comparison of times: a request is allowed exactly when there is no rule or the
  local time lies in one of the intervals, both ends included.\<close>

theorem MatchTclItem_time:
  assumes "tod_ok now" and "now = Tod h m s"
    and "\<forall>i\<in>set (pTclItem p). \<exists>a b. tod_ok a \<and> tod_ok b \<and> tcl_statTime i = show_tod a \<and> tcl_endTime i = show_tod b"
  shows "MatchTclItem (int h, int m, int s) (Some p) = 0 \<longleftrightarrow>
    pTclItem p = [] \<or> (\<exists>i\<in>set (pTclItem p). \<exists>a b. tod_ok a \<and> tod_ok b
       \<and> tcl_statTime i = show_tod a \<and> tcl_endTime i = show_tod b \<and> a \<le> now \<and> now \<le> b)"
proof -
  have now: "timenow (int h, int m, int s) = show_tod now" by (simp add: assms(2))
  have le: "strcmp (show_tod a) (show_tod now) \<le> 0 \<longleftrightarrow> a \<le> now" if "tod_ok a" for a
    using that assms(1) by (auto simp: strcmp_show_tod)
  have ge: "strcmp (show_tod a) (show_tod now) \<ge> 0 \<longleftrightarrow> now \<le> a" if "tod_ok a" for a
    using that assms(1) by (auto simp: strcmp_show_tod)
  show ?thesis
    unfolding tcl.check_iff tcl_allow_def now using assms(3) le ge by fastforce
qed

theorem MatchTclItem_time_witness:
  "MatchTclItem (9, 5, 0) (Some \<lparr>pr_prolicyroleitem_id = ''1'', pNclItem = [], pPclItem = [], pCclItem = [],
     pTclItem = [\<lparr>tcl_cycleFlag = 0, tcl_cycleLimit = [], tcl_statTime = ''08:00:00'', tcl_endTime = ''18:30:00'',
       tcl_timeFlag = 0, tcl_startDate = []\<rparr>]\<rparr>) = 0"
proof -
  have s: "''08:00:00'' = show_tod (Tod 8 0 0)" "''18:30:00'' = show_tod (Tod 18 30 0)"
    by code_simp+
  have ok: "tod_ok (Tod 8 0 0)" "tod_ok (Tod 18 30 0)" "tod_ok (Tod 9 5 0)" by simp_all
  have le: "Tod 8 0 0 \<le> Tod 9 5 0" "Tod 9 5 0 \<le> Tod 18 30 0" by (simp_all add: less_eq_tod_def)
  let ?p = "\<lparr>pr_prolicyroleitem_id = ''1'', pNclItem = [], pPclItem = [], pCclItem = [],
     pTclItem = [\<lparr>tcl_cycleFlag = 0, tcl_cycleLimit = [], tcl_statTime = show_tod (Tod 8 0 0),
       tcl_endTime = show_tod (Tod 18 30 0), tcl_timeFlag = 0, tcl_startDate = []\<rparr>]\<rparr>"
  have rules: "\<forall>i\<in>set (pTclItem ?p). \<exists>a b. tod_ok a \<and> tod_ok b \<and> tcl_statTime i = show_tod a \<and> tcl_endTime i = show_tod b"
    using ok(1,2) by (simp del: show_tod.simps tod_ok.simps) blast
  have "\<exists>i\<in>set (pTclItem ?p). \<exists>a b. tod_ok a \<and> tod_ok b \<and> tcl_statTime i = show_tod a \<and> tcl_endTime i = show_tod b
      \<and> a \<le> Tod 9 5 0 \<and> Tod 9 5 0 \<le> b"
    using ok le by (simp del: show_tod.simps tod_ok.simps) blast
  then have "MatchTclItem (int 9, int 5, int 0) (Some ?p) = 0"
    using MatchTclItem_time[OF ok(3) refl rules] by blast
  then show ?thesis unfolding s by simp
qed

text \<open>C22: the command check fails to return only on texts that overflow its buffers; otherwise a
  forbidding list (type 1) denies exactly what a rule applies to, an allowing list (type 2) exactly
  what no rule applies to, in any letter case of the command and in any order of the rules.\<close>

theorem MatchCclItem_result:
  assumes "type = 1 \<or> type = 2" and "pCclItem p \<noteq> []" and "length cmd < 10240"
    and "\<forall>i\<in>set (pCclItem p). length (ccl_table i) < 1024"
  shows "MatchCclItem (Some p) cmd type =
      Some (if (\<exists>i\<in>set (pCclItem p). ccl_applies (strupr cmd) i) = (type = 1) then 1 else 0)
    \<and> MatchCclItem (Some p) (strupr cmd) type = MatchCclItem (Some p) cmd type"
  using assms by (auto simp: MatchCclItem_def Let_def ccl_scan_eq strupr_twice)

theorem MatchCclItem_result_witness:
  "MatchCclItem (Some \<lparr>pr_prolicyroleitem_id = ''1'', pNclItem = [], pPclItem = [],
     pCclItem = [\<lparr>ccl_command = ''DROP'', ccl_type = 1, ccl_table = []\<rparr>], pTclItem = []\<rparr>) ''drop table t'' 1 = Some 1"
proof -
  have "strupr ''drop table t'' = ''DROP TABLE T''" by code_simp
  moreover have "contains ''DROP TABLE T'' ''DROP''" by (simp add: contains_def)
  ultimately show ?thesis
    using MatchCclItem_result[of 1 "\<lparr>pr_prolicyroleitem_id = ''1'', pNclItem = [], pPclItem = [],
       pCclItem = [\<lparr>ccl_command = ''DROP'', ccl_type = 1, ccl_table = []\<rparr>], pTclItem = []\<rparr>" "''drop table t''"]
    by (simp add: ccl_applies_def)
qed

end
