(* ===== verification/Config.thy ===== *)
theory Config
  imports CLib
begin

text \<open>
  The readers of the configuration files in \<^verbatim>\<open>DBRecord\<close>: \<open>GetMysqlConfig\<close>,
  \<open>Audit_GetMysqlConfig\<close> and \<open>GetInterfaceName\<close> of DBoperate.c and
  \<open>GetStopExchangeUserSwitch\<close> of dbrecord.c.

  A file is its content, or \<open>None\<close> when it cannot be opened. \<open>_encrypts\<close> (the decryption of a
  stored password, from a header outside the repository) is the argument \<open>dec\<close>. The value \<open>None\<close>
  of a reader is a fault: a read before the line buffer or a value longer than its array.
\<close>

subsection \<open>Lines\<close>

text \<open>
  \<open>fgets (b, 255, fp)\<close> takes characters up to and including a newline, at most 254. The loops
  run until it has nothing to give.
\<close>

fun line_len :: "nat \<Rightarrow> cstring \<Rightarrow> nat" where
  "line_len 0 s = 0"
| "line_len (Suc n) [] = 0"
| "line_len (Suc n) (c # s) = (if c = CHR 0x0A then 1 else Suc (line_len n s))"

lemma line_len_pos: "s \<noteq> [] \<Longrightarrow> 0 < n \<Longrightarrow> 0 < line_len n s"
  by (cases s; cases n) simp_all

function file_lines :: "cstring \<Rightarrow> cstring list" where
  "file_lines s =
     (if s = [] then [] else take (line_len 254 s) s # file_lines (drop (line_len 254 s) s))"
  by pat_completeness auto
termination
  by (relation "measure length") (simp_all add: line_len_pos)

declare file_lines.simps [simp del]

text \<open>
  The characters before the first zero byte, with the end of the line cut off. With fewer than two
  characters the code reads \<open>logcommand[-1]\<close>.
\<close>

definition trim_line :: "cstring \<Rightarrow> cstring option" where
  "trim_line logcommand =
     (let s = upto_char (CHR 0x00) logcommand; i = length s
      in if i < 2 then None
         else
           let s' = (if s ! (i - 1) = CHR 0x0A \<or> s ! (i - 1) = CHR 0x0D then take (i - 1) s else s)
           in Some (if s ! (i - 2) = CHR 0x0D then take (i - 2) s' else s'))"

text \<open>What a reader does to its state for every line of a file.\<close>

fun read_lines :: "(cstring \<Rightarrow> 'c \<Rightarrow> 'c option) \<Rightarrow> cstring list \<Rightarrow> 'c \<Rightarrow> 'c option" where
  "read_lines step [] c = Some c"
| "read_lines step (l # ls) c =
     do { logcommand \<leftarrow> trim_line l; c \<leftarrow> step logcommand c; read_lines step ls c }"

subsection \<open>The database settings\<close>

definition DBCFG_SERVERIP :: cstring where "DBCFG_SERVERIP = ''serverip:=''"
definition DBCFG_PORT :: cstring where "DBCFG_PORT = ''port:=''"
definition DBCFG_USERNAME :: cstring where "DBCFG_USERNAME = ''username:=''"
definition DBCFG_USERPWD :: cstring where "DBCFG_USERPWD = ''userpwd:=''"
definition DBCFG_DATABASE :: cstring where "DBCFG_DATABASE = ''database:=''"
definition DBCFG_DBTYPE :: cstring where "DBCFG_DBTYPE = ''dbtype:=''"

lemmas DBCFG_defs = DBCFG_SERVERIP_def DBCFG_PORT_def DBCFG_USERNAME_def DBCFG_USERPWD_def
  DBCFG_DATABASE_def DBCFG_DBTYPE_def

record dbcfg =
  serverip :: cstring
  port :: int
  username :: cstring
  userpwd :: cstring
  database :: cstring
  dbtype :: cstring

text \<open>A password of twenty or more characters is decrypted.\<close>

definition config_password :: "(cstring \<Rightarrow> cstring) \<Rightarrow> cstring \<Rightarrow> cstring option" where
  "config_password dec v =
     (if \<not> length v < 256 then None
      else if length v \<ge> 20 then
        let p = dec v in if length p < 256 then Some p else None
      else Some v)"

definition config_line :: "(cstring \<Rightarrow> cstring) \<Rightarrow> cstring \<Rightarrow> dbcfg \<Rightarrow> dbcfg option" where
  "config_line dec logcommand c =
     (if contains logcommand DBCFG_SERVERIP then
        let v = drop (length DBCFG_SERVERIP) logcommand
        in if length v < 32 then Some (c\<lparr>serverip := v\<rparr>) else None
      else if contains logcommand DBCFG_PORT then
        let szport = drop (length DBCFG_PORT) logcommand
        in if length szport < 10 then Some (c\<lparr>port := atoi szport\<rparr>) else None
      else if contains logcommand DBCFG_USERNAME then
        let v = drop (length DBCFG_USERNAME) logcommand
        in if length v < 50 then Some (c\<lparr>username := v\<rparr>) else None
      else if contains logcommand DBCFG_USERPWD then
        do { p \<leftarrow> config_password dec (drop (length DBCFG_USERPWD) logcommand);
             Some (c\<lparr>userpwd := p\<rparr>) }
      else if contains logcommand DBCFG_DATABASE then
        let v = drop (length DBCFG_DATABASE) logcommand
        in if length v < 50 then Some (c\<lparr>database := v\<rparr>) else None
      else if contains logcommand DBCFG_DBTYPE then
        let v = drop (length DBCFG_DBTYPE) logcommand
        in if length v < 50 then Some (c\<lparr>dbtype := v\<rparr>) else None
      else Some c)"

text \<open>The arrays that are zeroed first; the port and the type of the database keep their values.\<close>

definition clear_config :: "dbcfg \<Rightarrow> dbcfg" where
  "clear_config c = c\<lparr>serverip := [], username := [], userpwd := [], database := []\<rparr>"

definition GetMysqlConfig :: "(cstring \<Rightarrow> cstring) \<Rightarrow> cstring option \<Rightarrow> dbcfg \<Rightarrow> (int \<times> dbcfg) option" where
  "GetMysqlConfig dec mysql_cfg c =
     (let c = clear_config c
      in case mysql_cfg of
           Some content \<Rightarrow>
             do { c \<leftarrow> read_lines (config_line dec) (file_lines content) c; Some (0, c) }
         | None \<Rightarrow> Some (1, c))"

text \<open>The audit reader tries its own file, then the file of the main database.\<close>

definition Audit_GetMysqlConfig ::
    "(cstring \<Rightarrow> cstring) \<Rightarrow> cstring option \<Rightarrow> cstring option \<Rightarrow> dbcfg \<Rightarrow> (int \<times> dbcfg) option" where
  "Audit_GetMysqlConfig dec cache_cfg mysql_cfg c =
     (let c = clear_config c
      in case cache_cfg of
           Some content \<Rightarrow>
             do { c \<leftarrow> read_lines (config_line dec) (file_lines content) c; Some (0, c) }
         | None \<Rightarrow>
             (case mysql_cfg of
                Some content \<Rightarrow>
                  do { c \<leftarrow> read_lines (config_line dec) (file_lines content) c; Some (0, c) }
              | None \<Rightarrow> Some (1, c)))"

subsection \<open>Single settings\<close>

definition stop_key :: cstring where "stop_key = ''stopchangeuser:=''"

definition stop_line :: "cstring \<Rightarrow> cstring \<Rightarrow> cstring option" where
  "stop_line logcommand isStop =
     Some (if contains logcommand stop_key then drop (length stop_key) logcommand else isStop)"

definition GetStopExchangeUserSwitch :: "cstring option \<Rightarrow> cstring \<Rightarrow> (int \<times> cstring) option" where
  "GetStopExchangeUserSwitch mysql_cfg isStop =
     (case mysql_cfg of
        Some content \<Rightarrow>
          do { isStop \<leftarrow> read_lines stop_line (file_lines content) isStop; Some (0, isStop) }
      | None \<Rightarrow> Some (1, isStop))"

definition interface_key :: cstring where "interface_key = ''interfacename:=''"

text \<open>This loop stops at the first line with the key; no such line or no file gives \<open>eth0\<close>.\<close>

fun find_interface :: "cstring list \<Rightarrow> cstring option option" where
  "find_interface [] = Some None"
| "find_interface (l # ls) =
     do { logcommand \<leftarrow> trim_line l;
          if contains logcommand interface_key
          then Some (Some (drop (length interface_key) logcommand))
          else find_interface ls }"

text \<open>The caller's array has 100 bytes.\<close>

definition GetInterfaceName :: "cstring option \<Rightarrow> cstring option" where
  "GetInterfaceName mysql_cfg =
     (case mysql_cfg of
        None \<Rightarrow> Some ''eth0''
      | Some content \<Rightarrow>
          do { r \<leftarrow> find_interface (file_lines content);
               case r of None \<Rightarrow> Some ''eth0''
               | Some v \<Rightarrow> if length v < 100 then Some v else None })"

subsection \<open>The contract of a line reader\<close>

locale keyed_reader =
  fixes step :: "cstring \<Rightarrow> 'c \<Rightarrow> 'c option" and keys :: "cstring list"
  assumes skip: "(\<forall>k\<in>set keys. \<not> contains l k) \<Longrightarrow> step l c = Some c"
begin

text \<open>Lines without a key do not matter.\<close>

lemma read_skip:
  "trim_line l = Some t \<Longrightarrow> (\<forall>k\<in>set keys. \<not> contains t k) \<Longrightarrow>
   read_lines step (l # ls) c = read_lines step ls c"
  by (simp add: skip)

lemma read_no_keys:
  "(\<forall>l\<in>set ls. \<exists>t. trim_line l = Some t \<and> (\<forall>k\<in>set keys. \<not> contains t k)) \<Longrightarrow>
   read_lines step ls c = Some c"
  by (induction ls arbitrary: c) (fastforce simp: skip)+

lemma read_append:
  "read_lines step (ls @ ls') c = do { c \<leftarrow> read_lines step ls c; read_lines step ls' c }"
proof (induction ls arbitrary: c)
  case (Cons l ls)
  then show ?case
    by (cases "trim_line l") (simp_all split: bind_split)
qed simp

text \<open>A blank line makes the whole reading a fault.\<close>

lemma read_blank: "l \<in> set ls \<Longrightarrow> trim_line l = None \<Longrightarrow> read_lines step ls c = None"
proof (induction ls arbitrary: c)
  case (Cons l' ls)
  then show ?case by (cases "trim_line l'"; cases "step (the (trim_line l')) c") auto
qed simp

end

definition config_keys :: "cstring list" where
  "config_keys = [DBCFG_SERVERIP, DBCFG_PORT, DBCFG_USERNAME, DBCFG_USERPWD, DBCFG_DATABASE, DBCFG_DBTYPE]"

interpretation cfg: keyed_reader "config_line dec" config_keys for dec
  by unfold_locales (simp add: config_line_def config_keys_def)

interpretation stop: keyed_reader stop_line "[stop_key]"
  by unfold_locales (simp add: stop_line_def)

subsection \<open>Writing a file that reads back\<close>

definition plain :: "cstring \<Rightarrow> bool" where
  "plain v \<longleftrightarrow> set v \<inter> {CHR 0x00, CHR 0x0A, CHR 0x0D, CHR '':''} = {}"

lemma key_contains:
  assumes "CHR '':'' \<notin> set v" and "CHR '':'' \<notin> set a" and "CHR '':'' \<notin> set b"
  shows "contains (a @ '':='' @ v) (b @ '':='') \<longleftrightarrow> suffix b a"
proof
  assume "suffix b a"
  then obtain x where "a = x @ b" by (auto simp: suffix_def)
  then show "contains (a @ '':='' @ v) (b @ '':='')"
    unfolding contains_sublist sublist_def by (intro exI[of _ x] exI[of _ v]) simp
next
  assume "contains (a @ '':='' @ v) (b @ '':='')"
  then obtain x y where e: "a @ '':='' @ v = x @ b @ '':='' @ y"
    by (auto simp: contains_sublist sublist_def)
  have tw: "takeWhile (\<lambda>c. c \<noteq> CHR '':'') (z @ CHR '':'' # w) = z" if "CHR '':'' \<notin> set z" for z w
    using that by (induction z) auto
  have "CHR '':'' \<notin> set x"
  proof
    assume "CHR '':'' \<in> set x"
    then obtain x1 x2 where x: "x = x1 @ CHR '':'' # x2" "CHR '':'' \<notin> set x1"
      using split_list_first by fastforce
    have "a = x1" using tw[OF assms(2), of "''='' @ v"] tw[OF x(2), of "x2 @ b @ '':='' @ y"] e x(1) by simp
    with e x(1) have "''='' @ v = x2 @ b @ '':='' @ y" by simp
    then have "CHR '':'' \<in> set (''='' @ v)" by simp
    with assms(1) show False by simp
  qed
  with assms(3) have "CHR '':'' \<notin> set (x @ b)" by simp
  from tw[OF this, of "''='' @ y"] tw[OF assms(2), of "''='' @ v"] e have "a = x @ b" by simp
  then show "suffix b a" by (simp add: suffix_def)
qed

lemma line_len_nl:
  "CHR 0x0A \<notin> set l \<Longrightarrow> length l < n \<Longrightarrow> line_len n (l @ CHR 0x0A # r) = Suc (length l)"
proof (induction l arbitrary: n)
  case Nil
  then show ?case by (cases n) simp_all
next
  case (Cons c l)
  then show ?case by (cases n) auto
qed

lemma file_lines_cons:
  "CHR 0x0A \<notin> set l \<Longrightarrow> length l < 254 \<Longrightarrow>
   file_lines (l @ CHR 0x0A # r) = (l @ [CHR 0x0A]) # file_lines r"
  by (subst file_lines.simps) (simp add: line_len_nl)

lemma trim_line_nl:
  assumes "l \<noteq> []" and "CHR 0x00 \<notin> set l" and "CHR 0x0D \<notin> set l"
  shows "trim_line (l @ [CHR 0x0A]) = Some l"
proof -
  obtain l' c where l: "l = l' @ [c]" using assms(1) by (cases l rule: rev_cases) auto
  have "upto_char (CHR 0x00) (l @ [CHR 0x0A]) = l @ [CHR 0x0A]"
    using assms(2) unfolding upto_char_def by (intro takeWhile_all) auto
  with assms(3) l show ?thesis by (auto simp: trim_line_def Let_def nth_append)
qed

lemma read_line_cons:
  assumes "CHR 0x0A \<notin> set l" and "CHR 0x00 \<notin> set l" and "CHR 0x0D \<notin> set l" and "l \<noteq> []" and "length l < 254"
  shows "read_lines step (file_lines (l @ CHR 0x0A # r)) c = step l c \<bind> read_lines step (file_lines r)"
  using assms by (simp add: file_lines_cons trim_line_nl)

definition show_config :: "dbcfg \<Rightarrow> cstring" where
  "show_config c =
     (DBCFG_DBTYPE @ dbtype c) @ CHR 0x0A # (DBCFG_SERVERIP @ serverip c) @ CHR 0x0A #
     (DBCFG_PORT @ show_nat (nat (port c))) @ CHR 0x0A # (DBCFG_USERNAME @ username c) @ CHR 0x0A #
     (DBCFG_USERPWD @ userpwd c) @ CHR 0x0A # (DBCFG_DATABASE @ database c) @ CHR 0x0A # []"

definition fits :: "dbcfg \<Rightarrow> bool" where
  "fits c \<longleftrightarrow> plain (serverip c) \<and> length (serverip c) < 32 \<and> 0 \<le> port c \<and> port c < 65536
     \<and> plain (username c) \<and> length (username c) < 50 \<and> plain (userpwd c) \<and> length (userpwd c) < 245
     \<and> plain (database c) \<and> length (database c) < 50 \<and> plain (dbtype c) \<and> length (dbtype c) < 50"

lemma show_nat_plain: "plain (show_nat n)"
proof -
  have "is_digit c" if "c \<in> set (show_nat n)" for c
    using show_nat_digits[OF that] digit_char_is_digit by blast
  moreover have "\<not> is_digit (CHR 0x00)" "\<not> is_digit (CHR 0x0A)" "\<not> is_digit (CHR 0x0D)" "\<not> is_digit (CHR '':'')"
    by (simp_all add: is_digit_def)
  ultimately show ?thesis unfolding plain_def by blast
qed

lemma plain_line:
  assumes "plain v" and "set k \<inter> {CHR 0x00, CHR 0x0A, CHR 0x0D} = {}" and "k \<noteq> []" and "length k + length v < 254"
  shows "read_lines step (file_lines (k @ v @ CHR 0x0A # r)) c = step (k @ v) c \<bind> read_lines step (file_lines r)"
  using assms read_line_cons[of "k @ v" step r c] by (auto simp: plain_def)

lemma config_line_keys:
  assumes "plain v"
  shows "length v < 32 \<Longrightarrow> config_line dec (DBCFG_SERVERIP @ v) c = Some (c\<lparr>serverip := v\<rparr>)"
    and "length v < 10 \<Longrightarrow> config_line dec (DBCFG_PORT @ v) c = Some (c\<lparr>port := atoi v\<rparr>)"
    and "length v < 50 \<Longrightarrow> config_line dec (DBCFG_USERNAME @ v) c = Some (c\<lparr>username := v\<rparr>)"
    and "config_line dec (DBCFG_USERPWD @ v) c = map_option (\<lambda>p. c\<lparr>userpwd := p\<rparr>) (config_password dec v)"
    and "length v < 50 \<Longrightarrow> config_line dec (DBCFG_DATABASE @ v) c = Some (c\<lparr>database := v\<rparr>)"
    and "length v < 50 \<Longrightarrow> config_line dec (DBCFG_DBTYPE @ v) c = Some (c\<lparr>dbtype := v\<rparr>)"
proof -
  have v: "CHR '':'' \<notin> set v" using assms by (auto simp: plain_def)
  have keys: "contains (a @ '':='' @ v) (b @ '':='') \<longleftrightarrow> suffix b a"
    if "CHR '':'' \<notin> set a" "CHR '':'' \<notin> set b" for a b
    using key_contains[OF v] that by blast
  note k = keys[of "''serverip''"] keys[of "''port''"] keys[of "''username''"] keys[of "''userpwd''"]
    keys[of "''database''"] keys[of "''dbtype''"]
  note kk = k[of "''serverip''"] k[of "''port''"] k[of "''username''"] k[of "''userpwd''"]
    k[of "''database''"] k[of "''dbtype''"]
  show "length v < 32 \<Longrightarrow> config_line dec (DBCFG_SERVERIP @ v) c = Some (c\<lparr>serverip := v\<rparr>)"
    "length v < 10 \<Longrightarrow> config_line dec (DBCFG_PORT @ v) c = Some (c\<lparr>port := atoi v\<rparr>)"
    "length v < 50 \<Longrightarrow> config_line dec (DBCFG_USERNAME @ v) c = Some (c\<lparr>username := v\<rparr>)"
    "config_line dec (DBCFG_USERPWD @ v) c = map_option (\<lambda>p. c\<lparr>userpwd := p\<rparr>) (config_password dec v)"
    "length v < 50 \<Longrightarrow> config_line dec (DBCFG_DATABASE @ v) c = Some (c\<lparr>database := v\<rparr>)"
    "length v < 50 \<Longrightarrow> config_line dec (DBCFG_DBTYPE @ v) c = Some (c\<lparr>dbtype := v\<rparr>)"
    using kk by (simp_all add: config_line_def DBCFG_defs suffix_def map_option_case split: option.split)
qed

lemma DBCFG_simps:
  "CHR 0x00 \<notin> set DBCFG_SERVERIP" "CHR 0x0A \<notin> set DBCFG_SERVERIP" "CHR 0x0D \<notin> set DBCFG_SERVERIP" "DBCFG_SERVERIP \<noteq> []" "length DBCFG_SERVERIP = 10"
  "CHR 0x00 \<notin> set DBCFG_PORT" "CHR 0x0A \<notin> set DBCFG_PORT" "CHR 0x0D \<notin> set DBCFG_PORT" "DBCFG_PORT \<noteq> []" "length DBCFG_PORT = 6"
  "CHR 0x00 \<notin> set DBCFG_USERNAME" "CHR 0x0A \<notin> set DBCFG_USERNAME" "CHR 0x0D \<notin> set DBCFG_USERNAME" "DBCFG_USERNAME \<noteq> []" "length DBCFG_USERNAME = 10"
  "CHR 0x00 \<notin> set DBCFG_USERPWD" "CHR 0x0A \<notin> set DBCFG_USERPWD" "CHR 0x0D \<notin> set DBCFG_USERPWD" "DBCFG_USERPWD \<noteq> []" "length DBCFG_USERPWD = 9"
  "CHR 0x00 \<notin> set DBCFG_DATABASE" "CHR 0x0A \<notin> set DBCFG_DATABASE" "CHR 0x0D \<notin> set DBCFG_DATABASE" "DBCFG_DATABASE \<noteq> []" "length DBCFG_DATABASE = 10"
  "CHR 0x00 \<notin> set DBCFG_DBTYPE" "CHR 0x0A \<notin> set DBCFG_DBTYPE" "CHR 0x0D \<notin> set DBCFG_DBTYPE" "DBCFG_DBTYPE \<noteq> []" "length DBCFG_DBTYPE = 8"
  by (simp_all add: DBCFG_defs)

subsection \<open>Properties\<close>

text \<open>C24: the readers of the database settings read back every configuration file written with
  one line per setting, whatever the old settings were; a password of twenty or more characters
  is decrypted. The audit reader gives the same for its own file and for the fallback.\<close>

theorem GetMysqlConfig_roundtrip:
  assumes "fits s" and "config_password dec (userpwd s) = Some p"
  shows "GetMysqlConfig dec (Some (show_config s)) c = Some (0, s\<lparr>userpwd := p\<rparr>)
    \<and> Audit_GetMysqlConfig dec (Some (show_config s)) other c = Some (0, s\<lparr>userpwd := p\<rparr>)
    \<and> Audit_GetMysqlConfig dec None (Some (show_config s)) c = Some (0, s\<lparr>userpwd := p\<rparr>)"
proof -
  have pl: "plain (serverip s)" "plain (username s)" "plain (userpwd s)" "plain (database s)" "plain (dbtype s)"
    and len: "length (serverip s) < 32" "length (username s) < 50" "length (userpwd s) < 245"
      "length (database s) < 50" "length (dbtype s) < 50"
    and pt: "0 \<le> port s" "port s < 65536" using assms(1) by (simp_all add: fits_def)
  let ?n = "show_nat (nat (port s))"
  have "nat (port s) < 10 ^ 5" "nat (port s) < 2 ^ 31" using pt by simp_all
  then have "length ?n \<le> 5" and n: "atoi ?n = port s"
    using length_show_nat[of "nat (port s)" 5] atoi_show_nat[of "nat (port s)"] pt(1) by simp_all
  then have n10: "length ?n < 10" by linarith
  have "read_lines (config_line dec) (file_lines (show_config s)) (clear_config c) = Some (s\<lparr>userpwd := p\<rparr>)"
    unfolding show_config_def
    using len n n10 assms(2)
    by (simp add: plain_line[OF pl(1)] plain_line[OF pl(2)] plain_line[OF pl(3)] plain_line[OF pl(4)] plain_line[OF pl(5)]
        plain_line[OF show_nat_plain] config_line_keys[OF pl(1)] config_line_keys[OF pl(2)] config_line_keys[OF pl(3)]
        config_line_keys[OF pl(4)] config_line_keys[OF pl(5)] config_line_keys[OF show_nat_plain] DBCFG_simps file_lines.simps[of "[]"] clear_config_def)
  then show ?thesis by (simp add: GetMysqlConfig_def Audit_GetMysqlConfig_def Let_def)
qed

theorem GetMysqlConfig_roundtrip_witness:
  "GetMysqlConfig (\<lambda>x. x) (Some (show_config \<lparr>serverip = ''10.0.0.1'', port = 3306, username = ''root'',
      userpwd = ''secret'', database = ''osc'', dbtype = ''MYSQL''\<rparr>))
     \<lparr>serverip = [], port = 0, username = [], userpwd = [], database = [], dbtype = []\<rparr>
   = Some (0, \<lparr>serverip = ''10.0.0.1'', port = 3306, username = ''root'', userpwd = ''secret'',
      database = ''osc'', dbtype = ''MYSQL''\<rparr>)"
proof -
  let ?s = "\<lparr>serverip = ''10.0.0.1'', port = 3306, username = ''root'', userpwd = ''secret'',
      database = ''osc'', dbtype = ''MYSQL''\<rparr>"
  have "fits ?s" by (simp add: fits_def plain_def)
  moreover have "config_password (\<lambda>x. x) (userpwd ?s) = Some ''secret''" by (simp add: config_password_def)
  ultimately show ?thesis
    using GetMysqlConfig_roundtrip[of ?s "\<lambda>x. x" "''secret''" _ None] by simp
qed

text \<open>A line of fewer than two characters anywhere in the file makes the readers look at the
  byte before their line buffer.\<close>

theorem config_blank_line_fault:
  assumes "l \<in> set (file_lines content)" and "length (upto_char (CHR 0x00) l) < 2"
  shows "GetMysqlConfig dec (Some content) c = None \<and> GetStopExchangeUserSwitch (Some content) v = None"
proof -
  have "trim_line l = None" using assms(2) by (simp add: trim_line_def Let_def)
  then show ?thesis
    using cfg.read_blank[OF assms(1)] stop.read_blank[OF assms(1)]
    by (simp add: GetMysqlConfig_def GetStopExchangeUserSwitch_def Let_def)
qed

theorem config_blank_line_fault_witness:
  "GetMysqlConfig (\<lambda>x. x) (Some [CHR 0x0A]) \<lparr>serverip = [], port = 0, username = [], userpwd = [],
     database = [], dbtype = []\<rparr> = None"
  using config_blank_line_fault[of "[CHR 0x0A]" "[CHR 0x0A]" "\<lambda>x. x"]
  by (simp add: file_lines.simps upto_char_def eval_nat_numeral)

text \<open>The type of the database is not reset: a file without it leaves the type of an earlier
  reading in force, and with it the choice between MySQL and ODBC.\<close>

theorem dbtype_kept:
  assumes "\<forall>l\<in>set (file_lines content). \<exists>t. trim_line l = Some t \<and> (\<forall>k\<in>set config_keys. \<not> contains t k)"
  shows "GetMysqlConfig dec (Some content) c = Some (0, clear_config c) \<and> dbtype (clear_config c) = dbtype c"
  using cfg.read_no_keys[OF assms] by (simp add: GetMysqlConfig_def Let_def clear_config_def)

theorem dbtype_kept_witness:
  "\<exists>c'. GetMysqlConfig (\<lambda>x. x) (Some ''# no settings'') \<lparr>serverip = ''h'', port = 1, username = [], userpwd = [],
     database = [], dbtype = ''ORACLE''\<rparr> = Some (0, c') \<and> dbtype c' = ''ORACLE'' \<and> serverip c' = []"
proof -
  have "file_lines ''# no settings'' = [''# no settings'']"
    by (simp add: file_lines.simps eval_nat_numeral)
  then show ?thesis
    using dbtype_kept[of "''# no settings''" "\<lambda>x. x"]
    by (simp add: trim_line_def upto_char_def Let_def config_keys_def DBCFG_defs contains_def clear_config_def)
qed

end
