(* ===== verification/DBConn.thy ===== *)
theory DBConn
  imports Config
begin

text \<open>
  The two database connections of \<^verbatim>\<open>DBRecord/DBoperate.c\<close> (lines 70 to 117, 177 to 242 and 339
  to 349) as a state machine: the settings, the flag \<open>_isconnected\<close> and whether the socket pointer
  is set. \<open>mysql_real_connect\<close> and the ODBC routines are not in the repository: whether the first
  succeeds and what the second returns are arguments.
\<close>

record db_state =
  cfg :: dbcfg
  isconnected :: int
  mysql_sock :: bool

subsection \<open>The main connection\<close>

definition ConnectDB :: "(cstring \<Rightarrow> int \<Rightarrow> cstring \<Rightarrow> cstring \<Rightarrow> cstring \<Rightarrow> bool)
    \<Rightarrow> cstring option \<Rightarrow> int \<Rightarrow> cstring option \<Rightarrow> cstring option \<Rightarrow> cstring option
    \<Rightarrow> db_state \<Rightarrow> int \<times> db_state" where
  "ConnectDB real_connect p_serverip p_port p_username p_userpwd p_database st =
     (if isconnected st = 1 then (0, st)
      else if mysql_sock st then (0, st)
      else case p_serverip of None \<Rightarrow> (1, st)
      | Some ip \<Rightarrow> (case p_username of None \<Rightarrow> (2, st)
        | Some u \<Rightarrow> (case p_userpwd of None \<Rightarrow> (3, st)
          | Some p \<Rightarrow> (case p_database of None \<Rightarrow> (4, st)
            | Some d \<Rightarrow>
                if real_connect ip p_port u p d
                then (0, st\<lparr>mysql_sock := True, isconnected := 1\<rparr>)
                else (5, st\<lparr>mysql_sock := False\<rparr>)))))"

text \<open>\<open>odbc\<close> is what \<open>ConnectODBC\<close> returns; it does not touch this state.\<close>

definition ConnectMysql :: "(cstring \<Rightarrow> int \<Rightarrow> cstring \<Rightarrow> cstring \<Rightarrow> cstring \<Rightarrow> bool) \<Rightarrow> int
    \<Rightarrow> (cstring \<Rightarrow> cstring) \<Rightarrow> cstring option \<Rightarrow> db_state \<Rightarrow> (int \<times> db_state) option" where
  "ConnectMysql real_connect odbc dec mysql_cfg st =
     (if isconnected st = 1 then Some (0, st)
      else do {
        (rc, c) \<leftarrow> GetMysqlConfig dec mysql_cfg (cfg st);
        let st = st\<lparr>cfg := c\<rparr>;
        (if rc \<noteq> 0 then Some (1, st)
         else if dbtype c \<noteq> ''MYSQL'' then Some (odbc, st)
         else Some (ConnectDB real_connect (Some (serverip c)) (port c) (Some (username c))
                      (Some (userpwd c)) (Some (database c)) st))
      })"

definition CloseDB :: "db_state \<Rightarrow> db_state" where
  "CloseDB st =
     (if dbtype (cfg st) \<noteq> ''MYSQL'' then st
      else if mysql_sock st then st\<lparr>isconnected := 0, mysql_sock := False\<rparr>
      else st)"

subsection \<open>The audit connection\<close>

text \<open>
  \<open>Audit_ConnectDB\<close> does not use its parameters: it reads the global arrays, which are never null.
\<close>

definition Audit_ConnectDB :: "(cstring \<Rightarrow> int \<Rightarrow> cstring \<Rightarrow> cstring \<Rightarrow> cstring \<Rightarrow> bool)
    \<Rightarrow> db_state \<Rightarrow> int \<times> db_state" where
  "Audit_ConnectDB real_connect st =
     (if isconnected st = 1 then (0, st)
      else if mysql_sock st then (0, st)
      else
        let c = cfg st
        in if real_connect (serverip c) (port c) (username c) (userpwd c) (database c)
           then (0, st\<lparr>mysql_sock := True, isconnected := 1\<rparr>)
           else (5, st\<lparr>mysql_sock := False\<rparr>))"

definition Audit_ConnectMysql :: "(cstring \<Rightarrow> int \<Rightarrow> cstring \<Rightarrow> cstring \<Rightarrow> cstring \<Rightarrow> bool) \<Rightarrow> int
    \<Rightarrow> (cstring \<Rightarrow> cstring) \<Rightarrow> cstring option \<Rightarrow> cstring option \<Rightarrow> db_state \<Rightarrow> (int \<times> db_state) option" where
  "Audit_ConnectMysql real_connect odbc dec cache_cfg mysql_cfg st =
     (if isconnected st = 1 then Some (0, st)
      else do {
        (rc, c) \<leftarrow> Audit_GetMysqlConfig dec cache_cfg mysql_cfg (cfg st);
        let st = st\<lparr>cfg := c\<rparr>;
        (if rc \<noteq> 0 then Some (1, st)
         else if dbtype c \<noteq> ''MYSQL'' then Some (odbc, st)
         else Some (Audit_ConnectDB real_connect st))
      })"

definition Audit_CloseDB :: "db_state \<Rightarrow> db_state" where
  "Audit_CloseDB st =
     (if dbtype (cfg st) \<noteq> ''MYSQL'' then st
      else if mysql_sock st then st\<lparr>isconnected := 0, mysql_sock := False\<rparr>
      else st)"

subsection \<open>The contract of a connection\<close>

text \<open>The flag and the socket agree, and only a MySQL connection is held.\<close>

definition conn_ok :: "db_state \<Rightarrow> bool" where
  "conn_ok st \<longleftrightarrow> (isconnected st = 1 \<longleftrightarrow> mysql_sock st) \<and> (mysql_sock st \<longrightarrow> dbtype (cfg st) = ''MYSQL'')"

locale connection =
  fixes connect :: "'e \<Rightarrow> db_state \<Rightarrow> (int \<times> db_state) option" and close :: "db_state \<Rightarrow> db_state"
  assumes connect_ok: "conn_ok st \<Longrightarrow> connect e st = Some (r, st') \<Longrightarrow> conn_ok st'"
    and connect_again: "isconnected st = 1 \<Longrightarrow> connect e st = Some (0, st)"
    and connect_MYSQL: "conn_ok st \<Longrightarrow> connect e st = Some (0, st') \<Longrightarrow> dbtype (cfg st') = ''MYSQL'' \<Longrightarrow> mysql_sock st'"
    and close_ok: "conn_ok st \<Longrightarrow> conn_ok (close st)"
    and close_closes: "conn_ok st \<Longrightarrow> isconnected (close st) \<noteq> 1"
    and close_cfg: "cfg (close st) = cfg st"
begin

text \<open>Any sequence of calls.\<close>

inductive calls :: "db_state \<Rightarrow> db_state \<Rightarrow> bool" where
  none: "calls st st"
| connects: "calls st st' \<Longrightarrow> connect e st' = Some (r, st'') \<Longrightarrow> calls st st''"
| closes: "calls st st' \<Longrightarrow> calls st (close st')"

lemma calls_ok: "calls st st' \<Longrightarrow> conn_ok st \<Longrightarrow> conn_ok st'"
  by (induction rule: calls.induct) (auto intro: connect_ok close_ok)

lemma close_after_calls: "calls st st' \<Longrightarrow> conn_ok st \<Longrightarrow> \<not> mysql_sock (close st') \<and> isconnected (close st') \<noteq> 1"
  using calls_ok close_closes close_ok unfolding conn_ok_def by blast

lemma connect_idempotent: "conn_ok st \<Longrightarrow> connect e st = Some (0, st') \<Longrightarrow> mysql_sock st' \<Longrightarrow> connect e' st' = Some (0, st')"
  using connect_ok connect_again unfolding conn_ok_def by blast

end

lemma ConnectDB_ok:
  "conn_ok st \<Longrightarrow> dbtype (cfg st) = ''MYSQL'' \<Longrightarrow> ConnectDB rc a b c d e st = (r, st') \<Longrightarrow>
   conn_ok st' \<and> cfg st' = cfg st \<and> (r = 0 \<longrightarrow> mysql_sock st')"
  by (auto simp: ConnectDB_def conn_ok_def split: option.splits if_splits)

lemma Audit_ConnectDB_ok:
  "conn_ok st \<Longrightarrow> dbtype (cfg st) = ''MYSQL'' \<Longrightarrow> Audit_ConnectDB rc st = (r, st') \<Longrightarrow>
   conn_ok st' \<and> cfg st' = cfg st \<and> (r = 0 \<longrightarrow> mysql_sock st')"
  by (auto simp: Audit_ConnectDB_def conn_ok_def Let_def split: if_splits)

lemma conn_ok_cfg: "conn_ok st \<Longrightarrow> isconnected st \<noteq> 1 \<Longrightarrow> conn_ok (st\<lparr>cfg := c\<rparr>)"
  by (auto simp: conn_ok_def)

lemma ConnectMysql_ok:
  assumes "conn_ok st" and "ConnectMysql rc odbc dec f st = Some (r, st')"
  shows "conn_ok st' \<and> (r = 0 \<and> dbtype (cfg st') = ''MYSQL'' \<longrightarrow> mysql_sock st')"
proof (cases "isconnected st = 1")
  case True
  with assms show ?thesis by (auto simp: ConnectMysql_def conn_ok_def)
next
  case False
  then show ?thesis
    using assms conn_ok_cfg[OF assms(1) False] ConnectDB_ok[where st' = st']
    by (fastforce simp: ConnectMysql_def Let_def split: if_splits)
qed

lemma Audit_ConnectMysql_ok:
  assumes "conn_ok st" and "Audit_ConnectMysql rc odbc dec f g st = Some (r, st')"
  shows "conn_ok st' \<and> (r = 0 \<and> dbtype (cfg st') = ''MYSQL'' \<longrightarrow> mysql_sock st')"
proof (cases "isconnected st = 1")
  case True
  with assms show ?thesis by (auto simp: Audit_ConnectMysql_def conn_ok_def)
next
  case False
  then show ?thesis
    using assms conn_ok_cfg[OF assms(1) False] Audit_ConnectDB_ok[where st' = st']
    by (fastforce simp: Audit_ConnectMysql_def Let_def split: if_splits)
qed

interpretation main_db: connection "\<lambda>(rc, odbc, dec, f) st. ConnectMysql rc odbc dec f st" CloseDB
proof
  show "conn_ok st'" if "conn_ok st" "(case e of (rc, odbc, dec, f) \<Rightarrow> ConnectMysql rc odbc dec f) st = Some (r, st')"
    for st e r st'
    using that ConnectMysql_ok by (cases e) auto
  show "mysql_sock st'" if "conn_ok st" "(case e of (rc, odbc, dec, f) \<Rightarrow> ConnectMysql rc odbc dec f) st = Some (0, st')"
    "dbtype (cfg st') = ''MYSQL''" for st e st'
    using that ConnectMysql_ok by (cases e) auto
qed (auto simp: CloseDB_def conn_ok_def ConnectMysql_def)

interpretation audit_db: connection "\<lambda>(rc, odbc, dec, f, g) st. Audit_ConnectMysql rc odbc dec f g st" Audit_CloseDB
proof
  show "conn_ok st'" if "conn_ok st" "(case e of (rc, odbc, dec, f, g) \<Rightarrow> Audit_ConnectMysql rc odbc dec f g) st = Some (r, st')"
    for st e r st'
    using that Audit_ConnectMysql_ok by (cases e) auto
  show "mysql_sock st'" if "conn_ok st" "(case e of (rc, odbc, dec, f, g) \<Rightarrow> Audit_ConnectMysql rc odbc dec f g) st = Some (0, st')"
    "dbtype (cfg st') = ''MYSQL''" for st e st'
    using that Audit_ConnectMysql_ok by (cases e) auto
qed (auto simp: Audit_CloseDB_def conn_ok_def Audit_ConnectMysql_def)

subsection \<open>Properties\<close>

definition initial_db :: "dbcfg \<Rightarrow> db_state" where
  "initial_db c = \<lparr>cfg = c, isconnected = 0, mysql_sock = False\<rparr>"

text \<open>The states the program can be in: any sequence of connects, with any files and servers, and
  closes, from the start.\<close>

inductive main_reachable :: "db_state \<Rightarrow> bool" where
  start: "main_reachable (initial_db c)"
| connect: "main_reachable st \<Longrightarrow> ConnectMysql rc odbc dec f st = Some (r, st') \<Longrightarrow> main_reachable st'"
| close: "main_reachable st \<Longrightarrow> main_reachable (CloseDB st)"

inductive_cases main_reachable_cases: "main_reachable st"

lemma main_reachable_calls: "main_reachable st \<Longrightarrow> \<exists>c. main_db.calls (initial_db c) st"
proof (induction rule: main_reachable.induct)
  case (start c)
  then show ?case using main_db.calls.none by blast
next
  case (connect st rc odbc dec f r st')
  then show ?case using main_db.calls.connects[of _ st "(rc, odbc, dec, f)"] by fastforce
next
  case (close st)
  then show ?case using main_db.calls.closes by blast
qed

text \<open>C25: in every reachable state the flag says connected exactly when the socket is set, and a held
  connection is a MySQL one; so \<open>CloseDB\<close> always leaves no connection behind, and a further
  \<open>ConnectMysql\<close> in a connected state changes nothing.\<close>

theorem connection_invariant:
  assumes "main_reachable st"
  shows "(isconnected st = 1 \<longleftrightarrow> mysql_sock st) \<and> (mysql_sock st \<longrightarrow> dbtype (cfg st) = ''MYSQL'')
    \<and> \<not> mysql_sock (CloseDB st) \<and> isconnected (CloseDB st) \<noteq> 1
    \<and> (mysql_sock st \<longrightarrow> ConnectMysql rc odbc dec f st = Some (0, st))"
proof -
  obtain c where c: "main_db.calls (initial_db c) st" using main_reachable_calls[OF assms] by blast
  have i: "conn_ok (initial_db c)" by (simp add: conn_ok_def initial_db_def)
  have ok: "conn_ok st" by (rule main_db.calls_ok[OF c i])
  show ?thesis
    using ok main_db.close_after_calls[OF c i] main_db.connect_again[of st "(rc, odbc, dec, f)"]
    unfolding conn_ok_def by simp
qed

theorem connection_invariant_witness:
  "\<not> mysql_sock (CloseDB (initial_db \<lparr>serverip = [], port = 0, username = [], userpwd = [], database = [], dbtype = []\<rparr>))"
  using connection_invariant[OF main_reachable.start] by blast

end
