(* ===== verification/Db.thy ===== *)
theory Db
  imports CLib
begin

text \<open>
  The queries of \<^verbatim>\<open>DBRecord/DBoperate.c\<close> (lines 351 to 1152 and 2786 to 2911): the SQL text each one
  sends, what it does with the answer, and the decryption of stored passwords.

  The MySQL server is not part of the repository: \<open>server\<close> says what it answers to a statement,
  possibly depending on all statements before. Every operation takes and returns the list of
  statements sent so far. The ODBC variants (\<open>O...\<close>), used when the type of the database is not
  \<open>MYSQL\<close>, are an argument too, as are \<open>_encrypt\<close> and \<open>_decrypt_key\<close>.

  The structures are declared in a header outside the repository. A structure is a map from the
  names of its fields; a field that is not in the map is zero. \<open>None\<close> as the value of an operation
  is a fault: a null column copied or converted, or an array too short.
\<close>

subsection \<open>The server\<close>

type_synonym row = "cstring option list"
type_synonym hist = "cstring list"

datatype db_reply = Query_error | Store_error | Rows "row list"

type_synonym server = "hist \<Rightarrow> cstring \<Rightarrow> db_reply"

datatype field = FStr cstring | FInt int

type_synonym struct = "cstring \<rightharpoonup> field"

definition str_of :: "struct \<Rightarrow> cstring \<Rightarrow> cstring" where
  "str_of s f = (case s f of Some (FStr v) \<Rightarrow> v | _ \<Rightarrow> [])"

definition int_of :: "struct \<Rightarrow> cstring \<Rightarrow> int" where
  "int_of s f = (case s f of Some (FInt v) \<Rightarrow> v | _ \<Rightarrow> 0)"

definition zeroed :: struct where
  "zeroed = Map.empty"

text \<open>How a column of the answer goes to a field: copied, converted, decrypted; \<open>Opt\<close> when the code
  tests the column for NULL first.\<close>

datatype copy = Str | OptStr | Num | OptNum | Pwd

type_synonym column = "cstring \<times> nat \<times> copy"

text \<open>\<open>real_pwd\<close> has 1024 bytes.\<close>

definition copy_column :: "(cstring \<Rightarrow> cstring) \<Rightarrow> row \<Rightarrow> column \<Rightarrow> struct \<Rightarrow> struct option" where
  "copy_column dec row c s =
     (case c of (f, i, k) \<Rightarrow>
        if length row \<le> i then None
        else case row ! i of
          None \<Rightarrow> (if k = OptStr \<or> k = OptNum then Some s else None)
        | Some v \<Rightarrow>
            (if k = Num \<or> k = OptNum then Some (s(f \<mapsto> FInt (atoi v)))
             else if k = Pwd then
               (if length (dec v) < 1024 then Some (s(f \<mapsto> FStr (dec v))) else None)
             else Some (s(f \<mapsto> FStr v))))"

fun fill :: "(cstring \<Rightarrow> cstring) \<Rightarrow> column list \<Rightarrow> row \<Rightarrow> struct \<Rightarrow> struct option" where
  "fill dec [] row s = Some s"
| "fill dec (c # cs) row s = do { s \<leftarrow> copy_column dec row c s; fill dec cs row s }"

text \<open>
  The frame all queries for one row share: send the statement (its buffer has 1024 bytes), give up
  with 2 or 3, take the first row, or return 4 when there is none.
\<close>

definition query_row :: "server \<Rightarrow> cstring \<Rightarrow> (row \<Rightarrow> 's \<Rightarrow> 's option) \<Rightarrow> 's \<Rightarrow> hist
    \<Rightarrow> (int \<times> 's \<times> hist) option" where
  "query_row srv sql f s h =
     (if \<not> length sql < 1024 then None
      else case srv h sql of
        Query_error \<Rightarrow> Some (2, s, h @ [sql])
      | Store_error \<Rightarrow> Some (3, s, h @ [sql])
      | Rows rows \<Rightarrow>
          (case rows of
             [] \<Rightarrow> Some (4, s, h @ [sql])
           | row # _ \<Rightarrow> do { s \<leftarrow> f row s; Some (0, s, h @ [sql]) }))"

text \<open>The null test of the output pointer.\<close>

definition non_null :: "('s \<Rightarrow> hist \<Rightarrow> (int \<times> 's \<times> hist) option) \<Rightarrow> 's option \<Rightarrow> hist
    \<Rightarrow> (int \<times> 's option \<times> hist) option" where
  "non_null f p h =
     (case p of
        None \<Rightarrow> Some (1, None, h)
      | Some s \<Rightarrow> do { (r, s, h) \<leftarrow> f s h; Some (r, Some s, h) })"

definition via_mysql :: "cstring \<Rightarrow> 'r \<Rightarrow> 'r \<Rightarrow> 'r" where
  "via_mysql dbtype odbc r = (if dbtype \<noteq> ''MYSQL'' then odbc else r)"

text \<open>A text in single quotes.\<close>

definition qs :: "cstring \<Rightarrow> cstring" where
  "qs s = [CHR 0x27] @ s @ [CHR 0x27]"

subsection \<open>Decryption of stored passwords\<close>

record crypto =
  x_encrypt :: "cstring \<Rightarrow> cstring"
  x_decrypt_key :: "cstring \<Rightarrow> cstring \<Rightarrow> int \<Rightarrow> cstring"

definition DecryptData :: "crypto \<Rightarrow> cstring \<Rightarrow> cstring \<Rightarrow> cstring" where
  "DecryptData x aes_key indata =
     (if length indata mod 44 = 0 then x_encrypt x indata
      else if length aes_key > 0 then x_decrypt_key x indata aes_key 2
      else x_encrypt x indata)"

definition const_key :: cstring where "const_key = ''Py*8Z)F92k&H)W@N''"
definition aes_const_key :: cstring where "aes_const_key = ''P$A8(r3E''"

definition key_row :: "row \<Rightarrow> cstring \<times> cstring \<Rightarrow> (cstring \<times> cstring) option" where
  "key_row row s =
     (case row of
        Some k # Some b # _ \<Rightarrow> if length k < 1024 \<and> length b < 1024 then Some (k, b) else None
      | _ \<Rightarrow> None)"

text \<open>The return code, the new global \<open>aes_key\<close> (an array of 128 bytes) and the statements.\<close>

definition GetAESKey :: "cstring \<Rightarrow> (int \<times> cstring \<times> hist) option \<Rightarrow> server \<Rightarrow> crypto \<Rightarrow> cstring \<Rightarrow> hist
    \<Rightarrow> (int \<times> cstring \<times> hist) option" where
  "GetAESKey dt odbc srv x aes_key h =
     via_mysql dt odbc
       (do {
          (rc, (pr_key, pr_basekey), h) \<leftarrow>
            query_row srv ''SELECT pr_key,pr_baseKey from pr_productkey'' key_row ([], []) h;
          (if rc = 2 \<or> rc = 3 then Some (rc, aes_key, h)
           else
             let kekey = x_decrypt_key x pr_basekey const_key 0
             in if \<not> length kekey < 1024 then None
                else if length kekey \<noteq> 8 then Some (-1, [], h)
                else
                  let k = x_decrypt_key x pr_key (aes_const_key @ kekey) 0
                  in if length k < 128 then Some (0, k, h) else None)
        })"

subsection \<open>Access records\<close>

definition auth_columns :: "column list" where
  "auth_columns =
    [(''pr_id'', 0, Str), (''pr_userId'', 1, Str), (''pr_uid'', 2, Str),
     (''pr_userName'', 3, Str), (''pr_resId'', 4, Str), (''pr_resAddr'', 5, Str),
     (''pr_resName'', 6, Str), (''pr_resType'', 7, Str), (''pr_resVersion'', 8, OptStr),
     (''pr_accountId'', 9, Str), (''pr_accountNo'', 10, Str), (''pr_accountType'', 11, Num),
     (''pr_accountPwd'', 12, Pwd), (''pr_suFlag'', 13, Num), (''pr_ssoFlag'', 14, Num),
     (''pr_auditFlag'', 15, Num), (''pr_auditType'', 16, Num), (''pr_cmdFlag'', 17, Num),
     (''pr_clientAddr'', 18, OptStr), (''pr_apId'', 19, Str), (''pr_accessType'', 20, Num),
     (''pr_accountNoEx'', 21, OptStr), (''pr_accountPwdEx'', 22, OptStr),
     (''pr_domainName'', 23, OptStr), (''pr_screenWidth'', 24, OptNum),
     (''pr_screenHeight'', 25, OptNum), (''pr_proxyAddr'', 26, Str),
     (''pr_startTime'', 27, OptStr), (''pr_endTime'', 28, OptStr),
     (''pr_resetPwdTime'', 29, OptStr), (''pr_timeFlag'', 30, Num),
     (''pr_execApp'', 31, Str), (''pr_execParam'', 32, OptStr),
     (''pr_operDate'', 33, OptStr), (''pr_proxyHost'', 34, OptStr),
     (''pr_proxyPort'', 35, OptStr), (''pr_cooperator'', 36, OptStr),
     (''pr_accessMemo'', 37, OptStr)]"

definition GetAuth_id_sql :: "cstring \<Rightarrow> cstring" where
  "GetAuth_id_sql pr_id = ''select * from pr_authaccessres where pr_id='' @ qs pr_id @ [CHR 0x0A]"

definition GetAuth_id :: "cstring \<Rightarrow> (int \<times> struct option \<times> hist) option \<Rightarrow> server \<Rightarrow> (cstring \<Rightarrow> cstring)
    \<Rightarrow> cstring \<Rightarrow> struct option \<Rightarrow> hist \<Rightarrow> (int \<times> struct option \<times> hist) option" where
  "GetAuth_id dt odbc srv dec pr_id pAuth h =
     via_mysql dt odbc (non_null (query_row srv (GetAuth_id_sql pr_id) (fill dec auth_columns)) pAuth h)"

definition GetAuth_uid_sql :: "cstring \<Rightarrow> cstring \<Rightarrow> cstring \<Rightarrow> int \<Rightarrow> cstring" where
  "GetAuth_uid_sql pr_uid pr_resAddr pr_accountNo pr_code =
     (if pr_code = 502 then
        ''select * from pr_authaccessres where pr_uid='' @ qs pr_uid @ '' and pr_resAddr='' @ qs pr_resAddr
        @ '' and pr_accountNo='' @ qs pr_accountNo @ '' and (pr_accessType='' @ fmt_d pr_code
        @ '' or pr_accessType=201 or pr_accessType=202)''
      else
        ''select * from pr_authaccessres where pr_uid='' @ qs pr_uid @ '' and pr_resAddr='' @ qs pr_resAddr
        @ '' and pr_accountNo='' @ qs pr_accountNo @ '' and pr_accessType='' @ fmt_d pr_code)"

definition GetAuth_uid :: "cstring \<Rightarrow> (int \<times> struct option \<times> hist) option \<Rightarrow> server \<Rightarrow> (cstring \<Rightarrow> cstring)
    \<Rightarrow> cstring \<Rightarrow> cstring \<Rightarrow> cstring \<Rightarrow> struct option \<Rightarrow> int \<Rightarrow> hist \<Rightarrow> (int \<times> struct option \<times> hist) option" where
  "GetAuth_uid dt odbc srv dec pr_uid pr_resAddr pr_accountNo pAuth pr_code h =
     via_mysql dt odbc
       (non_null (query_row srv (GetAuth_uid_sql pr_uid pr_resAddr pr_accountNo pr_code)
          (fill dec auth_columns)) pAuth h)"

text \<open>\<open>SetAuth\<close> returns before it does anything.\<close>

definition SetAuth :: "cstring \<Rightarrow> int \<Rightarrow> int" where
  "SetAuth dt odbc = via_mysql dt odbc 0"

subsection \<open>Employees\<close>

text \<open>
  The name is the part of the argument before the first \<open>@\<close> or \<open>#\<close> (\<open>name\<close> has 1024 bytes). The
  frame keeps the code the row gives: 0 for the right password, 1 for a wrong one.
\<close>

definition CheckEmployee_name :: "cstring \<Rightarrow> cstring" where
  "CheckEmployee_name username = (case tokens ''@#'' username of [] \<Rightarrow> [] | t # _ \<Rightarrow> t)"

definition CheckEmployee_sql :: "cstring \<Rightarrow> cstring" where
  "CheckEmployee_sql name = ''select pr_pwd from pr_employee where pr_uid='' @ qs name"

definition CheckEmployee_row :: "(cstring \<Rightarrow> cstring) \<Rightarrow> cstring \<Rightarrow> row \<Rightarrow> int \<Rightarrow> int option" where
  "CheckEmployee_row dec password row rtn =
     (case row of
        Some c # _ \<Rightarrow>
          let real_pwd = dec c
          in if \<not> length real_pwd < 1024 then None
             else if contains real_pwd password \<and> length real_pwd = length password
             then Some 0 else Some 1
      | _ \<Rightarrow> None)"

definition CheckEmployee :: "cstring \<Rightarrow> (int \<times> hist) option \<Rightarrow> server \<Rightarrow> (cstring \<Rightarrow> cstring)
    \<Rightarrow> cstring \<Rightarrow> cstring \<Rightarrow> hist \<Rightarrow> (int \<times> hist) option" where
  "CheckEmployee dt odbc srv dec username password h =
     via_mysql dt odbc
       (let name = CheckEmployee_name username
        in if \<not> length name < 1024 then None
           else do {
             (rc, rtn, h) \<leftarrow> query_row srv (CheckEmployee_sql name) (CheckEmployee_row dec password) 0 h;
             Some (if rc = 0 then rtn else rc, h)
           })"

definition employee_columns :: "column list" where
  "employee_columns =
    [(''pr_id'', 0, Str), (''pr_userName'', 1, Str), (''pr_pinyin'', 2, OptStr),
     (''pr_userType'', 3, Num), (''pr_uid'', 4, Str), (''pr_pwd'', 5, Pwd),
     (''pr_orgId'', 6, OptStr), (''pr_orgName'', 7, OptStr), (''pr_sex'', 8, Num),
     (''pr_email'', 9, OptStr), (''pr_phone'', 10, OptStr), (''pr_relUID'', 11, OptStr),
     (''pr_relName'', 12, OptStr), (''pr_desc'', 13, OptStr), (''pr_status'', 14, Num),
     (''pr_createTime'', 15, OptStr), (''pr_modifyTime'', 16, OptStr),
     (''pr_authType'', 17, Num), (''pr_loginNextTime'', 18, OptStr),
     (''pr_loginFailCount'', 19, OptNum)]"

definition GetEmployee_sql :: "cstring \<Rightarrow> cstring" where
  "GetEmployee_sql pr_id = ''select * from pr_employee where pr_id='' @ qs pr_id"

definition GetEmployee :: "cstring \<Rightarrow> (int \<times> struct option \<times> hist) option \<Rightarrow> server \<Rightarrow> (cstring \<Rightarrow> cstring)
    \<Rightarrow> cstring \<Rightarrow> struct option \<Rightarrow> hist \<Rightarrow> (int \<times> struct option \<times> hist) option" where
  "GetEmployee dt odbc srv dec pr_id pEmployee h =
     via_mysql dt odbc (non_null (query_row srv (GetEmployee_sql pr_id) (fill dec employee_columns)) pEmployee h)"

subsection \<open>Resources\<close>

definition GetResPwd_sql :: "cstring \<Rightarrow> cstring \<Rightarrow> cstring" where
  "GetResPwd_sql res_id accountNo =
     ''SELECT pr_accountPwd FROM pr_resaccount where pr_resId='' @ qs res_id @ '' and pr_accountNo = '' @ qs accountNo"

definition GetResPwd_row :: "(cstring \<Rightarrow> cstring) \<Rightarrow> row \<Rightarrow> cstring \<Rightarrow> cstring option" where
  "GetResPwd_row dec row pwd =
     (case row of Some c # _ \<Rightarrow> if length (dec c) < 1024 then Some (dec c) else None | _ \<Rightarrow> None)"

definition GetResPwd :: "cstring \<Rightarrow> (int \<times> cstring \<times> hist) option \<Rightarrow> server \<Rightarrow> (cstring \<Rightarrow> cstring)
    \<Rightarrow> cstring \<Rightarrow> cstring \<Rightarrow> cstring \<Rightarrow> hist \<Rightarrow> (int \<times> cstring \<times> hist) option" where
  "GetResPwd dt odbc srv dec res_id accountNo pwd h =
     via_mysql dt odbc (query_row srv (GetResPwd_sql res_id accountNo) (GetResPwd_row dec) pwd h)"

text \<open>The first column as a number.\<close>

definition int_row :: "row \<Rightarrow> int \<Rightarrow> int option" where
  "int_row row n = (case row of Some c # _ \<Rightarrow> Some (atoi c) | _ \<Rightarrow> None)"

definition GetResourcePort_sql :: "cstring \<Rightarrow> int \<Rightarrow> cstring" where
  "GetResourcePort_sql pr_resId pr_code =
     (if pr_code = 502 then
        ''SELECT pr_resprotocol.pr_port from pr_resprotocol,pr_accessprotocol where pr_resprotocol.pr_resId='' @ qs pr_resId
        @ '' and pr_resprotocol.pr_apId=pr_accessprotocol.pr_id and (pr_accessprotocol.pr_code='' @ fmt_d pr_code
        @ '' or pr_accessprotocol.pr_code=201 or pr_accessprotocol.pr_code=202)''
      else
        ''SELECT pr_resprotocol.pr_port from pr_resprotocol,pr_accessprotocol where pr_resprotocol.pr_resId='' @ qs pr_resId
        @ '' and pr_resprotocol.pr_apId=pr_accessprotocol.pr_id and pr_accessprotocol.pr_code='' @ fmt_d pr_code)"

definition GetResourcePort :: "cstring \<Rightarrow> (int \<times> int \<times> hist) option \<Rightarrow> server
    \<Rightarrow> cstring \<Rightarrow> int \<Rightarrow> int \<Rightarrow> hist \<Rightarrow> (int \<times> int \<times> hist) option" where
  "GetResourcePort dt odbc srv pr_resId pr_code port h =
     via_mysql dt odbc (query_row srv (GetResourcePort_sql pr_resId pr_code) int_row port h)"

definition resource_columns :: "column list" where
  "resource_columns =
    [(''pr_id'', 0, OptStr), (''pr_rtId'', 1, OptStr), (''pr_name'', 2, OptStr),
     (''pr_address'', 3, OptStr), (''pr_userName'', 4, OptStr), (''pr_port'', 6, OptStr),
     (''pr_status'', 7, OptNum), (''pr_order'', 8, OptNum), (''pr_flag'', 9, OptNum),
     (''pr_ssoFlag'', 10, OptNum), (''pr_auditFlag'', 11, OptNum),
     (''pr_auditType'', 12, OptNum), (''pr_accessType'', 13, OptNum),
     (''pr_desc'', 14, OptStr), (''pr_version'', 15, OptStr),
     (''pr_domainName'', 16, OptStr), (''pr_baseDN'', 17, OptStr),
     (''pr_useSuDo'', 18, OptNum), (''pr_hostName'', 19, OptStr),
     (''pr_relationId'', 20, OptStr)]"

definition GetResource_sql :: "cstring \<Rightarrow> cstring" where
  "GetResource_sql pr_id = ''select * from pr_resource where pr_id='' @ qs pr_id"

text \<open>After the row of the resource, the password of the account is looked up and stored in it.\<close>

definition GetResource :: "cstring \<Rightarrow> (int \<times> struct option \<times> hist) option \<Rightarrow> server \<Rightarrow> (cstring \<Rightarrow> cstring)
    \<Rightarrow> cstring \<Rightarrow> cstring \<Rightarrow> struct option \<Rightarrow> hist \<Rightarrow> (int \<times> struct option \<times> hist) option" where
  "GetResource dt odbc srv dec pr_id accountNo pResource h =
     via_mysql dt odbc
       (non_null (\<lambda>s h. do {
          (rtn, s, h) \<leftarrow> query_row srv (GetResource_sql pr_id) (fill dec resource_columns) s h;
          (if rtn = 0 then do {
             (rtn, pwd, h) \<leftarrow> query_row srv (GetResPwd_sql (str_of s ''pr_id'') accountNo) (GetResPwd_row dec)
                               (str_of s ''pr_passwd'') h;
             Some (rtn, s(''pr_passwd'' \<mapsto> FStr pwd), h)
           } else Some (rtn, s, h))
        }) pResource h)"

definition GetResaccountCount_sql :: "cstring \<Rightarrow> cstring \<Rightarrow> cstring" where
  "GetResaccountCount_sql pr_resId pr_userId =
     ''select count(*) from pr_resaccount where pr_resId='' @ qs pr_resId @ '' and pr_userId='' @ qs pr_userId"

definition GetResaccountCount :: "cstring \<Rightarrow> (int \<times> int \<times> hist) option \<Rightarrow> server
    \<Rightarrow> cstring \<Rightarrow> cstring \<Rightarrow> int \<Rightarrow> hist \<Rightarrow> (int \<times> int \<times> hist) option" where
  "GetResaccountCount dt odbc srv pr_resId pr_userId len h =
     via_mysql dt odbc (query_row srv (GetResaccountCount_sql pr_resId pr_userId) int_row len h)"

definition GetProtocolProt_sql :: "cstring \<Rightarrow> cstring" where
  "GetProtocolProt_sql pr_code = ''select pr_port from pr_accessprotocol where pr_code='' @ qs pr_code"

definition GetProtocolProt :: "cstring \<Rightarrow> (int \<times> int \<times> hist) option \<Rightarrow> server
    \<Rightarrow> cstring \<Rightarrow> int \<Rightarrow> hist \<Rightarrow> (int \<times> int \<times> hist) option" where
  "GetProtocolProt dt odbc srv pr_code pr_port h =
     via_mysql dt odbc (query_row srv (GetProtocolProt_sql pr_code) int_row pr_port h)"

definition accessprotocol_columns :: "column list" where
  "accessprotocol_columns =
    [(''pr_id'', 0, OptStr), (''pr_name'', 1, OptStr), (''pr_code'', 2, OptNum),
     (''pr_status'', 3, OptNum), (''pr_order'', 4, OptNum), (''pr_port'', 5, OptStr),
     (''pr_iconPath'', 6, OptStr)]"

definition GetPrAccessProtocol_sql :: "int \<Rightarrow> cstring" where
  "GetPrAccessProtocol_sql pr_code = ''select * from pr_accessprotocol where pr_code='' @ fmt_d pr_code"

definition GetPrAccessProtocol :: "cstring \<Rightarrow> (int \<times> struct option \<times> hist) option \<Rightarrow> server
    \<Rightarrow> int \<Rightarrow> struct option \<Rightarrow> hist \<Rightarrow> (int \<times> struct option \<times> hist) option" where
  "GetPrAccessProtocol dt odbc srv pr_code pAccessProtocol h =
     via_mysql dt odbc
       (non_null (query_row srv (GetPrAccessProtocol_sql pr_code) (fill (\<lambda>v. v) accessprotocol_columns)) pAccessProtocol h)"

subsection \<open>Accounts of an employee\<close>

definition GetEmployeeaccountCount_sql :: "cstring \<Rightarrow> cstring" where
  "GetEmployeeaccountCount_sql pr_uid = ''select count(*) from pr_employeeaccount where pr_uid='' @ qs pr_uid"

definition GetEmployeeaccountCount :: "cstring \<Rightarrow> (int \<times> int \<times> hist) option \<Rightarrow> server
    \<Rightarrow> cstring \<Rightarrow> int \<Rightarrow> hist \<Rightarrow> (int \<times> int \<times> hist) option" where
  "GetEmployeeaccountCount dt odbc srv pr_uid len h =
     via_mysql dt odbc (query_row srv (GetEmployeeaccountCount_sql pr_uid) int_row len h)"

definition employeeaccount_columns :: "column list" where
  "employeeaccount_columns =
    [(''pr_id'', 0, Str), (''pr_userId'', 1, Str), (''pr_uid'', 2, Str),
     (''pr_userName'', 3, Str), (''pr_resId'', 4, Str), (''pr_resAddr'', 5, Str),
     (''pr_resName'', 6, Str), (''pr_resType'', 7, Str), (''pr_accountId'', 8, Str),
     (''pr_accountNo'', 9, Str), (''pr_accountPwd'', 10, Str),
     (''pr_requestFlag'', 11, Num), (''pr_groupId'', 12, OptStr), (''pr_flag'', 13, Num),
     (''pr_startTime'', 14, Str), (''pr_endTime'', 15, OptStr),
     (''pr_delayTime'', 16, OptStr), (''pr_approverId'', 17, OptStr),
     (''pr_approverName'', 18, OptStr), (''pr_operDate'', 19, OptStr),
     (''pr_desc'', 20, OptStr), (''pr_status'', 21, Num), (''pr_adOu'', 22, OptStr),
     (''pr_dbName'', 23, OptStr)]"

definition GetEmployeeaccount_sql :: "cstring \<Rightarrow> cstring" where
  "GetEmployeeaccount_sql pr_id = ''select * from pr_employeeaccount where pr_id='' @ qs pr_id"

definition GetEmployeeaccount :: "cstring \<Rightarrow> (int \<times> struct option \<times> hist) option \<Rightarrow> server
    \<Rightarrow> cstring \<Rightarrow> struct option \<Rightarrow> hist \<Rightarrow> (int \<times> struct option \<times> hist) option" where
  "GetEmployeeaccount dt odbc srv pr_id pEmployeeaccount h =
     via_mysql dt odbc
       (non_null (query_row srv (GetEmployeeaccount_sql pr_id) (fill (\<lambda>v. v) employeeaccount_columns)) pEmployeeaccount h)"

text \<open>
  The queries for several rows copy row \<open>i\<close> to element \<open>i\<close> of an array, whose length the code does
  not know; a row more than it has elements is a fault.
\<close>

fun fill_rows :: "(row \<Rightarrow> 's \<Rightarrow> 's option) \<Rightarrow> row list \<Rightarrow> 's list \<Rightarrow> 's list option" where
  "fill_rows f [] ss = Some ss"
| "fill_rows f (row # rows) [] = None"
| "fill_rows f (row # rows) (s # ss) =
     do { s \<leftarrow> f row s; ss \<leftarrow> fill_rows f rows ss; Some (s # ss) }"

definition query_rows :: "server \<Rightarrow> cstring \<Rightarrow> (row \<Rightarrow> 's \<Rightarrow> 's option) \<Rightarrow> 's list \<Rightarrow> hist
    \<Rightarrow> (int \<times> 's list \<times> hist) option" where
  "query_rows srv sql f ss h =
     (if \<not> length sql < 1024 then None
      else case srv h sql of
        Query_error \<Rightarrow> Some (2, ss, h @ [sql])
      | Store_error \<Rightarrow> Some (3, ss, h @ [sql])
      | Rows rows \<Rightarrow> do { ss \<leftarrow> fill_rows f rows ss; Some (0, ss, h @ [sql]) })"

definition resaccount_columns :: "column list" where
  "resaccount_columns = [(''pr_accountNo'', 0, Str), (''pr_accountPwd'', 1, Str)]"

definition GetResaccount_sql :: "cstring \<Rightarrow> cstring \<Rightarrow> cstring" where
  "GetResaccount_sql pr_resId pr_userId =
     ''select pr_accountNo,pr_accountPwd from pr_resaccount where pr_resId='' @ qs pr_resId @ '' and pr_userId='' @ qs pr_userId"

definition GetResaccount :: "cstring \<Rightarrow> (int \<times> struct list option \<times> hist) option \<Rightarrow> server
    \<Rightarrow> cstring \<Rightarrow> cstring \<Rightarrow> struct list option \<Rightarrow> hist \<Rightarrow> (int \<times> struct list option \<times> hist) option" where
  "GetResaccount dt odbc srv pr_resId pr_userId pResaccount h =
     via_mysql dt odbc
       (non_null (query_rows srv (GetResaccount_sql pr_resId pr_userId) (fill (\<lambda>v. v) resaccount_columns)) pResaccount h)"

definition GetEmployeeaccounts_sql :: "cstring \<Rightarrow> cstring" where
  "GetEmployeeaccounts_sql pr_uid = ''select * from pr_employeeaccount where pr_uid='' @ qs pr_uid"

definition GetEmployeeaccounts :: "cstring \<Rightarrow> (int \<times> struct list option \<times> hist) option \<Rightarrow> server
    \<Rightarrow> cstring \<Rightarrow> struct list option \<Rightarrow> hist \<Rightarrow> (int \<times> struct list option \<times> hist) option" where
  "GetEmployeeaccounts dt odbc srv pr_uid pEmployeeaccount h =
     via_mysql dt odbc
       (non_null (query_rows srv (GetEmployeeaccounts_sql pr_uid) (fill (\<lambda>v. v) employeeaccount_columns)) pEmployeeaccount h)"

subsection \<open>Messages about an access\<close>

text \<open>The two lines of the literal are joined by the spaces of its continuation.\<close>

definition SetAuthMessage :: "server \<Rightarrow> cstring \<Rightarrow> cstring \<Rightarrow> cstring \<Rightarrow> cstring \<Rightarrow> cstring \<Rightarrow> cstring \<Rightarrow> cstring
    \<Rightarrow> hist \<Rightarrow> (int \<times> hist) option" where
  "SetAuthMessage srv pr_id uid userName resAddr accountNo clientAddr message h =
     (let sql = ''insert into pr_authmessage(pr_id,pr_uid,pr_userName,pr_resAddr,pr_accountNo,pr_clientAddr,pr_logInfo) ''
            @ replicate 37 (CHR '' '') @ ''values ('' @ qs pr_id @ '','' @ qs uid @ '','' @ qs userName @ '',''
            @ qs resAddr @ '','' @ qs accountNo @ '','' @ qs clientAddr @ '','' @ qs message @ '')''
      in if \<not> length sql < 1024 then None
         else Some (if srv h sql = Query_error then 2 else 0, h @ [sql]))"

subsection \<open>The contract of a query for one row\<close>

locale row_query =
  fixes run :: "server \<Rightarrow> 'a \<Rightarrow> 's \<Rightarrow> hist \<Rightarrow> (int \<times> 's \<times> hist) option"
    and sql :: "'a \<Rightarrow> cstring" and copy :: "row \<Rightarrow> 's \<Rightarrow> 's option"
  assumes too_long: "\<not> length (sql a) < 1024 \<Longrightarrow> run srv a s h = None"
    and query_error: "length (sql a) < 1024 \<Longrightarrow> srv h (sql a) = Query_error \<Longrightarrow> run srv a s h = Some (2, s, h @ [sql a])"
    and store_error: "length (sql a) < 1024 \<Longrightarrow> srv h (sql a) = Store_error \<Longrightarrow> run srv a s h = Some (3, s, h @ [sql a])"
    and no_row: "length (sql a) < 1024 \<Longrightarrow> srv h (sql a) = Rows [] \<Longrightarrow> run srv a s h = Some (4, s, h @ [sql a])"
    and first_row: "length (sql a) < 1024 \<Longrightarrow> srv h (sql a) = Rows (row # rows) \<Longrightarrow>
      run srv a s h = map_option (\<lambda>s. (0, s, h @ [sql a])) (copy row s)"
begin

lemma run_cases:
  assumes "run srv a s h = Some (r, s', h')"
  shows "h' = h @ [sql a] \<and> length (sql a) < 1024 \<and>
    (r = 2 \<and> s' = s \<and> srv h (sql a) = Query_error
     \<or> r = 3 \<and> s' = s \<and> srv h (sql a) = Store_error
     \<or> r = 4 \<and> s' = s \<and> srv h (sql a) = Rows []
     \<or> r = 0 \<and> (\<exists>row rows. srv h (sql a) = Rows (row # rows) \<and> copy row s = Some s'))"
proof -
  have len: "length (sql a) < 1024" using assms too_long[of a srv s h] by fastforce
  show ?thesis
  proof (cases "srv h (sql a)")
    case (Rows rows)
    then show ?thesis
      using assms len no_row[OF len] first_row[OF len]
      by (cases rows) auto
  qed (use assms len query_error[OF len] store_error[OF len] in auto)
qed

lemma success_iff:
  "(\<exists>s' h'. run srv a s h = Some (0, s', h')) \<longleftrightarrow>
   length (sql a) < 1024 \<and> (\<exists>row rows. srv h (sql a) = Rows (row # rows) \<and> copy row s \<noteq> None)"
  using run_cases[of srv a s h 0] first_row[of a srv h] by fastforce

lemma failure_keeps: "run srv a s h = Some (r, s', h') \<Longrightarrow> r \<noteq> 0 \<Longrightarrow> s' = s"
  using run_cases by blast

lemma one_statement: "run srv a s h = Some (r, s', h') \<Longrightarrow> h' = h @ [sql a]"
  using run_cases by blast

end

text \<open>An operation with a tested output pointer, on a pointer that is not null.\<close>

definition on_some :: "('s option \<Rightarrow> hist \<Rightarrow> (int \<times> 's option \<times> hist) option) \<Rightarrow> 's \<Rightarrow> hist \<Rightarrow> (int \<times> 's \<times> hist) option" where
  "on_some f s h = (case f (Some s) h of Some (r, Some s', h') \<Rightarrow> Some (r, s', h') | _ \<Rightarrow> None)"

lemma on_some_non_null: "on_some (non_null f) s h = f s h"
  by (cases "f s h") (auto simp: on_some_def non_null_def)

lemma on_some_eq: "on_some f s h = Some (r, s', h') \<longleftrightarrow> f (Some s) h = Some (r, Some s', h')"
  by (auto simp: on_some_def split: option.splits)

lemma via_mysql_MYSQL [simp]: "via_mysql ''MYSQL'' odbc r = r"
  by (simp add: via_mysql_def)

lemma query_row_row_query:
  assumes "\<And>srv a s h. run srv a s h = query_row srv (sql a) copy s h"
  shows "row_query run sql copy"
  by unfold_locales (simp_all add: assms query_row_def map_option_case split: option.split)

interpretation employee: row_query "\<lambda>srv a. on_some (GetEmployee ''MYSQL'' odbc srv dec a)" GetEmployee_sql "fill dec employee_columns"
  for odbc dec
  by (rule query_row_row_query) (simp add: GetEmployee_def[abs_def] on_some_non_null)

interpretation auth_id: row_query "\<lambda>srv a. on_some (GetAuth_id ''MYSQL'' odbc srv dec a)" GetAuth_id_sql "fill dec auth_columns"
  for odbc dec
  by (rule query_row_row_query) (simp add: GetAuth_id_def[abs_def] on_some_non_null)

interpretation employeeaccount: row_query "\<lambda>srv a. on_some (GetEmployeeaccount ''MYSQL'' odbc srv a)" GetEmployeeaccount_sql
    "fill (\<lambda>v. v) employeeaccount_columns" for odbc
  by (rule query_row_row_query) (simp add: GetEmployeeaccount_def[abs_def] on_some_non_null)

interpretation accessprotocol: row_query "\<lambda>srv a. on_some (GetPrAccessProtocol ''MYSQL'' odbc srv a)" GetPrAccessProtocol_sql
    "fill (\<lambda>v. v) accessprotocol_columns" for odbc
  by (rule query_row_row_query) (simp add: GetPrAccessProtocol_def[abs_def] on_some_non_null)

interpretation resourceport: row_query "\<lambda>srv (a, c). GetResourcePort ''MYSQL'' odbc srv a c" "\<lambda>(a, c). GetResourcePort_sql a c" int_row
  for odbc
  by (rule query_row_row_query) (auto simp: GetResourcePort_def)

interpretation respwd: row_query "\<lambda>srv (a, c). GetResPwd ''MYSQL'' odbc srv dec a c" "\<lambda>(a, c). GetResPwd_sql a c" "GetResPwd_row dec"
  for odbc dec
  by (rule query_row_row_query) (auto simp: GetResPwd_def)

interpretation protocolport: row_query "\<lambda>srv a. GetProtocolProt ''MYSQL'' odbc srv a" GetProtocolProt_sql int_row for odbc
  by (rule query_row_row_query) (auto simp: GetProtocolProt_def)

subsection \<open>What \<open>fill\<close> leaves in a structure\<close>

definition column_ok :: "(cstring \<Rightarrow> cstring) \<Rightarrow> row \<Rightarrow> column \<Rightarrow> bool" where
  "column_ok dec row c \<longleftrightarrow>
     (case c of (f, i, k) \<Rightarrow> i < length row \<and>
        (case row ! i of None \<Rightarrow> k = OptStr \<or> k = OptNum | Some v \<Rightarrow> k = Pwd \<longrightarrow> length (dec v) < 1024))"

definition column_value :: "(cstring \<Rightarrow> cstring) \<Rightarrow> copy \<Rightarrow> cstring \<Rightarrow> field" where
  "column_value dec k v = (if k = Num \<or> k = OptNum then FInt (atoi v) else if k = Pwd then FStr (dec v) else FStr v)"

definition filled :: "(cstring \<Rightarrow> cstring) \<Rightarrow> column list \<Rightarrow> row \<Rightarrow> struct \<Rightarrow> struct" where
  "filled dec cols row s = (\<lambda>f. case map_of cols f of
     None \<Rightarrow> s f | Some (i, k) \<Rightarrow> (case row ! i of None \<Rightarrow> s f | Some v \<Rightarrow> Some (column_value dec k v)))"

lemma copy_column_eq:
  "copy_column dec row (f, i, k) s =
     (if column_ok dec row (f, i, k)
      then Some (case row ! i of None \<Rightarrow> s | Some v \<Rightarrow> s(f \<mapsto> column_value dec k v)) else None)"
  by (auto simp: copy_column_def column_ok_def column_value_def split: option.splits)

lemma fill_eq:
  "distinct (map fst cols) \<Longrightarrow> fill dec cols row s =
     (if \<forall>c\<in>set cols. column_ok dec row c then Some (filled dec cols row s) else None)"
proof (induction cols arbitrary: s)
  case Nil
  then show ?case by (simp add: filled_def)
next
  case (Cons c cols)
  obtain f i k where c: "c = (f, i, k)" by (cases c)
  have nf: "map_of cols f = None" using Cons.prems c by (auto simp: map_of_eq_None_iff image_iff)
  show ?case
  proof (cases "row ! i")
    case None
    then have "filled dec cols row s = filled dec (c # cols) row s"
      using nf by (auto simp: filled_def c fun_eq_iff split: option.split)
    with Cons c None show ?thesis by (simp add: copy_column_eq)
  next
    case (Some v)
    have "filled dec cols row (s(f \<mapsto> column_value dec k v)) = filled dec (c # cols) row s"
      using nf Some by (auto simp: filled_def c fun_eq_iff split: option.split)
    with Cons c Some show ?thesis by (simp add: copy_column_eq)
  qed
qed

lemma columns_distinct:
  "distinct (map fst employee_columns)" "distinct (map fst auth_columns)" "distinct (map fst resource_columns)"
  "distinct (map fst employeeaccount_columns)" "distinct (map fst accessprotocol_columns)"
  by (simp_all add: employee_columns_def auth_columns_def resource_columns_def employeeaccount_columns_def accessprotocol_columns_def)

subsection \<open>Properties\<close>

text \<open>\<open>GetEmployee\<close> and \<open>GetAuth_id\<close> send exactly one statement and return 0 exactly when the
  server has a row; then every field is its column, copied, converted or decrypted, a NULL column
  that is tested leaves its field alone, and no other field changes. With any other code the
  structure is as before; a NULL in an untested column is a crash.\<close>

theorem row_lookup_result:
  assumes "op = on_some (GetEmployee ''MYSQL'' odbc srv dec pr_id) \<and> sql = GetEmployee_sql pr_id \<and> cols = employee_columns
    \<or> op = on_some (GetAuth_id ''MYSQL'' odbc srv dec pr_id) \<and> sql = GetAuth_id_sql pr_id \<and> cols = auth_columns"
    and "length sql < 1024"
  shows "op s h =
     (case srv h sql of
        Query_error \<Rightarrow> Some (2, s, h @ [sql])
      | Store_error \<Rightarrow> Some (3, s, h @ [sql])
      | Rows [] \<Rightarrow> Some (4, s, h @ [sql])
      | Rows (row # rows) \<Rightarrow>
          (if \<forall>c\<in>set cols. column_ok dec row c then Some (0, filled dec cols row s, h @ [sql]) else None))"
  using assms
  by (auto simp: employee.query_error employee.store_error employee.no_row employee.first_row
      auth_id.query_error auth_id.store_error auth_id.no_row auth_id.first_row fill_eq columns_distinct
      split: db_reply.split list.split)

theorem row_lookup_result_witness:
  "on_some (GetEmployee ''MYSQL'' None (\<lambda>h q. Rows []) (\<lambda>v. v) ''7'') zeroed []
     = Some (4, zeroed, [GetEmployee_sql ''7''])"
proof -
  have "length (GetEmployee_sql ''7'') < 1024" by (simp add: GetEmployee_sql_def qs_def)
  from row_lookup_result[OF disjI1[OF conjI[OF refl conjI[OF refl refl]]] this] show ?thesis by simp
qed

text \<open>\<open>CheckEmployee\<close> accepts exactly when the first stored password decrypts to the given one;
  a user without a row gives 4, a server error 2 or 3.\<close>

theorem CheckEmployee_result:
  assumes "sql = CheckEmployee_sql (CheckEmployee_name username)" and "length sql < 1024"
    and "\<forall>row rows. srv h sql = Rows (row # rows) \<longrightarrow> (\<exists>c cs. row = Some c # cs \<and> length (dec c) < 1024)"
  shows "CheckEmployee ''MYSQL'' odbc srv dec username password h =
     Some (case srv h sql of
        Query_error \<Rightarrow> 2
      | Store_error \<Rightarrow> 3
      | Rows [] \<Rightarrow> 4
      | Rows (row # rows) \<Rightarrow> if dec (the (hd row)) = password then 0 else 1, h @ [sql])"
proof -
  have n: "length (CheckEmployee_name username) < 1024"
    using assms(1,2) by (simp add: CheckEmployee_sql_def qs_def)
  have eq: "contains a b \<and> length a = length b \<longleftrightarrow> a = b" for a b
    using search.exact[of a b] by (auto simp: contains_def)
  have self: "contains a a" for a using eq[of a a] by simp
  show ?thesis
    using assms n
    by (auto simp: CheckEmployee_def Let_def query_row_def CheckEmployee_row_def eq self split: db_reply.split list.split)
qed

theorem CheckEmployee_result_witness:
  "CheckEmployee ''MYSQL'' None (\<lambda>h q. Rows [[Some ''pw'']]) (\<lambda>v. v) ''joe@host'' ''pw'' []
     = Some (0, [CheckEmployee_sql ''joe''])"
proof -
  have t: "tokens ''@#'' ''joe@host'' = [''joe'', ''host'']" by simp
  show ?thesis
    using CheckEmployee_result[of _ "''joe@host''" "\<lambda>h q. Rows [[Some ''pw'']]" "[]" "\<lambda>v. v" None "''pw''"]
    by (simp add: CheckEmployee_name_def t CheckEmployee_sql_def qs_def)
qed

text \<open>The user name goes into the statement as it is. A name with a quote adds a condition of the
  caller's choice, so that the password of any row the server then finds is accepted.\<close>

theorem CheckEmployee_injection:
  assumes "name = ''x'' @ [CHR 0x27] @ '' or pr_uid<>'' @ [CHR 0x27]"
    and "sql = ''select pr_pwd from pr_employee where pr_uid='' @ qs ''x'' @ '' or pr_uid<>'' @ qs []"
    and "srv h sql = Rows [[Some c]]" and "dec c = password" and "length password < 1024"
  shows "CheckEmployee ''MYSQL'' odbc srv dec name password h = Some (0, h @ [sql])"
proof -
  have t: "tokens ''@#'' name = [name]"
    by (rule tokens_single) (simp_all add: assms(1))
  have s: "CheckEmployee_sql name = sql" by (simp add: CheckEmployee_sql_def assms(1,2) qs_def)
  have "length sql < 1024" "length name < 1024" by (simp_all add: assms(1,2) qs_def)
  then show ?thesis
    using assms(3-5) s search.exact[of password password]
    by (simp add: CheckEmployee_def CheckEmployee_name_def t query_row_def CheckEmployee_row_def contains_def)
qed

theorem CheckEmployee_injection_witness:
  "\<exists>h'. CheckEmployee ''MYSQL'' None (\<lambda>h q. Rows [[Some ''pw'']]) (\<lambda>v. v)
     (''x'' @ [CHR 0x27] @ '' or pr_uid<>'' @ [CHR 0x27]) ''pw'' [] = Some (0, h')"
  using CheckEmployee_injection[OF refl refl, of "\<lambda>h q. Rows [[Some ''pw'']]" "[]" "''pw''" "\<lambda>v. v" "''pw''" None]
  by simp

end
