(* ===== verification/Access.thy ===== *)
theory Access
  imports Db Policy
begin

text \<open>
  \<open>GetJOINTable\<close> and \<open>GetPolicy\<close> of \<^verbatim>\<open>DBRecord/DBoperate.c\<close> (lines 1154 to 1527): the rows that
  connect a user, an account and a resource, and the rules of the policy that applies to one of
  them. \<open>GetPolicy\<close> climbs the groups of the resource; its loop ends only when the database says
  so, hence the partial function.
\<close>

definition sp :: "nat \<Rightarrow> cstring" where "sp n = replicate n (CHR '' '')"
definition tabs :: "nat \<Rightarrow> cstring" where "tabs n = replicate n (CHR 0x09)"

text \<open>A statement and its answer; the buffer of the statement has \<open>cap\<close> bytes.\<close>

definition ask :: "server \<Rightarrow> nat \<Rightarrow> cstring \<Rightarrow> hist \<Rightarrow> ((int + row list) \<times> hist) option" where
  "ask srv cap sql h =
     (if \<not> length sql < cap then None
      else Some (case srv h sql of Query_error \<Rightarrow> Inl 2 | Store_error \<Rightarrow> Inl 3 | Rows rows \<Rightarrow> Inr rows, h @ [sql]))"

subsection \<open>The rows of a login\<close>

record join_id =
  pr_employee_id :: cstring
  pr_employeeaccount_id :: cstring
  pr_resource_id :: cstring
  pr_resaccount_id :: cstring
  pr_role_id :: cstring
  pr_accessprotocol_id :: cstring

definition join_row :: "row \<Rightarrow> join_id \<Rightarrow> join_id option" where
  "join_row row t =
     (case row of
        [Some a, Some b, Some c, Some d, Some e, Some f] \<Rightarrow>
          Some \<lparr>pr_employee_id = a, pr_employeeaccount_id = b, pr_resource_id = c, pr_resaccount_id = d,
                pr_role_id = e, pr_accessprotocol_id = f\<rparr>
      | _ \<Rightarrow> None)"

definition GetJOINTable_sql_502 :: "cstring \<Rightarrow> cstring \<Rightarrow> cstring \<Rightarrow> int \<Rightarrow> cstring \<Rightarrow> cstring" where
  "GetJOINTable_sql_502 pr_uid pr_address pr_userName pr_code now =
       
       ''SELECT Pr_Employee.pr_id,Pr_EmployeeAccount.pr_id,Pr_Resource.pr_id,pr_resaccount.pr_id,pr_employeerole.pr_roleId,Pr_AccessProtocol.pr_id  FROM'' @
       sp 22 @
       ''Pr_Employee,Pr_EmployeeAccount,Pr_Resource, pr_resaccount,Pr_ResProtocol,Pr_AccessProtocol,Pr_EmployeeRole where'' @
       sp 22 @ ''Pr_Employee.pr_uid='' @ qs pr_uid @ '' AND'' @ sp 21 @
       ''Pr_Employee.pr_id=Pr_EmployeeAccount.pr_userId and'' @ sp 20 @
       ''Pr_EmployeeAccount.pr_resId = Pr_Resource.pr_id and'' @ sp 22 @
       ''pr_employeeaccount.pr_accountId=pr_resaccount.pr_id and'' @ sp 21 @
       ''Pr_Resource.pr_address='' @ qs pr_address @ '' and'' @ sp 21 @
       ''pr_resaccount.pr_resId=pr_resource.pr_id AND'' @ sp 21 @
       ''pr_resaccount.pr_accountNo='' @ qs pr_userName @ '' and'' @ sp 21 @
       ''Pr_Resource.pr_id=Pr_ResProtocol.pr_resId and'' @ sp 21 @
       ''Pr_ResProtocol.pr_apId=Pr_AccessProtocol.pr_id and'' @ sp 21 @
       ''(Pr_AccessProtocol.pr_code='' @ fmt_d pr_code @ '' or'' @ sp 21 @
       ''Pr_AccessProtocol.pr_code=201 or'' @ sp 21 @ ''Pr_AccessProtocol.pr_code=202) and'' @
       sp 21 @ ''Pr_Employee.pr_id=Pr_EmployeeRole.pr_userId AND'' @ sp 22 @
       ''Pr_Resource.pr_status=1 and'' @ sp 22 @ ''pr_employeeaccount.pr_status=1 AND'' @ sp 22 @
       ''( pr_employeeaccount.pr_flag=1 OR'' @ sp 29 @
       ''(pr_employeeaccount.pr_flag=2 AND pr_employeeaccount.pr_endTime is NULL) OR'' @ sp 29 @
       ''(pr_employeeaccount.pr_flag=2 AND pr_employeeaccount.pr_endTime>'' @ qs now @ '')'' @
       sp 21 @ '')''"

definition GetJOINTable_sql_other :: "cstring \<Rightarrow> cstring \<Rightarrow> cstring \<Rightarrow> int \<Rightarrow> cstring \<Rightarrow> cstring" where
  "GetJOINTable_sql_other pr_uid pr_address pr_userName pr_code now =
       
       ''SELECT Pr_Employee.pr_id,Pr_EmployeeAccount.pr_id,Pr_Resource.pr_id,pr_resaccount.pr_id,pr_employeerole.pr_roleId,Pr_AccessProtocol.pr_id  FROM'' @
       sp 22 @
       ''Pr_Employee,Pr_EmployeeAccount,Pr_Resource, pr_resaccount,Pr_ResProtocol,Pr_AccessProtocol,Pr_EmployeeRole where'' @
       sp 22 @ ''Pr_Employee.pr_uid='' @ qs pr_uid @ '' AND'' @ sp 21 @
       ''Pr_Employee.pr_id=Pr_EmployeeAccount.pr_userId and'' @ sp 20 @
       ''Pr_EmployeeAccount.pr_resId = Pr_Resource.pr_id and'' @ sp 22 @
       ''pr_employeeaccount.pr_accountId=pr_resaccount.pr_id and'' @ sp 21 @
       ''Pr_Resource.pr_address='' @ qs pr_address @ '' and'' @ sp 21 @
       ''pr_resaccount.pr_resId=pr_resource.pr_id AND'' @ sp 21 @
       ''pr_resaccount.pr_accountNo='' @ qs pr_userName @ '' and'' @ sp 21 @
       ''Pr_Resource.pr_id=Pr_ResProtocol.pr_resId and'' @ sp 21 @
       ''Pr_ResProtocol.pr_apId=Pr_AccessProtocol.pr_id and'' @ sp 21 @
       ''Pr_AccessProtocol.pr_code='' @ fmt_d pr_code @ '' AND'' @ sp 21 @
       ''Pr_Employee.pr_id=Pr_EmployeeRole.pr_userId AND'' @ sp 22 @
       ''Pr_Resource.pr_status=1 and'' @ sp 22 @ ''pr_employeeaccount.pr_status=1 AND'' @ sp 22 @
       ''( pr_employeeaccount.pr_flag=1 OR'' @ sp 29 @
       ''(pr_employeeaccount.pr_flag=2 AND pr_employeeaccount.pr_endTime is NULL) OR'' @ sp 29 @
       ''(pr_employeeaccount.pr_flag=2 AND pr_employeeaccount.pr_endTime>'' @ qs now @ '')'' @
       sp 21 @ '')''"

definition GetJOINTable_sql :: "cstring \<Rightarrow> cstring \<Rightarrow> cstring \<Rightarrow> int \<Rightarrow> cstring \<Rightarrow> cstring" where
  "GetJOINTable_sql pr_uid pr_address pr_userName pr_code now =
     (if pr_code = 502 then GetJOINTable_sql_502 pr_uid pr_address pr_userName pr_code now
      else GetJOINTable_sql_other pr_uid pr_address pr_userName pr_code now)"

text \<open>
  \<open>now\<close> is the formatted local time. The result: the code, the table, the number of rows in it
  (as before when there is none) and the statements.
\<close>

definition GetJOINTable :: "cstring \<Rightarrow> (int \<times> join_id list \<times> int \<times> hist) option \<Rightarrow> server \<Rightarrow> cstring
    \<Rightarrow> cstring \<Rightarrow> cstring \<Rightarrow> cstring \<Rightarrow> int \<Rightarrow> join_id list \<Rightarrow> int \<Rightarrow> hist
    \<Rightarrow> (int \<times> join_id list \<times> int \<times> hist) option" where
  "GetJOINTable dt odbc srv now pr_uid pr_address pr_userName pr_code pTableID table_count h =
     via_mysql dt odbc
       (do {
          (r, h) \<leftarrow> ask srv 10240 (GetJOINTable_sql pr_uid pr_address pr_userName pr_code now) h;
          (case r of
             Inl rc \<Rightarrow> Some (rc, pTableID, table_count, h)
           | Inr rows \<Rightarrow>
               if 0 < length rows then do {
                 pTableID \<leftarrow> fill_rows join_row rows pTableID;
                 Some (0, pTableID, int (length rows), h)
               } else Some (4, pTableID, table_count, h))
        })"

subsection \<open>Finding the role item of a policy\<close>

definition roleitem_sql :: "cstring \<Rightarrow> cstring \<Rightarrow> cstring" where
  "roleitem_sql role_id resource_id =
       ''SELECT Pr_ProlicyRoleItem.pr_id from Pr_ProlicyRoleItem  WHERE'' @ sp 14 @
       ''Pr_ProlicyRoleItem.pr_roleId='' @ qs role_id @ '' and'' @ sp 14 @
       ''pr_prolicyroleitem.pr_relationId='' @ qs resource_id @ '' AND'' @ sp 14 @
       ''pr_prolicyroleitem.pr_type='' @ qs ''2''"

definition groupitem_sql :: "cstring \<Rightarrow> cstring \<Rightarrow> cstring" where
  "groupitem_sql resource_id role_id =
       ''SELECT Pr_ProlicyRoleItem.pr_id from Pr_ProlicyRoleItem,pr_resprolicygroupitem WHERE'' @
       sp 28 @ ''pr_resprolicygroupitem.pr_resId='' @ qs resource_id @ ''  and'' @ sp 25 @
       ''pr_resprolicygroupitem.pr_rpgId=Pr_ProlicyRoleItem.pr_relationId and'' @ sp 27 @
       ''Pr_ProlicyRoleItem.pr_roleId='' @ qs role_id"

definition group_sql :: "cstring \<Rightarrow> cstring" where
  "group_sql resource_id =
       ''SELECT pr_resprolicygroupitem.pr_rpgId from pr_resprolicygroupitem WHERE'' @ sp 28 @
       ''pr_resprolicygroupitem.pr_resId='' @ qs resource_id"

definition parent_sql :: "cstring \<Rightarrow> cstring" where
  "parent_sql groupid =
       ''SELECT pr_resprolicygroup.pr_parentId from pr_resprolicygroup WHERE'' @ sp 34 @
       ''pr_resprolicygroup.pr_id='' @ qs groupid"

definition rootitem_sql :: "cstring \<Rightarrow> cstring" where
  "rootitem_sql groupid =
       ''SELECT Pr_ProlicyRoleItem.pr_id from Pr_ProlicyRoleItem,pr_resprolicygroup WHERE'' @
       sp 40 @ ''Pr_ProlicyRoleItem.pr_relationId='' @ qs groupid @ '' and'' @ sp 39 @
       ''Pr_ProlicyRoleItem.pr_roleId='' @ qs ''0''"

definition parentitem_sql :: "cstring \<Rightarrow> cstring \<Rightarrow> cstring" where
  "parentitem_sql groupid role_id =
       ''SELECT Pr_ProlicyRoleItem.pr_id from Pr_ProlicyRoleItem,pr_resprolicygroup WHERE'' @
       sp 36 @ ''Pr_ProlicyRoleItem.pr_relationId='' @ qs groupid @ '' and'' @ sp 35 @
       ''Pr_ProlicyRoleItem.pr_roleId='' @ qs role_id"

text \<open>The first column of the first row; a NULL there is a crash of the copy.\<close>

definition first_column :: "row list \<Rightarrow> cstring option option" where
  "first_column rows =
     (case rows of
        [] \<Rightarrow> Some None
      | row # _ \<Rightarrow> (case row of Some v # _ \<Rightarrow> Some (Some v) | _ \<Rightarrow> None))"

text \<open>
  From the label \<open>requery2\<close>: the parent of the group, then the role item of that group, until one
  is found or the root is reached. The result is the return code so far and the item.
\<close>

partial_function (option) climb_groups :: "server \<Rightarrow> cstring \<Rightarrow> cstring \<Rightarrow> hist
    \<Rightarrow> (int \<times> cstring option \<times> hist) option" where
  "climb_groups srv role_id groupid h =
     do {
       (r, h) \<leftarrow> ask srv 4096 (parent_sql groupid) h;
       (case r of
          Inl rc \<Rightarrow> Some (rc, None, h)
        | Inr rows \<Rightarrow> do {
            p \<leftarrow> first_column rows;
            (case p of
               None \<Rightarrow> Some (5, None, h)
             | Some groupid \<Rightarrow>
                 if \<not> length groupid < 32 then None
                 else do {
                   (r, h) \<leftarrow> ask srv 4096
                      (if groupid = ''1000000000'' then rootitem_sql groupid else parentitem_sql groupid role_id) h;
                   (case r of
                      Inl rc \<Rightarrow> Some (rc, None, h)
                    | Inr rows \<Rightarrow> do {
                        i \<leftarrow> first_column rows;
                        (case i of
                           Some item \<Rightarrow> Some (0, Some item, h)
                         | None \<Rightarrow>
                             if groupid = ''1000000000'' \<or> groupid = ''0000000000''
                             then Some (6, None, h)
                             else climb_groups srv role_id groupid h)
                      })
                 })
          })
     }"

text \<open>The group of the resource, then up from it.\<close>

definition find_by_group :: "server \<Rightarrow> join_id \<Rightarrow> hist \<Rightarrow> (int \<times> cstring option \<times> hist) option" where
  "find_by_group srv t h =
     do {
       (r, h) \<leftarrow> ask srv 4096 (group_sql (pr_resource_id t)) h;
       (case r of
          Inl rc \<Rightarrow> Some (rc, None, h)
        | Inr rows \<Rightarrow> do {
            g \<leftarrow> first_column rows;
            (case g of
               None \<Rightarrow> Some (5, None, h)
             | Some groupid \<Rightarrow>
                 if \<not> length groupid < 32 then None
                 else climb_groups srv (pr_role_id t) groupid h)
          })
     }"

text \<open>
  The label \<open>requery\<close>: a role item of the resource itself, then of a group it is in, then of the
  groups above. Only the first sets \<open>isResource\<close>; the other two are not tried when it is set.
\<close>

definition find_roleitem :: "server \<Rightarrow> join_id \<Rightarrow> int \<Rightarrow> hist \<Rightarrow> (int \<times> cstring option \<times> int \<times> hist) option" where
  "find_roleitem srv t isResource h =
     do {
       (r, h) \<leftarrow> ask srv 4096 (roleitem_sql (pr_role_id t) (pr_resource_id t)) h;
       (case r of
          Inl rc \<Rightarrow> Some (rc, None, isResource, h)
        | Inr rows \<Rightarrow> do {
            i \<leftarrow> first_column rows;
            (case i of
               Some item \<Rightarrow> Some (0, Some item, 1, h)
             | None \<Rightarrow>
                 if isResource \<noteq> 0 then Some (4, None, isResource, h)
                 else do {
                   (r, h) \<leftarrow> ask srv 4096 (groupitem_sql (pr_resource_id t) (pr_role_id t)) h;
                   (case r of
                      Inl rc \<Rightarrow> Some (rc, None, isResource, h)
                    | Inr rows \<Rightarrow> do {
                        i \<leftarrow> first_column rows;
                        (case i of
                           Some item \<Rightarrow> Some (0, Some item, isResource, h)
                         | None \<Rightarrow> do {
                             (rc, item, h) \<leftarrow> find_by_group srv t h;
                             Some (rc, item, isResource, h)
                           })
                      })
                 })
          })
     }"

subsection \<open>The rules of a role item\<close>

definition ncl_sql :: "cstring \<Rightarrow> cstring" where
  "ncl_sql item =
       
       ''SELECT Pr_NclItem.pr_startIp,Pr_NclItem.pr_endIp from Pr_ProlicyRoleItem,Pr_NclItem WHERE '' @
       tabs 1 @ ''Pr_ProlicyRoleItem.pr_id='' @ qs item @ '' and '' @ tabs 1 @
       ''Pr_NclItem.pr_relationId=Pr_ProlicyRoleItem.pr_id  '' @ tabs 1 @
       ''GROUP BY Pr_NclItem.pr_id ''"

definition pcl_sql :: "cstring \<Rightarrow> cstring" where
  "pcl_sql item =
       
       ''SELECT Pr_AccessProtocol.pr_name,Pr_AccessProtocol.pr_code from Pr_ProlicyRoleItem,Pr_PclItem,Pr_AccessProtocol WHERE '' @
       tabs 1 @ ''Pr_ProlicyRoleItem.pr_id='' @ qs item @ '' and '' @ tabs 1 @
       ''Pr_PclItem.pr_relationId=Pr_ProlicyRoleItem.pr_id  and '' @ tabs 1 @
       ''Pr_PclItem.pr_apId=Pr_AccessProtocol.pr_id '' @ tabs 1 @
       ''GROUP BY Pr_AccessProtocol.pr_id ''"

definition ccl_sql :: "cstring \<Rightarrow> cstring" where
  "ccl_sql item =
       
       ''SELECT Pr_CclItem.pr_command,Pr_CclItem.pr_type,Pr_CclItem.pr_tname from Pr_ProlicyRoleItem,Pr_CclItem WHERE '' @
       tabs 1 @ ''Pr_ProlicyRoleItem.pr_id='' @ qs item @ '' and '' @ tabs 1 @
       ''Pr_CclItem.pr_relationId=Pr_ProlicyRoleItem.pr_id '' @ tabs 1 @
       ''GROUP BY Pr_CclItem.pr_id''"

definition tcl_sql :: "cstring \<Rightarrow> cstring" where
  "tcl_sql item =
       
       ''SELECT Pr_TclItem.pr_cycleFlag,Pr_TclItem.pr_cycleLimit,Pr_TclItem.pr_statTime,Pr_TclItem.pr_endTime,Pr_TclItem.pr_timeFlag,Pr_TclItem.pr_startDate from Pr_ProlicyRoleItem,Pr_Role,Pr_TclItem WHERE '' @
       tabs 1 @ ''Pr_ProlicyRoleItem.pr_id='' @ qs item @ '' and '' @ tabs 1 @
       ''Pr_TclItem.pr_relationId=Pr_ProlicyRoleItem.pr_id '' @ tabs 1 @
       ''GROUP BY Pr_TclItem.pr_id''"

definition ncl_row :: "row \<Rightarrow> ncl_item option" where
  "ncl_row row = (case row of Some a # Some b # _ \<Rightarrow> Some \<lparr>ncl_startIp = a, ncl_endIp = b\<rparr> | _ \<Rightarrow> None)"

definition pcl_row :: "row \<Rightarrow> pcl_item option" where
  "pcl_row row = (case row of Some a # Some b # _ \<Rightarrow> Some \<lparr>pcl_name = a, pcl_code = atoi b\<rparr> | _ \<Rightarrow> None)"

definition ccl_row :: "row \<Rightarrow> ccl_item option" where
  "ccl_row row =
     (case row of
        Some a # Some b # Some c # _ \<Rightarrow>
          Some \<lparr>ccl_command = strupr a, ccl_type = atoi b, ccl_table = strupr c\<rparr>
      | _ \<Rightarrow> None)"

text \<open>The memory of a time rule comes from \<open>malloc\<close>: a NULL column leaves what was there, \<open>junk\<close>.\<close>

definition tcl_row :: "cstring \<Rightarrow> row \<Rightarrow> tcl_item option" where
  "tcl_row junk row =
     (case row of
        Some a # Some b # c # d # Some e # f # _ \<Rightarrow>
          Some \<lparr>tcl_cycleFlag = atoi a, tcl_cycleLimit = b,
            tcl_statTime = (case c of None \<Rightarrow> junk | Some v \<Rightarrow> v),
            tcl_endTime = (case d of None \<Rightarrow> junk | Some v \<Rightarrow> v),
            tcl_timeFlag = atoi e,
            tcl_startDate = (case f of None \<Rightarrow> junk | Some v \<Rightarrow> v)\<rparr>
      | _ \<Rightarrow> None)"

text \<open>
  One of the four queries: on an error the code and the policy as it is; without rows the policy
  keeps its list, otherwise the list is replaced.
\<close>

definition load_rules :: "server \<Rightarrow> cstring \<Rightarrow> (row \<Rightarrow> 'i option) \<Rightarrow> ('i list \<Rightarrow> Policy \<Rightarrow> Policy)
    \<Rightarrow> Policy \<Rightarrow> hist \<Rightarrow> (int \<times> Policy \<times> hist) option" where
  "load_rules srv sql item put p h =
     do {
       (r, h) \<leftarrow> ask srv 4096 sql h;
       (case r of
          Inl rc \<Rightarrow> Some (rc, p, h)
        | Inr rows \<Rightarrow>
            if 0 < length rows then do { items \<leftarrow> those (map item rows); Some (0, put items p, h) }
            else Some (0, p, h))
     }"

definition GetPolicy_rules :: "server \<Rightarrow> cstring \<Rightarrow> Policy \<Rightarrow> hist \<Rightarrow> (int \<times> Policy \<times> hist) option" where
  "GetPolicy_rules srv junk p h =
     (let item = pr_prolicyroleitem_id p
      in do {
        (rc, p, h) \<leftarrow> load_rules srv (ncl_sql item) ncl_row (\<lambda>xs p. p\<lparr>pNclItem := xs\<rparr>) p h;
        (if rc \<noteq> 0 then Some (rc, p, h) else do {
           (rc, p, h) \<leftarrow> load_rules srv (pcl_sql item) pcl_row (\<lambda>xs p. p\<lparr>pPclItem := xs\<rparr>) p h;
           (if rc \<noteq> 0 then Some (rc, p, h) else do {
              (rc, p, h) \<leftarrow> load_rules srv (ccl_sql item) ccl_row (\<lambda>xs p. p\<lparr>pCclItem := xs\<rparr>) p h;
              (if rc \<noteq> 0 then Some (rc, p, h) else
                 load_rules srv (tcl_sql item) (tcl_row junk) (\<lambda>xs p. p\<lparr>pTclItem := xs\<rparr>) p h)
           })
        })
      })"

definition GetPolicy :: "cstring \<Rightarrow> (int \<times> Policy \<times> int \<times> hist) option \<Rightarrow> server \<Rightarrow> cstring
    \<Rightarrow> join_id option \<Rightarrow> Policy \<Rightarrow> int \<Rightarrow> hist \<Rightarrow> (int \<times> Policy \<times> int \<times> hist) option" where
  "GetPolicy dt odbc srv junk pTableID p isResource h =
     via_mysql dt odbc
       (case pTableID of
          None \<Rightarrow> Some (1, p, isResource, h)
        | Some t \<Rightarrow> do {
            (rc, item, isResource, h) \<leftarrow> find_roleitem srv t isResource h;
            (case item of
               None \<Rightarrow> Some (rc, p, isResource, h)
             | Some v \<Rightarrow> do {
                 (rc, p, h) \<leftarrow> GetPolicy_rules srv junk (p\<lparr>pr_prolicyroleitem_id := v\<rparr>) h;
                 Some (rc, p, isResource, h)
               })
          })"

subsection \<open>The audit levels of a resource\<close>

text \<open>The level count and the commands; one command per row, in an array of unknown length.\<close>

definition GetLeveCmd_sql :: "cstring \<Rightarrow> cstring" where
  "GetLeveCmd_sql resId =
     ''select pr_auditlevelcmd.pr_alId,pr_auditlevelcmd.pr_command from pr_auditlevelres,pr_auditlevelcmd where pr_auditlevelres.pr_resId=''
     @ qs resId @ '' and pr_auditlevelcmd.pr_alId=pr_auditlevelres.pr_alId''"

definition level_row :: "row \<Rightarrow> int \<times> cstring \<Rightarrow> (int \<times> cstring) option" where
  "level_row row s = (case row of Some a # Some b # _ \<Rightarrow> Some (atoi a, strupr b) | _ \<Rightarrow> None)"

definition GetLeveCmd :: "cstring \<Rightarrow> (int \<times> (int \<times> cstring) list \<times> int \<times> hist) option \<Rightarrow> server
    \<Rightarrow> cstring \<Rightarrow> (int \<times> cstring) list \<Rightarrow> int \<Rightarrow> hist
    \<Rightarrow> (int \<times> (int \<times> cstring) list \<times> int \<times> hist) option" where
  "GetLeveCmd dt odbc srv resId levelcmd level_count h =
     via_mysql dt odbc
       (do {
          (r, h) \<leftarrow> ask srv 1024 (GetLeveCmd_sql resId) h;
          (case r of
             Inl rc \<Rightarrow> Some (rc, levelcmd, level_count, h)
           | Inr rows \<Rightarrow>
               if 0 < length rows then do {
                 levelcmd \<leftarrow> fill_rows level_row rows levelcmd;
                 Some (0, levelcmd, int (length rows), h)
               } else Some (0, levelcmd, level_count, h))
        })"

subsection \<open>The climb through the groups\<close>

text \<open>
  What the climb means on a server whose answers do not depend on what was asked before: the item of
  the nearest group above that has one; 6 at a root without an item; 5 at a group without a parent.
  The relation has a result only where the chain of parents ends.
\<close>

definition answers :: "server \<Rightarrow> cstring \<Rightarrow> row list \<Rightarrow> bool" where
  "answers srv sql rows \<longleftrightarrow> length sql < 4096 \<and> (\<forall>h. srv h sql = Rows rows)"

definition is_root :: "cstring \<Rightarrow> bool" where
  "is_root g \<longleftrightarrow> g = ''1000000000'' \<or> g = ''0000000000''"

definition item_sql :: "cstring \<Rightarrow> cstring \<Rightarrow> cstring" where
  "item_sql g role_id = (if g = ''1000000000'' then rootitem_sql g else parentitem_sql g role_id)"

inductive climbs :: "server \<Rightarrow> cstring \<Rightarrow> cstring \<Rightarrow> int \<Rightarrow> cstring option \<Rightarrow> bool" for srv role_id where
  found: "answers srv (parent_sql g) ((Some p # ps) # rows) \<Longrightarrow> length p < 32 \<Longrightarrow>
    answers srv (item_sql p role_id) ((Some item # is) # rows') \<Longrightarrow> climbs srv role_id g 0 (Some item)"
| root: "answers srv (parent_sql g) ((Some p # ps) # rows) \<Longrightarrow> length p < 32 \<Longrightarrow>
    answers srv (item_sql p role_id) [] \<Longrightarrow> is_root p \<Longrightarrow> climbs srv role_id g 6 None"
| orphan: "answers srv (parent_sql g) [] \<Longrightarrow> climbs srv role_id g 5 None"
| up: "answers srv (parent_sql g) ((Some p # ps) # rows) \<Longrightarrow> length p < 32 \<Longrightarrow>
    answers srv (item_sql p role_id) [] \<Longrightarrow> \<not> is_root p \<Longrightarrow> climbs srv role_id p rc item \<Longrightarrow>
    climbs srv role_id g rc item"

lemma ask_answers: "answers srv sql rows \<Longrightarrow> length sql < 4096 \<and> ask srv 4096 sql h = Some (Inr rows, h @ [sql])"
  by (simp add: answers_def ask_def)

lemma first_column_simps [simp]:
  "first_column [] = Some None" "first_column ((Some v # r) # rows) = Some (Some v)"
  by (simp_all add: first_column_def)

lemma climb_step:
  assumes "answers srv (parent_sql g) ((Some p # ps) # rows)" and "length p < 32"
    and "answers srv (item_sql p role_id) rows'"
  shows "climb_groups srv role_id g h =
     do {
       i \<leftarrow> first_column rows';
       (case i of
          Some item \<Rightarrow> Some (0, Some item, h @ [parent_sql g, item_sql p role_id])
        | None \<Rightarrow> if is_root p then Some (6, None, h @ [parent_sql g, item_sql p role_id])
                  else climb_groups srv role_id p (h @ [parent_sql g, item_sql p role_id]))
     }"
  using ask_answers[OF assms(1)] ask_answers[OF assms(3)] assms(2)
  by (subst climb_groups.simps) (simp add: item_sql_def[symmetric] is_root_def cong: option.case_cong)

lemma climb_orphan:
  assumes "answers srv (parent_sql g) []"
  shows "climb_groups srv role_id g h = Some (5, None, h @ [parent_sql g])"
  using ask_answers[OF assms] by (subst climb_groups.simps) simp

lemma climb_groups_climbs:
  assumes "climbs srv role_id g rc item"
  shows "\<exists>sent. climb_groups srv role_id g h = Some (rc, item, h @ sent)"
  using assms
proof (induction arbitrary: h rule: climbs.induct)
  case (up g p ps rows rc item)
  from up.IH[of "h @ [parent_sql g, item_sql p role_id]"] up.hyps show ?case
    by (auto simp: climb_step)
qed (auto simp: climb_step climb_orphan)

text \<open>C8: the climb returns whenever the chain of parents ends, with the result of the specification:
  the item of the nearest group above that has one, 6 at the root, 5 at a group without a parent;
  and what it has sent extends what was sent before.\<close>

theorem climb_groups_result:
  assumes "climbs srv role_id g rc item"
  shows "\<exists>sent. climb_groups srv role_id g h = Some (rc, item, h @ sent)"
  by (rule climb_groups_climbs[OF assms])

definition two_level_server :: server where
  "two_level_server h sql =
     (if sql = parent_sql ''7'' then Rows [[Some ''8'']]
      else if sql = parent_sql ''8'' then Rows [[Some ''9'']]
      else if sql = item_sql ''9'' ''3'' then Rows [[Some ''42'']] else Rows [])"

lemma parent_sql_eq: "parent_sql a = parent_sql b \<longleftrightarrow> a = b"
  by (simp add: parent_sql_def qs_def)

lemma parent_not_item: "parent_sql g \<noteq> item_sql p r"
  by (simp add: parent_sql_def item_sql_def rootitem_sql_def parentitem_sql_def)

lemma item_sql_eq: "item_sql ''8'' r \<noteq> item_sql ''9'' r"
  by (simp add: item_sql_def parentitem_sql_def qs_def)

lemmas sql_lengths = parent_sql_def item_sql_def rootitem_sql_def parentitem_sql_def qs_def sp_def

theorem climb_groups_result_witness:
  "\<exists>sent. climb_groups two_level_server ''3'' ''7'' [] = Some (0, Some ''42'', [] @ sent)"
proof -
  have 1: "answers two_level_server (parent_sql ''7'') ((Some ''8'' # []) # [])"
    and 2: "answers two_level_server (item_sql ''8'' ''3'') []"
    and 3: "answers two_level_server (parent_sql ''8'') ((Some ''9'' # []) # [])"
    and 4: "answers two_level_server (item_sql ''9'' ''3'') ((Some ''42'' # []) # [])"
    using parent_not_item[symmetric]
    by (auto simp: answers_def two_level_server_def parent_sql_eq parent_not_item item_sql_eq)
      (simp_all add: sql_lengths)
  show ?thesis
    by (rule climb_groups_result[OF climbs.up[OF 1 _ 2 _ climbs.found[OF 3 _ 4]]]) (simp_all add: is_root_def)
qed

text \<open>Groups that are their own ancestors, none of them the root and none with an item, keep the
  loop going for ever: there is no result, whatever was sent before.\<close>

theorem climb_groups_cycle:
  assumes "\<And>i. \<exists>ps rows. answers srv (parent_sql (g i)) ((Some (g (Suc i)) # ps) # rows)"
    and "\<And>i. length (g i) < 32 \<and> \<not> is_root (g i) \<and> answers srv (item_sql (g i) role_id) []"
  shows "climb_groups srv role_id (g i) h = None"
proof -
  have "gid \<noteq> g i" if "climb_groups srv' role' gid h = Some r" "srv' = srv" "role' = role_id" for srv' role' gid h r i
    using that
  proof (induction srv' role' gid h r arbitrary: i rule: climb_groups.raw_induct[rotated, consumes 1, case_names step])
    case (step climb srv' role' gid h r)
    obtain ps rows where A: "answers srv (parent_sql (g i)) ((Some (g (Suc i)) # ps) # rows)"
      using assms(1) by blast
    note B = assms(2)[of "Suc i"]
    show ?case
    proof
      assume "gid = g i"
      with step ask_answers[OF A, of h] ask_answers[OF conjunct2[OF conjunct2[OF B]], of "h @ [parent_sql (g i)]"] B
      have "climb srv role_id (g (Suc i)) (h @ [parent_sql (g i), item_sql (g (Suc i)) role_id]) = Some r"
        by (simp add: item_sql_def[symmetric] is_root_def cong: option.case_cong)
      with step(1) step(3,4) show False by blast
    qed
  qed
  then show ?thesis by fastforce
qed

theorem climb_groups_cycle_witness:
  "climb_groups (\<lambda>h sql. if sql = parent_sql ''7'' then Rows [[Some ''7'']] else Rows []) ''3'' ''7'' [] = None"
proof (rule climb_groups_cycle[where g = "\<lambda>i. ''7''" and i = 0])
  show "\<exists>ps rows. answers (\<lambda>h sql. if sql = parent_sql ''7'' then Rows [[Some ''7'']] else Rows [])
      (parent_sql ''7'') ((Some ''7'' # ps) # rows)" for i :: nat
    by (simp add: answers_def) (simp add: sql_lengths)
  show "length ''7'' < 32 \<and> \<not> is_root ''7'' \<and>
      answers (\<lambda>h sql. if sql = parent_sql ''7'' then Rows [[Some ''7'']] else Rows []) (item_sql ''7'' ''3'') []" for i :: nat
    using parent_not_item[symmetric] by (simp add: answers_def is_root_def) (simp add: sql_lengths)
qed

subsection \<open>Which role item applies, and its rules\<close>

text \<open>The role item of the resource itself comes first, then one of a group of the resource, then the
  nearest one above that group; once an item of a resource was found for this login only the first
  place is looked at. Only the first place sets the flag.\<close>

theorem find_roleitem_order:
  assumes "answers srv (roleitem_sql (pr_role_id t) (pr_resource_id t)) own" and "first_column own = Some own_item"
    and "answers srv (groupitem_sql (pr_resource_id t) (pr_role_id t)) grp" and "first_column grp = Some grp_item"
    and "answers srv (group_sql (pr_resource_id t)) ((Some g # ps) # rows)" and "length g < 32"
    and "climbs srv (pr_role_id t) g rc item"
  shows "\<exists>sent rc' item' flag. find_roleitem srv t isResource h = Some (rc', item', flag, h @ sent) \<and>
    (rc', item', flag) =
      (case own_item of
         Some v \<Rightarrow> (0, Some v, 1)
       | None \<Rightarrow>
           if isResource \<noteq> 0 then (4, None, isResource)
           else case grp_item of Some v \<Rightarrow> (0, Some v, isResource) | None \<Rightarrow> (rc, item, isResource))"
proof -
  note climb = climb_groups_climbs[OF assms(7)]
  have "\<exists>sent. find_by_group srv t h' = Some (rc, item, h' @ sent)" for h'
    using climb[of "h' @ [group_sql (pr_resource_id t)]"] ask_answers[OF assms(5)] assms(6)
    by (auto simp: find_by_group_def)
  from this[of "h @ [roleitem_sql (pr_role_id t) (pr_resource_id t), groupitem_sql (pr_resource_id t) (pr_role_id t)]"]
  show ?thesis
    using ask_answers[OF assms(1)] ask_answers[OF assms(3)] assms(2,4)
    by (auto simp: find_roleitem_def split: option.splits)
qed

definition group_server :: server where
  "group_server h sql = (if sql = group_sql ''r'' then Rows [[Some ''7'']] else two_level_server h sql)"

lemma group_server_answers:
  "answers group_server (group_sql ''r'') ((Some ''7'' # []) # [])"
  "answers group_server (parent_sql ''7'') ((Some ''8'' # []) # [])"
  "answers group_server (item_sql ''8'' ''3'') []"
  "answers group_server (parent_sql ''8'') ((Some ''9'' # []) # [])"
  "answers group_server (item_sql ''9'' ''3'') ((Some ''42'' # []) # [])"
  "answers group_server (roleitem_sql ''3'' ''r'') []"
  "answers group_server (groupitem_sql ''r'' ''3'') []"
  by (simp_all add: answers_def group_server_def two_level_server_def)
    (simp_all add: sql_lengths roleitem_sql_def groupitem_sql_def group_sql_def)

theorem find_roleitem_order_witness:
  "\<exists>sent. find_roleitem group_server \<lparr>pr_employee_id = ''1'', pr_employeeaccount_id = ''2'', pr_resource_id = ''r'',
       pr_resaccount_id = ''4'', pr_role_id = ''3'', pr_accessprotocol_id = ''5''\<rparr> 0 [] = Some (0, Some ''42'', 0, sent)"
proof -
  note a = group_server_answers
  have c: "climbs group_server ''3'' ''7'' 0 (Some ''42'')"
    by (rule climbs.up[OF a(2) _ a(3) _ climbs.found[OF a(4) _ a(5)]]) (simp_all add: is_root_def)
  show ?thesis
    using find_roleitem_order[of group_server "\<lparr>pr_employee_id = ''1'', pr_employeeaccount_id = ''2'', pr_resource_id = ''r'',
       pr_resaccount_id = ''4'', pr_role_id = ''3'', pr_accessprotocol_id = ''5''\<rparr>" "[]" None "[]" None "''7''" "[]" "[]"
       0 "Some ''42''" 0 "[]"] a c
    by simp
qed

lemma load_rules_answers:
  assumes "answers srv sql rows" and "those (map item rows) = Some items"
  shows "load_rules srv sql item put p h = Some (0, if rows = [] then p else put items p, h @ [sql])"
  using ask_answers[OF assms(1)] assms(2) by (simp add: load_rules_def)

lemma load_rules_fails:
  assumes "srv h sql \<in> {Query_error, Store_error}" and "length sql < 4096"
  shows "\<exists>rc. rc \<noteq> 0 \<and> load_rules srv sql item put p h = Some (rc, p, h @ [sql])"
  using assms by (auto simp: load_rules_def ask_def)

text \<open>C14: with an item of the resource itself \<open>GetPolicy\<close> returns 0, sets the flag, records the item
  and replaces each list of rules by the rows of its query. A query without rows leaves the rules the
  structure had before: the rules of another policy stay in force.\<close>

theorem GetPolicy_result:
  assumes "answers srv (roleitem_sql (pr_role_id t) (pr_resource_id t)) ((Some item # cs) # own)"
    and "answers srv (ncl_sql item) N" and "those (map ncl_row N) = Some ns"
    and "answers srv (pcl_sql item) P" and "those (map pcl_row P) = Some pcls"
    and "answers srv (ccl_sql item) C" and "those (map ccl_row C) = Some ccls"
    and "answers srv (tcl_sql item) T" and "those (map (tcl_row junk) T) = Some tcls"
  shows "GetPolicy ''MYSQL'' odbc srv junk (Some t) p isResource h =
    Some (0, \<lparr>pr_prolicyroleitem_id = item,
              pNclItem = (if N = [] then pNclItem p else ns), pPclItem = (if P = [] then pPclItem p else pcls),
              pCclItem = (if C = [] then pCclItem p else ccls), pTclItem = (if T = [] then pTclItem p else tcls)\<rparr>, 1,
          h @ [roleitem_sql (pr_role_id t) (pr_resource_id t), ncl_sql item, pcl_sql item, ccl_sql item, tcl_sql item])"
  using ask_answers[OF assms(1)] load_rules_answers[OF assms(2,3)] load_rules_answers[OF assms(4,5)]
    load_rules_answers[OF assms(6,7)] load_rules_answers[OF assms(8,9)]
  by (simp add: GetPolicy_def find_roleitem_def GetPolicy_rules_def)

lemmas rule_sqls = ncl_sql_def pcl_sql_def ccl_sql_def tcl_sql_def roleitem_sql_def qs_def sp_def tabs_def

definition one_rule_server :: server where
  "one_rule_server h sql =
     (if sql = roleitem_sql ''3'' ''7'' then Rows [[Some ''42'']]
      else if sql = ncl_sql ''42'' then Rows [[Some ''10.0.0.1'', Some ''10.0.0.9'']] else Rows [])"

theorem GetPolicy_result_witness:
  "GetPolicy ''MYSQL'' None one_rule_server [] (Some \<lparr>pr_employee_id = ''1'', pr_employeeaccount_id = ''2'', pr_resource_id = ''7'',
       pr_resaccount_id = ''4'', pr_role_id = ''3'', pr_accessprotocol_id = ''5''\<rparr>)
     \<lparr>pr_prolicyroleitem_id = ''old'', pNclItem = [], pPclItem = [\<lparr>pcl_name = ''ssh'', pcl_code = 100\<rparr>], pCclItem = [], pTclItem = []\<rparr> 0 []
   = Some (0, \<lparr>pr_prolicyroleitem_id = ''42'', pNclItem = [\<lparr>ncl_startIp = ''10.0.0.1'', ncl_endIp = ''10.0.0.9''\<rparr>],
       pPclItem = [\<lparr>pcl_name = ''ssh'', pcl_code = 100\<rparr>], pCclItem = [], pTclItem = []\<rparr>, 1,
       [roleitem_sql ''3'' ''7'', ncl_sql ''42'', pcl_sql ''42'', ccl_sql ''42'', tcl_sql ''42''])"
proof -
  have 1: "answers one_rule_server (roleitem_sql ''3'' ''7'') ((Some ''42'' # []) # [])"
    and 2: "answers one_rule_server (ncl_sql ''42'') [[Some ''10.0.0.1'', Some ''10.0.0.9'']]"
    and 3: "answers one_rule_server (pcl_sql ''42'') []"
    and 4: "answers one_rule_server (ccl_sql ''42'') []"
    and 5: "answers one_rule_server (tcl_sql ''42'') []"
    by (simp_all add: answers_def one_rule_server_def) (simp_all add: rule_sqls)
  show ?thesis
    using GetPolicy_result[of one_rule_server "\<lparr>pr_employee_id = ''1'', pr_employeeaccount_id = ''2'', pr_resource_id = ''7'',
       pr_resaccount_id = ''4'', pr_role_id = ''3'', pr_accessprotocol_id = ''5''\<rparr>", OF _ 2 _ 3 _ 4 _ 5] 1
    by (simp add: ncl_row_def)
qed

text \<open>A first statement that fails ends \<open>GetPolicy\<close> with 2 or 3 and the policy as it was; the caller skips
  the policy.\<close>

lemma GetPolicy_no_answer:
  assumes "\<And>h. srv h (roleitem_sql (pr_role_id t) (pr_resource_id t)) \<in> {Query_error, Store_error}"
    and "length (roleitem_sql (pr_role_id t) (pr_resource_id t)) < 4096"
  shows "\<exists>rc. rc \<noteq> 0 \<and> GetPolicy ''MYSQL'' odbc srv junk (Some t) p isResource h =
    Some (rc, p, isResource, h @ [roleitem_sql (pr_role_id t) (pr_resource_id t)])"
  using assms(1)[of h] assms(2) by (auto simp: GetPolicy_def find_roleitem_def ask_def)

end
