(* ===== verification/Session.thy ===== *)
theory Session
  imports Access DBConn
begin

text \<open>
  Opening a session: \<open>GetConfigForUser\<close>, \<open>GetConfigForID\<close> of \<^verbatim>\<open>DBRecord/DBoperate.c\<close> (lines 2505 to
  2749), the login record (1873 to 1947 and 2750 to 2784) and \<open>InitMutex\<close>, \<open>GetConfig\<close> and
  \<open>GetAccessProtocol\<close> of \<^verbatim>\<open>DBRecord/dbrecord.c\<close> (lines 27 to 32, 103 to 210 and 377 to 390).

  \<open>proxyinfo\<close> has the fields of \<open>PROXYINFO\<close> these functions use; its arrays \<open>tableId\<close>, \<open>policy\<close> and
  \<open>levelcmd\<close> are lists of their lengths. \<open>env\<close> collects what comes from outside: the server, the
  clock, the cryptography, the address of the proxy and the ODBC variants of the queries.
\<close>

record proxyinfo =
  inputName :: cstring
  inputPwd :: cstring
  serverIP :: cstring
  serverPort :: int
  serverName :: cstring
  serverPwd :: cstring
  px_type :: int
  px_id :: cstring
  clientIP :: cstring
  clientPort :: int
  auth :: struct
  employee :: struct
  resource :: struct
  employeeaccount :: struct
  tableId :: "join_id list"
  table_count :: int
  policy :: "Policy list"
  levelcmd :: "(int \<times> cstring) list"
  level_count :: int
  loginlog_id :: cstring
  userlog_id :: cstring
  lineOutBuffer :: cstring
  lineOutLen :: int
  px_cmd :: cstring
  precmd :: cstring
  lastprecmd :: cstring
  px_level :: int
  start_in :: int

record env =
  e_dbtype :: cstring
  e_srv :: server
  e_dec :: "cstring \<Rightarrow> cstring"
  e_date :: cstring
  e_tod :: "int \<times> int \<times> int"
  e_junk :: cstring
  e_proxyIP :: cstring
  o_auth :: "cstring \<Rightarrow> hist \<Rightarrow> (int \<times> struct option \<times> hist) option"
  o_employee :: "cstring \<Rightarrow> hist \<Rightarrow> (int \<times> struct option \<times> hist) option"
  o_resource :: "cstring \<Rightarrow> cstring \<Rightarrow> hist \<Rightarrow> (int \<times> struct option \<times> hist) option"
  o_account :: "cstring \<Rightarrow> hist \<Rightarrow> (int \<times> struct option \<times> hist) option"
  o_port :: "cstring \<Rightarrow> int \<Rightarrow> hist \<Rightarrow> (int \<times> int \<times> hist) option"
  o_join :: "cstring \<Rightarrow> cstring \<Rightarrow> cstring \<Rightarrow> int \<Rightarrow> hist \<Rightarrow> (int \<times> join_id list \<times> int \<times> hist) option"
  o_policy :: "join_id \<Rightarrow> int \<Rightarrow> hist \<Rightarrow> (int \<times> Policy \<times> int \<times> hist) option"
  o_level :: "cstring \<Rightarrow> hist \<Rightarrow> (int \<times> (int \<times> cstring) list \<times> int \<times> hist) option"

subsection \<open>The policies of a login\<close>

record rights =
  nclright :: int
  pclright :: int
  tclright :: int
  findRes :: int
  findPolicy :: int

definition no_rights :: rights where
  "no_rights = \<lparr>nclright = 0, pclright = 0, tclright = 0, findRes = 0, findPolicy = 0\<rparr>"

text \<open>The three checks of one policy; a right once set stays set.\<close>

definition match_policy :: "env \<Rightarrow> cstring \<Rightarrow> int \<Rightarrow> Policy \<Rightarrow> rights \<Rightarrow> rights" where
  "match_policy e ip code p r =
     (let r = (if MatchNclItem (Some p) ip = 0 then r\<lparr>nclright := 1\<rparr> else r);
          r = (if MatchPclItem (Some p) code = 0 then r\<lparr>pclright := 1\<rparr> else r)
      in if MatchTclItem (e_tod e) (Some p) = 0 then r\<lparr>tclright := 1\<rparr> else r)"

text \<open>
  The loop over the rows of the login, with the policies of the array from the current index on. A
  policy that cannot be read is skipped; a policy that is not of the resource itself ends the loop
  when one of the resource was found before.
\<close>

fun policy_loop :: "env \<Rightarrow> cstring \<Rightarrow> int \<Rightarrow> join_id list \<Rightarrow> Policy list \<Rightarrow> rights \<Rightarrow> hist
    \<Rightarrow> (Policy list \<times> rights \<times> hist) option" where
  "policy_loop e ip code [] ps r h = Some (ps, r, h)"
| "policy_loop e ip code (t # ts) [] r h = None"
| "policy_loop e ip code (t # ts) (p # ps) r h =
     do {
       (rc, p, isResource, h) \<leftarrow>
         GetPolicy (e_dbtype e) (o_policy e t (findRes r) h) (e_srv e) (e_junk e) (Some t) p (findRes r) h;
       (if rc \<noteq> 0 then do {
          (ps, r, h) \<leftarrow> policy_loop e ip code ts ps r h;
          Some (p # ps, r, h)
        } else
          let r = r\<lparr>findPolicy := 1\<rparr>
          in if isResource \<noteq> 1 \<and> findRes r = 1 then Some (p # ps, r, h)
             else
               let r = (if isResource = 1 then r\<lparr>findRes := 1\<rparr> else r);
                   r = match_policy e ip code p r
               in do {
                 (ps, r, h) \<leftarrow> policy_loop e ip code ts ps r h;
                 Some (p # ps, r, h)
               })
     }"

definition rights_deny :: "rights \<Rightarrow> bool" where
  "rights_deny r \<longleftrightarrow> (nclright r = 0 \<or> pclright r = 0 \<or> tclright r = 0) \<and> findPolicy r = 1"

definition zero_join :: join_id where
  "zero_join = \<lparr>pr_employee_id = [], pr_employeeaccount_id = [], pr_resource_id = [], pr_resaccount_id = [],
     pr_role_id = [], pr_accessprotocol_id = []\<rparr>"

definition zero_policy :: Policy where
  "zero_policy = \<lparr>pr_prolicyroleitem_id = [], pNclItem = [], pPclItem = [], pCclItem = [], pTclItem = []\<rparr>"

text \<open>\<open>memset\<close> with the size of one element clears the first element of an array.\<close>

definition clear_first :: "'a \<Rightarrow> 'a list \<Rightarrow> 'a list" where
  "clear_first z xs = (case xs of [] \<Rightarrow> [] | _ # r \<Rightarrow> z # r)"

text \<open>
  From the join query to the decision, as both functions have it: 0 and the state at the point of a
  refusal, or 1 and the state to go on with. A count of rows beyond the array, which only an answer over ODBC
  can have, makes the loop read on behind it, and is taken as a fault.
\<close>

definition check_access :: "env \<Rightarrow> int \<Rightarrow> proxyinfo \<Rightarrow> hist \<Rightarrow> (int \<times> proxyinfo \<times> hist) option" where
  "check_access e code px h =
     (let px = px\<lparr>tableId := clear_first zero_join (tableId px)\<rparr>
      in do {
        (rc, tab, n, h) \<leftarrow>
          GetJOINTable (e_dbtype e) (o_join e (inputName px) (serverIP px) (serverName px) code h) (e_srv e) (e_date e)
            (inputName px) (serverIP px) (serverName px) code (tableId px) (table_count px) h;
        let px = px\<lparr>tableId := tab, table_count := n\<rparr>;
        (if rc \<noteq> 0 then Some (0, px, h) else do {
           let px = px\<lparr>policy := clear_first zero_policy (policy px)\<rparr>;
           guard (n \<le> int (length tab));
           (ps, r, h) \<leftarrow> policy_loop e (clientIP px) code (take (nat n) tab) (policy px) no_rights h;
           let px = px\<lparr>policy := ps\<rparr>;
           Some (if rights_deny r then 0 else 1, px, h)
         })
      })"

text \<open>Reading a structure that was zeroed before.\<close>

definition read_employee :: "env \<Rightarrow> cstring \<Rightarrow> hist \<Rightarrow> (int \<times> struct \<times> hist) option" where
  "read_employee e i h =
     do { (rc, s, h) \<leftarrow> GetEmployee (e_dbtype e) (o_employee e i h) (e_srv e) (e_dec e) i (Some zeroed) h;
          s \<leftarrow> s; Some (rc, s, h) }"

definition read_resource :: "env \<Rightarrow> cstring \<Rightarrow> cstring \<Rightarrow> hist \<Rightarrow> (int \<times> struct \<times> hist) option" where
  "read_resource e i n h =
     do { (rc, s, h) \<leftarrow> GetResource (e_dbtype e) (o_resource e i n h) (e_srv e) (e_dec e) i n (Some zeroed) h;
          s \<leftarrow> s; Some (rc, s, h) }"

definition read_account :: "env \<Rightarrow> cstring \<Rightarrow> hist \<Rightarrow> (int \<times> struct \<times> hist) option" where
  "read_account e i h =
     do { (rc, s, h) \<leftarrow> GetEmployeeaccount (e_dbtype e) (o_account e i h) (e_srv e) i (Some zeroed) h;
          s \<leftarrow> s; Some (rc, s, h) }"

definition read_auth :: "env \<Rightarrow> cstring \<Rightarrow> hist \<Rightarrow> (int \<times> struct \<times> hist) option" where
  "read_auth e i h =
     do { (rc, s, h) \<leftarrow> GetAuth_id (e_dbtype e) (o_auth e i h) (e_srv e) (e_dec e) i (Some zeroed) h;
          s \<leftarrow> s; Some (rc, s, h) }"

subsection \<open>\<open>GetConfigForUser\<close>\<close>

text \<open>The access record the function puts together.\<close>

definition user_auth :: "env \<Rightarrow> int \<Rightarrow> proxyinfo \<Rightarrow> join_id \<Rightarrow> struct" where
  "user_auth e code px t0 =
     (auth px)
       (''pr_userId'' \<mapsto> FStr (str_of (employee px) ''pr_id''),
        ''pr_uid'' \<mapsto> FStr (str_of (employee px) ''pr_uid''),
        ''pr_userName'' \<mapsto> FStr (str_of (employee px) ''pr_userName''),
        ''pr_resId'' \<mapsto> FStr (str_of (resource px) ''pr_id''),
        ''pr_resAddr'' \<mapsto> FStr (str_of (resource px) ''pr_address''),
        ''pr_resName'' \<mapsto> FStr (str_of (resource px) ''pr_name''),
        ''pr_resType'' \<mapsto> FStr (str_of (employeeaccount px) ''pr_resType''),
        ''pr_resVersion'' \<mapsto> FStr [],
        ''pr_accountId'' \<mapsto> FStr (str_of (employeeaccount px) ''pr_accountId''),
        ''pr_accountNo'' \<mapsto> FStr (str_of (employeeaccount px) ''pr_accountNo''),
        ''pr_accountType'' \<mapsto> FInt 1,
        ''pr_accountPwd'' \<mapsto> FStr (str_of (employeeaccount px) ''pr_accountPwd''),
        ''pr_suFlag'' \<mapsto> FInt (int_of (resource px) ''pr_useSuDo''),
        ''pr_ssoFlag'' \<mapsto> FInt (int_of (resource px) ''pr_ssoFlag''),
        ''pr_auditType'' \<mapsto> FInt 1,
        ''pr_auditFlag'' \<mapsto> FInt 1,
        ''pr_cmdFlag'' \<mapsto> FInt 1,
        ''pr_clientAddr'' \<mapsto> FStr (clientIP px),
        ''pr_apId'' \<mapsto> FStr (pr_accessprotocol_id t0),
        ''pr_accessType'' \<mapsto> FInt code,
        ''pr_accountNoEx'' \<mapsto> FStr [],
        ''pr_accountPwdEx'' \<mapsto> FStr [],
        ''pr_domainName'' \<mapsto> FStr [],
        ''pr_screenWidth'' \<mapsto> FInt 0,
        ''pr_screenHeight'' \<mapsto> FInt 0,
        ''pr_proxyAddr'' \<mapsto> FStr (e_proxyIP e),
        ''pr_timeFlag'' \<mapsto> FInt 0,
        ''pr_execApp'' \<mapsto> FStr [],
        ''pr_execParam'' \<mapsto> FStr [])"

text \<open>The part after the policies: the employee and the password, the resource, the account.\<close>

definition user_login :: "env \<Rightarrow> int \<Rightarrow> proxyinfo \<Rightarrow> hist \<Rightarrow> (int \<times> proxyinfo \<times> hist) option" where
  "user_login e code px h =
     do {
       t0 \<leftarrow> nth_opt (tableId px) 0;
       (rc, s, h) \<leftarrow> read_employee e (pr_employee_id t0) h;
       let px = px\<lparr>employee := s\<rparr>;
       (if rc \<noteq> 0 then Some (0, px, h)
        else if \<not> contains (inputPwd px) (str_of (employee px) ''pr_pwd'') then Some (0, px, h)
        else do {
          (rc, s, h) \<leftarrow> read_resource e (pr_resource_id t0) (serverName px) h;
          let px = px\<lparr>resource := s\<rparr>;
          (if rc \<noteq> 0 then Some (0, px, h) else do {
             let px = px\<lparr>serverPwd := str_of (resource px) ''pr_passwd''\<rparr>;
             (rc, s, h) \<leftarrow> read_account e (pr_employeeaccount_id t0) h;
             let px = px\<lparr>employeeaccount := s\<rparr>;
             (if rc \<noteq> 0 then Some (0, px, h)
              else Some (1, px\<lparr>auth := user_auth e code px t0\<rparr>, h))
           })
        })
     }"

text \<open>\<open>rtn\<close> is the constant 4, so only the second branch of the function is alive.\<close>

definition GetConfigForUser :: "env \<Rightarrow> int \<Rightarrow> proxyinfo \<Rightarrow> hist \<Rightarrow> (int \<times> proxyinfo \<times> hist) option" where
  "GetConfigForUser e pr_accessType px h =
     (let px = px\<lparr>auth := zeroed\<rparr>
      in do {
        (ok, px, h) \<leftarrow> check_access e pr_accessType px h;
        (if ok = 0 then Some (0, px, h) else user_login e pr_accessType px h)
      })"

subsection \<open>\<open>GetConfigForID\<close>\<close>

definition GetConfigForID :: "env \<Rightarrow> int \<Rightarrow> proxyinfo \<Rightarrow> hist \<Rightarrow> (int \<times> proxyinfo \<times> hist) option" where
  "GetConfigForID e pr_accessType px h =
     do {
       (rc, s, h) \<leftarrow> read_auth e (px_id px) h;
       let px = px\<lparr>auth := s\<rparr>;
       (if rc \<noteq> 0 then Some (0, px, h) else do {
          let px = px\<lparr>inputName := str_of s ''pr_uid'', inputPwd := [], serverIP := str_of s ''pr_resAddr'',
                      serverPort := 0, serverName := str_of s ''pr_accountNo''\<rparr>;
          (rc, s, h) \<leftarrow> read_employee e (str_of (auth px) ''pr_userId'') h;
          let px = px\<lparr>employee := s\<rparr>;
          (if rc \<noteq> 0 then Some (0, px, h) else do {
             (rc, port, h) \<leftarrow>
               GetResourcePort (e_dbtype e) (o_port e (str_of (auth px) ''pr_resId'') pr_accessType h) (e_srv e)
                 (str_of (auth px) ''pr_resId'') pr_accessType (serverPort px) h;
             let px = px\<lparr>serverPort := port\<rparr>;
             (if rc \<noteq> 0 then Some (0, px, h) else do {
                (ok, px, h) \<leftarrow> check_access e pr_accessType px h;
                (if ok = 0 then Some (0, px, h)
                 else Some (1, px\<lparr>serverPwd := str_of (auth px) ''pr_accountPwd''\<rparr>, h))
              })
           })
        })
     }"

subsection \<open>What the policies of a login add up to\<close>

lemma match_policy_simps [simp]:
  "nclright (match_policy e ip code p r) = (if MatchNclItem (Some p) ip = 0 then 1 else nclright r)"
  "pclright (match_policy e ip code p r) = (if MatchPclItem (Some p) code = 0 then 1 else pclright r)"
  "tclright (match_policy e ip code p r) = (if MatchTclItem (e_tod e) (Some p) = 0 then 1 else tclright r)"
  "findRes (match_policy e ip code p r) = findRes r"
  "findPolicy (match_policy e ip code p r) = findPolicy r"
  by (simp_all add: match_policy_def Let_def)

text \<open>Where a right comes from.\<close>

definition justified :: "env \<Rightarrow> cstring \<Rightarrow> int \<Rightarrow> Policy list \<Rightarrow> rights \<Rightarrow> rights \<Rightarrow> bool" where
  "justified e ip code ps r r' \<longleftrightarrow>
     (nclright r' \<noteq> nclright r \<longrightarrow> (\<exists>p\<in>set ps. MatchNclItem (Some p) ip = 0)) \<and>
     (pclright r' \<noteq> pclright r \<longrightarrow> (\<exists>p\<in>set ps. MatchPclItem (Some p) code = 0)) \<and>
     (tclright r' \<noteq> tclright r \<longrightarrow> (\<exists>p\<in>set ps. MatchTclItem (e_tod e) (Some p) = 0)) \<and>
     (findPolicy r' = 0 \<longrightarrow> r' = r) \<and> findPolicy r' \<in> {findPolicy r, 1}"

lemma policy_loop_justified:
  "policy_loop e ip code ts ps r h = Some (ps', r', h') \<Longrightarrow> justified e ip code (take (length ts) ps') r r'"
proof (induction e ip code ts ps r h arbitrary: ps' r' h' rule: policy_loop.induct)
  case (1 e ip code ps r h)
  then show ?case by (auto simp: justified_def)
next
  case (2 e ip code t ts r h)
  then show ?case by simp
next
  case (3 e ip code t ts p ps r h)
  from 3(3) obtain rc q isR h1 where g:
    "GetPolicy (e_dbtype e) (o_policy e t (findRes r) h) (e_srv e) (e_junk e) (Some t) p (findRes r) h = Some (rc, q, isR, h1)"
    by (auto split: option.splits)
  show ?case
  proof (cases "rc = 0")
    case False
    with 3(3) g obtain ps1 where "policy_loop e ip code ts ps r h1 = Some (ps1, r', h')" "ps' = q # ps1"
      by (auto split: prod.splits)
    with 3(1)[OF g refl refl refl False] show ?thesis by (auto simp: justified_def)
  next
    case True
    show ?thesis
    proof (cases "isR \<noteq> 1 \<and> findRes r = 1")
      case True
      with 3(3) g \<open>rc = 0\<close> show ?thesis by (auto simp: justified_def)
    next
      case False
      let ?r = "match_policy e ip code q (if isR = 1 then r\<lparr>findPolicy := 1\<rparr>\<lparr>findRes := 1\<rparr> else r\<lparr>findPolicy := 1\<rparr>)"
      have "findRes (r\<lparr>findPolicy := 1\<rparr>) = findRes r" by simp
      with 3(3) g \<open>rc = 0\<close> False obtain ps1
        where l: "policy_loop e ip code ts ps ?r h1 = Some (ps1, r', h')" and q: "ps' = q # ps1"
        by (auto simp: Let_def split: prod.splits if_splits)
      have "justified e ip code (take (length ts) ps1) ?r r'"
        using 3(2)[OF g refl refl refl _ refl] \<open>rc = 0\<close> False l by (auto split: if_splits)
      then show ?thesis unfolding q justified_def by (auto split: if_splits)
    qed
  qed
qed

lemma justified_mono: "justified e ip code ps r r' \<Longrightarrow> set ps \<subseteq> set ps2 \<Longrightarrow> justified e ip code ps2 r r'"
  unfolding justified_def by blast

lemma check_access_loop:
  assumes "check_access e code px h = Some (1, px', h')"
  obtains h1 r where "policy_loop e (clientIP px) code (take (nat (table_count px')) (tableId px'))
      (clear_first zero_policy (policy px)) no_rights h1 = Some (policy px', r, h')" and "\<not> rights_deny r"
  using assms by (auto simp: check_access_def Let_def Option.bind_eq_Some_conv split: if_splits prod.splits)

text \<open>C1: access is granted only when no policy of the login could be read, or the address, the
  protocol and the time are each allowed by one of the policies of the login's rows. The three need
  not be the same policy.\<close>

theorem access_granted_sound:
  assumes "check_access e code px h = Some (1, px', h')"
  shows "(\<exists>h1. policy_loop e (clientIP px) code (take (nat (table_count px')) (tableId px'))
        (clear_first zero_policy (policy px)) no_rights h1 = Some (policy px', no_rights, h'))
    \<or> (let ps = set (take (nat (table_count px')) (policy px'))
       in (\<exists>p\<in>ps. MatchNclItem (Some p) (clientIP px) = 0) \<and> (\<exists>p\<in>ps. MatchPclItem (Some p) code = 0)
        \<and> (\<exists>p\<in>ps. MatchTclItem (e_tod e) (Some p) = 0))"
proof -
  obtain h1 r where l: "policy_loop e (clientIP px) code (take (nat (table_count px')) (tableId px'))
      (clear_first zero_policy (policy px)) no_rights h1 = Some (policy px', r, h')" and d: "\<not> rights_deny r"
    using check_access_loop[OF assms] by blast
  have j: "justified e (clientIP px) code (take (nat (table_count px')) (policy px')) no_rights r"
    by (rule justified_mono[OF policy_loop_justified[OF l]]) (simp add: set_take_subset_set_take)
  show ?thesis
  proof (cases "findPolicy r = 0")
    case True
    then show ?thesis using l j by (auto simp: justified_def)
  next
    case False
    then have "findPolicy r = 1" using j by (auto simp: justified_def no_rights_def)
    then have "nclright r \<noteq> 0 \<and> pclright r \<noteq> 0 \<and> tclright r \<noteq> 0" using d by (simp add: rights_deny_def)
    then show ?thesis using j unfolding justified_def by (simp add: no_rights_def Let_def)
  qed
qed

lemma fill_rows_length: "fill_rows f rows ss = Some ss' \<Longrightarrow> length rows \<le> length ss' \<and> length ss' = length ss"
proof (induction rows arbitrary: ss ss')
  case (Cons row rows)
  then obtain s ss1 s' ss2 where "ss = s # ss1" "fill_rows f rows ss1 = Some ss2" "ss' = s' # ss2"
    by (cases ss) (auto simp: Option.bind_eq_Some_conv)
  with Cons.IH[of ss1 ss2] show ?case by simp
qed simp

lemma policy_loop_unread:
  assumes "length ts \<le> length ps" and "e_dbtype e = ''MYSQL''"
    and "\<And>t h. t \<in> set ts \<Longrightarrow> e_srv e h (roleitem_sql (pr_role_id t) (pr_resource_id t)) \<in> {Query_error, Store_error}"
    and "\<And>t. t \<in> set ts \<Longrightarrow> length (roleitem_sql (pr_role_id t) (pr_resource_id t)) < 4096"
  shows "\<exists>sent. policy_loop e ip code ts ps r h = Some (ps, r, h @ sent)"
  using assms(1,3,4)
proof (induction ts arbitrary: ps h)
  case Nil
  then show ?case by simp
next
  case (Cons t ts)
  then obtain p ps1 where ps: "ps = p # ps1" by (cases ps) auto
  obtain rc where "rc \<noteq> 0" and "GetPolicy ''MYSQL'' (o_policy e t (findRes r) h) (e_srv e) (e_junk e) (Some t) p (findRes r) h
      = Some (rc, p, findRes r, h @ [roleitem_sql (pr_role_id t) (pr_resource_id t)])"
    using GetPolicy_no_answer[where srv = "e_srv e" and t = t] Cons.prems(2,3) by (metis list.set_intros(1))
  note g = this
  have "\<exists>sent. policy_loop e ip code ts ps1 r (h @ [roleitem_sql (pr_role_id t) (pr_resource_id t)])
      = Some (ps1, r, (h @ [roleitem_sql (pr_role_id t) (pr_resource_id t)]) @ sent)"
    by (rule Cons.IH) (use Cons.prems(1) ps Cons.prems(2,3)[OF list.set_intros(2)] in simp_all)
  then obtain sent where l: "policy_loop e ip code ts ps1 r (h @ [roleitem_sql (pr_role_id t) (pr_resource_id t)])
      = Some (ps1, r, (h @ [roleitem_sql (pr_role_id t) (pr_resource_id t)]) @ sent)"
    by (rule exE)
  show ?case unfolding ps by (rule exI[of _ "roleitem_sql (pr_role_id t) (pr_resource_id t) # sent"]) (simp add: assms(2) g l)
qed

text \<open>C7: a server that finds the rows of the login but fails on every query for a policy grants the
  access: the policies are skipped and the refusal is only for logins with a policy.\<close>

theorem access_fail_open:
  assumes "e_dbtype e = ''MYSQL''" and "rows \<noteq> []"
    and "sql = GetJOINTable_sql (inputName px) (serverIP px) (serverName px) code (e_date e)" and "length sql < 10240"
    and "\<And>h. e_srv e h sql = Rows rows"
    and "fill_rows join_row rows (clear_first zero_join (tableId px)) = Some tab" and "length rows \<le> length (policy px)"
    and "\<And>t h. t \<in> set (take (length rows) tab) \<Longrightarrow> e_srv e h (roleitem_sql (pr_role_id t) (pr_resource_id t)) \<in> {Query_error, Store_error}"
    and "\<And>t. t \<in> set (take (length rows) tab) \<Longrightarrow> length (roleitem_sql (pr_role_id t) (pr_resource_id t)) < 4096"
  shows "\<exists>sent. check_access e code px h =
    Some (1, px\<lparr>tableId := tab, table_count := int (length rows), policy := clear_first zero_policy (policy px)\<rparr>, h @ sent)"
proof -
  let ?px = "px\<lparr>tableId := clear_first zero_join (tableId px)\<rparr>"
  have j: "GetJOINTable (e_dbtype e) odbc (e_srv e) (e_date e) (inputName px) (serverIP px) (serverName px) code
      (clear_first zero_join (tableId px)) n h = Some (0, tab, int (length rows), h @ [sql])" for odbc n
    using assms(2,4,5,6) unfolding assms(1)
    by (simp add: GetJOINTable_def ask_def assms(3)[symmetric])
  have len: "length (take (length rows) tab) \<le> length (clear_first zero_policy (policy px))"
    using assms(7) by (cases "policy px") (simp_all add: clear_first_def)
  obtain sent where l: "policy_loop e (clientIP px) code (take (length rows) tab) (clear_first zero_policy (policy px)) no_rights (h @ [sql])
      = Some (clear_first zero_policy (policy px), no_rights, (h @ [sql]) @ sent)"
    using policy_loop_unread[OF len assms(1) assms(8,9)] by blast
  show ?thesis
    using l fill_rows_length[OF assms(6)] by (simp add: check_access_def j Let_def rights_deny_def no_rights_def)
qed

subsection \<open>Concrete logins\<close>

definition plain_env :: "server \<Rightarrow> env" where
  "plain_env srv = \<lparr>e_dbtype = ''MYSQL'', e_srv = srv, e_dec = (\<lambda>v. v), e_date = ''2016-07-14 09:05:00'', e_tod = (9, 5, 0),
     e_junk = [], e_proxyIP = ''10.0.0.2'', o_auth = \<lambda>_ _. None, o_employee = \<lambda>_ _. None, o_resource = \<lambda>_ _ _. None,
     o_account = \<lambda>_ _. None, o_port = \<lambda>_ _ _. None, o_join = \<lambda>_ _ _ _ _. None, o_policy = \<lambda>_ _ _. None, o_level = \<lambda>_ _. None\<rparr>"

definition plain_px :: "join_id list \<Rightarrow> Policy list \<Rightarrow> proxyinfo" where
  "plain_px ts ps = \<lparr>inputName = ''joe'', inputPwd = ''pw'', serverIP = ''10.0.0.7'', serverPort = 22, serverName = ''root'', serverPwd = [],
     px_type = 2, px_id = [], clientIP = ''10.0.0.9'', clientPort = 50000, auth = zeroed, employee = zeroed, resource = zeroed,
     employeeaccount = zeroed, tableId = ts, table_count = 0, policy = ps, levelcmd = [], level_count = 0, loginlog_id = [],
     userlog_id = [], lineOutBuffer = [], lineOutLen = 0, px_cmd = [], precmd = [], lastprecmd = [], px_level = 0, start_in = 0\<rparr>"

definition role_join :: "cstring \<Rightarrow> join_id" where
  "role_join r = \<lparr>pr_employee_id = ''1'', pr_employeeaccount_id = ''2'', pr_resource_id = ''7'', pr_resaccount_id = ''4'',
     pr_role_id = r, pr_accessprotocol_id = ''5''\<rparr>"

text \<open>Two roles, on a database that is not MySQL: the first allows any address but another protocol,
  the second any protocol but another address.\<close>

definition rdp_only :: Policy where
  "rdp_only = zero_policy\<lparr>pPclItem := [\<lparr>pcl_name = ''rdp'', pcl_code = 104\<rparr>]\<rparr>"

definition one_host :: Policy where
  "one_host = zero_policy\<lparr>pNclItem := [\<lparr>ncl_startIp = ''192.168.0.1'', ncl_endIp = ''192.168.0.1''\<rparr>]\<rparr>"

definition two_roles :: env where
  "two_roles = (plain_env (\<lambda>h sql. Query_error))
     \<lparr>e_dbtype := ''ORACLE'', o_join := \<lambda>_ _ _ _ h. Some (0, [role_join ''a'', role_join ''b''], 2, h),
      o_policy := \<lambda>t f h. Some (0, if pr_role_id t = ''a'' then rdp_only else one_host, 0, h)\<rparr>"

lemma two_roles_loop:
  "policy_loop two_roles ''10.0.0.9'' 100 [role_join ''a'', role_join ''b''] [zero_policy, zero_policy] no_rights h =
     Some ([rdp_only, one_host], \<lparr>nclright = 1, pclright = 1, tclright = 1, findRes = 0, findPolicy = 1\<rparr>, h)"
  by (simp add: two_roles_def plain_env_def via_mysql_def GetPolicy_def role_join_def rdp_only_def one_host_def zero_policy_def
      match_policy_def MatchNclItem_def MatchPclItem_def MatchTclItem_def no_rights_def Let_def)

lemma full_rights: "\<lparr>nclright = 1, pclright = 1, tclright = 1, findRes = 0, findPolicy = 1\<rparr> \<noteq> no_rights"
  by (simp add: no_rights_def)

theorem access_granted_sound_witness:
  "\<exists>px' h'. check_access two_roles 100 (plain_px [zero_join, zero_join] [zero_policy, zero_policy]) [] = Some (1, px', h')
     \<and> policy px' = [rdp_only, one_host] \<and> (\<exists>p\<in>set (policy px'). MatchNclItem (Some p) ''10.0.0.9'' = 0)
     \<and> (\<exists>p\<in>set (policy px'). MatchPclItem (Some p) 100 = 0)"
proof -
  let ?px = "plain_px [zero_join, zero_join] [zero_policy, zero_policy]"
  have "\<exists>px' h'. check_access two_roles 100 ?px [] = Some (1, px', h') \<and> table_count px' = 2
    \<and> tableId px' = [role_join ''a'', role_join ''b''] \<and> policy px' = [rdp_only, one_host]"
    using two_roles_loop[of "[]"]
    by (simp add: check_access_def two_roles_def plain_env_def plain_px_def GetJOINTable_def via_mysql_def clear_first_def
        numeral_2_eq_2 rights_deny_def Let_def)
  then obtain px' h' where c: "check_access two_roles 100 ?px [] = Some (1, px', h')"
    and px: "table_count px' = 2" "tableId px' = [role_join ''a'', role_join ''b'']" "policy px' = [rdp_only, one_host]"
    by blast
  have z: "clear_first zero_policy (policy ?px) = [zero_policy, zero_policy]" "clientIP ?px = ''10.0.0.9''"
    by (simp_all add: plain_px_def clear_first_def)
  show ?thesis
    using access_granted_sound[OF c] c px(3) unfolding z px(1,2)
    by (intro exI[of _ px'] exI[of _ h']) (simp add: two_roles_loop numeral_2_eq_2 Let_def full_rights del: policy_loop.simps)
qed

text \<open>A server that has the row of the login and no policy.\<close>

definition only_join :: "cstring \<Rightarrow> server" where
  "only_join q h sql =
     (if sql = q then Rows [[Some ''1'', Some ''2'', Some ''7'', Some ''4'', Some ''3'', Some ''5'']] else Query_error)"

theorem access_fail_open_witness:
  "\<exists>q px' sent. check_access (plain_env (only_join q)) 100 (plain_px [zero_join] [zero_policy]) [] = Some (1, px', sent)"
proof -
  let ?px = "plain_px [zero_join] [zero_policy]"
  let ?q = "GetJOINTable_sql (inputName ?px) (serverIP ?px) (serverName ?px) 100 (e_date (plain_env (\<lambda>h sql. Query_error)))"
  let ?e = "plain_env (only_join ?q)"
  have "show_nat 100 = ''100''" by code_simp
  then have len: "length ?q < 10240"
    by (simp add: plain_px_def plain_env_def GetJOINTable_sql_def GetJOINTable_sql_other_def sp_def qs_def fmt_d_def)
  have "?q \<noteq> roleitem_sql a b" for a b
    by (simp add: GetJOINTable_sql_def GetJOINTable_sql_other_def roleitem_sql_def)
  then have r: "e_srv ?e h (roleitem_sql a b) \<in> {Query_error, Store_error}" for h a b
    by (simp add: plain_env_def only_join_def) metis
  have "\<exists>sent. check_access ?e 100 ?px [] = Some (1, ?px\<lparr>tableId := [role_join ''3''],
      table_count := int (length [[Some ''1'', Some ''2'', Some ''7'', Some ''4'', Some ''3'', Some ''5'']]),
      policy := clear_first zero_policy (policy ?px)\<rparr>, [] @ sent)"
  proof (rule access_fail_open[where sql = ?q])
    show "fill_rows join_row [[Some ''1'', Some ''2'', Some ''7'', Some ''4'', Some ''3'', Some ''5'']]
        (clear_first zero_join (tableId ?px)) = Some [role_join ''3'']"
      by (simp add: plain_px_def clear_first_def join_row_def role_join_def)
    show "length (roleitem_sql (pr_role_id t) (pr_resource_id t)) < 4096" 
      if "t \<in> set (take (length [[Some ''1'', Some ''2'', Some ''7'', Some ''4'', Some ''3'', Some ''5'']]) [role_join ''3''])" for t
      using that by (simp add: role_join_def roleitem_sql_def qs_def sp_def)
  qed (use len r in \<open>simp_all add: plain_env_def only_join_def plain_px_def\<close>)
  then show ?thesis by blast
qed

subsection \<open>The early end of the loop\<close>

text \<open>The loop without its early end: every policy that can be read is checked.\<close>

fun all_policies :: "env \<Rightarrow> cstring \<Rightarrow> int \<Rightarrow> join_id list \<Rightarrow> Policy list \<Rightarrow> rights \<Rightarrow> hist
    \<Rightarrow> (Policy list \<times> rights \<times> hist) option" where
  "all_policies e ip code [] ps r h = Some (ps, r, h)"
| "all_policies e ip code (t # ts) [] r h = None"
| "all_policies e ip code (t # ts) (p # ps) r h =
     do {
       (rc, p, isResource, h) \<leftarrow>
         GetPolicy (e_dbtype e) (o_policy e t (findRes r) h) (e_srv e) (e_junk e) (Some t) p (findRes r) h;
       let r = (if rc = 0 then match_policy e ip code p (if isResource = 1 then r\<lparr>findPolicy := 1, findRes := 1\<rparr> else r\<lparr>findPolicy := 1\<rparr>) else r);
       (ps, r, h) \<leftarrow> all_policies e ip code ts ps r h;
       Some (p # ps, r, h)
     }"

lemma find_roleitem_flag: "find_roleitem srv t 1 h = Some (rc, item, flag, h') \<Longrightarrow> flag = 1"
  by (auto simp: find_roleitem_def split: Option.bind_split_asm prod.split_asm sum.split_asm option.split_asm)

lemma GetPolicy_flag: "GetPolicy ''MYSQL'' odbc srv junk (Some t) p 1 h = Some (rc, p', flag, h') \<Longrightarrow> flag = 1"
  by (auto simp: GetPolicy_def Option.bind_eq_Some_conv dest: find_roleitem_flag split: option.split_asm)

text \<open>C21: on MySQL the early end of the loop is never taken: once a policy of a resource is found the
  flag stays set, so no later policy counts as one of a group. Every policy of the login that can be
  read is checked, the ones of groups read before that of the resource included.\<close>

theorem policy_loop_all:
  assumes "e_dbtype e = ''MYSQL''"
  shows "policy_loop e ip code ts ps r h = all_policies e ip code ts ps r h"
proof (induction ts arbitrary: ps r h)
  case Nil
  then show ?case by simp
next
  case (Cons t ts)
  show ?case
  proof (cases ps)
    case Nil
    then show ?thesis by simp
  next
    case (Cons p ps1)
    have flag: "isR = 1" if "GetPolicy (e_dbtype e) odbc (e_srv e) (e_junk e) (Some t) p (findRes r) h = Some (rc, q, isR, h1)"
      "findRes r = 1" for odbc rc q isR h1
      using that GetPolicy_flag unfolding assms by metis
    show ?thesis
    proof (cases "GetPolicy (e_dbtype e) (o_policy e t (findRes r) h) (e_srv e) (e_junk e) (Some t) p (findRes r) h")
      case None
      then show ?thesis by (simp add: Cons)
    next
      case (Some x)
      obtain rc q isR h1 where x: "x = (rc, q, isR, h1)" by (cases x)
      have "findRes r = 1 \<Longrightarrow> isR = 1" using flag Some x by blast
      then show ?thesis using Some x by (cases "isR = 1") (auto simp: Cons Cons.IH Let_def)
    qed
  qed
qed

theorem policy_loop_all_witness:
  "policy_loop (plain_env (\<lambda>h sql. Query_error)) ''10.0.0.9'' 100 [role_join ''a''] [zero_policy] no_rights []
     = Some ([zero_policy], no_rights, [roleitem_sql ''a'' ''7''])"
proof -
  have m: "e_dbtype (plain_env (\<lambda>h sql. Query_error)) = ''MYSQL''" by (simp add: plain_env_def)
  have l: "length (roleitem_sql ''a'' ''7'') < 4096" by (simp add: roleitem_sql_def sp_def qs_def)
  show ?thesis
    unfolding policy_loop_all[OF m] using l
    by (simp add: plain_env_def GetPolicy_def find_roleitem_def ask_def role_join_def)
qed

subsection \<open>The password of a login\<close>

text \<open>C26: with the employee, the resource and the account found, \<open>GetConfigForUser\<close> accepts every input that
  contains the stored password: a longer one too, and any input when the stored password is empty.
  The record of an accepted login says who it is and holds the password of the account.\<close>

theorem user_login_password:
  assumes "tableId px \<noteq> []" and "t0 = hd (tableId px)"
    and "read_employee e (pr_employee_id t0) h = Some (0, s, h1)"
    and "read_resource e (pr_resource_id t0) (serverName px) h1 = Some (0, r, h2)"
    and "read_account e (pr_employeeaccount_id t0) h2 = Some (0, a, h3)"
    and "px1 = px\<lparr>employee := s, resource := r, serverPwd := str_of r ''pr_passwd'', employeeaccount := a\<rparr>"
  shows "user_login e code px h =
      Some (if sublist (str_of s ''pr_pwd'') (inputPwd px)
            then (1, px1\<lparr>auth := user_auth e code px1 t0\<rparr>, h3) else (0, px\<lparr>employee := s\<rparr>, h1))
    \<and> str_of (user_auth e code px1 t0) ''pr_userId'' = str_of s ''pr_id''
    \<and> str_of (user_auth e code px1 t0) ''pr_accountPwd'' = str_of a ''pr_accountPwd''"
proof -
  have n: "nth_opt (tableId px) 0 = Some t0" using assms(1,2) by (cases "tableId px") auto
  have "str_of (user_auth e code px1 t0) ''pr_userId'' = str_of s ''pr_id''"
    "str_of (user_auth e code px1 t0) ''pr_accountPwd'' = str_of a ''pr_accountPwd''"
    by (simp_all add: assms(6) user_auth_def str_of_def[of "m(_ \<mapsto> _)" for m])
  then show ?thesis
    by (simp add: user_login_def contains_sublist n assms(3-6) Let_def del: nth_opt_Some)
qed

definition known_user :: env where
  "known_user = (plain_env (\<lambda>h sql. Query_error))
     \<lparr>e_dbtype := ''ORACLE'',
      o_employee := \<lambda>_ h. Some (0, Some [''pr_id'' \<mapsto> FStr ''1'', ''pr_pwd'' \<mapsto> FStr ''w''], h),
      o_resource := \<lambda>_ _ h. Some (0, Some [''pr_passwd'' \<mapsto> FStr ''secret''], h),
      o_account := \<lambda>_ h. Some (0, Some [''pr_accountPwd'' \<mapsto> FStr ''secret''], h)\<rparr>"

theorem user_login_password_witness:
  "\<exists>px' h'. user_login known_user 100 (plain_px [role_join ''a''] []) [] = Some (1, px', h')"
proof -
  let ?px = "plain_px [role_join ''a''] []"
  have "sublist ''w'' (inputPwd ?px)" by (simp add: plain_px_def sublist_Cons_right)
  moreover have "tableId ?px \<noteq> []" by (simp add: plain_px_def)
  moreover have "read_employee known_user (pr_employee_id (hd (tableId ?px))) [] = Some (0, [''pr_id'' \<mapsto> FStr ''1'', ''pr_pwd'' \<mapsto> FStr ''w''], [])"
    "read_resource known_user (pr_resource_id (hd (tableId ?px))) (serverName ?px) [] = Some (0, [''pr_passwd'' \<mapsto> FStr ''secret''], [])"
    "read_account known_user (pr_employeeaccount_id (hd (tableId ?px))) [] = Some (0, [''pr_accountPwd'' \<mapsto> FStr ''secret''], [])"
    by (simp_all add: known_user_def plain_env_def read_employee_def read_resource_def read_account_def GetEmployee_def GetResource_def
        GetEmployeeaccount_def via_mysql_def)
  ultimately show ?thesis
    using user_login_password[of ?px "hd (tableId ?px)" known_user "[]" "[''pr_id'' \<mapsto> FStr ''1'', ''pr_pwd'' \<mapsto> FStr ''w'']" "[]"
        "[''pr_passwd'' \<mapsto> FStr ''secret'']" "[]" "[''pr_accountPwd'' \<mapsto> FStr ''secret'']" "[]" _ 100]
    by (simp add: str_of_def)
qed

end
