(* ===== verification/LogText.thy ===== *)
theory LogText
  imports CLib
begin

text \<open>
  Text for the logs: \<open>EncodeData\<close>, \<open>ClearVT100Data\<close> and \<open>ClearData\<close> of \<^verbatim>\<open>DBRecord/DBoperate.c\<close> (lines
  2255 to 2334), on the arrays the callers pass: what is behind the end of a string matters here.
\<close>

abbreviation NUL :: char where "NUL \<equiv> CHR 0x00"
abbreviation ESC :: char where "ESC \<equiv> CHR 0x1B"

text \<open>
  A C array of characters is the list of them; \<open>zstr\<close> is the string it starts with.
\<close>

definition zstr :: "cstring \<Rightarrow> cstring" where
  "zstr buf = takeWhile (\<lambda>c. c \<noteq> NUL) buf"

lemma zstr_prefix: "NUL \<notin> set s \<Longrightarrow> zstr (s @ NUL # r) = s"
  by (induction s) (auto simp: zstr_def)

subsection \<open>\<open>EncodeData\<close>\<close>

text \<open>
  \<open>%02X\<close> of a \<open>char\<close>, which is signed: a character from 0x80 on is converted as a negative \<open>int\<close> and
  prints eight digits. Each turn writes behind the two places of the turn before.
\<close>

definition char_02X :: "char \<Rightarrow> cstring" where
  "char_02X c = fmt_02X (signed (of_char c :: 8 word))"

fun encode_loop :: "nat \<Rightarrow> cstring \<Rightarrow> cstring \<Rightarrow> cstring option" where
  "encode_loop i src [] = Some src"
| "encode_loop i src (c # dest) =
     do { src \<leftarrow> poke_opt src (2 * i) (char_02X c @ [NUL]); encode_loop (Suc i) src dest }"

definition EncodeData :: "cstring \<Rightarrow> cstring \<Rightarrow> cstring option" where
  "EncodeData src dest = encode_loop 0 src dest"

subsection \<open>\<open>ClearVT100Data\<close> and \<open>ClearData\<close>\<close>

definition csi_final :: cstring where
  "csi_final = ''cnRhlHABCDfsurKJipm''"

text \<open>
  A pointer into the array is the part of the array from it on, with the bytes behind the string. The
  loop over a control sequence does not look for the end of the string: \<open>None\<close> is a read behind the
  array.
\<close>

fun skip_csi :: "cstring \<Rightarrow> cstring option" where
  "skip_csi [] = None"
| "skip_csi (c # r) = (if c \<in> set csi_final then Some r else skip_csi r)"

definition ClearVT100Data :: "cstring \<Rightarrow> cstring option" where
  "ClearVT100Data dest =
     (case dest of
        [] \<Rightarrow> None
      | c # r \<Rightarrow>
          if c = ESC then
            (case r of
               [] \<Rightarrow> None
             | d # r \<Rightarrow> if d \<noteq> CHR ''['' then Some r else skip_csi r)
          else Some dest)"

lemma skip_csi_shorter: "skip_csi s = Some r \<Longrightarrow> length r < length s"
  by (induction s) (auto split: if_splits)

lemma ClearVT100Data_shorter: "ClearVT100Data (ESC # s) = Some r \<Longrightarrow> length r < length s"
  by (auto simp: ClearVT100Data_def dest: skip_csi_shorter split: list.splits if_splits)

text \<open>The inner loop: from the current pointer to the first character that starts no sequence.\<close>

function skip_escapes :: "cstring \<Rightarrow> cstring option" where
  "skip_escapes [] = None"
| "skip_escapes (c # r) =
     (if c = ESC then do { r \<leftarrow> ClearVT100Data (c # r); skip_escapes r } else Some (c # r))"
  by pat_completeness auto
termination
  by (relation "measure length") (auto dest: ClearVT100Data_shorter)

lemma skip_escapes_shorter: "skip_escapes s = Some r \<Longrightarrow> length r \<le> length s \<and> r \<noteq> [] \<and> hd r \<noteq> ESC"
proof (induction s rule: skip_escapes.induct)
  case (2 c s)
  then show ?case by (fastforce dest: ClearVT100Data_shorter split: if_splits)
qed simp

text \<open>What is written, in order; the character after a sequence is copied without a look at it.\<close>

function clear_loop :: "cstring \<Rightarrow> cstring option" where
  "clear_loop [] = None"
| "clear_loop (c # r) =
     (if c = NUL then Some []
      else if c = CHR 0x0D \<or> c = CHR 0x0A then clear_loop r
      else
        (case skip_escapes (c # r) of
           Some (d # s) \<Rightarrow> map_option ((#) d) (clear_loop s)
         | _ \<Rightarrow> None))"
  by pat_completeness auto
termination
  by (relation "measure length") (auto dest!: skip_escapes_shorter simp del: skip_escapes.simps)

definition ClearData :: "cstring \<Rightarrow> cstring \<Rightarrow> cstring option" where
  "ClearData src dest = do { out \<leftarrow> clear_loop dest; poke_opt src 0 out }"

text \<open>
  The texts a terminal sends: characters, line ends, and characters behind a run of sequences. A
  sequence is the escape with one more character, or a control sequence with its final character.
\<close>

datatype vt_seq = Two char | Control cstring char
datatype vt_item = Text char | Line_end char | Behind "vt_seq list" char

fun seq_ok :: "vt_seq \<Rightarrow> bool" where
  "seq_ok (Two d) \<longleftrightarrow> d \<noteq> CHR ''[''"
| "seq_ok (Control ps f) \<longleftrightarrow> set ps \<inter> set csi_final = {} \<and> f \<in> set csi_final"

fun show_seq :: "vt_seq \<Rightarrow> cstring" where
  "show_seq (Two d) = [ESC, d]"
| "show_seq (Control ps f) = [ESC, CHR ''[''] @ ps @ [f]"

fun item_ok :: "vt_item \<Rightarrow> bool" where
  "item_ok (Text c) \<longleftrightarrow> c \<notin> {NUL, ESC, CHR 0x0D, CHR 0x0A}"
| "item_ok (Line_end c) \<longleftrightarrow> c \<in> {CHR 0x0D, CHR 0x0A}"
| "item_ok (Behind es c) \<longleftrightarrow> es \<noteq> [] \<and> list_all seq_ok es \<and> c \<noteq> ESC"

fun show_item :: "vt_item \<Rightarrow> cstring" where
  "show_item (Text c) = [c]"
| "show_item (Line_end c) = [c]"
| "show_item (Behind es c) = concat (map show_seq es) @ [c]"

fun item_text :: "vt_item \<Rightarrow> cstring" where
  "item_text (Text c) = [c]"
| "item_text (Line_end c) = []"
| "item_text (Behind es c) = [c]"

lemma skip_csi_final: "set ps \<inter> set csi_final = {} \<Longrightarrow> f \<in> set csi_final \<Longrightarrow> skip_csi (ps @ f # r) = Some r"
  by (induction ps) auto

lemma skip_csi_open: "set ps \<inter> set csi_final = {} \<Longrightarrow> skip_csi ps = None"
  by (induction ps) auto

lemma ClearVT100Data_seq: "seq_ok q \<Longrightarrow> ClearVT100Data (show_seq q @ r) = Some r"
  by (cases q) (auto simp: ClearVT100Data_def skip_csi_final)

lemma show_seq_hd: "\<exists>s. show_seq q = ESC # s"
  by (cases q) auto

lemma skip_escapes_seqs:
  "list_all seq_ok es \<Longrightarrow> skip_escapes (concat (map show_seq es) @ s) = skip_escapes s"
proof (induction es)
  case (Cons q es)
  obtain t where "show_seq q = ESC # t" using show_seq_hd by blast
  with Cons ClearVT100Data_seq[of q "concat (map show_seq es) @ s"] show ?case by simp
qed simp

lemma clear_loop_escape:
  assumes "skip_escapes (ESC # t) = Some (d # s)"
  shows "clear_loop (ESC # t) = map_option ((#) d) (clear_loop s)"
  using assms by (simp del: skip_escapes.simps)

lemma clear_loop_item:
  assumes "item_ok it"
  shows "clear_loop (show_item it @ s) = map_option ((@) (item_text it)) (clear_loop s)"
proof (cases it)
  case (Text c)
  with assms show ?thesis by (cases "clear_loop s") simp_all
next
  case (Line_end c)
  with assms show ?thesis by (cases "clear_loop s") auto
next
  case (Behind es c)
  with assms obtain q es' where es: "es = q # es'" by (cases es) auto
  obtain t where t: "show_seq q = ESC # t" using show_seq_hd by blast
  have "skip_escapes (concat (map show_seq es) @ c # s) = Some (c # s)"
    using skip_escapes_seqs[of es "c # s"] assms Behind by simp
  then have "clear_loop (show_item it @ s) = map_option ((#) c) (clear_loop s)"
    using clear_loop_escape by (simp add: Behind es t del: skip_escapes.simps clear_loop.simps)
  then show ?thesis by (cases "clear_loop s") (simp_all add: Behind)
qed

lemma clear_loop_items:
  "list_all item_ok items \<Longrightarrow>
   clear_loop (concat (map show_item items) @ s) = map_option ((@) (concat (map item_text items))) (clear_loop s)"
  by (induction items; cases "clear_loop s") (simp_all add: clear_loop_item)

lemma ClearData_items:
  "list_all item_ok items \<Longrightarrow>
   ClearData src (concat (map show_item items) @ NUL # r) = poke_opt src 0 (concat (map item_text items))"
  by (simp add: ClearData_def clear_loop_items)

text \<open>C16: \<open>ClearData\<close> keeps the characters of a terminal's text and drops line ends and sequences, except
  that the character behind a sequence is kept whatever it is, a line end or the end of the text
  included. A control sequence without a final character makes it read on behind the array.\<close>

theorem ClearData_result:
  assumes "list_all item_ok items"
  shows "ClearData src (concat (map show_item items) @ NUL # r) = poke_opt src 0 (concat (map item_text items))
    \<and> (set ps \<inter> set csi_final = {} \<longrightarrow>
         ClearData src (concat (map show_item items) @ [ESC, CHR ''[''] @ ps) = None)"
proof -
  have "clear_loop ([ESC, CHR ''[''] @ ps) = None" if "set ps \<inter> set csi_final = {}"
    using skip_csi_open[OF that] by (simp add: ClearVT100Data_def)
  then show ?thesis using assms by (simp add: ClearData_def clear_loop_items)
qed

theorem ClearData_result_witness:
  "ClearData (replicate 8 NUL) ([CHR ''a'', ESC, CHR ''['', CHR ''1'', CHR ''m'', CHR 0x0A, CHR 0x0D, CHR ''b'', NUL])
     = Some ([CHR ''a'', CHR 0x0A, CHR ''b''] @ replicate 5 NUL)"
  using ClearData_result[of "[Text CHR ''a'', Behind [Control ''1'' CHR ''m''] CHR 0x0A, Line_end CHR 0x0D, Text CHR ''b'']"
      "replicate 8 NUL" "[]"]
  by (simp add: csi_final_def poke_opt_def poke_def numeral_eq_Suc)

subsection \<open>What \<open>EncodeData\<close> loses\<close>

definition ascii :: "char \<Rightarrow> bool" where
  "ascii c \<longleftrightarrow> (of_char c :: nat) < 128"

lemma show_hex_step: "0 < a \<Longrightarrow> b < 16 \<Longrightarrow> show_hex dc (16 * a + b) = show_hex dc a @ [dc b]"
  by (subst show_hex.simps) auto

lemma show_hex_digit: "b < 16 \<Longrightarrow> show_hex dc b = [dc b]"
  by (subst show_hex.simps) simp

lemma signed_byte: "0 \<le> u \<Longrightarrow> u < 256 \<Longrightarrow> (u + 128) mod 256 - 128 = (if u < 128 then u else u - 256)" for u :: int
proof -
  assume u: "0 \<le> u" "u < 256"
  have "(u + 128) mod 256 = (u - 128) mod 256" using mod_add_self2[of "u - 128" 256] by (simp add: add.commute)
  with u show ?thesis by (cases "u < 128") simp_all
qed

lemma unat_signed_char:
  "unat (signed (of_char c :: 8 word) :: 32 word) = (if ascii c then of_char c else 0xFFFFFF00 + of_char c)"
proof -
  let ?u = "of_char c :: int"
  have i: "?u = int (of_char c)" and n: "(of_char c :: nat) < 256"
    by (rule of_nat_of_char[symmetric], rule nat_of_char_less_256)
  then have u: "0 \<le> ?u" "?u < 256" by linarith+
  have "(of_char c :: 8 word) = word_of_nat (of_char c)" by (rule of_nat_of_char[symmetric])
  then have w: "uint (of_char c :: 8 word) = ?u" using n by (simp add: i unsigned_of_nat take_bit_eq_mod)
  have "sint (of_char c :: 8 word) = (?u + 128) mod 256 - 128"
    by (simp add: sint_uint w signed_take_bit_eq_take_bit_shift take_bit_eq_mod)
  also have "\<dots> = (if ?u < 128 then ?u else ?u - 256)" using signed_byte[OF u] .
  finally have v: "sint (of_char c :: 8 word) = (if ?u < 128 then ?u else ?u - 256)" .
  have "(signed (of_char c :: 8 word) :: 32 word) = word_of_int (sint (of_char c :: 8 word))"
    by (rule of_int_sint[symmetric])
  then have "uint (signed (of_char c :: 8 word) :: 32 word) = (if ?u < 128 then ?u else ?u - 256) mod 2 ^ 32"
    unfolding v by (simp only: uint_word_of_int len_of_numeral_defs) simp
  also have "\<dots> = (if ?u < 128 then ?u else 0xFFFFFF00 + ?u)"
    using u mod_add_self2[of "?u - 256" "2 ^ 32"] by (simp add: add.commute)
  finally have "uint (signed (of_char c :: 8 word) :: 32 word) = (if ?u < 128 then ?u else 0xFFFFFF00 + ?u)" .
  then have "uint (signed (of_char c :: 8 word) :: 32 word)
      = int (if ascii c then of_char c else 0xFFFFFF00 + of_char c)"
    unfolding i ascii_def by (simp del: of_nat_of_char)
  then show ?thesis by (simp only: unat_eq_nat_uint nat_int)
qed

lemma char_02X_ascii: "ascii c \<Longrightarrow> char_02X c = [digit_char (of_char c div 16), digit_char (of_char c mod 16)]"
proof -
  assume "ascii c"
  then have u: "char_02X c = pad0 2 (show_hex digit_char (of_char c))" and n: "(of_char c :: nat) < 128"
    by (simp_all add: char_02X_def fmt_02X_def unat_signed_char ascii_def)
  have z: "digit_char 0 = CHR ''0''" by code_simp
  show ?thesis
  proof (cases "(of_char c :: nat) < 16")
    case True
    then show ?thesis by (simp add: u show_hex_digit pad0_def z)
  next
    case False
    then have "show_hex digit_char (16 * (of_char c div 16) + of_char c mod 16)
        = [digit_char (of_char c div 16), digit_char (of_char c mod 16)]"
      using n by (subst show_hex_step) (auto simp: show_hex_digit)
    then show ?thesis by (simp add: u pad0_def)
  qed
qed

lemma digit_F: "digit_char 15 = CHR ''F''"
  by code_simp

lemma char_02X_high: "\<not> ascii c \<Longrightarrow> char_02X c = ''FFFFFF'' @ [digit_char (of_char c div 16), digit_char (of_char c mod 16)]"
proof -
  assume "\<not> ascii c"
  then have u: "char_02X c = pad0 2 (show_hex digit_char (0xFFFFFF00 + of_char c))"
    by (simp add: char_02X_def fmt_02X_def unat_signed_char)
  define a b where "a = (of_char c :: nat) div 16" and "b = (of_char c :: nat) mod 16"
  have "a < 16" unfolding a_def by (rule less_mult_imp_div_less) simp
  moreover have "b < 16" unfolding b_def by (rule mod_less_divisor) simp
  moreover have "of_char c = 16 * a + b" unfolding a_def b_def by (rule mult_div_mod_eq[symmetric])
  ultimately have ab: "a < 16" "b < 16" "of_char c = 16 * a + b" .
  have f: "show_hex digit_char 0xFFFFFF = ''FFFFFF''"
    by (simp add: show_hex.simps digit_F)
  have "show_hex digit_char (0xFFFFFF00 + of_char c) = show_hex digit_char (16 * (16 * 0xFFFFFF + a) + b)"
    using ab(3) by (simp add: add.assoc)
  also have "\<dots> = ''FFFFFF'' @ [digit_char a, digit_char b]"
    using show_hex_step[where a = "16 * 0xFFFFFF + a" and b = b] show_hex_step[where a = "0xFFFFFF" and b = a] ab(1,2) by (simp add: f)
  finally show ?thesis by (simp add: u pad0_def a_def b_def)
qed

fun encoded :: "cstring \<Rightarrow> cstring" where
  "encoded [] = []"
| "encoded [c] = char_02X c"
| "encoded (c # cs) = take 2 (char_02X c) @ encoded cs"

lemma char_02X_length: "2 \<le> length (char_02X c) \<and> length (char_02X c) \<le> 8"
  by (cases "ascii c") (simp_all add: char_02X_ascii char_02X_high)

lemma take_poke_prefix: "off \<le> length buf \<Longrightarrow> k \<le> length xs \<Longrightarrow> take (off + k) (poke buf off xs) = take off buf @ take k xs"
  by (simp add: poke_def)

lemma encode_loop_result:
  assumes "dest \<noteq> []" and "2 * (i + length dest) + 7 \<le> length src"
  shows "\<exists>r. encode_loop i src dest = Some (take (2 * i) src @ encoded dest @ NUL # r)
    \<and> length (take (2 * i) src @ encoded dest @ NUL # r) = length src"
  using assms
proof (induction dest arbitrary: i src rule: encoded.induct)
  case 1
  then show ?case by simp
next
  case (2 c)
  let ?r = "drop (2 * i + length (char_02X c @ [NUL])) src"
  have "2 * i + length (char_02X c @ [NUL]) \<le> length src" using 2 char_02X_length[of c] by simp
  moreover from this have "poke src (2 * i) (char_02X c @ [NUL]) = take (2 * i) src @ encoded [c] @ NUL # ?r"
    and "length (take (2 * i) src @ encoded [c] @ NUL # ?r) = length src"
    by (simp_all add: poke_def)
  ultimately show ?case by (auto simp: poke_opt_def)
next
  case (3 c d cs)
  let ?src = "poke src (2 * i) (char_02X c @ [NUL])"
  have l: "2 * i + length (char_02X c @ [NUL]) \<le> length src" using 3(3) char_02X_length[of c] by simp
  have t: "take (2 * Suc i) ?src = take (2 * i) src @ take 2 (char_02X c)"
    using take_poke_prefix[of "2 * i" src 2 "char_02X c @ [NUL]"] l char_02X_length[of c] by simp
  have "\<exists>r. encode_loop (Suc i) ?src (d # cs) = Some (take (2 * Suc i) ?src @ encoded (d # cs) @ NUL # r)
    \<and> length (take (2 * Suc i) ?src @ encoded (d # cs) @ NUL # r) = length ?src"
    by (rule 3(1)) (use 3(3) l in simp_all)
  then show ?case using l unfolding t by (simp add: poke_opt_def)
qed

lemma digit_char_not_NUL: "k < 16 \<Longrightarrow> digit_char k \<noteq> NUL"
proof -
  have "list_all (\<lambda>k. digit_char k \<noteq> NUL) [0..<16]" by code_simp
  moreover assume "k < 16"
  then have "k \<in> set [0..<16]" by simp
  ultimately show ?thesis unfolding list_all_iff by blast
qed

lemma char_02X_no_NUL: "NUL \<notin> set (char_02X c)"
proof -
  have "(of_char c :: nat) div 16 < 16" by (rule less_mult_imp_div_less) simp
  then show ?thesis
    using digit_char_not_NUL[of "of_char c div 16"] digit_char_not_NUL[of "of_char c mod 16"]
    by (cases "ascii c") (auto simp: char_02X_ascii char_02X_high)
qed

lemma encoded_no_NUL: "NUL \<notin> set (encoded s)"
  using char_02X_no_NUL by (induction s rule: encoded.induct) (auto dest: in_set_takeD)

lemma encoded_ascii: "list_all ascii s \<Longrightarrow> encoded s = concat (map char_02X s)"
  by (induction s rule: encoded.induct) (simp_all add: char_02X_ascii)

lemma encoded_high: "s \<noteq> [] \<Longrightarrow> list_all (\<lambda>c. \<not> ascii c) s \<Longrightarrow>
    encoded s = replicate (2 * (length s - 1)) (CHR ''F'') @ char_02X (last s)"
  by (induction s rule: encoded.induct) (simp_all add: char_02X_high)

text \<open>\<open>EncodeData\<close> writes two hexadecimal digits for every character below 0x80, but \<open>FF\<close> for every
  other character, and for one at the end of the text eight digits: text that is not ASCII is lost.\<close>

theorem EncodeData_result:
  assumes "dest \<noteq> []" and "2 * length dest + 7 \<le> length src"
  shows "\<exists>src'. EncodeData src dest = Some src' \<and> length src' = length src \<and>
    (list_all ascii dest \<longrightarrow> zstr src' = concat (map char_02X dest)) \<and>
    (list_all (\<lambda>c. \<not> ascii c) dest \<longrightarrow>
      zstr src' = replicate (2 * (length dest - 1)) (CHR ''F'') @ char_02X (last dest))"
proof -
  obtain r where "EncodeData src dest = Some (encoded dest @ NUL # r)" and "length (encoded dest @ NUL # r) = length src"
    using encode_loop_result[of dest 0 src] assms by (auto simp: EncodeData_def)
  moreover have "zstr (encoded dest @ NUL # r) = encoded dest"
    using encoded_no_NUL by (rule zstr_prefix)
  ultimately show ?thesis
    using encoded_ascii[of dest] encoded_high[OF assms(1)] by (intro exI[of _ "encoded dest @ NUL # r"]) metis
qed

theorem EncodeData_result_witness:
  "\<exists>src'. EncodeData (replicate 16 NUL) [CHR 0xC4, CHR 0xE3] = Some src' \<and> zstr src' = ''FF'' @ char_02X (CHR 0xE3)"
proof -
  have "\<not> ascii (CHR 0xC4)" "\<not> ascii (CHR 0xE3)" by (simp_all add: ascii_def)
  then show ?thesis using EncodeData_result[of "[CHR 0xC4, CHR 0xE3]" "replicate 16 NUL"] by (auto simp: numeral_2_eq_2)
qed

end
