(* ===== verification/AuditLog.thy ===== *)
theory AuditLog
  imports LogText Session
begin

text \<open>
  The login record and the activity logs of \<^verbatim>\<open>DBRecord/DBoperate.c\<close>: \<open>SetLoginlog\<close>, \<open>ReflashLoginlog\<close>,
  \<open>SetUseractivitylog\<close>, \<open>SetUseractivityoutlog\<close>, \<open>SaveDB2File\<close>, \<open>SaveVideo2File\<close> (lines 1873 to 2253 and
  2336 to 2404), \<open>GetIp\<close> (2485 to 2503) and \<open>CreateLoginlog\<close> (2750 to 2784).

  \<open>logs\<close> is what they change: the two connections, the statements sent over each, the files and the
  system log. \<open>outside\<close> is what they do not control: the servers, the settings files, which files can be
  opened. The ODBC variants keep their connections to themselves; only their results are arguments. The time and the random numbers are arguments. Two calls of \<open>rand\<close> in one argument list have
  no order in C; the numbers are given in the order of the places they are printed at.
\<close>

subsection \<open>State\<close>

record clock =
  c_year :: int
  c_month :: int
  c_day :: int
  c_hour :: int
  c_min :: int
  c_sec :: int
  tv_sec :: int
  tv_usec :: int

record outside =
  x_connect :: "cstring \<Rightarrow> int \<Rightarrow> cstring \<Rightarrow> cstring \<Rightarrow> cstring \<Rightarrow> bool"
  x_odbc :: int
  x_audit_connect :: "cstring \<Rightarrow> int \<Rightarrow> cstring \<Rightarrow> cstring \<Rightarrow> cstring \<Rightarrow> bool"
  x_audit_odbc :: int
  x_config_dec :: "cstring \<Rightarrow> cstring"
  x_mysql_cfg :: "cstring option"
  x_audit_cfg :: "cstring option"
  x_srv :: server
  x_audit_srv :: server
  x_can_open :: "cstring \<Rightarrow> bool"

record logs =
  main_conn :: db_state
  audit_conn :: db_state
  main_sent :: hist
  audit_sent :: hist
  files :: "cstring \<Rightarrow> cstring"
  syslogs :: "cstring list"

definition stamp :: "clock \<Rightarrow> cstring" where
  "stamp c = fmt_0d 4 (c_year c) @ ''-'' @ fmt_0d 2 (c_month c) @ ''-'' @ fmt_0d 2 (c_day c) @ '' ''
     @ fmt_0d 2 (c_hour c) @ '':'' @ fmt_0d 2 (c_min c) @ '':'' @ fmt_0d 2 (c_sec c)"

definition log_id :: "clock \<Rightarrow> int \<Rightarrow> int \<Rightarrow> cstring" where
  "log_id c r1 r2 = fmt_0d 2 (c_hour c) @ fmt_0d 2 (c_min c) @ fmt_0d 2 (c_sec c) @ fmt_d r1 @ fmt_d r2"

definition main_dbtype :: "logs \<Rightarrow> cstring" where
  "main_dbtype st = dbtype (cfg (main_conn st))"

definition audit_dbtype :: "logs \<Rightarrow> cstring" where
  "audit_dbtype st = dbtype (cfg (audit_conn st))"

subsection \<open>Files\<close>

text \<open>A file that can be opened gets the text and a line end; there is no other effect.\<close>

definition append_line :: "outside \<Rightarrow> cstring \<Rightarrow> cstring \<Rightarrow> logs \<Rightarrow> logs" where
  "append_line x name t st =
     (if x_can_open x name
      then st\<lparr>files := (files st)(name := files st name @ t @ [CHR 0x0D, CHR 0x0A])\<rparr> else st)"

definition db_file :: "clock \<Rightarrow> cstring" where
  "db_file c = ''/tmp/proxy/db.db.'' @ fmt_0d 4 (c_year c) @ fmt_0d 2 (c_month c) @ fmt_0d 2 (c_day c)
     @ fmt_0d 2 (c_hour c) @ fmt_0d 2 (c_min c)"

definition SaveDB2File :: "outside \<Rightarrow> clock \<Rightarrow> cstring \<Rightarrow> logs \<Rightarrow> int \<times> logs" where
  "SaveDB2File x c sql st = (0, append_line x (db_file c) sql st)"

text \<open>\<open>filename\<close> has 1024 bytes.\<close>

definition SaveVideo2File :: "outside \<Rightarrow> cstring \<Rightarrow> cstring \<Rightarrow> logs \<Rightarrow> (int \<times> logs) option" where
  "SaveVideo2File x sql sessionId st =
     (let filename = ''/tmp/proxyvideo/'' @ sessionId
      in if \<not> length filename < 1024 then None else Some (0, append_line x filename sql st))"

subsection \<open>The activity log\<close>

record useractivitylog =
  ual_clientAddr :: cstring
  ual_proxyAddr :: cstring
  ual_resId :: cstring
  ual_resName :: cstring
  ual_resAddr :: cstring
  ual_command :: cstring
  ual_cmdPrefix :: cstring
  ual_userId :: cstring
  ual_userName :: cstring
  ual_uid :: cstring
  ual_accountNo :: cstring
  ual_sessionId :: cstring
  ual_level :: int
  ual_accessType :: int

definition useractivitylog_sql :: "cstring \<Rightarrow> cstring \<Rightarrow> cstring \<Rightarrow> useractivitylog \<Rightarrow> cstring" where
  "useractivitylog_sql dt pr_id operDate u =
     ''INSERT INTO pr_useractivitylog VALUES ('' @ qs pr_id @ '', '' @ qs (ual_clientAddr u) @ '', '' @ qs (ual_proxyAddr u)
     @ '', '' @ qs (ual_resId u) @ '', '' @ qs (ual_resName u) @ '', '' @ qs (ual_resAddr u) @ '', '' @ qs (ual_command u)
     @ '', '' @ qs (ual_cmdPrefix u @ '' '') @ '', null, null, '' @ qs (ual_userId u) @ '', '' @ qs (ual_userName u)
     @ '', '' @ qs (ual_uid u) @ '', '' @ qs (ual_accountNo u) @ '', ''
     @ (if dt = ''ORACLE'' then ''to_date('' @ qs operDate @ '','' @ qs ''yyyy-mm-dd hh24:mi:ss'' @ '')'' else qs operDate)
     @ '', '' @ qs (ual_sessionId u) @ '', '' @ qs (fmt_d (ual_level u)) @ '', '' @ qs (fmt_d (ual_accessType u)) @ '');''"

definition audit_message :: "cstring \<Rightarrow> useractivitylog \<Rightarrow> cstring" where
  "audit_message operDate u =
     ''audit,'' @ ual_userName u @ '','' @ ual_uid u @ '','' @ ual_clientAddr u @ '','' @ ual_accountNo u
     @ '','' @ ual_resAddr u @ '','' @ operDate @ '','' @ ual_command u"

text \<open>
  A prefix with the sequence \<open>ESC [ m\<close> anywhere loses its first three characters. \<open>sql\<close> has 1024
  bytes and \<open>formatStr\<close> 2028. The result: the code, the id of the record, the new state.
\<close>

definition vt_reset :: cstring where "vt_reset = ESC # ''[m''"

definition SetUseractivitylog :: "outside \<Rightarrow> clock \<Rightarrow> int \<Rightarrow> int \<Rightarrow> useractivitylog \<Rightarrow> logs
    \<Rightarrow> (int \<times> cstring \<times> logs) option" where
  "SetUseractivitylog x c r1 r2 u st =
     (let pr_id = log_id c r1 r2;
          operDate = stamp c;
          u = (if contains (ual_cmdPrefix u) vt_reset
               then u\<lparr>ual_cmdPrefix := drop (length vt_reset) (ual_cmdPrefix u)\<rparr> else u);
          sql = useractivitylog_sql (audit_dbtype st) pr_id operDate u;
          formatStr = audit_message operDate u
      in if \<not> length sql < 1024 then None
         else if \<not> length formatStr < 2028 then None
         else case SaveDB2File x c sql st of (_, st) \<Rightarrow> Some (0, pr_id, st\<lparr>syslogs := syslogs st @ [formatStr]\<rparr>))"

subsection \<open>The output log\<close>

text \<open>\<open>uol_desc\<close> is the whole array; \<open>sql\<close> and \<open>encode\<close> have 20480 bytes, all zero at the start.\<close>

record useractivityoutlog =
  uol_ualId :: cstring
  uol_desc :: cstring
  uol_seesionId :: cstring

definition encode_size :: nat where "encode_size = 20480"

definition outlog_sql :: "cstring \<Rightarrow> cstring \<Rightarrow> cstring \<Rightarrow> cstring \<Rightarrow> cstring \<Rightarrow> cstring" where
  "outlog_sql dt pr_id ualId encode operDate =
     ''INSERT INTO pr_useractivityoutlog VALUES ('' @ qs pr_id @ '', '' @ qs ualId @ '', '' @ qs encode @ '', ''
     @ (if dt = ''ORACLE'' then ''to_date('' @ qs operDate @ '','' @ qs ''yyyy-mm-dd hh24:mi:ss'' @ '')'' else qs operDate) @ '');''"

definition outlog_line :: "cstring \<Rightarrow> cstring \<Rightarrow> cstring \<Rightarrow> cstring \<Rightarrow> cstring" where
  "outlog_line pr_id ualId encode operDate = pr_id @ ''@#'' @ ualId @ ''@#'' @ encode @ ''@#'' @ operDate"

definition SetUseractivityoutlog :: "outside \<Rightarrow> clock \<Rightarrow> useractivityoutlog \<Rightarrow> int \<Rightarrow> logs \<Rightarrow> (int \<times> logs) option" where
  "SetUseractivityoutlog x c u indb st =
     (let pr_id = fmt_d (tv_sec c) @ fmt_d (tv_usec c);
          operDate = stamp c;
          zeros = replicate encode_size NUL
      in do {
        encode \<leftarrow> EncodeData zeros (zstr (uol_desc u));
        (if indb = 1 then do {
           encode \<leftarrow> ClearData zeros (uol_desc u);
           let sql = outlog_sql (audit_dbtype st) pr_id (uol_ualId u) (zstr encode) operDate;
           (if \<not> length sql < encode_size then None else Some (0, snd (SaveDB2File x c sql st)))
         } else
           let sql = outlog_line pr_id (uol_ualId u) (zstr encode) operDate
           in if \<not> length sql < encode_size then None
              else do { (_, st) \<leftarrow> SaveVideo2File x sql (uol_seesionId u) st; Some (0, st) })
      })"

subsection \<open>The login record\<close>

record loginlog =
  ll_uid :: cstring
  ll_userName :: cstring
  ll_accountNo :: cstring
  ll_clientAddr :: cstring
  ll_resAddr :: cstring
  ll_resId :: cstring
  ll_resName :: cstring
  ll_resType :: cstring
  ll_apId :: cstring
  ll_accessType :: int
  ll_proxyAddr :: cstring
  ll_port :: int
  ll_videoFlag :: int
  ll_cmdFlag :: int
  ll_logRecord :: cstring
  ll_status :: int
  ll_nodeFlag :: int
  ll_authaccessresid :: cstring
  ll_proxyHost :: cstring
  ll_cooperator :: cstring
  ll_accessMemo :: cstring

definition loginlog_sql :: "cstring \<Rightarrow> cstring \<Rightarrow> loginlog \<Rightarrow> cstring" where
  "loginlog_sql pr_id now l =
     ''INSERT INTO pr_loginlog VALUES ('' @ qs pr_id @ '', '' @ qs (ll_uid l) @ '', '' @ qs (ll_userName l) @ '', '' @ qs [] @ '', '' @ qs []
     @ '', '' @ qs (ll_accountNo l) @ '', '' @ qs (ll_clientAddr l) @ '', '' @ qs (ll_resAddr l) @ '', '' @ qs (ll_resId l)
     @ '', '' @ qs (ll_resName l) @ '', '' @ qs (ll_resType l) @ '', '' @ qs (ll_apId l) @ '', '' @ qs (fmt_d (ll_accessType l))
     @ '', '' @ qs now @ '', null, '' @ qs now @ '', '' @ qs (ll_proxyAddr l) @ '', '' @ qs (fmt_d (ll_port l))
     @ '', '' @ qs (fmt_d (ll_videoFlag l)) @ '', '' @ qs (fmt_d (ll_cmdFlag l)) @ '', '' @ qs (ll_logRecord l)
     @ '', '' @ qs (fmt_d (ll_status l)) @ '', '' @ qs (fmt_d (ll_nodeFlag l)) @ '', null,'' @ qs (ll_authaccessresid l)
     @ '','' @ qs (ll_proxyHost l) @ '','' @ qs (ll_cooperator l) @ '','' @ qs (ll_accessMemo l) @ '');''"

text \<open>One statement over the audit connection; the reply of an update or an insert is an error or not.\<close>

definition audit_query :: "outside \<Rightarrow> cstring \<Rightarrow> logs \<Rightarrow> db_reply \<times> logs" where
  "audit_query x sql st = (x_audit_srv x (audit_sent st) sql, st\<lparr>audit_sent := audit_sent st @ [sql]\<rparr>)"

definition connect_audit :: "outside \<Rightarrow> logs \<Rightarrow> (int \<times> logs) option" where
  "connect_audit x st =
     do { (rc, db) \<leftarrow> Audit_ConnectMysql (x_audit_connect x) (x_audit_odbc x) (x_config_dec x) (x_audit_cfg x) (x_mysql_cfg x) (audit_conn st);
          Some (rc, st\<lparr>audit_conn := db\<rparr>) }"

definition connect_main :: "outside \<Rightarrow> logs \<Rightarrow> (int \<times> logs) option" where
  "connect_main x st =
     do { (rc, db) \<leftarrow> ConnectMysql (x_connect x) (x_odbc x) (x_config_dec x) (x_mysql_cfg x) (main_conn st);
          Some (rc, st\<lparr>main_conn := db\<rparr>) }"

text \<open>A database that cannot be reached is no error: the record is not written and the code is 0.\<close>

definition SetLoginlog :: "(int \<times> cstring) option \<Rightarrow> outside \<Rightarrow> clock \<Rightarrow> int \<Rightarrow> int \<Rightarrow> loginlog \<Rightarrow> logs
    \<Rightarrow> (int \<times> cstring \<times> logs) option" where
  "SetLoginlog odbc x c r1 r2 l st =
     via_mysql (main_dbtype st) (map_option (\<lambda>(rc, i). (rc, i, st)) odbc)
       (let pr_id = log_id c r1 r2;
            sql = loginlog_sql pr_id (stamp c) l
        in if \<not> length sql < 1024 then None
           else do {
             (rc, st) \<leftarrow> connect_audit x st;
             (if rc \<noteq> 0 then Some (0, pr_id, st)
              else if \<not> mysql_sock (audit_conn st) then Some (0, pr_id, st)
              else case audit_query x sql st of
                (r, st) \<Rightarrow> Some (if r = Query_error then 1 else 0, pr_id, st))
           })"

definition CreateLoginlog :: "(loginlog \<Rightarrow> (int \<times> cstring) option) \<Rightarrow> outside \<Rightarrow> clock \<Rightarrow> int \<Rightarrow> int \<Rightarrow> proxyinfo \<Rightarrow> logs
    \<Rightarrow> (proxyinfo \<times> logs) option" where
  "CreateLoginlog odbc x c r1 r2 px st =
     (let l = \<lparr>ll_uid = str_of (auth px) ''pr_uid'', ll_userName = str_of (auth px) ''pr_userName'',
               ll_accountNo = str_of (auth px) ''pr_accountNo'', ll_clientAddr = str_of (auth px) ''pr_clientAddr'',
               ll_resAddr = str_of (auth px) ''pr_resAddr'', ll_resId = str_of (auth px) ''pr_resId'',
               ll_resName = str_of (auth px) ''pr_resName'', ll_resType = str_of (auth px) ''pr_resType'',
               ll_apId = str_of (auth px) ''pr_apId'', ll_accessType = int_of (auth px) ''pr_accessType'',
               ll_proxyAddr = str_of (auth px) ''pr_proxyAddr'', ll_port = clientPort px,
               ll_videoFlag = int_of (auth px) ''pr_auditType'', ll_cmdFlag = int_of (auth px) ''pr_auditFlag'',
               ll_logRecord = [], ll_status = 1, ll_nodeFlag = 1,
               ll_authaccessresid = str_of (auth px) ''pr_id'', ll_proxyHost = str_of (auth px) ''pr_proxyHost'',
               ll_cooperator = str_of (auth px) ''pr_cooperator'', ll_accessMemo = str_of (auth px) ''pr_accessMemo''\<rparr>
      in do {
        (rc, pr_id, st) \<leftarrow> SetLoginlog (odbc l) x c r1 r2 l st;
        Some (px\<lparr>loginlog_id := pr_id\<rparr>, st)
      })"

subsection \<open>Keeping a login alive and ending it\<close>

definition reflash_sql :: "int \<Rightarrow> cstring \<Rightarrow> cstring \<Rightarrow> cstring" where
  "reflash_sql type now login =
     (if type = 1 then ''UPDATE pr_loginlog set pr_onLineTime='' @ qs now @ '' where pr_id='' @ qs login
      else ''UPDATE pr_loginlog set pr_loginOutDate='' @ qs now @ '',pr_status=0 where pr_id='' @ qs login)"

definition login_row_sql :: "cstring \<Rightarrow> cstring" where
  "login_row_sql login =
     ''select pr_uid,pr_userName,pr_accountNo,pr_resName,pr_resAddr,pr_clientAddr,pr_apId,pr_loginDate from pr_loginlog where pr_id=''
     @ qs login"

text \<open>\<open>%s\<close> prints a null pointer as text.\<close>

definition fmt_s :: "cstring option \<Rightarrow> cstring" where
  "fmt_s s = (case s of None \<Rightarrow> ''(null)'' | Some v \<Rightarrow> v)"

definition access_name_sql :: "row \<Rightarrow> cstring" where
  "access_name_sql row = ''select pr_name from pr_accessprotocol where pr_id ='' @ fmt_s (row ! 6)"

definition login_message :: "row \<Rightarrow> row \<Rightarrow> cstring \<Rightarrow> cstring" where
  "login_message row rowX now =
     (let sep = [CHR 0x05]
      in ''login'' @ sep @ fmt_s (row ! 0) @ sep @ fmt_s (row ! 1) @ sep @ fmt_s (row ! 2) @ sep @ fmt_s (row ! 3) @ sep
         @ fmt_s (row ! 4) @ sep @ fmt_s (row ! 5) @ sep @ fmt_s (rowX ! 0) @ sep @ fmt_s (row ! 7) @ sep @ now)"

definition main_query :: "outside \<Rightarrow> cstring \<Rightarrow> logs \<Rightarrow> db_reply \<times> logs" where
  "main_query x sql st = (x_srv x (main_sent st) sql, st\<lparr>main_sent := main_sent st @ [sql]\<rparr>)"

text \<open>
  The system log record of a logout, from the row of the login on. \<open>sqlAccessName\<close> has 256 bytes and
  \<open>formatStr\<close> 2048; a query over a connection that is not there is a crash. An error leaves at once,
  with the connections open. Without a row of the login the function frees a result it never got.
\<close>

definition logout_message :: "outside \<Rightarrow> cstring \<Rightarrow> row \<Rightarrow> logs \<Rightarrow> (int \<times> logs) option" where
  "logout_message x now row st =
     (if length row < 8 then None
      else if \<not> length (access_name_sql row) < 256 then None
      else do {
        (_, st) \<leftarrow> connect_main x st;
        (if \<not> mysql_sock (main_conn st) then None
         else case main_query x (access_name_sql row) st of
           (Query_error, st) \<Rightarrow> Some (0, st)
         | (Store_error, st) \<Rightarrow> Some (0, st)
         | (Rows rowsX, st) \<Rightarrow> do {
             st \<leftarrow> (case rowsX of
                [] \<Rightarrow> Some st
              | rowX # _ \<Rightarrow>
                  if rowX = [] \<or> \<not> length (login_message row rowX now) < 2048 then None
                  else Some (st\<lparr>syslogs := syslogs st @ [login_message row rowX now]\<rparr>));
             Some (0, st\<lparr>main_conn := CloseDB (main_conn st), audit_conn := Audit_CloseDB (audit_conn st)\<rparr>)
           })
      })"

definition logout_syslog :: "outside \<Rightarrow> cstring \<Rightarrow> cstring \<Rightarrow> logs \<Rightarrow> (int \<times> logs) option" where
  "logout_syslog x now login st =
     (if \<not> length (login_row_sql login) < 1024 then None
      else case audit_query x (login_row_sql login) st of
        (Query_error, st) \<Rightarrow> Some (0, st)
      | (Store_error, st) \<Rightarrow> Some (0, st)
      | (Rows rows, st) \<Rightarrow> (case rows of [] \<Rightarrow> None | row # _ \<Rightarrow> logout_message x now row st))"

definition ReflashLoginlog :: "int option \<Rightarrow> outside \<Rightarrow> clock \<Rightarrow> cstring \<Rightarrow> int \<Rightarrow> logs \<Rightarrow> (int \<times> logs) option" where
  "ReflashLoginlog odbc x c login type st =
     via_mysql (main_dbtype st) (map_option (\<lambda>rc. (rc, st)) odbc)
       (let sql = reflash_sql type (stamp c) login
        in if \<not> length sql < 1024 then None
           else do {
             (rc, st) \<leftarrow> connect_audit x st;
             (if rc \<noteq> 0 then Some (0, st)
              else if \<not> mysql_sock (audit_conn st) then Some (0, st)
              else case audit_query x sql st of
                (Query_error, st) \<Rightarrow> Some (1, st)
              | (_, st) \<Rightarrow> if type \<noteq> 1 then logout_syslog x (stamp c) login st else Some (0, st))
           })"

subsection \<open>The address of the proxy\<close>

text \<open>
  \<open>ioctl\<close> gives the address of an interface by the first 16 characters of its name, or fails; then the
  old address stays.
\<close>

definition GetIp :: "(cstring \<Rightarrow> cstring option) \<Rightarrow> cstring option \<Rightarrow> cstring \<Rightarrow> cstring option" where
  "GetIp ioctl mysql_cfg proxyIP =
     do { interfacename \<leftarrow> GetInterfaceName mysql_cfg;
          Some (case ioctl (take 16 interfacename) of None \<Rightarrow> proxyIP | Some a \<Rightarrow> a) }"

subsection \<open>Logs only grow\<close>

text \<open>The contract of an operation on the logs: what was written stays, and a reply of a server or a
  failed connection takes nothing away.\<close>

definition grows :: "logs \<Rightarrow> logs \<Rightarrow> bool" where
  "grows st st' \<longleftrightarrow> (\<forall>f. prefix (files st f) (files st' f)) \<and> prefix (syslogs st) (syslogs st')
     \<and> prefix (audit_sent st) (audit_sent st') \<and> prefix (main_sent st) (main_sent st')"

lemma grows_refl [intro, simp]: "grows st st"
  by (simp add: grows_def)

lemma grows_trans: "grows a b \<Longrightarrow> grows b c \<Longrightarrow> grows a c"
  unfolding grows_def by (meson prefix_order.trans)

lemma grows_frame [frame_simps]:
  "grows st (st\<lparr>main_conn := c\<rparr>)" "grows st (st\<lparr>audit_conn := c\<rparr>)"
  "grows st (st\<lparr>syslogs := syslogs st @ m\<rparr>)" "grows st (st\<lparr>audit_sent := audit_sent st @ m\<rparr>)"
  "grows st (st\<lparr>main_sent := main_sent st @ m\<rparr>)" "grows st (append_line x f t st)"
  by (simp_all add: grows_def append_line_def)

text \<open>
  An operation on the logs, with its result and its new state; any sequence of calls, with any time,
  servers and records, keeps what was written.
\<close>

locale log_operation =
  fixes run :: "'a \<Rightarrow> logs \<Rightarrow> ('r \<times> logs) option"
  assumes run_grows: "run a st = Some (r, st') \<Longrightarrow> grows st st'"
begin

inductive runs :: "logs \<Rightarrow> logs \<Rightarrow> bool" where
  stop: "runs st st"
| call: "runs st st' \<Longrightarrow> run a st' = Some (r, st'') \<Longrightarrow> runs st st''"

lemma runs_grows: "runs st st' \<Longrightarrow> grows st st'"
  by (induction rule: runs.induct) (auto intro: grows_trans run_grows)

lemma file_kept: "runs st st' \<Longrightarrow> prefix (files st f) (files st' f)"
  using runs_grows by (auto simp: grows_def)

lemma message_kept: "runs st st' \<Longrightarrow> m \<in> set (syslogs st) \<Longrightarrow> m \<in> set (syslogs st')"
  using runs_grows[of st st'] set_mono_prefix unfolding grows_def by fastforce

end

lemma connect_grows:
  "connect_audit x st = Some (rc, st') \<Longrightarrow> grows st st'"
  "connect_main x st = Some (rc, st') \<Longrightarrow> grows st st'"
  by (auto simp: connect_audit_def connect_main_def frame_simps)

lemma query_grows:
  "audit_query x sql st = (r, st') \<Longrightarrow> grows st st'"
  "main_query x sql st = (r, st') \<Longrightarrow> grows st st'"
  by (auto simp: audit_query_def main_query_def frame_simps)

lemma SetUseractivitylog_grows: "SetUseractivitylog x c r1 r2 u st = Some (rc, i, st') \<Longrightarrow> grows st st'"
  using grows_trans[OF grows_frame(6) grows_frame(3)]
  by (auto simp: SetUseractivitylog_def SaveDB2File_def Let_def split: if_split_asm)

lemma SetUseractivityoutlog_grows: "SetUseractivityoutlog x c u indb st = Some (rc, st') \<Longrightarrow> grows st st'"
  by (auto simp: SetUseractivityoutlog_def SaveDB2File_def SaveVideo2File_def Let_def frame_simps
      split: if_split_asm Option.bind_split_asm)

lemma SetLoginlog_grows: "SetLoginlog None x c r1 r2 l st = Some (rc, i, st') \<Longrightarrow> grows st st'"
  by (auto simp: SetLoginlog_def Let_def via_mysql_def dest!: connect_grows query_grows intro: grows_trans
      split: if_split_asm prod.split_asm Option.bind_split_asm)

lemma grows_close: "grows st st' \<Longrightarrow> grows st (st'\<lparr>main_conn := a, audit_conn := b\<rparr>)"
  "grows st st' \<Longrightarrow> grows st (st'\<lparr>syslogs := syslogs st' @ m\<rparr>)"
  by (auto simp: grows_def prefix_def)

lemma logout_message_grows: "logout_message x now row st = Some (rc, st') \<Longrightarrow> grows st st'"
  by (auto simp: logout_message_def dest!: connect_grows query_grows intro!: grows_close intro: grows_trans
      split: if_split_asm prod.split_asm Option.bind_split_asm db_reply.split_asm list.split_asm)

lemma logout_syslog_grows: "logout_syslog x now l st = Some (rc, st') \<Longrightarrow> grows st st'"
  by (auto simp: logout_syslog_def dest!: logout_message_grows query_grows intro: grows_trans
      split: if_split_asm prod.split_asm db_reply.split_asm list.split_asm)

lemma ReflashLoginlog_grows: "ReflashLoginlog None x c l t st = Some (rc, st') \<Longrightarrow> grows st st'"
  by (auto simp: ReflashLoginlog_def Let_def via_mysql_def dest!: connect_grows query_grows logout_syslog_grows intro: grows_trans
      split: if_split_asm prod.split_asm Option.bind_split_asm db_reply.split_asm)

datatype log_call =
    Activity clock int int useractivitylog
  | Output clock useractivityoutlog int
  | Login clock int int loginlog
  | Alive clock cstring int

text \<open>One call of the audit code, on MySQL.\<close>

definition log_run :: "outside \<times> log_call \<Rightarrow> logs \<Rightarrow> (int \<times> logs) option" where
  "log_run a st =
     (case a of (x, op) \<Rightarrow> (case op of
        Activity c r1 r2 u \<Rightarrow> map_option (\<lambda>(rc, i, st). (rc, st)) (SetUseractivitylog x c r1 r2 u st)
      | Output c u indb \<Rightarrow> SetUseractivityoutlog x c u indb st
      | Login c r1 r2 l \<Rightarrow> map_option (\<lambda>(rc, i, st). (rc, st)) (SetLoginlog None x c r1 r2 l st)
      | Alive c l t \<Rightarrow> ReflashLoginlog None x c l t st))"

interpretation audit_log: log_operation log_run
proof
  show "grows st st'" if "log_run a st = Some (r, st')" for a st r st'
    using that SetUseractivitylog_grows SetUseractivityoutlog_grows SetLoginlog_grows ReflashLoginlog_grows
    by (cases a) (auto simp: log_run_def split: log_call.split_asm)
qed

definition quiet :: outside where
  "quiet = \<lparr>x_connect = \<lambda>_ _ _ _ _. False, x_odbc = 0, x_audit_connect = \<lambda>_ _ _ _ _. False, x_audit_odbc = 0,
     x_config_dec = \<lambda>v. v, x_mysql_cfg = None, x_audit_cfg = None, x_srv = \<lambda>_ _. Rows [], x_audit_srv = \<lambda>_ _. Rows [],
     x_can_open = \<lambda>_. True\<rparr>"

definition noon :: clock where
  "noon = \<lparr>c_year = 2016, c_month = 7, c_day = 14, c_hour = 12, c_min = 0, c_sec = 5, tv_sec = 1468497605, tv_usec = 42\<rparr>"

definition empty_logs :: logs where
  "empty_logs = \<lparr>main_conn = initial_db \<lparr>serverip = [], port = 0, username = [], userpwd = [], database = [], dbtype = ''MYSQL''\<rparr>,
     audit_conn = initial_db \<lparr>serverip = [], port = 0, username = [], userpwd = [], database = [], dbtype = ''MYSQL''\<rparr>,
     main_sent = [], audit_sent = [], files = \<lambda>_. [], syslogs = []\<rparr>"

definition ls_record :: useractivitylog where
  "ls_record = \<lparr>ual_clientAddr = ''10.0.0.9'', ual_proxyAddr = ''10.0.0.2'', ual_resId = ''7'', ual_resName = ''db'', ual_resAddr = ''10.0.0.7'',
     ual_command = ''ls'', ual_cmdPrefix = ''$'', ual_userId = ''1'', ual_userName = ''Joe'', ual_uid = ''joe'', ual_accountNo = ''root'',
     ual_sessionId = ''1'', ual_level = 0, ual_accessType = 100\<rparr>"

lemma stamp_noon: "stamp noon = ''2016-07-14 12:00:05''"
  by code_simp

lemma log_id_noon: "log_id noon 1 2 = ''12000512''"
  by code_simp

lemma ls_record_logged:
  "SetUseractivitylog quiet noon 1 2 ls_record empty_logs =
     Some (0, ''12000512'', (append_line quiet (db_file noon)
       (useractivitylog_sql ''MYSQL'' ''12000512'' ''2016-07-14 12:00:05'' ls_record) empty_logs)
         \<lparr>syslogs := [''audit,Joe,joe,10.0.0.9,root,10.0.0.7,2016-07-14 12:00:05,ls'']\<rparr>)"
proof -
  have "fmt_d 0 = ''0''" "fmt_d 100 = ''100''" by code_simp+
  then have "length (useractivitylog_sql ''MYSQL'' ''12000512'' ''2016-07-14 12:00:05'' ls_record) < 1024"
    by (simp add: useractivitylog_sql_def ls_record_def qs_def)
  moreover have "\<not> contains (ual_cmdPrefix ls_record) vt_reset"
    by (simp add: contains_sublist ls_record_def vt_reset_def sublist_Cons_right)
  moreover have "audit_message ''2016-07-14 12:00:05'' ls_record = ''audit,Joe,joe,10.0.0.9,root,10.0.0.7,2016-07-14 12:00:05,ls''"
    by (simp add: audit_message_def ls_record_def)
  moreover have "audit_dbtype empty_logs = ''MYSQL''" by (simp add: audit_dbtype_def empty_logs_def initial_db_def)
  moreover have "syslogs (append_line x f t empty_logs) = []" for x f t by (simp add: append_line_def empty_logs_def)
  ultimately show ?thesis
    by (simp add: SetUseractivitylog_def SaveDB2File_def stamp_noon log_id_noon Let_def)
qed

subsection \<open>The files of the activities\<close>

text \<open>A record as it is logged, its line in the file of its minute and its message.\<close>

definition logged_record :: "useractivitylog \<Rightarrow> useractivitylog" where
  "logged_record u =
     (if contains (ual_cmdPrefix u) vt_reset then u\<lparr>ual_cmdPrefix := drop (length vt_reset) (ual_cmdPrefix u)\<rparr> else u)"

type_synonym activity_call = "clock \<times> int \<times> int \<times> useractivitylog"

definition activity_line :: "cstring \<Rightarrow> activity_call \<Rightarrow> cstring" where
  "activity_line dt a = (case a of (c, r1, r2, u) \<Rightarrow> useractivitylog_sql dt (log_id c r1 r2) (stamp c) (logged_record u))"

definition activity_message :: "activity_call \<Rightarrow> cstring" where
  "activity_message a = (case a of (c, r1, r2, u) \<Rightarrow> audit_message (stamp c) (logged_record u))"

definition activity_file :: "activity_call \<Rightarrow> cstring" where
  "activity_file a = db_file (fst a)"

text \<open>Activities one after the other, at their own times.\<close>

fun activities :: "outside \<Rightarrow> activity_call list \<Rightarrow> logs \<Rightarrow> logs option" where
  "activities x [] st = Some st"
| "activities x ((c, r1, r2, u) # as) st = do { (rc, i, st) \<leftarrow> SetUseractivitylog x c r1 r2 u st; activities x as st }"

text \<open>The lines of a file, each of which ends with the two characters of a line end.\<close>

function crlf_lines :: "cstring \<Rightarrow> cstring list" where
  "crlf_lines s =
     (if s = [] then [] else takeWhile (\<lambda>ch. ch \<noteq> CHR 0x0D) s # crlf_lines (drop (length (takeWhile (\<lambda>ch. ch \<noteq> CHR 0x0D) s) + 2) s))"
  by pat_completeness auto
termination by (relation "measure length") auto

declare crlf_lines.simps [simp del]

lemma crlf_lines_concat:
  "\<forall>l\<in>set ls. CHR 0x0D \<notin> set l \<Longrightarrow> crlf_lines (concat (map (\<lambda>l. l @ [CHR 0x0D, CHR 0x0A]) ls)) = ls"
proof (induction ls)
  case Nil
  then show ?case by (simp add: crlf_lines.simps)
next
  case (Cons l ls)
  then have "takeWhile (\<lambda>ch. ch \<noteq> CHR 0x0D) (l @ CHR 0x0D # r) = l" for r
    by (subst takeWhile_append2) auto
  with Cons show ?case by (subst crlf_lines.simps) simp
qed

lemma SetUseractivitylog_line:
  assumes "SetUseractivitylog x c r1 r2 u st = Some (rc, i, st')"
  shows "rc = 0 \<and> i = log_id c r1 r2 \<and> audit_conn st' = audit_conn st \<and> syslogs st' = syslogs st @ [activity_message (c, r1, r2, u)]
    \<and> files st' = (if x_can_open x (db_file c)
        then (files st)(db_file c := files st (db_file c) @ activity_line (audit_dbtype st) (c, r1, r2, u) @ [CHR 0x0D, CHR 0x0A]) else files st)"
  using assms
  by (auto simp: SetUseractivitylog_def SaveDB2File_def append_line_def activity_message_def activity_line_def logged_record_def Let_def
      split: if_split_asm)

lemma activities_files:
  assumes "activities x as st = Some st'"
  shows "files st' f = files st f @ (if x_can_open x f
      then concat (map (\<lambda>l. l @ [CHR 0x0D, CHR 0x0A]) (map (activity_line (audit_dbtype st)) (filter (\<lambda>a. activity_file a = f) as))) else [])
    \<and> syslogs st' = syslogs st @ map activity_message as"
  using assms
proof (induction as arbitrary: st)
  case (Cons a as)
  obtain c r1 r2 u where a: "a = (c, r1, r2, u)" by (cases a)
  with Cons.prems obtain rc i st1 where s: "SetUseractivitylog x c r1 r2 u st = Some (rc, i, st1)" and r: "activities x as st1 = Some st'"
    by (auto simp: Option.bind_eq_Some_conv)
  note l = SetUseractivitylog_line[OF s]
  then have "audit_dbtype st1 = audit_dbtype st" by (simp add: audit_dbtype_def)
  with Cons.IH[OF r] l show ?case by (auto simp: a activity_file_def)
qed simp

text \<open>C15: whatever activities are logged, at whatever times, the file of a minute that was empty before and can be opened has one line
  for each activity of that minute, in their order, with its statement, provided no statement has a carriage return in it; a file that cannot
  be opened loses its lines without an error; and the system log gets one message for each activity.\<close>

theorem activities_logged:
  assumes "activities x as st = Some st'"
  shows "syslogs st' = syslogs st @ map activity_message as
    \<and> (\<not> x_can_open x f \<longrightarrow> files st' f = files st f)
    \<and> (x_can_open x f \<and> files st f = [] \<and> (\<forall>a\<in>set as. CHR 0x0D \<notin> set (activity_line (audit_dbtype st) a)) \<longrightarrow>
         crlf_lines (files st' f) = map (activity_line (audit_dbtype st)) (filter (\<lambda>a. activity_file a = f) as))"
  using activities_files[OF assms, of f]
    crlf_lines_concat[of "map (activity_line (audit_dbtype st)) (filter (\<lambda>a. activity_file a = f) as)"]
  by auto

theorem activities_logged_witness:
  "\<exists>st'. activities quiet [(noon, 1, 2, ls_record)] empty_logs = Some st'
     \<and> crlf_lines (files st' (db_file noon)) = [useractivitylog_sql ''MYSQL'' ''12000512'' ''2016-07-14 12:00:05'' ls_record]"
proof -
  let ?a = "(noon, 1, 2, ls_record)"
  obtain st' where s: "activities quiet [?a] empty_logs = Some st'" by (simp add: ls_record_logged)
  have r: "logged_record ls_record = ls_record"
  proof -
    have "\<not> contains (ual_cmdPrefix ls_record) vt_reset"
      by (simp add: contains_sublist ls_record_def vt_reset_def sublist_Cons_right)
    then show ?thesis by (simp add: logged_record_def)
  qed
  have m: "audit_dbtype empty_logs = ''MYSQL''" by (simp add: audit_dbtype_def empty_logs_def initial_db_def)
  have l: "activity_line ''MYSQL'' ?a = useractivitylog_sql ''MYSQL'' ''12000512'' ''2016-07-14 12:00:05'' ls_record"
    by (simp add: activity_line_def stamp_noon log_id_noon r)
  have "fmt_d 0 = ''0''" "fmt_d 100 = ''100''" by code_simp+
  then have c: "CHR 0x0D \<notin> set (activity_line ''MYSQL'' ?a)"
    unfolding l by (simp add: useractivitylog_sql_def ls_record_def qs_def)
  have o: "x_can_open quiet (db_file noon)" "files empty_logs (db_file noon) = []"
    by (simp_all add: quiet_def empty_logs_def)
  from activities_logged[OF s, of "db_file noon"] c o s show ?thesis
    unfolding m by (intro exI[of _ st']) (simp add: activity_file_def l)
qed

subsection \<open>Record numbers\<close>

lemma length_fmt_0d: "0 \<le> i \<Longrightarrow> i < 10 ^ w \<Longrightarrow> 0 < w \<Longrightarrow> length (fmt_0d w i) = w"
  using length_show_nat[of "nat i" w] by (auto simp: fmt_0d_def pad0_def nat_less_iff)

lemma length_fmt_d: "0 \<le> i \<Longrightarrow> i < 10 ^ w \<Longrightarrow> 0 < w \<Longrightarrow> length (fmt_d i) \<le> w"
  using length_show_nat[of "nat i" w] by (auto simp: fmt_d_def nat_less_iff)

definition clock_ok :: "clock \<Rightarrow> bool" where
  "clock_ok c \<longleftrightarrow> 0 \<le> c_year c \<and> c_year c < 10000 \<and> 1 \<le> c_month c \<and> c_month c \<le> 12 \<and> 1 \<le> c_day c \<and> c_day c \<le> 31
     \<and> 0 \<le> c_hour c \<and> c_hour c \<le> 23 \<and> 0 \<le> c_min c \<and> c_min c \<le> 59 \<and> 0 \<le> c_sec c \<and> c_sec c \<le> 60"

lemma length_stamp: "clock_ok c \<Longrightarrow> length (stamp c) = 19"
  by (simp add: clock_ok_def stamp_def length_fmt_0d)

text \<open>The number of a log record fits the 32 bytes of the global \<open>loginlog_id\<close> at every time and for all
  random numbers \<open>rand\<close> can return. It is not unique: the digits of the two random numbers run
  together.\<close>

theorem log_id_fits:
  assumes "clock_ok c" and "0 \<le> r1 \<and> r1 < 2 ^ 31" and "0 \<le> r2 \<and> r2 < 2 ^ 31"
  shows "8 \<le> length (log_id c r1 r2) \<and> length (log_id c r1 r2) < 32 \<and> log_id c 1 12 = log_id c 11 2"
proof -
  have "length (fmt_0d 2 (c_hour c)) = 2" "length (fmt_0d 2 (c_min c)) = 2" "length (fmt_0d 2 (c_sec c)) = 2"
    using assms(1) by (simp_all add: clock_ok_def length_fmt_0d)
  moreover have "length (fmt_d r1) \<le> 10" "length (fmt_d r2) \<le> 10"
    using assms(2,3) by (simp_all add: length_fmt_d)
  moreover have "fmt_d i \<noteq> []" for i by (simp add: fmt_d_def)
  then have "1 \<le> length (fmt_d i)" for i by (simp add: Suc_le_eq)
  from this[of r1] this[of r2] have "1 \<le> length (fmt_d r1)" "1 \<le> length (fmt_d r2)" .
  moreover have "fmt_d 1 @ fmt_d 12 = fmt_d 11 @ fmt_d 2" by code_simp
  ultimately show ?thesis by (simp add: log_id_def)
qed

theorem log_id_fits_witness:
  "length (log_id noon 2147483647 0) < 32"
  using log_id_fits[of noon 2147483647 0] by (simp add: noon_def clock_ok_def)

subsection \<open>Records that are lost\<close>

text \<open>The login record is sent exactly when the audit database can be used; otherwise it is lost, and the
  code is 0 all the same. Only a statement the server refuses gives 1.\<close>

theorem SetLoginlog_result:
  assumes "SetLoginlog None x c r1 r2 l st = Some (rc, i, st')" and "sql = loginlog_sql (log_id c r1 r2) (stamp c) l"
  shows "i = log_id c r1 r2 \<and>
    (rc = 0 \<and> audit_sent st' = audit_sent st \<and> (\<exists>e. connect_audit x st = Some (e, st') \<and> (e \<noteq> 0 \<or> \<not> mysql_sock (audit_conn st')))
     \<or> audit_sent st' = audit_sent st @ [sql] \<and> mysql_sock (audit_conn st')
       \<and> rc = (if x_audit_srv x (audit_sent st) sql = Query_error then 1 else 0))"
proof -
  obtain e st1 where c1: "connect_audit x st = Some (e, st1)" and len: "length sql < 1024"
    and m: "main_dbtype st = ''MYSQL''"
    using assms(1) unfolding assms(2)
    by (auto simp: SetLoginlog_def Let_def via_mysql_def split: if_split_asm Option.bind_split_asm)
  have s: "audit_sent st1 = audit_sent st"
    using c1 by (auto simp: connect_audit_def)
  have eq: "SetLoginlog None x c r1 r2 l st =
      Some (if e \<noteq> 0 \<or> \<not> mysql_sock (audit_conn st1) then (0, log_id c r1 r2, st1)
        else (if x_audit_srv x (audit_sent st) sql = Query_error then 1 else 0, log_id c r1 r2, st1\<lparr>audit_sent := audit_sent st @ [sql]\<rparr>))"
    using len unfolding assms(2) by (simp add: SetLoginlog_def Let_def m audit_query_def c1 s)
  show ?thesis
  proof (cases "e \<noteq> 0 \<or> \<not> mysql_sock (audit_conn st1)")
    case True
    with assms(1) eq have "rc = 0 \<and> i = log_id c r1 r2 \<and> st' = st1" by simp
    with True c1 s show ?thesis by auto
  next
    case False
    with assms(1) eq have r: "rc = (if x_audit_srv x (audit_sent st) sql = Query_error then 1 else 0)" "i = log_id c r1 r2"
      "st' = st1\<lparr>audit_sent := audit_sent st @ [sql]\<rparr>" by simp_all
    with False show ?thesis by simp
  qed
qed

theorem SetLoginlog_result_witness:
  "\<exists>i st'. SetLoginlog None quiet noon 1 2 \<lparr>ll_uid = ''joe'', ll_userName = ''Joe'', ll_accountNo = ''root'', ll_clientAddr = ''10.0.0.9'',
     ll_resAddr = ''10.0.0.7'', ll_resId = ''7'', ll_resName = ''db'', ll_resType = [], ll_apId = ''5'', ll_accessType = 0, ll_proxyAddr = [],
     ll_port = 0, ll_videoFlag = 0, ll_cmdFlag = 0, ll_logRecord = [], ll_status = 0, ll_nodeFlag = 0, ll_authaccessresid = [],
     ll_proxyHost = [], ll_cooperator = [], ll_accessMemo = []\<rparr> empty_logs = Some (0, i, st') \<and> i = ''12000512'' \<and> audit_sent st' = []"
proof -
  let ?l = "\<lparr>ll_uid = ''joe'', ll_userName = ''Joe'', ll_accountNo = ''root'', ll_clientAddr = ''10.0.0.9'',
     ll_resAddr = ''10.0.0.7'', ll_resId = ''7'', ll_resName = ''db'', ll_resType = [], ll_apId = ''5'', ll_accessType = 0, ll_proxyAddr = [],
     ll_port = 0, ll_videoFlag = 0, ll_cmdFlag = 0, ll_logRecord = [], ll_status = 0, ll_nodeFlag = 0, ll_authaccessresid = [],
     ll_proxyHost = [], ll_cooperator = [], ll_accessMemo = []\<rparr>"
  have "fmt_d 0 = ''0''" by code_simp
  then have "length (loginlog_sql ''12000512'' ''2016-07-14 12:00:05'' ?l) < 1024"
    by (simp add: loginlog_sql_def qs_def)
  then have "\<exists>i st'. SetLoginlog None quiet noon 1 2 ?l empty_logs = Some (0, i, st') \<and> \<not> mysql_sock (audit_conn st')"
    by (simp add: SetLoginlog_def main_dbtype_def connect_audit_def Audit_ConnectMysql_def Audit_GetMysqlConfig_def empty_logs_def
        initial_db_def quiet_def stamp_noon log_id_noon Let_def)
  then obtain i st' where s: "SetLoginlog None quiet noon 1 2 ?l empty_logs = Some (0, i, st')" "\<not> mysql_sock (audit_conn st')" by blast
  have "audit_sent empty_logs = []" by (simp add: empty_logs_def)
  with SetLoginlog_result[OF s(1) refl] s show ?thesis by (auto simp: log_id_noon)
qed

text \<open>A text for the output log goes into its statement as it is, quotes included: without line ends and
  escapes it is written to the file of the day unchanged, and can end the statement and start another.\<close>

theorem outlog_injection:
  assumes "list_all (\<lambda>ch. ch \<notin> {NUL, ESC, CHR 0x0D, CHR 0x0A}) t" and "uol_desc u = t @ NUL # r"
    and "length t < 4096" and "x_can_open x (db_file c)"
    and "sql = outlog_sql (audit_dbtype st) (fmt_d (tv_sec c) @ fmt_d (tv_usec c)) (uol_ualId u) t (stamp c)" and "length sql < encode_size"
  shows "SetUseractivityoutlog x c u 1 st =
    Some (0, st\<lparr>files := (files st)(db_file c := files st (db_file c) @ sql @ [CHR 0x0D, CHR 0x0A])\<rparr>)"
proof -
  have c: "ClearData src (t @ NUL # r) = poke_opt src 0 t" for src
    using ClearData_items[of "map Text t" src r] assms(1) by (simp add: list_all_length comp_def)
  have n: "NUL \<notin> set t" using assms(1) by (auto simp: list_all_iff)
  have z: "zstr (t @ NUL # r) = t" using n by (rule zstr_prefix)
  have "\<exists>e. EncodeData (replicate encode_size NUL) t = Some e"
  proof (cases "t = []")
    case True
    then show ?thesis by (simp add: EncodeData_def)
  next
    case False
    then show ?thesis using encode_loop_result[of t 0 "replicate encode_size NUL"] assms(3)
      by (auto simp: EncodeData_def encode_size_def)
  qed
  then obtain e where e: "EncodeData (replicate encode_size NUL) t = Some e" ..
  have "\<exists>k. poke_opt (replicate encode_size NUL) 0 t = Some (t @ NUL # replicate k NUL)"
    using assms(3) by (intro exI[of _ "encode_size - length t - 1"]) (simp add: poke_opt_def poke_def encode_size_def flip: replicate_Suc)
  then obtain k where k: "poke_opt (replicate encode_size NUL) 0 t = Some (t @ NUL # replicate k NUL)" ..
  show ?thesis
    using assms(4,6)
    by (simp add: SetUseractivityoutlog_def SaveDB2File_def append_line_def Let_def assms(2) c z zstr_prefix[OF n] e k assms(5)[symmetric]
        del: poke_opt_Some)
qed

definition drop_log :: cstring where
  "drop_log = ''x'' @ [CHR 0x27] @ ''); DELETE FROM pr_loginlog; -- ''"

theorem outlog_injection_witness:
  "\<exists>st'. SetUseractivityoutlog quiet noon \<lparr>uol_ualId = ''7'', uol_desc = drop_log @ replicate 100 NUL, uol_seesionId = ''s''\<rparr> 1 empty_logs = Some (0, st')
     \<and> files st' (db_file noon) = ''INSERT INTO pr_useractivityoutlog VALUES ('' @ qs (fmt_d 1468497605 @ fmt_d 42) @ '', '' @ qs ''7'' @ '', ''
       @ [CHR 0x27] @ drop_log @ [CHR 0x27] @ '', '' @ qs ''2016-07-14 12:00:05'' @ '');'' @ [CHR 0x0D, CHR 0x0A]"
proof -
  let ?u = "\<lparr>uol_ualId = ''7'', uol_desc = drop_log @ replicate 100 NUL, uol_seesionId = ''s''\<rparr>"
  let ?q = "outlog_sql (audit_dbtype empty_logs) (fmt_d (tv_sec noon) @ fmt_d (tv_usec noon)) (uol_ualId ?u) drop_log (stamp noon)"
  have tv: "tv_sec noon = 1468497605" "tv_usec noon = 42" by (simp_all add: noon_def)
  have d: "audit_dbtype empty_logs = ''MYSQL''" by (simp add: audit_dbtype_def empty_logs_def initial_db_def)
  have "length (fmt_d 1468497605) \<le> 10" "length (fmt_d 42) \<le> 10" by (rule length_fmt_d; simp)+
  then have l: "length ?q < encode_size"
    by (simp add: outlog_sql_def d tv stamp_noon drop_log_def qs_def encode_size_def)
  have "SetUseractivityoutlog quiet noon ?u 1 empty_logs
    = Some (0, empty_logs\<lparr>files := (files empty_logs)(db_file noon := files empty_logs (db_file noon) @ ?q @ [CHR 0x0D, CHR 0x0A])\<rparr>)"
  proof (rule outlog_injection[OF _ _ _ _ refl l])
    show "list_all (\<lambda>ch. ch \<notin> {NUL, ESC, CHR 0x0D, CHR 0x0A}) drop_log" by (simp add: drop_log_def)
    show "uol_desc ?u = drop_log @ NUL # replicate 99 NUL" by (simp flip: replicate_Suc)
  qed (simp_all add: drop_log_def quiet_def)
  moreover have "?q = ''INSERT INTO pr_useractivityoutlog VALUES ('' @ qs (fmt_d 1468497605 @ fmt_d 42) @ '', '' @ qs ''7'' @ '', ''
       @ [CHR 0x27] @ drop_log @ [CHR 0x27] @ '', '' @ qs ''2016-07-14 12:00:05'' @ '');''"
    by (simp add: outlog_sql_def d tv stamp_noon qs_def)
  moreover have "files empty_logs f = []" for f by (simp add: empty_logs_def)
  ultimately show ?thesis by (intro exI conjI) (assumption, simp)
qed

subsection \<open>A logout\<close>

text \<open>A logout that finds its login sends its update and two queries in order, writes one message and
  closes both connections. One whose login has no row frees a result it never got. One whose first
  query fails leaves the connections open, and is reported as done.\<close>

theorem ReflashLoginlog_logout:
  assumes "main_dbtype st = ''MYSQL''" and "type \<noteq> 1"
    and "isconnected (audit_conn st) = 1" and "mysql_sock (audit_conn st)"
    and "isconnected (main_conn st) = 1" and "mysql_sock (main_conn st)"
    and "upd = reflash_sql type (stamp c) l" and "length upd < 1024" and "length (login_row_sql l) < 1024"
    and "x_audit_srv x (audit_sent st) upd \<noteq> Query_error"
    and "reply = x_audit_srv x (audit_sent st @ [upd]) (login_row_sql l)"
  shows "(reply = Query_error \<longrightarrow> ReflashLoginlog odbc x c l type st = Some (0, st\<lparr>audit_sent := audit_sent st @ [upd, login_row_sql l]\<rparr>))
    \<and> (reply = Rows [] \<longrightarrow> ReflashLoginlog odbc x c l type st = None)
    \<and> (\<forall>row rows rowX rowsX. reply = Rows (row # rows) \<longrightarrow> 8 \<le> length row \<longrightarrow> length (access_name_sql row) < 256 \<longrightarrow>
        x_srv x (main_sent st) (access_name_sql row) = Rows (rowX # rowsX) \<longrightarrow> rowX \<noteq> [] \<longrightarrow>
        length (login_message row rowX (stamp c)) < 2048 \<longrightarrow>
        ReflashLoginlog odbc x c l type st = Some (0, st\<lparr>audit_sent := audit_sent st @ [upd, login_row_sql l],
          main_sent := main_sent st @ [access_name_sql row], syslogs := syslogs st @ [login_message row rowX (stamp c)],
          main_conn := CloseDB (main_conn st), audit_conn := Audit_CloseDB (audit_conn st)\<rparr>))"
proof -
  have a: "connect_audit x st = Some (0, st)" using assms(3) by (simp add: connect_audit_def Audit_ConnectMysql_def)
  have m: "connect_main x s = Some (0, s)" if "main_conn s = main_conn st" for s
    using assms(5) that by (simp add: connect_main_def ConnectMysql_def)
  have u: "ReflashLoginlog odbc x c l type st = logout_syslog x (stamp c) l (st\<lparr>audit_sent := audit_sent st @ [upd]\<rparr>)"
    using assms(1,2,4,8,10) unfolding assms(7)
    by (auto simp: ReflashLoginlog_def Let_def a audit_query_def split: db_reply.split)
  show ?thesis
    unfolding u using assms(6,9,11)
    by (auto simp: logout_syslog_def audit_query_def logout_message_def m main_query_def)
qed

definition login_cells :: row where
  "login_cells = [Some ''joe'', Some ''Joe'', Some ''root'', Some ''db'', Some ''10.0.0.7'', Some ''10.0.0.9'', Some ''5'', Some ''2016-07-14 11:00:00'']"

definition logged_in :: outside where
  "logged_in = quiet\<lparr>x_audit_srv := \<lambda>h sql. if sql = login_row_sql ''9'' then Rows [login_cells] else Rows [],
     x_srv := \<lambda>h sql. Rows [[Some ''ssh'']]\<rparr>"

definition connected :: "db_state \<Rightarrow> db_state" where
  "connected db = db\<lparr>isconnected := 1, mysql_sock := True\<rparr>"

theorem ReflashLoginlog_logout_witness:
  "\<exists>st'. ReflashLoginlog None logged_in noon ''9'' 2
      (empty_logs\<lparr>main_conn := connected (main_conn empty_logs), audit_conn := connected (audit_conn empty_logs)\<rparr>) = Some (0, st')
    \<and> main_sent st' = [''select pr_name from pr_accessprotocol where pr_id =5''] \<and> \<not> mysql_sock (audit_conn st')"
proof -
  let ?st = "empty_logs\<lparr>main_conn := connected (main_conn empty_logs), audit_conn := connected (audit_conn empty_logs)\<rparr>"
  have st: "main_dbtype ?st = ''MYSQL''" "isconnected (audit_conn ?st) = 1" "mysql_sock (audit_conn ?st)"
    "isconnected (main_conn ?st) = 1" "mysql_sock (main_conn ?st)" "main_sent ?st = []" "audit_sent ?st = []" "syslogs ?st = []"
    and closed: "\<not> mysql_sock (Audit_CloseDB (audit_conn ?st))"
    by (simp_all add: main_dbtype_def connected_def empty_logs_def initial_db_def Audit_CloseDB_def)
  have q: "access_name_sql login_cells = ''select pr_name from pr_accessprotocol where pr_id =5''"
    by (simp add: access_name_sql_def login_cells_def fmt_s_def)
  have len: "length (reflash_sql 2 (stamp noon) ''9'') < 1024" "length (login_row_sql ''9'') < 1024"
    "length (login_message login_cells [Some ''ssh''] (stamp noon)) < 2048"
    by (simp_all add: reflash_sql_def login_row_sql_def login_message_def login_cells_def fmt_s_def stamp_noon qs_def)
  have r: "x_audit_srv logged_in (audit_sent ?st @ [reflash_sql 2 (stamp noon) ''9'']) (login_row_sql ''9'') = Rows (login_cells # [])"
    "x_srv logged_in (main_sent ?st) (access_name_sql login_cells) = Rows ([Some ''ssh''] # [])"
    by (simp_all add: logged_in_def)
  have "x_audit_srv logged_in (audit_sent ?st) (reflash_sql 2 (stamp noon) ''9'') \<noteq> Query_error"
    by (simp add: logged_in_def)
  note all = ReflashLoginlog_logout[OF st(1) _ st(2-5) refl len(1,2) this refl, of None, THEN conjunct2, THEN conjunct2, rule_format]
  have n: "8 \<le> length login_cells" by (simp add: login_cells_def)
  have "ReflashLoginlog None logged_in noon ''9'' 2 ?st = Some (0, ?st\<lparr>audit_sent := audit_sent ?st @ [reflash_sql 2 (stamp noon) ''9'', login_row_sql ''9''],
      main_sent := main_sent ?st @ [access_name_sql login_cells], syslogs := syslogs ?st @ [login_message login_cells [Some ''ssh''] (stamp noon)],
      main_conn := CloseDB (main_conn ?st), audit_conn := Audit_CloseDB (audit_conn ?st)\<rparr>)"
    by (rule all[OF _ r(1) n _ r(2) _ len(3)]) (simp_all add: q)
  then show ?thesis using closed by (simp add: q st(6))
qed

end
