(* ===== verification/DbRecord.thy ===== *)
theory DbRecord
  imports AuditLog StrReplace
begin

text \<open>
  The interface of the library, \<^verbatim>\<open>DBRecord/dbrecord.c\<close>: opening a session (\<open>InitMutex\<close>, \<open>GetConfig\<close>,
  \<open>GetAccessProtocol\<close>, lines 27 to 32, 103 to 210 and 373 to 390). The records of commands are in
  Commands.

  \<open>gstate\<close> has the globals. \<open>held\<close> says that the mutex is locked; \<open>pthread_mutex_lock\<close> on a locked mutex
  waits for ever, which is the result \<open>None\<close> as a fault is. \<open>session_env\<close> collects what comes from
  outside.
\<close>

subsection \<open>State\<close>

record gstate =
  isMutex :: int
  held :: bool
  isLoginlog :: int
  g_loginlog_id :: cstring
  g_aes_key :: cstring
  g_proxyIP :: cstring
  g_logs :: logs

record session_env =
  s_env :: env
  s_out :: outside
  s_crypto :: crypto
  s_clock :: clock
  s_rand1 :: int
  s_rand2 :: int
  s_ioctl :: "cstring \<Rightarrow> cstring option"
  s_odbc_key :: "hist \<Rightarrow> (int \<times> cstring \<times> hist) option"
  s_odbc_login :: "loginlog \<Rightarrow> (int \<times> cstring) option"
  s_odbc_protocol :: "int \<Rightarrow> hist \<Rightarrow> (int \<times> struct option \<times> hist) option"

subsection \<open>The mutex\<close>

definition InitMutex :: "gstate \<Rightarrow> gstate" where
  "InitMutex g = (if isMutex g = 0 then g\<lparr>isMutex := 1, held := False\<rparr> else g)"

definition lock :: "gstate \<Rightarrow> gstate option" where
  "lock g = (if held g then None else Some (g\<lparr>held := True\<rparr>))"

definition unlock :: "gstate \<Rightarrow> gstate" where
  "unlock g = g\<lparr>held := False\<rparr>"

definition close_main :: "gstate \<Rightarrow> gstate" where
  "close_main g = g\<lparr>g_logs := (g_logs g)\<lparr>main_conn := CloseDB (main_conn (g_logs g))\<rparr>\<rparr>"

definition set_sent :: "hist \<Rightarrow> gstate \<Rightarrow> gstate" where
  "set_sent h g = g\<lparr>g_logs := (g_logs g)\<lparr>main_sent := h\<rparr>\<rparr>"

text \<open>\<open>InitMutex\<close>, the lock and \<open>ConnectMysql\<close>: the code of the last and the state.\<close>

definition enter :: "session_env \<Rightarrow> gstate \<Rightarrow> (int \<times> gstate) option" where
  "enter se g =
     do { g \<leftarrow> lock (InitMutex g);
          (rc, lg) \<leftarrow> connect_main (s_out se) (g_logs g);
          Some (rc, g\<lparr>g_logs := lg\<rparr>) }"

subsection \<open>\<open>GetConfig\<close>\<close>

text \<open>The six arrays for the parameters have 37 bytes each; further ones are counted only.\<close>

definition params_fit :: "cstring list \<Rightarrow> bool" where
  "params_fit ts \<longleftrightarrow> list_all (\<lambda>t. length t < 37) (take 6 ts)"

text \<open>What the queries see once the connection stands and the key is read.\<close>

definition live_env :: "session_env \<Rightarrow> gstate \<Rightarrow> env" where
  "live_env se g = (s_env se)
     \<lparr>e_dbtype := main_dbtype (g_logs g), e_srv := x_srv (s_out se), e_dec := DecryptData (s_crypto se) (g_aes_key g),
      e_date := stamp (s_clock se), e_tod := (c_hour (s_clock se), c_min (s_clock se), c_sec (s_clock se)),
      e_proxyIP := g_proxyIP g\<rparr>"

text \<open>The number of the first login record of the process is kept for all later ones.\<close>

definition log_login :: "session_env \<Rightarrow> proxyinfo \<Rightarrow> gstate \<Rightarrow> (proxyinfo \<times> gstate) option" where
  "log_login se px g =
     (if isLoginlog g = 0 then do {
        (px, lg) \<leftarrow> CreateLoginlog (s_odbc_login se) (s_out se) (s_clock se) (s_rand1 se) (s_rand2 se) px (g_logs g);
        (if length (loginlog_id px) < 32
         then Some (px, g\<lparr>g_logs := lg, g_loginlog_id := loginlog_id px, isLoginlog := 1\<rparr>) else None)
      } else Some (px\<lparr>loginlog_id := g_loginlog_id g\<rparr>, g))"

definition read_levels :: "session_env \<Rightarrow> proxyinfo \<Rightarrow> gstate \<Rightarrow> (proxyinfo \<times> gstate) option" where
  "read_levels se px g =
     do {
       let e = live_env se g;
       (rc, lv, n, h) \<leftarrow>
         GetLeveCmd (e_dbtype e) (o_level e (str_of (auth px) ''pr_resId'') (main_sent (g_logs g))) (e_srv e)
           (str_of (auth px) ''pr_resId'') (levelcmd px) (level_count px) (main_sent (g_logs g));
       Some (px\<lparr>levelcmd := lv, level_count := n\<rparr>, set_sent h g)
     }"

text \<open>
  The two kinds of names: five parameters, the start of \<open>GetConfigForUser\<close> (\<open>GetIp\<close>) included, or one.
\<close>

definition login_by_user :: "session_env \<Rightarrow> cstring list \<Rightarrow> int \<Rightarrow> proxyinfo \<Rightarrow> gstate \<Rightarrow> (int \<times> proxyinfo \<times> gstate) option" where
  "login_by_user se ts protocol px g =
     do {
       let px = px\<lparr>inputName := ts ! 0, inputPwd := ts ! 1, serverIP := ts ! 2, serverPort := atoi (ts ! 3),
                   serverName := ts ! 4, px_type := 2, auth := zeroed\<rparr>;
       ip \<leftarrow> GetIp (s_ioctl se) (x_mysql_cfg (s_out se)) (g_proxyIP g);
       let g = g\<lparr>g_proxyIP := ip\<rparr>;
       (rtn, px, h) \<leftarrow> GetConfigForUser (live_env se g) protocol px (main_sent (g_logs g));
       Some (rtn, px, set_sent h g)
     }"

definition login_by_id :: "session_env \<Rightarrow> cstring list \<Rightarrow> int \<Rightarrow> proxyinfo \<Rightarrow> gstate \<Rightarrow> (int \<times> proxyinfo \<times> gstate) option" where
  "login_by_id se ts protocol px g =
     do {
       let px = px\<lparr>px_id := ts ! 0\<rparr>;
       (rtn, px, h) \<leftarrow> GetConfigForID (live_env se g) protocol px (main_sent (g_logs g));
       Some (rtn, px, set_sent h g)
     }"

definition read_key :: "session_env \<Rightarrow> gstate \<Rightarrow> gstate option" where
  "read_key se g =
     do { (rc, key, h) \<leftarrow> GetAESKey (main_dbtype (g_logs g)) (s_odbc_key se (main_sent (g_logs g))) (x_srv (s_out se)) (s_crypto se)
            (g_aes_key g) (main_sent (g_logs g));
          Some (set_sent h (g\<lparr>g_aes_key := key\<rparr>)) }"

definition login :: "session_env \<Rightarrow> cstring list \<Rightarrow> int \<Rightarrow> proxyinfo \<Rightarrow> gstate \<Rightarrow> (int \<times> proxyinfo \<times> gstate) option" where
  "login se ts protocol px g =
     (if length ts = 5 then login_by_user se ts protocol px g
      else if length ts = 1 then login_by_id se ts protocol px g
      else Some (0, px, g))"

text \<open>The body of \<open>GetConfig\<close> between the connection and its end.\<close>

definition session_body :: "session_env \<Rightarrow> cstring list \<Rightarrow> int \<Rightarrow> proxyinfo \<Rightarrow> gstate \<Rightarrow> (int \<times> proxyinfo \<times> gstate) option" where
  "session_body se ts protocol px g =
     do {
       g \<leftarrow> read_key se g;
       (rtn, px, g) \<leftarrow> login se ts protocol px g;
       (if rtn = 0 then Some (rtn, px, g)
        else do {
          (px, g) \<leftarrow> read_levels se px g;
          (px, g) \<leftarrow> log_login se px g;
          Some (rtn, px, g)
        })
     }"

definition GetConfig :: "session_env \<Rightarrow> cstring option \<Rightarrow> proxyinfo \<Rightarrow> int \<Rightarrow> gstate \<Rightarrow> (int \<times> proxyinfo \<times> gstate) option" where
  "GetConfig se user px protocol g =
     (case user of
        None \<Rightarrow> Some (0, px, g)
      | Some name \<Rightarrow>
          if \<not> params_fit (tokens ''#'' name) then None
          else do {
            (rc, g) \<leftarrow> enter se g;
            (if rc \<noteq> 0 then Some (0, px, unlock g)
             else do {
               (rtn, px, g) \<leftarrow> session_body se (tokens ''#'' name) protocol px g;
               Some (rtn, px, unlock (close_main g))
             })
          })"

definition GetAccessProtocol :: "session_env \<Rightarrow> int \<Rightarrow> struct option \<Rightarrow> gstate \<Rightarrow> (int \<times> struct option \<times> gstate) option" where
  "GetAccessProtocol se pr_code p g =
     do {
       (rc, g) \<leftarrow> enter se g;
       (if rc \<noteq> 0 then Some (1, p, unlock g) else do {
          (rtn, p, h) \<leftarrow> GetPrAccessProtocol (main_dbtype (g_logs g)) (s_odbc_protocol se pr_code (main_sent (g_logs g)))
             (x_srv (s_out se)) pr_code p (main_sent (g_logs g));
          Some (rtn, p, unlock (close_main (set_sent h g)))
        })
     }"

text \<open>\<open>UserLogout\<close> does nothing any more.\<close>

definition UserLogout :: "proxyinfo \<Rightarrow> int" where
  "UserLogout px = 0"

subsection \<open>The mutex and the connection between calls\<close>

text \<open>Between calls the mutex is free and the main connection closed.\<close>

definition idle :: "gstate \<Rightarrow> bool" where
  "idle g \<longleftrightarrow> \<not> held g \<and> conn_ok (main_conn (g_logs g)) \<and> \<not> mysql_sock (main_conn (g_logs g))"

text \<open>Inside a call that has the connection.\<close>

definition busy :: "gstate \<Rightarrow> bool" where
  "busy g \<longleftrightarrow> held g \<and> conn_ok (main_conn (g_logs g))"

lemma ConnectMysql_fails: "conn_ok st \<Longrightarrow> ConnectMysql rc odbc dec f st = Some (r, st') \<Longrightarrow> r \<noteq> 0 \<Longrightarrow> \<not> mysql_sock st'"
  by (auto simp: ConnectMysql_def ConnectDB_def conn_ok_def Let_def split: if_split_asm Option.bind_split_asm prod.split_asm)

lemma enter_busy: "idle g \<Longrightarrow> enter se g = Some (rc, g') \<Longrightarrow> busy g' \<and> (rc \<noteq> 0 \<longrightarrow> \<not> mysql_sock (main_conn (g_logs g')))"
  using ConnectMysql_ok ConnectMysql_fails
  by (fastforce simp: enter_def lock_def InitMutex_def idle_def busy_def connect_main_def split: if_split_asm Option.bind_split_asm)

lemma busy_frame [frame_simps]:
  "busy (set_sent h g) = busy g" "busy (g\<lparr>g_aes_key := k\<rparr>) = busy g" "busy (g\<lparr>g_proxyIP := i\<rparr>) = busy g"
  by (simp_all add: busy_def set_sent_def)

lemma unlock_idle:
  "busy g \<Longrightarrow> \<not> mysql_sock (main_conn (g_logs g)) \<Longrightarrow> idle (unlock g)"
  "busy g \<Longrightarrow> idle (unlock (close_main g))"
  by (auto simp: busy_def idle_def unlock_def close_main_def CloseDB_def conn_ok_def)

lemma read_key_busy: "busy g \<Longrightarrow> read_key se g = Some g' \<Longrightarrow> busy g'"
  by (auto simp: read_key_def frame_simps split: Option.bind_split_asm)

lemma login_busy:
  "busy g \<Longrightarrow> login_by_user se ts p px g = Some (r, px', g') \<Longrightarrow> busy g'"
  "busy g \<Longrightarrow> login_by_id se ts p px g = Some (r, px', g') \<Longrightarrow> busy g'"
  by (auto simp: login_by_user_def login_by_id_def Let_def frame_simps split: Option.bind_split_asm)

lemma CreateLoginlog_main: "CreateLoginlog odbc x c r1 r2 px st = Some (px', st') \<Longrightarrow> main_conn st' = main_conn st"
  by (auto simp: CreateLoginlog_def SetLoginlog_def via_mysql_def audit_query_def connect_audit_def Let_def
      split: Option.bind_split_asm if_split_asm prod.split_asm)

lemma log_login_busy:
  assumes "busy g" and "log_login se px g = Some (px', g')"
  shows "busy g'"
proof (cases "isLoginlog g = 0")
  case False
  with assms show ?thesis by (simp add: log_login_def)
next
  case True
  with assms(2) obtain px1 lg where
    c: "CreateLoginlog (s_odbc_login se) (s_out se) (s_clock se) (s_rand1 se) (s_rand2 se) px (g_logs g) = Some (px1, lg)"
    and g': "g' = g\<lparr>g_logs := lg, g_loginlog_id := loginlog_id px1, isLoginlog := 1\<rparr>"
    by (auto simp: log_login_def Option.bind_eq_Some_conv split: if_split_asm)
  from CreateLoginlog_main[OF c] assms(1) show ?thesis by (simp add: g' busy_def)
qed

lemma read_levels_busy: "busy g \<Longrightarrow> read_levels se px g = Some (px', g') \<Longrightarrow> busy g'"
  by (auto simp: read_levels_def Option.bind_eq_Some_conv Let_def frame_simps)

lemma login_any_busy:
  assumes "busy g" and "login se ts p px g = Some (r, px', g')"
  shows "busy g'"
proof -
  consider "login_by_user se ts p px g = Some (r, px', g')" | "login_by_id se ts p px g = Some (r, px', g')" | "g' = g"
    using assms(2) by (auto simp: login_def split: if_split_asm)
  then show ?thesis using assms(1) by cases (auto intro: login_busy)
qed

lemma session_body_busy:
  assumes "busy g" and "session_body se ts p px g = Some (r, px', g')"
  shows "busy g'"
proof -
  obtain g2 where k: "read_key se g = Some g2" using assms(2) by (auto simp: session_body_def Option.bind_eq_Some_conv)
  obtain r3 px3 g3 where l: "login se ts p px g2 = Some (r3, px3, g3)"
    using assms(2) k by (auto simp: session_body_def Option.bind_eq_Some_conv)
  have b3: "busy g3" using login_any_busy[OF read_key_busy[OF assms(1) k] l] .
  have rest: "(if r3 = 0 then Some (r3, px3, g3)
        else do {
          (px, g) \<leftarrow> read_levels se px3 g3;
          (px, g) \<leftarrow> log_login se px g;
          Some (r3, px, g)
        }) = Some (r, px', g')"
    using assms(2) k l by (simp add: session_body_def)
  show ?thesis
  proof (cases "r3 = 0")
    case True
    with rest b3 show ?thesis by simp
  next
    case False
    with rest obtain px4 g4 where "read_levels se px3 g3 = Some (px4, g4)" "log_login se px4 g4 = Some (px', g')"
      by (auto simp: Option.bind_eq_Some_conv)
    with b3 show ?thesis using read_levels_busy log_login_busy by blast
  qed
qed

lemma GetConfig_cases:
  assumes "GetConfig se (Some name) px p g = Some (r, px', g')"
  obtains rc g1 where "enter se g = Some (rc, g1)" and "rc \<noteq> 0" and "r = 0" and "px' = px" and "g' = unlock g1"
  | g1 g2 where "enter se g = Some (0, g1)" and "session_body se (tokens ''#'' name) p px g1 = Some (r, px', g2)"
      and "g' = unlock (close_main g2)"
  using assms by (auto simp: GetConfig_def Option.bind_eq_Some_conv split: if_split_asm)

lemma GetConfig_idle:
  assumes "idle g" and "GetConfig se user px p g = Some (r, px', g')"
  shows "idle g'"
proof (cases user)
  case None
  with assms show ?thesis by (simp add: GetConfig_def)
next
  case (Some name)
  from assms(2) show ?thesis unfolding Some
  proof (cases rule: GetConfig_cases)
    case (1 rc g1)
    with enter_busy[OF assms(1)] show ?thesis by (auto intro: unlock_idle)
  next
    case (2 g1 g2)
    with enter_busy[OF assms(1) 2(1)] session_body_busy show ?thesis by (auto intro: unlock_idle)
  qed
qed

lemma GetAccessProtocol_idle:
  assumes "idle g" and "GetAccessProtocol se code p g = Some (r, p', g')"
  shows "idle g'"
proof -
  obtain rc g1 where e: "enter se g = Some (rc, g1)"
    using assms(2) by (auto simp: GetAccessProtocol_def Option.bind_eq_Some_conv)
  have "rc \<noteq> 0 \<and> g' = unlock g1 \<or> (\<exists>h. g' = unlock (close_main (set_sent h g1)))"
    using assms(2) by (auto simp: GetAccessProtocol_def e Option.bind_eq_Some_conv split: if_split_asm)
  with enter_busy[OF assms(1) e] show ?thesis
    by (auto simp: frame_simps intro: unlock_idle)
qed

text \<open>The contract of a call: it may be entered in an idle state only, and leaves one.\<close>

locale session_call =
  fixes run :: "'a \<Rightarrow> gstate \<Rightarrow> ('r \<times> gstate) option"
  assumes idle_kept: "idle g \<Longrightarrow> run a g = Some (r, g') \<Longrightarrow> idle g'"
begin

lemma lock_free: "idle g \<Longrightarrow> run a g = Some (r, g') \<Longrightarrow> lock g' \<noteq> None"
  by (drule (1) idle_kept) (simp add: idle_def lock_def)

lemma closed: "idle g \<Longrightarrow> run a g = Some (r, g') \<Longrightarrow> isconnected (main_conn (g_logs g')) \<noteq> 1"
  using idle_kept unfolding idle_def conn_ok_def by blast

end

text \<open>A call of the interface.\<close>

datatype session_op = Open session_env "cstring option" proxyinfo int | Protocol session_env int "struct option"

definition session_run :: "session_op \<Rightarrow> gstate \<Rightarrow> (int \<times> gstate) option" where
  "session_run op g =
     (case op of
        Open se user px p \<Rightarrow> map_option (\<lambda>(r, px, g). (r, g)) (GetConfig se user px p g)
      | Protocol se code p \<Rightarrow> map_option (\<lambda>(r, p, g). (r, g)) (GetAccessProtocol se code p g))"

interpretation session: session_call session_run
proof
  show "idle g'" if "idle g" "session_run a g = Some (r, g')" for g a r g'
  proof (cases a)
    case (Open se user px p)
    with that(2) obtain px' where "GetConfig se user px p g = Some (r, px', g')" by (auto simp: session_run_def)
    with that(1) show ?thesis by (rule GetConfig_idle)
  next
    case (Protocol se code p)
    with that(2) obtain p' where "GetAccessProtocol se code p g = Some (r, p', g')" by (auto simp: session_run_def)
    with that(1) show ?thesis by (rule GetAccessProtocol_idle)
  qed
qed

definition initial_g :: "logs \<Rightarrow> gstate" where
  "initial_g lg = \<lparr>isMutex = 0, held = False, isLoginlog = 0, g_loginlog_id = [], g_aes_key = [], g_proxyIP = [], g_logs = lg\<rparr>"

inductive session_reachable :: "gstate \<Rightarrow> bool" where
  session_start: "conn_ok (main_conn lg) \<Longrightarrow> \<not> mysql_sock (main_conn lg) \<Longrightarrow> session_reachable (initial_g lg)"
| session_step: "session_reachable g \<Longrightarrow> session_run op g = Some (r, g') \<Longrightarrow> session_reachable g'"

lemma idle_initial: "conn_ok (main_conn lg) \<Longrightarrow> \<not> mysql_sock (main_conn lg) \<Longrightarrow> idle (initial_g lg)"
  by (simp add: idle_def initial_g_def)

lemma session_reachable_idle: "session_reachable g \<Longrightarrow> idle g"
  by (induction rule: session_reachable.induct) (auto intro: session.idle_kept idle_initial)

text \<open>C3: after any sequence of \<open>GetConfig\<close> and \<open>GetAccessProtocol\<close>, on every path through them, errors and
  refusals included, the mutex is free, so that the next call gets it, and no connection to the
  main database is left.\<close>

theorem session_mutex_free:
  assumes "session_reachable g"
  shows "\<not> held g \<and> lock (InitMutex g) \<noteq> None \<and> \<not> mysql_sock (main_conn (g_logs g)) \<and> isconnected (main_conn (g_logs g)) \<noteq> 1"
  using session_reachable_idle[OF assms] by (auto simp: idle_def conn_ok_def lock_def InitMutex_def)

definition quiet_env :: session_env where
  "quiet_env = \<lparr>s_env = plain_env (\<lambda>h sql. Query_error), s_out = quiet, s_crypto = \<lparr>x_encrypt = \<lambda>v. v, x_decrypt_key = \<lambda>v k m. v\<rparr>,
     s_clock = noon, s_rand1 = 1, s_rand2 = 2, s_ioctl = \<lambda>_. None, s_odbc_key = \<lambda>_. None, s_odbc_login = \<lambda>_. None,
     s_odbc_protocol = \<lambda>_ _. None\<rparr>"

lemma quiet_call:
  "GetConfig quiet_env (Some ''joe#pw#10.0.0.7#22#root'') (plain_px [] []) 100 (initial_g empty_logs)
     = Some (0, plain_px [] [], (initial_g empty_logs)\<lparr>isMutex := 1\<rparr>)"
proof -
  have t: "tokens ''#'' ''joe#pw#10.0.0.7#22#root'' = [''joe'', ''pw'', ''10.0.0.7'', ''22'', ''root'']" by simp
  have "connect_main quiet empty_logs = Some (1, empty_logs)"
    by (simp add: connect_main_def quiet_def ConnectMysql_def GetMysqlConfig_def empty_logs_def initial_db_def clear_config_def)
  then show ?thesis
    by (simp add: GetConfig_def t params_fit_def enter_def lock_def InitMutex_def unlock_def initial_g_def quiet_env_def)
qed

theorem session_mutex_free_witness:
  "\<not> held ((initial_g empty_logs)\<lparr>isMutex := 1\<rparr>)"
proof -
  have "session_reachable (initial_g empty_logs)"
    by (rule session_start) (simp_all add: empty_logs_def initial_db_def conn_ok_def)
  moreover have "session_run (Open quiet_env (Some ''joe#pw#10.0.0.7#22#root'') (plain_px [] []) 100) (initial_g empty_logs)
      = Some (0, (initial_g empty_logs)\<lparr>isMutex := 1\<rparr>)"
    by (simp add: session_run_def quiet_call)
  ultimately have "session_reachable ((initial_g empty_logs)\<lparr>isMutex := 1\<rparr>)" by (rule session_step)
  from session_mutex_free[OF this] show ?thesis by blast
qed

subsection \<open>What an accepted session means\<close>

lemma check_access_frame:
  assumes "check_access e code px h = Some (ok, px', h')"
  shows "inputPwd px' = inputPwd px \<and> (ok = 0 \<or> ok = 1)"
  using assms by (auto simp: check_access_def Let_def split: Option.bind_split_asm prod.split_asm if_split_asm)

lemma user_login_accepts:
  assumes "user_login e code px h = Some (r, px', h')" and "r \<noteq> 0"
  shows "r = 1 \<and> sublist (str_of (employee px') ''pr_pwd'') (inputPwd px) \<and> policy px' = policy px \<and> table_count px' = table_count px"
  using assms by (auto simp: user_login_def Let_def Option.bind_eq_Some_conv contains_sublist simp del: nth_opt_Some split: if_split_asm)

lemma GetConfigForUser_accepts:
  assumes "GetConfigForUser e code px h = Some (r, px', h')" and "r \<noteq> 0"
  shows "r = 1 \<and> sublist (str_of (employee px') ''pr_pwd'') (inputPwd px)
    \<and> (\<exists>px1 h1. check_access e code (px\<lparr>auth := zeroed\<rparr>) h = Some (1, px1, h1) \<and> policy px' = policy px1 \<and> table_count px' = table_count px1)"
proof -
  obtain ok px1 h1 where c: "check_access e code (px\<lparr>auth := zeroed\<rparr>) h = Some (ok, px1, h1)" and "ok \<noteq> 0"
    and l: "user_login e code px1 h1 = Some (r, px', h')"
    using assms by (auto simp: GetConfigForUser_def Let_def Option.bind_eq_Some_conv split: if_split_asm)
  with check_access_frame[OF c] user_login_accepts[OF l assms(2)] show ?thesis by auto
qed

lemma enter_logs: "enter se g = Some (rc, g') \<Longrightarrow> g_loginlog_id g' = g_loginlog_id g \<and> isLoginlog g' = isLoginlog g"
  by (auto simp: enter_def lock_def InitMutex_def Option.bind_eq_Some_conv split: if_split_asm)

lemma read_levels_frame:
  "read_levels se px g = Some (px', g') \<Longrightarrow> employee px' = employee px \<and> policy px' = policy px \<and> table_count px' = table_count px"
  by (auto simp: read_levels_def Let_def Option.bind_eq_Some_conv)

lemma CreateLoginlog_frame:
  "CreateLoginlog odbc x c r1 r2 px st = Some (px', st') \<Longrightarrow>
   employee px' = employee px \<and> policy px' = policy px \<and> table_count px' = table_count px"
  by (auto simp: CreateLoginlog_def Let_def Option.bind_eq_Some_conv)

lemma log_login_frame:
  assumes "log_login se px g = Some (px', g')"
  shows "employee px' = employee px \<and> policy px' = policy px \<and> table_count px' = table_count px \<and> loginlog_id px' = g_loginlog_id g'"
  using assms by (auto simp: log_login_def Option.bind_eq_Some_conv dest: CreateLoginlog_frame split: if_split_asm)

text \<open>C2: a session opened by name, password, address, port and account was let in by the check of the policies that is made on the open
  connection, after the key and the address of the proxy were read, for exactly these parameters and the address of the client; the policies it keeps are
  those of that check. Its password contains the stored one, and the number of its login record is the one the process keeps.\<close>

theorem GetConfig_accepts:
  assumes "GetConfig se (Some name) px protocol g = Some (r, px', g')" and "r \<noteq> 0"
    and "tokens ''#'' name = [user, password, address, portno, account]"
  shows "r = 1 \<and> sublist (str_of (employee px') ''pr_pwd'') password \<and> loginlog_id px' = g_loginlog_id g'
    \<and> (\<exists>g1 g2 ip px1 h1. enter se g = Some (0, g1) \<and> read_key se g1 = Some g2
        \<and> GetIp (s_ioctl se) (x_mysql_cfg (s_out se)) (g_proxyIP g2) = Some ip
        \<and> check_access (live_env se (g2\<lparr>g_proxyIP := ip\<rparr>)) protocol
            (px\<lparr>inputName := user, inputPwd := password, serverIP := address, serverPort := atoi portno, serverName := account,
               px_type := 2, auth := zeroed\<rparr>) (main_sent (g_logs g2)) = Some (1, px1, h1)
        \<and> policy px' = policy px1 \<and> table_count px' = table_count px1)"
proof -
  let ?px = "px\<lparr>inputName := user, inputPwd := password, serverIP := address, serverPort := atoi portno, serverName := account,
    px_type := 2, auth := zeroed\<rparr>"
  from assms(1,2) obtain g1 g4 where e: "enter se g = Some (0, g1)" and b: "session_body se (tokens ''#'' name) protocol px g1 = Some (r, px', g4)"
    and g': "g' = unlock (close_main g4)"
    by (cases rule: GetConfig_cases) auto
  from b assms(2,3) obtain g2 px3 g3 px5 g5 where k: "read_key se g1 = Some g2"
    and l: "login_by_user se [user, password, address, portno, account] protocol px g2 = Some (r, px3, g3)"
    and lv: "read_levels se px3 g3 = Some (px5, g5)" and lg: "log_login se px5 g5 = Some (px', g4)"
    by (auto simp: session_body_def login_def Option.bind_eq_Some_conv split: if_split_asm)
  from l obtain ip h4 where ip: "GetIp (s_ioctl se) (x_mysql_cfg (s_out se)) (g_proxyIP g2) = Some ip"
    and u: "GetConfigForUser (live_env se (g2\<lparr>g_proxyIP := ip\<rparr>)) protocol ?px (main_sent (g_logs g2)) = Some (r, px3, h4)"
    by (auto simp: login_by_user_def Let_def Option.bind_eq_Some_conv)
  from GetConfigForUser_accepts[OF u assms(2)] obtain px1 h1
    where a: "r = 1" "sublist (str_of (employee px3) ''pr_pwd'') password"
      and c: "check_access (live_env se (g2\<lparr>g_proxyIP := ip\<rparr>)) protocol ?px (main_sent (g_logs g2)) = Some (1, px1, h1)"
      and p: "policy px3 = policy px1" "table_count px3 = table_count px1"
    by auto
  show ?thesis
    using read_levels_frame[OF lv] log_login_frame[OF lg] a p e k ip c by (auto simp: g' unlock_def close_main_def)
qed

definition open_env :: session_env where
  "open_env = quiet_env
     \<lparr>s_env := two_roles
        \<lparr>o_employee := \<lambda>_ h. Some (0, Some [''pr_id'' \<mapsto> FStr ''1'', ''pr_pwd'' \<mapsto> FStr ''w''], h),
         o_resource := \<lambda>_ _ h. Some (0, Some [''pr_passwd'' \<mapsto> FStr ''secret''], h),
         o_account := \<lambda>_ h. Some (0, Some [''pr_accountPwd'' \<mapsto> FStr ''secret''], h),
         o_level := \<lambda>_ h. Some (0, [], 0, h)\<rparr>,
      s_out := quiet\<lparr>x_mysql_cfg := Some []\<rparr>,
      s_odbc_key := \<lambda>h. Some (0, ''key'', h), s_odbc_login := \<lambda>_. Some (0, ''42'')\<rparr>"

definition oracle_g :: gstate where
  "oracle_g = initial_g (empty_logs\<lparr>main_conn := initial_db \<lparr>serverip = [], port = 0, username = [], userpwd = [], database = [], dbtype = ''ORACLE''\<rparr>\<rparr>)"

lemma oracle_dbtype: "main_dbtype (g_logs oracle_g) = ''ORACLE''" "main_sent (g_logs oracle_g) = []" "isLoginlog oracle_g = 0"
  by (simp_all add: oracle_g_def main_dbtype_def initial_g_def initial_db_def empty_logs_def)

lemma open_enter: "enter open_env oracle_g = Some (0, oracle_g\<lparr>isMutex := 1, held := True\<rparr>)"
  by (simp add: enter_def oracle_g_def initial_g_def InitMutex_def lock_def open_env_def connect_main_def quiet_def
      ConnectMysql_def GetMysqlConfig_def initial_db_def clear_config_def empty_logs_def file_lines.simps[of "[]"])

lemma open_login:
  assumes "e = live_env open_env g" and "main_dbtype (g_logs g) = ''ORACLE''"
    and "px = (plain_px [zero_join, zero_join] [zero_policy, zero_policy])\<lparr>inputName := u, inputPwd := ''pw'', serverIP := i, serverPort := n, serverName := a, px_type := 2, auth := zeroed\<rparr>"
  shows "\<exists>px'. GetConfigForUser e 100 px h = Some (1, px', h)"
proof -
  let ?px = "px\<lparr>tableId := [role_join ''a'', role_join ''b''], table_count := 2, policy := [rdp_only, one_host]\<rparr>"
  have e: "e_dbtype e = ''ORACLE''" "o_join e = (\<lambda>_ _ _ _ h. Some (0, [role_join ''a'', role_join ''b''], 2, h))"
    "o_policy e = (\<lambda>t f h. Some (0, if pr_role_id t = ''a'' then rdp_only else one_host, 0, h))"
    "o_employee e = (\<lambda>_ h. Some (0, Some [''pr_id'' \<mapsto> FStr ''1'', ''pr_pwd'' \<mapsto> FStr ''w''], h))"
    "o_resource e = (\<lambda>_ _ h. Some (0, Some [''pr_passwd'' \<mapsto> FStr ''secret''], h))"
    "o_account e = (\<lambda>_ h. Some (0, Some [''pr_accountPwd'' \<mapsto> FStr ''secret''], h))"
    using assms(1,2) by (simp_all add: live_env_def open_env_def two_roles_def)
  have l: "policy_loop e ''10.0.0.9'' 100 [role_join ''a'', role_join ''b''] [zero_policy, zero_policy] no_rights h =
     Some ([rdp_only, one_host], \<lparr>nclright = 1, pclright = 1, tclright = 1, findRes = 0, findPolicy = 1\<rparr>, h)"
    by (simp add: e via_mysql_def GetPolicy_def role_join_def rdp_only_def one_host_def zero_policy_def
      match_policy_def MatchNclItem_def MatchPclItem_def MatchTclItem_def no_rights_def Let_def)
  have f: "clear_first zero_join (tableId px) = [zero_join, zero_join]" "clear_first zero_policy (policy px) = [zero_policy, zero_policy]"
    "clientIP px = ''10.0.0.9''" "inputPwd px = ''pw''" "px\<lparr>auth := zeroed\<rparr> = px"
    by (simp_all add: assms(3) plain_px_def clear_first_def)
  have c: "check_access e 100 px h = Some (1, ?px, h)"
    using l by (simp add: check_access_def f GetJOINTable_def via_mysql_def e Let_def rights_deny_def numeral_2_eq_2 del: policy_loop.simps)
  have "contains ''pw'' ''w''" by (simp add: contains_sublist sublist_Cons_right)
  then have "\<exists>px'. user_login e 100 ?px h = Some (1, px', h)"
    by (simp add: user_login_def read_employee_def read_resource_def read_account_def GetEmployee_def GetResource_def
        GetEmployeeaccount_def via_mysql_def e f str_of_def Let_def nth_opt_def)
  with c show ?thesis by (simp add: GetConfigForUser_def f)
qed

theorem GetConfig_accepts_witness:
  "\<exists>px' g'. GetConfig open_env (Some ''joe#pw#10.0.0.7#22#root'') (plain_px [zero_join, zero_join] [zero_policy, zero_policy]) 100 oracle_g = Some (1, px', g')
     \<and> sublist (str_of (employee px') ''pr_pwd'') ''pw'' \<and> loginlog_id px' = g_loginlog_id g'"
proof -
  let ?px = "plain_px [zero_join, zero_join] [zero_policy, zero_policy]"
  have t: "tokens ''#'' ''joe#pw#10.0.0.7#22#root'' = [''joe'', ''pw'', ''10.0.0.7'', ''22'', ''root'']" by simp
  let ?g1 = "oracle_g\<lparr>isMutex := 1, held := True\<rparr>"
  let ?g2 = "set_sent [] (?g1\<lparr>g_aes_key := ''key''\<rparr>)"
  have k: "read_key open_env ?g1 = Some ?g2"
    by (simp add: read_key_def GetAESKey_def via_mysql_def oracle_dbtype open_env_def)
  obtain ip where ip: "GetIp (s_ioctl open_env) (x_mysql_cfg (s_out open_env)) (g_proxyIP ?g2) = Some ip"
    by (simp add: GetIp_def open_env_def GetInterfaceName_def file_lines.simps[of "[]"])
  let ?g3 = "?g2\<lparr>g_proxyIP := ip\<rparr>"
  have d: "main_dbtype (g_logs ?g3) = ''ORACLE''" "main_sent (g_logs ?g3) = []" "isLoginlog ?g3 = 0"
    using oracle_dbtype by (simp_all add: set_sent_def main_dbtype_def)
  obtain px3 where u: "GetConfigForUser (live_env open_env ?g3) 100 (?px\<lparr>inputName := ''joe'', inputPwd := ''pw'', serverIP := ''10.0.0.7'',
      serverPort := atoi ''22'', serverName := ''root'', px_type := 2, auth := zeroed\<rparr>) [] = Some (1, px3, [])"
    using open_login[OF refl d(1) refl] by blast
  have l: "login open_env (tokens ''#'' ''joe#pw#10.0.0.7#22#root'') 100 ?px ?g2 = Some (1, px3, set_sent [] ?g3)"
    using u d(2) by (simp add: login_def login_by_user_def t ip)
  have d': "main_dbtype (g_logs (set_sent [] ?g3)) = ''ORACLE''" "main_sent (g_logs (set_sent [] ?g3)) = []" "isLoginlog (set_sent [] ?g3) = 0"
    using d by (simp_all add: set_sent_def main_dbtype_def)
  obtain px5 where lv: "read_levels open_env px3 (set_sent [] ?g3) = Some (px5, set_sent [] (set_sent [] ?g3))"
    using d' by (simp add: read_levels_def GetLeveCmd_def via_mysql_def live_env_def open_env_def)
  have "main_dbtype (g_logs (set_sent [] (set_sent [] ?g3))) = ''ORACLE''" "isLoginlog (set_sent [] (set_sent [] ?g3)) = 0"
    using d' by (simp_all add: set_sent_def main_dbtype_def)
  then obtain px6 g6 where lg: "log_login open_env px5 (set_sent [] (set_sent [] ?g3)) = Some (px6, g6)"
    by (simp add: log_login_def CreateLoginlog_def SetLoginlog_def via_mysql_def open_env_def Let_def)
  have "session_body open_env (tokens ''#'' ''joe#pw#10.0.0.7#22#root'') 100 ?px ?g1 = Some (1, px6, g6)"
    unfolding session_body_def k bind.bind_lunit l by (simp add: lv lg)
  then have c: "GetConfig open_env (Some ''joe#pw#10.0.0.7#22#root'') ?px 100 oracle_g = Some (1, px6, unlock (close_main g6))"
    using open_enter by (simp add: GetConfig_def params_fit_def t)
  from GetConfig_accepts[OF c one_neq_zero t] c show ?thesis by blast
qed

end
