(* ===== verification/Commands.thy ===== *)
theory Commands
  imports DbRecord
begin

text \<open>
  The records of a command, of its output and of a refused change of user, \<^verbatim>\<open>DBRecord/dbrecord.c\<close>
  (lines 212 to 338), and \<open>findSQL\<close> (392 to 413).

  The layout of \<open>PROXYINFO\<close> and of the log records is in a header outside the repository: the sizes
  the code depends on are the fields of \<open>sizes\<close>.
\<close>

record sizes =
  sz_ptr :: nat
  sz_cmd :: nat
  sz_desc :: nat
  sz_line :: nat

definition BUFSIZE :: nat where "BUFSIZE = 10240"

subsection \<open>The array of pointers that holds the command\<close>

text \<open>
  \<open>cmd\<close> is declared as an array of pointers and used as one of characters: \<open>cmd[i]\<close> is the pointer at
  byte \<open>w * i\<close>, the cast to \<open>unsigned char\<close> is its low byte, the first one, and the assignment of a
  blank writes a pointer: a blank and zero bytes. \<open>strlen\<close> is taken anew for every turn.
\<close>

definition put_blank :: "nat \<Rightarrow> nat \<Rightarrow> cstring \<Rightarrow> cstring" where
  "put_blank w i buf = poke buf (w * i) (take w (CHR 0x20 # replicate w NUL))"

lemma length_zstr_le: "length (zstr buf) \<le> length buf"
  by (simp add: zstr_def length_takeWhile_le)

lemma length_put_blank: "w * i + w \<le> length buf \<Longrightarrow> length (put_blank w i buf) = length buf"
  by (simp add: put_blank_def)

function scrub :: "nat \<Rightarrow> nat \<Rightarrow> cstring \<Rightarrow> cstring option" where
  "scrub w i buf =
     (if \<not> i < length (zstr buf) then Some buf
      else if \<not> w * i + w \<le> length buf then None
      else scrub w (i + 1) (if buf ! (w * i) = CHR 0x3F then put_blank w i buf else buf))"
  by pat_completeness auto
termination
  by (relation "measure (\<lambda>(w, i, buf). length buf - i)")
    (use length_zstr_le less_le_trans in \<open>auto simp: length_put_blank intro!: diff_less_mono2\<close>)

declare scrub.simps [simp del]

lemma char_at_zstr: "k < length (zstr buf) \<Longrightarrow> buf ! k = zstr buf ! k"
  by (simp add: zstr_def takeWhile_nth)

text \<open>The string of an array after a blank was written into it.\<close>

lemma zstr_append: "NUL \<notin> set s \<Longrightarrow> zstr (s @ r) = s @ zstr r"
  by (induction s) (auto simp: zstr_def)

lemma take_zstr_NUL: "NUL \<notin> set (take k (zstr buf))"
  by (auto simp: zstr_def dest!: in_set_takeD set_takeWhileD)

lemma take_zstr: "k \<le> length (zstr buf) \<Longrightarrow> take k (zstr buf) = take k buf"
  by (induction buf arbitrary: k) (auto simp: zstr_def take_Cons split: nat.split)

lemma zstr_take_append: "length (zstr buf) < n \<Longrightarrow> n \<le> length buf \<Longrightarrow> zstr (take n buf @ r) = zstr buf"
  by (induction buf arbitrary: n) (auto simp: zstr_def take_Cons split: nat.split)

lemma zstr_put_blank:
  assumes "2 \<le> w" and "w * i + w \<le> length buf" and "buf ! (w * i) \<noteq> NUL"
  shows "zstr (put_blank w i buf) = (if w * i < length (zstr buf) then take (w * i) (zstr buf) @ '' '' else zstr buf)"
proof -
  obtain v where w: "w = Suc (Suc v)" using le_Suc_ex[OF assms(1)] by auto
  have b: "put_blank w i buf = take (w * i) buf @ CHR 0x20 # NUL # (replicate v NUL @ drop (w * i + w) buf)"
    using assms(2) by (simp add: w put_blank_def poke_def flip: replicate_Suc)
  consider "w * i < length (zstr buf)" | "w * i = length (zstr buf)" | "length (zstr buf) < w * i" by linarith
  then show ?thesis
  proof cases
    case 1
    then have "zstr (put_blank w i buf) = zstr ((take (w * i) (zstr buf) @ '' '') @ NUL # (replicate v NUL @ drop (w * i + w) buf))"
      by (simp add: b take_zstr)
    also have "\<dots> = take (w * i) (zstr buf) @ '' ''"
      using take_zstr_NUL[of "w * i" buf] by (intro zstr_prefix) simp
    finally show ?thesis using 1 by simp
  next
    case 2
    then have "length (zstr buf) < length buf" using assms(2) w by simp
    then have "buf ! (w * i) = NUL" using 2 nth_length_takeWhile[of "\<lambda>c. c \<noteq> NUL" buf] by (simp add: zstr_def)
    with assms(3) show ?thesis by simp
  next
    case 3
    with assms(2) show ?thesis by (simp add: b zstr_take_append)
  qed
qed

text \<open>What is left of a command: what is before the first question mark at a multiple of the width.\<close>

definition mark_at :: "nat \<Rightarrow> cstring \<Rightarrow> nat \<Rightarrow> bool" where
  "mark_at w s k \<longleftrightarrow> w * k < length s \<and> s ! (w * k) = CHR 0x3F"

definition cut_from :: "nat \<Rightarrow> nat \<Rightarrow> cstring \<Rightarrow> cstring" where
  "cut_from w i s = (case find (mark_at w s) [i..<length s] of None \<Rightarrow> s | Some k \<Rightarrow> take (w * k) s @ '' '')"

abbreviation cut :: "nat \<Rightarrow> cstring \<Rightarrow> cstring" where "cut w s \<equiv> cut_from w 0 s"

lemma cut_from_step:
  "i < length s \<Longrightarrow> cut_from w i s = (if mark_at w s i then take (w * i) s @ '' '' else cut_from w (i + 1) s)"
  by (simp add: cut_from_def upt_conv_Cons)

lemma cut_from_end: "length s \<le> w * i \<Longrightarrow> cut_from w i s = s"
proof -
  assume "length s \<le> w * i"
  then have "\<not> mark_at w s k" if "i \<le> k" for k
    using le_trans[OF \<open>length s \<le> w * i\<close> mult_le_mono2[OF that, of w]] unfolding mark_at_def by linarith
  then have "find (mark_at w s) [i..<length s] = None" by (auto simp: find_None_iff)
  then show ?thesis by (simp add: cut_from_def)
qed

lemma scrub_cut:
  assumes "2 \<le> w" and "length (zstr buf) \<le> B" and "w * B \<le> length buf"
  shows "\<exists>buf'. scrub w i buf = Some buf' \<and> zstr buf' = cut_from w i (zstr buf)"
  using assms
proof (induction w i buf rule: scrub.induct)
  case (1 w i buf)
  let ?s = "zstr buf" and ?buf = "if buf ! (w * i) = CHR 0x3F then put_blank w i buf else buf"
  show ?case
  proof (cases "i < length ?s")
    case False
    then have "cut_from w i ?s = ?s" by (simp add: cut_from_def)
    with False show ?thesis by (simp add: scrub.simps[of w i buf])
  next
    case True
    have "w * (i + 1) \<le> w * B" using True "1.prems"(2) by (intro mult_le_mono2) linarith
    then have room: "w * i + w \<le> length buf" using "1.prems"(3) by simp
    have len: "length ?buf = length buf" by (simp add: length_put_blank room)
    have z: "zstr ?buf = (if mark_at w ?s i then take (w * i) ?s @ '' '' else ?s)"
      using zstr_put_blank[OF "1.prems"(1) room] char_at_zstr[of "w * i" buf] by (auto simp: mark_at_def)
    then have "length (zstr ?buf) \<le> B" using "1.prems"(2) by (auto simp: mark_at_def)
    then obtain buf' where b: "scrub w (i + 1) ?buf = Some buf'" "zstr buf' = cut_from w (i + 1) (zstr ?buf)"
      using "1.IH"[of] True room "1.prems"(1,3) len by auto
    have "cut_from w (i + 1) (zstr ?buf) = cut_from w i ?s"
    proof (cases "mark_at w ?s i")
      case mark: True
      then have "length (zstr ?buf) \<le> w * (i + 1)" using z "1.prems"(1) by simp
      then show ?thesis using True mark z by (simp only: cut_from_end cut_from_step if_True)
    next
      case False
      then show ?thesis using True z by (simp add: cut_from_step)
    qed
    with b True room show ?thesis by (simp add: scrub.simps[of w i buf])
  qed
qed

lemma find_prefix: "find P xs = Some x \<Longrightarrow> find P (xs @ ys) = Some x"
  by (induction xs) (auto split: if_splits)

lemma cut_hides:
  assumes "0 < w" and "w dvd length a"
  shows "cut w (a @ CHR 0x3F # b) = cut w (a @ CHR 0x3F # c)"
proof -
  obtain k where k: "length a = w * k" using assms(2) by blast
  have same: "mark_at w (a @ CHR 0x3F # x) j \<longleftrightarrow> (j = k \<or> a ! (w * j) = CHR 0x3F)" if "j < Suc k" for j x
  proof (cases "j = k")
    case False
    then have "w * j < length a" using that k assms(1) by simp
    then show ?thesis using False by (simp add: mark_at_def nth_append)
  qed (simp add: mark_at_def k nth_append)
  have f: "find (mark_at w (a @ CHR 0x3F # x)) [0..<length (a @ CHR 0x3F # x)]
      = find (\<lambda>j. j = k \<or> a ! (w * j) = CHR 0x3F) [0..<Suc k]" for x
  proof -
    have "Suc k \<le> length (a @ CHR 0x3F # x)" using assms(1) by (cases w) (simp_all add: k)
    then have u: "[0..<length (a @ CHR 0x3F # x)] = [0..<Suc k] @ [Suc k..<length (a @ CHR 0x3F # x)]"
      using upt_add_eq_append[of 0 "Suc k" "length (a @ CHR 0x3F # x) - Suc k"] by simp
    have c: "find (mark_at w (a @ CHR 0x3F # x)) [0..<Suc k] = find (\<lambda>j. j = k \<or> a ! (w * j) = CHR 0x3F) [0..<Suc k]"
      by (rule find_cong) (use same in auto)
    have "find (\<lambda>j. j = k \<or> a ! (w * j) = CHR 0x3F) [0..<Suc k] \<noteq> None"
      by (auto simp: find_None_iff simp del: upt_Suc)
    with c show ?thesis unfolding u by (metis find_prefix option.exhaust)
  qed
  obtain j where j: "find (\<lambda>j. j = k \<or> a ! (w * j) = CHR 0x3F) [0..<Suc k] = Some j" "j \<le> k"
  proof (cases "find (\<lambda>j. j = k \<or> a ! (w * j) = CHR 0x3F) [0..<Suc k]")
    case None
    then show ?thesis by (auto simp: find_None_iff simp del: upt_Suc)
  next
    case (Some j)
    then have "j \<in> set [0..<Suc k]" by (metis find_Some_iff nth_mem)
    then have "j \<le> k" by auto
    with Some that show ?thesis by blast
  qed
  then have "w * j \<le> length a" by (simp add: k)
  then show ?thesis unfolding cut_from_def f j by simp
qed

subsection \<open>The record of a command\<close>

text \<open>The command in the array: quotes become double quotes, then the marks blanks.\<close>

definition command_text :: "nat \<Rightarrow> cstring \<Rightarrow> cstring option" where
  "command_text w s =
     do {
       (sql, _) \<leftarrow> strings_replace_free s [CHR 0x27] [CHR 0x22];
       guard (length sql < BUFSIZE * w);
       cmd \<leftarrow> scrub w 0 (sql @ replicate (BUFSIZE * w - length sql) NUL);
       Some (zstr cmd)
     }"

text \<open>Whether one of the policies denies the command; the loop stops at the first.\<close>

fun command_denied :: "nat \<Rightarrow> Policy list \<Rightarrow> cstring \<Rightarrow> int \<Rightarrow> bool option" where
  "command_denied 0 ps cmd flag = Some False"
| "command_denied (Suc n) [] cmd flag = None"
| "command_denied (Suc n) (p # ps) cmd flag =
     do { r \<leftarrow> MatchCclItem (Some p) cmd flag;
          if r \<noteq> 0 then Some True else command_denied n ps cmd flag }"

definition activity_record :: "proxyinfo \<Rightarrow> cstring \<Rightarrow> cstring \<Rightarrow> int \<Rightarrow> useractivitylog" where
  "activity_record px command cmdPrefix level =
     \<lparr>ual_clientAddr = str_of (auth px) ''pr_clientAddr'', ual_proxyAddr = str_of (auth px) ''pr_proxyAddr'',
      ual_resId = str_of (auth px) ''pr_resId'', ual_resName = str_of (auth px) ''pr_resName'',
      ual_resAddr = str_of (auth px) ''pr_resAddr'', ual_command = command, ual_cmdPrefix = cmdPrefix,
      ual_userId = str_of (auth px) ''pr_userId'', ual_userName = str_of (auth px) ''pr_userName'',
      ual_uid = str_of (auth px) ''pr_uid'', ual_accountNo = str_of (auth px) ''pr_accountNo'',
      ual_sessionId = loginlog_id px, ual_level = level, ual_accessType = int_of (auth px) ''pr_accessType''\<rparr>"

text \<open>The log is written unless the session is not audited.\<close>

definition log_command :: "session_env \<Rightarrow> useractivitylog \<Rightarrow> proxyinfo \<Rightarrow> logs \<Rightarrow> (proxyinfo \<times> logs) option" where
  "log_command se userlog px st =
     (if int_of (auth px) ''pr_auditFlag'' = 0 then Some (px, st)
      else do {
        (_, pr_id, st) \<leftarrow> SetUseractivitylog (s_out se) (s_clock se) (s_rand1 se) (s_rand2 se) userlog st;
        Some (px\<lparr>userlog_id := pr_id\<rparr>, st)
      })"

text \<open>What is done with the command.\<close>

definition record_command :: "sizes \<Rightarrow> session_env \<Rightarrow> cstring \<Rightarrow> proxyinfo \<Rightarrow> logs \<Rightarrow> (int \<times> proxyinfo \<times> logs) option" where
  "record_command z se cmd px st =
     do {
       let px = px\<lparr>px_cmd := (if sz_cmd z \<le> length cmd then take (sz_cmd z - 1) cmd else cmd)\<rparr>;
       denied \<leftarrow> command_denied (nat (table_count px)) (policy px) cmd (int_of (auth px) ''pr_cmdFlag'');
       let px = (if denied then px\<lparr>px_level := 1\<rparr> else px);
       level \<leftarrow> FindLevelCmd (levelcmd px) (px_cmd px);
       (px, st) \<leftarrow> log_command se (activity_record px (px_cmd px) (precmd px) level) px st;
       Some (0, px, st)
     }"

definition InsertUseractivitylog :: "sizes \<Rightarrow> session_env \<Rightarrow> proxyinfo \<Rightarrow> logs \<Rightarrow> (int \<times> proxyinfo \<times> logs) option" where
  "InsertUseractivitylog z se px st =
     do {
       let px = px\<lparr>start_in := 1\<rparr>;
       cmd \<leftarrow> command_text (sz_ptr z) (lineOutBuffer px);
       record_command z se cmd px st
     }"

text \<open>\<open>msg\<close> has 100 bytes.\<close>

definition InsertStopExchangeUserInfo :: "session_env \<Rightarrow> proxyinfo \<Rightarrow> logs \<Rightarrow> (int \<times> proxyinfo \<times> logs) option" where
  "InsertStopExchangeUserInfo se px st =
     (let msg = ''username:'' @ str_of (auth px) ''pr_accountNo''
      in if \<not> length msg < 100 then None
         else do {
           (px, st) \<leftarrow> log_command se (activity_record px msg ''prevent exchange user!'' 1) px st;
           Some (0, px\<lparr>lastprecmd := [], px_cmd := [], precmd := [], lineOutLen := 0, lineOutBuffer := []\<rparr>, st)
         })"

text \<open>The output: at most 4095 characters, in an array of zero bytes.\<close>

definition InsertUseractivityoutlog :: "sizes \<Rightarrow> session_env \<Rightarrow> proxyinfo \<Rightarrow> logs \<Rightarrow> (int \<times> proxyinfo \<times> logs) option" where
  "InsertUseractivityoutlog z se px st =
     (let desc = (if 4096 \<le> lineOutLen px then take 4095 (lineOutBuffer px) else lineOutBuffer px)
      in if \<not> length desc < sz_desc z then None
         else
           let useroutlog = \<lparr>uol_ualId = userlog_id px, uol_desc = desc @ replicate (sz_desc z - length desc) NUL,
                             uol_seesionId = loginlog_id px\<rparr>
           in do {
             st \<leftarrow> (if int_of (auth px) ''pr_auditFlag'' = 0 then Some st
                    else map_option snd (SetUseractivityoutlog (s_out se) (s_clock se) useroutlog 1 st));
             Some (0, px\<lparr>lineOutLen := 0, lineOutBuffer := []\<rparr>, st)
           })"

subsection \<open>\<open>findSQL\<close>\<close>

text \<open>The comparison of the rest reads the characters up to the first difference, and has no other effect.\<close>

fun compare_rest :: "cstring \<Rightarrow> nat \<Rightarrow> cstring \<Rightarrow> unit option" where
  "compare_rest data k [] = Some ()"
| "compare_rest data k (c # sql) =
     do { d \<leftarrow> nth_opt data k; if d \<noteq> c then Some () else compare_rest data (k + 1) sql }"

fun find_scan :: "cstring \<Rightarrow> nat \<Rightarrow> nat \<Rightarrow> cstring \<Rightarrow> int \<Rightarrow> int option" where
  "find_scan data i 0 sql isfind = Some isfind"
| "find_scan data i (Suc n) sql isfind =
     do { d \<leftarrow> nth_opt data i;
          if d = (case sql of [] \<Rightarrow> NUL | c # _ \<Rightarrow> c)
          then do { compare_rest data i sql; if int i > 5 then Some (int i) else find_scan data (i + 1) n sql (int i) }
          else find_scan data (i + 1) n sql isfind }"

definition findSQL :: "cstring \<Rightarrow> int \<Rightarrow> cstring \<Rightarrow> (int \<times> cstring) option" where
  "findSQL data len sql =
     do { isfind \<leftarrow> find_scan data 0 (nat len) sql (-1);
          Some (isfind, if isfind \<ge> 0 then data[nat isfind := CHR 0x25] else data) }"

subsection \<open>What is seen of a command\<close>

definition quotes :: "cstring \<Rightarrow> cstring" where
  "quotes s = map (\<lambda>c. if c = CHR 0x27 then CHR 0x22 else c) s"

lemma quotes_append [simp]: "quotes (a @ b) = quotes a @ quotes b" "quotes (c # s) = quotes [c] @ quotes s" "length (quotes s) = length s"
  by (simp_all add: quotes_def)

lemma strstr_char: "strstr (c # s) [d] = (if c = d then Some 0 else map_option Suc (strstr s [d]))"
  by (auto simp: prefix_def)

lemma replace_all_char: "replace_all [d] [e] s = map (\<lambda>c. if c = d then e else c) s"
proof (induction s)
  case Nil
  then show ?case by (simp add: replace_all.simps[of "[d]"])
next
  case (Cons c s)
  show ?case
  proof (cases "strstr s [d]")
    case None
    then show ?thesis
      using Cons by (simp add: replace_all.simps[of "[d]" _ "c # s"] replace_all.simps[of "[d]" _ s] strstr_char del: strstr.simps)
  next
    case (Some i)
    then show ?thesis
      using Cons by (simp add: replace_all.simps[of "[d]" _ "c # s"] replace_all.simps[of "[d]" _ s] strstr_char del: strstr.simps)
  qed
qed

lemma replace_quotes:
  "\<exists>n. strings_replace_free s [CHR 0x27] [CHR 0x22] = Some (quotes s, n)"
proof (cases "strstr s [CHR 0x27]")
  case None
  then show ?thesis
    using replace_all_char[of "CHR 0x27" "CHR 0x22" s] replace_all.simps[of "[CHR 0x27]" "[CHR 0x22]" s]
    by (simp add: strings_replace_free_def quotes_def)
next
  case (Some i)
  then show ?thesis
    using length_replace_all[of "[CHR 0x27]" "[CHR 0x22]" s]
    by (simp add: strings_replace_free_def find_strings_count_eq strings_replace_eq replace_all_char quotes_def guard_def)
qed

lemma command_text_cut:
  assumes "2 \<le> w" and "NUL \<notin> set s" and "length s < BUFSIZE"
  shows "command_text w s = Some (cut w (quotes s))"
proof -
  obtain n where q: "strings_replace_free s [CHR 0x27] [CHR 0x22] = Some (quotes s, n)" using replace_quotes by blast
  have "BUFSIZE \<le> BUFSIZE * w" using assms(1) by simp
  with assms(3) have l: "length (quotes s) < BUFSIZE * w" unfolding quotes_append(3) by (rule less_le_trans)
  have nul: "NUL \<notin> set (quotes s)" using assms(2) by (auto simp: quotes_def)
  let ?buf = "quotes s @ replicate (BUFSIZE * w - length (quotes s)) NUL"
  obtain k where "BUFSIZE * w - length (quotes s) = Suc k" using l by (metis Suc_diff_Suc)
  then have z: "zstr ?buf = quotes s" using zstr_prefix[OF nul, of "replicate k NUL"] by simp
  obtain buf' where "scrub w 0 ?buf = Some buf'" "zstr buf' = cut w (quotes s)"
    using scrub_cut[OF assms(1), of ?buf BUFSIZE 0] assms(3) l z by (auto simp: mult.commute)
  then show ?thesis using l by (simp add: command_text_def q guard_def del: quotes_append)
qed

lemma log_command_buffer:
  "log_command se u (px\<lparr>lineOutBuffer := x\<rparr>) st = map_option (\<lambda>(px, st). (px\<lparr>lineOutBuffer := x\<rparr>, st)) (log_command se u px st)"
  by (auto simp: log_command_def split: Option.bind_split)

lemma activity_record_frame [simp]:
  "activity_record (px\<lparr>lineOutBuffer := x\<rparr>) = activity_record px" "activity_record (px\<lparr>px_level := n\<rparr>) = activity_record px"
  "activity_record (px\<lparr>px_cmd := s\<rparr>) = activity_record px"
  by (simp_all add: activity_record_def fun_eq_iff)

lemma push_buffer:
  "px\<lparr>lineOutBuffer := x, px_cmd := s\<rparr> = px\<lparr>px_cmd := s, lineOutBuffer := x\<rparr>"
  "px\<lparr>lineOutBuffer := x, px_level := n\<rparr> = px\<lparr>px_level := n, lineOutBuffer := x\<rparr>"
  "px\<lparr>lineOutBuffer := x, start_in := n\<rparr> = px\<lparr>start_in := n, lineOutBuffer := x\<rparr>"
  by simp_all

lemma record_command_buffer:
  "record_command z se cmd (px\<lparr>lineOutBuffer := x\<rparr>) st =
     map_option (\<lambda>(r, px, st). (r, px\<lparr>lineOutBuffer := x\<rparr>, st)) (record_command z se cmd px st)"
proof -
  let ?c = "if sz_cmd z \<le> length cmd then take (sz_cmd z - 1) cmd else cmd"
  have *: "(do { (px, st) \<leftarrow> log_command se u (q\<lparr>lineOutBuffer := x\<rparr>) st; Some (0::int, px, st) })
      = map_option (\<lambda>(r, px, st). (r, px\<lparr>lineOutBuffer := x\<rparr>, st)) (do { (px, st) \<leftarrow> log_command se u q st; Some (0, px, st) })" for u q
    by (cases "log_command se u q st") (auto simp: log_command_buffer)
  show ?thesis
  proof (cases "command_denied (nat (table_count px)) (policy px) cmd (int_of (auth px) ''pr_cmdFlag'')")
    case None
    then show ?thesis by (simp add: record_command_def Let_def)
  next
    case d: (Some denied)
    show ?thesis
    proof (cases "FindLevelCmd (levelcmd px) ?c")
      case None
      with d show ?thesis by (cases denied) (simp_all add: record_command_def Let_def)
    next
      case (Some level)
      with d show ?thesis
        unfolding record_command_def Let_def push_buffer
        by (cases denied) (simp_all add: * push_buffer)
    qed
  qed
qed

text \<open>C11: a question mark at a multiple of the size of a pointer ends the command: the policies see, and the
  log holds, the same whatever follows it, and the result of the call does not depend on it.\<close>

theorem command_after_mark_unseen:
  assumes "2 \<le> sz_ptr z" and "sz_ptr z dvd length a" and "NUL \<notin> set (a @ b @ c)"
    and "length a + length b + 1 < BUFSIZE" and "length a + length c + 1 < BUFSIZE"
  shows "map_option (\<lambda>(r, px, st). (r, px\<lparr>lineOutBuffer := l\<rparr>, st))
           (InsertUseractivitylog z se (px\<lparr>lineOutBuffer := a @ CHR 0x3F # b\<rparr>) st)
       = map_option (\<lambda>(r, px, st). (r, px\<lparr>lineOutBuffer := l\<rparr>, st))
           (InsertUseractivitylog z se (px\<lparr>lineOutBuffer := a @ CHR 0x3F # c\<rparr>) st)"
proof -
  have t: "command_text (sz_ptr z) (a @ CHR 0x3F # x) = Some (cut (sz_ptr z) (quotes (a @ CHR 0x3F # x)))"
    if "x = b \<or> x = c" for x
    using that assms by (intro command_text_cut) auto
  have q: "quotes (a @ CHR 0x3F # x) = quotes a @ CHR 0x3F # quotes x" for x by (simp add: quotes_def)
  have "cut (sz_ptr z) (quotes (a @ CHR 0x3F # b)) = cut (sz_ptr z) (quotes (a @ CHR 0x3F # c))"
    unfolding q using assms(1,2) by (intro cut_hides) simp_all
  moreover have "InsertUseractivitylog z se (px\<lparr>lineOutBuffer := a @ CHR 0x3F # x\<rparr>) st
      = record_command z se (cut (sz_ptr z) (quotes (a @ CHR 0x3F # x))) ((px\<lparr>start_in := 1\<rparr>)\<lparr>lineOutBuffer := a @ CHR 0x3F # x\<rparr>) st"
    if "x = b \<or> x = c" for x
    using t[OF that] by (simp add: InsertUseractivitylog_def push_buffer del: quotes_append)
  ultimately show ?thesis
    by (simp add: record_command_buffer option.map_comp o_def case_prod_beta del: quotes_append)
qed

theorem command_after_mark_unseen_witness:
  "map_option (\<lambda>(r, px, st). (r, px\<lparr>lineOutBuffer := []\<rparr>, st))
     (InsertUseractivitylog \<lparr>sz_ptr = 8, sz_cmd = 512, sz_desc = 4096, sz_line = 8192\<rparr> quiet_env (plain_px [] []\<lparr>lineOutBuffer := ''select 1?; drop table t''\<rparr>) empty_logs)
   = map_option (\<lambda>(r, px, st). (r, px\<lparr>lineOutBuffer := []\<rparr>, st))
     (InsertUseractivitylog \<lparr>sz_ptr = 8, sz_cmd = 512, sz_desc = 4096, sz_line = 8192\<rparr> quiet_env (plain_px [] []\<lparr>lineOutBuffer := ''select 1?''\<rparr>) empty_logs)"
proof -
  have d: "sz_ptr \<lparr>sz_ptr = 8, sz_cmd = 512, sz_desc = 4096, sz_line = 8192\<rparr> dvd length ''select 1''" by code_simp
  show ?thesis
    using command_after_mark_unseen[OF _ d, of "''; drop table t''" "[]" "[]" quiet_env "plain_px [] []" empty_logs]
    by (simp add: BUFSIZE_def)
qed

lemma command_denied_eq:
  assumes "n \<le> length ps" and "\<forall>p\<in>set (take n ps). MatchCclItem (Some p) cmd flag \<noteq> None"
  shows "command_denied n ps cmd flag = Some (\<exists>p\<in>set (take n ps). MatchCclItem (Some p) cmd flag \<noteq> Some 0)"
  using assms by (induction n ps cmd flag rule: command_denied.induct) auto

lemma InsertUseractivitylog_eval:
  assumes "2 \<le> sz_ptr z" and "NUL \<notin> set (lineOutBuffer px)" and "length (lineOutBuffer px) < BUFSIZE"
    and "cmd = cut (sz_ptr z) (quotes (lineOutBuffer px))" and "length cmd < sz_cmd z" and "sz_cmd z \<le> 512"
    and "ps = take (nat (table_count px)) (policy px)" and "nat (table_count px) \<le> length (policy px)"
    and "\<forall>p\<in>set ps. MatchCclItem (Some p) cmd (int_of (auth px) ''pr_cmdFlag'') \<noteq> None"
    and "u = activity_record px cmd (precmd px) (level_scan (strupr cmd) (levelcmd px))"
    and "int_of (auth px) ''pr_auditFlag'' \<noteq> 0 \<Longrightarrow>
      SetUseractivitylog (s_out se) (s_clock se) (s_rand1 se) (s_rand2 se) u st = Some (rc, i, st1)"
  shows "InsertUseractivitylog z se px st =
    Some (0, px\<lparr>start_in := 1, px_cmd := cmd,
               px_level := (if \<exists>p\<in>set ps. MatchCclItem (Some p) cmd (int_of (auth px) ''pr_cmdFlag'') \<noteq> Some 0 then 1 else px_level px),
               userlog_id := (if int_of (auth px) ''pr_auditFlag'' = 0 then userlog_id px else i)\<rparr>,
          if int_of (auth px) ''pr_auditFlag'' = 0 then st else st1)"
proof -
  let ?flag = "int_of (auth px) ''pr_cmdFlag''" and ?q = "px\<lparr>start_in := 1, px_cmd := cmd\<rparr>"
  have t: "command_text (sz_ptr z) (lineOutBuffer px) = Some cmd"
    using command_text_cut[OF assms(1-3)] assms(4) by simp
  have d: "command_denied (nat (table_count px)) (policy px) cmd ?flag = Some (\<exists>p\<in>set ps. MatchCclItem (Some p) cmd ?flag \<noteq> Some 0)"
    using command_denied_eq[OF assms(8), of cmd ?flag] assms(7,9) by simp
  have f: "FindLevelCmd (levelcmd px) cmd = Some (level_scan (strupr cmd) (levelcmd px))"
    using assms(5,6) by (simp add: FindLevelCmd_def)
  have a: "activity_record (px\<lparr>start_in := 1\<rparr>) = activity_record px" by (simp add: activity_record_def fun_eq_iff)
  have l: "log_command se u (px\<lparr>start_in := 1, px_cmd := cmd, px_level := n\<rparr>) st =
      Some (px\<lparr>start_in := 1, px_cmd := cmd, px_level := n, userlog_id := (if int_of (auth px) ''pr_auditFlag'' = 0 then userlog_id px else i)\<rparr>,
            if int_of (auth px) ''pr_auditFlag'' = 0 then st else st1)" for n
    using assms(11) by (simp add: log_command_def)
  show ?thesis
    using t d f l[of 1] l[of "px_level px"] assms(5)
    by (simp add: InsertUseractivitylog_def record_command_def Let_def a flip: assms(10))
qed

text \<open>C10: the policies and the log see the command up to its first mark, with double quotes for quotes. The
  level is raised exactly when a policy of the session denies that command, and is never lowered; an
  audited session gets one log record with it, and the number of the record.\<close>

theorem InsertUseractivitylog_result:
  assumes "2 \<le> sz_ptr z" and "NUL \<notin> set (lineOutBuffer px)" and "length (lineOutBuffer px) < BUFSIZE"
    and "cmd = cut (sz_ptr z) (quotes (lineOutBuffer px))" and "length cmd < sz_cmd z" and "sz_cmd z \<le> 512"
    and "ps = take (nat (table_count px)) (policy px)" and "nat (table_count px) \<le> length (policy px)"
    and "\<forall>p\<in>set ps. MatchCclItem (Some p) cmd (int_of (auth px) ''pr_cmdFlag'') \<noteq> None"
    and "u = activity_record px cmd (precmd px) (level_scan (strupr cmd) (levelcmd px))"
    and "int_of (auth px) ''pr_auditFlag'' \<noteq> 0 \<Longrightarrow>
      SetUseractivitylog (s_out se) (s_clock se) (s_rand1 se) (s_rand2 se) u st = Some (rc, i, st1)"
  shows "InsertUseractivitylog z se px st =
    Some (0, px\<lparr>start_in := 1, px_cmd := cmd,
               px_level := (if \<exists>p\<in>set ps. MatchCclItem (Some p) cmd (int_of (auth px) ''pr_cmdFlag'') \<noteq> Some 0 then 1 else px_level px),
               userlog_id := (if int_of (auth px) ''pr_auditFlag'' = 0 then userlog_id px else i)\<rparr>,
          if int_of (auth px) ''pr_auditFlag'' = 0 then st else st1)"
  by (rule InsertUseractivitylog_eval[OF assms])

text \<open>A session that is not audited, and a policy that forbids a command.\<close>

definition no_drop :: Policy where
  "no_drop = zero_policy\<lparr>pCclItem := [\<lparr>ccl_command = ''DROP'', ccl_type = 1, ccl_table = []\<rparr>]\<rparr>"

theorem InsertUseractivitylog_result_witness:
  "\<exists>px'. InsertUseractivitylog \<lparr>sz_ptr = 8, sz_cmd = 512, sz_desc = 4096, sz_line = 8192\<rparr> quiet_env
      (plain_px [] [no_drop]\<lparr>lineOutBuffer := ''drop t'', table_count := 1, auth := [''pr_cmdFlag'' \<mapsto> FInt 1]\<rparr>) empty_logs
    = Some (0, px', empty_logs) \<and> px_cmd px' = ''drop t'' \<and> px_level px' = 1"
proof -
  let ?px = "plain_px [] [no_drop]\<lparr>lineOutBuffer := ''drop t'', table_count := 1, auth := [''pr_cmdFlag'' \<mapsto> FInt 1]\<rparr>"
  have c: "cut 8 (quotes ''drop t'') = ''drop t''" by code_simp
  have "strupr ''drop t'' = ''DROP T''" by code_simp
  moreover have "contains ''DROP T'' ''DROP''" by (simp add: contains_def)
  ultimately have m: "MatchCclItem (Some no_drop) ''drop t'' 1 = Some 1"
    by (simp add: MatchCclItem_def no_drop_def zero_policy_def ccl_hit_def)
  show ?thesis
    using InsertUseractivitylog_result[of "\<lparr>sz_ptr = 8, sz_cmd = 512, sz_desc = 4096, sz_line = 8192\<rparr>" ?px _ _ _ quiet_env empty_logs, OF _ _ _ refl _ _ refl _ _ refl] m c
    by (simp add: BUFSIZE_def plain_px_def int_of_def del: quotes_append)
qed

subsection \<open>What \<open>findSQL\<close> marks\<close>

fun pick :: "int \<Rightarrow> nat list \<Rightarrow> int" where
  "pick isfind [] = isfind"
| "pick isfind (k # ks) = (if 5 < k then int k else pick (int k) ks)"

lemma pick_eq: "pick isfind ks = (case find (\<lambda>k. 5 < k) ks of Some k \<Rightarrow> int k | None \<Rightarrow> if ks = [] then isfind else int (last ks))"
  by (induction isfind ks rule: pick.induct) (auto split: option.split)

lemma compare_rest_inside: "k + length sql \<le> length data \<Longrightarrow> compare_rest data k sql = Some ()"
  by (induction data k sql rule: compare_rest.induct) (auto simp: nth_opt_def)

lemma find_scan_pick:
  "i + n + length sql \<le> length data \<Longrightarrow>
   find_scan data i n (c # sql) isfind = Some (pick isfind (filter (\<lambda>k. data ! k = c) [i..<i + n]))"
proof (induction n arbitrary: i isfind)
  case (Suc n)
  have u: "[i..<i + Suc n] = i # [Suc i..<Suc i + n]" by (simp add: upt_conv_Cons)
  have "compare_rest data i (c # sql) = Some ()" using Suc.prems by (intro compare_rest_inside) simp
  then show ?case
    unfolding u using Suc.prems Suc.IH[of "Suc i"] by (simp add: nth_opt_def del: upt_Suc compare_rest.simps)
qed simp

text \<open>\<open>findSQL\<close> looks for the first character of the text only. Of the places that have it, it takes the first
  one from 6 on, or else the last, and writes a percent sign there, whether the rest matches or not;
  without such a place the data stays and the result is -1.\<close>

theorem findSQL_result:
  assumes "nat len + length sql \<le> length data" and "ps = filter (\<lambda>k. data ! k = c) [0..<nat len]"
  shows "findSQL data len (c # sql) =
    (case find (\<lambda>k. 5 < k) ps of
       Some k \<Rightarrow> Some (int k, data[k := CHR 0x25])
     | None \<Rightarrow> if ps = [] then Some (-1, data) else Some (int (last ps), data[last ps := CHR 0x25]))"
  using assms find_scan_pick[of 0 "nat len" sql data c "-1"]
  by (auto simp: findSQL_def pick_eq split: option.split)

theorem findSQL_result_witness:
  "findSQL ''please stop; ok'' 12 ''sel'' = Some (7, ''please %top; ok'')"
proof -
  have "filter (\<lambda>k. ''please stop; ok'' ! k = CHR ''s'') [0..<nat 12] = [4, 7]" by code_simp
  then show ?thesis
    using findSQL_result[of 12 "''el''" "''please stop; ok''" "[4, 7]" "CHR ''s''"] by simp
qed

end
