(* ===== verification/TnsText.thy ===== *)
theory TnsText
  imports LogText
begin

text \<open>
  The texts of the Oracle protocol, \<^verbatim>\<open>OracleProxy/oraclefilter.c\<close>: the string of a packet (\<open>ParseStrbyLen\<close>,
  lines 429 to 495), the tests for a statement (576 to 633), the list of connections (2778 to 2838),
  the address of a redirection (2983 to 3012, 3045 to 3066) and the free port (3141 to 3160).

  A pointer into a packet is the list of the characters from there to the end of its buffer; a
  read behind the end is a fault.
\<close>

abbreviation ub :: "char \<Rightarrow> int" where "ub c \<equiv> of_char c"

subsection \<open>Strings with their length\<close>

text \<open>
  A string in pieces: after the byte 0xFE pieces with their lengths, up to a length of 0. The result is
  the number of length and mark bytes, the text written and its length; the target has \<open>cap\<close> bytes.
\<close>

function fe_pieces :: "nat \<Rightarrow> int \<Rightarrow> int \<Rightarrow> cstring \<Rightarrow> cstring \<Rightarrow> (int \<times> cstring \<times> int) option" where
  "fe_pieces cap iBuflen iIsFe sub [] = None"
| "fe_pieces cap iBuflen iIsFe sub (c # r) =
     (let ilen = nat (ub c)
      in if iBuflen < int (length sub + ilen) then Some (-1, sub, 0)
         else if ilen = 0 then Some (iIsFe + 1, sub, int (length sub))
         else if \<not> (ilen \<le> length r \<and> length sub + ilen \<le> cap) then None
         else fe_pieces cap iBuflen (iIsFe + 1) (sub @ take ilen r) (drop ilen r))"
  by pat_completeness auto
termination
  by (relation "measure (\<lambda>(cap, b, i, sub, d). length d)") auto

text \<open>
  The flag is set by the first text that starts with \<open>Oracle\<close> and never reset; from then on every text that
  is not in pieces is taken up to its end. A text with one length byte is copied from that byte on.
\<close>

definition ParseStrbyLen :: "nat \<Rightarrow> int \<Rightarrow> cstring \<Rightarrow> int \<Rightarrow> (int \<times> cstring \<times> int \<times> int) option" where
  "ParseStrbyLen cap oracleFlag pszBuf iBuflen =
     do {
       guard (6 \<le> length pszBuf);
       let oracleFlag = (if take 6 pszBuf = ''Oracle'' then 1 else oracleFlag);
       let c = hd pszBuf;
       let ilen = nat (ub c);
       (if c = CHR 0xFE then do {
          (iIsFe, sub, n) \<leftarrow> fe_pieces cap iBuflen 1 [] (tl pszBuf);
          Some (iIsFe, sub, n, oracleFlag)
        }
        else if c = CHR 0xFF then Some (1, [], 0, oracleFlag)
        else if oracleFlag = 1 then
          (if length (zstr pszBuf) < length pszBuf \<and> length (zstr pszBuf) < cap
           then Some (1, zstr pszBuf, int (length (zstr pszBuf)), oracleFlag) else None)
        else if 0 < ilen \<and> int ilen < iBuflen then
          (if ilen \<le> length pszBuf \<and> ilen \<le> cap then Some (1, take ilen pszBuf, int ilen, oracleFlag) else None)
        else if ilen = 0 \<and> int ilen < iBuflen then Some (1, [], 0, oracleFlag)
        else Some (-1, [], 0, oracleFlag))
     }"

subsection \<open>Tests for a statement\<close>

definition valid_char :: "char \<Rightarrow> bool" where
  "valid_char c \<longleftrightarrow> c = CHR 0x0A \<or> (0x20 \<le> ub c \<and> ub c \<le> 126)"

fun CheckValidChar :: "cstring \<Rightarrow> nat \<Rightarrow> int option" where
  "CheckValidChar pBuf 0 = Some 1"
| "CheckValidChar [] (Suc n) = None"
| "CheckValidChar (c # r) (Suc n) = (if valid_char c then CheckValidChar r n else Some 0)"

function check_pieces :: "int \<Rightarrow> int \<Rightarrow> int \<Rightarrow> cstring \<Rightarrow> int option" where
  "check_pieces iLen place fRet [] = None"
| "check_pieces iLen place fRet (c # r) =
     (let ilen = nat (ub c)
      in if iLen < place + int ilen then Some 0
         else if 8 < ilen \<and> int ilen < iLen - 1 - place
         then (case CheckValidChar r ilen of
                 None \<Rightarrow> None
               | Some v \<Rightarrow> if v \<noteq> 0 then check_pieces iLen (place + int ilen + 1) 1 (drop ilen r) else Some fRet)
         else Some fRet)"
  by pat_completeness auto
termination
  by (relation "measure (\<lambda>(l, p, f, d). length d)") auto

definition CheckSqlString :: "cstring \<Rightarrow> int \<Rightarrow> int option" where
  "CheckSqlString pData iLen =
     (case pData of
        [] \<Rightarrow> None
      | c # r \<Rightarrow>
          if c = CHR 0xFE then check_pieces iLen 1 0 r
          else if 8 < ub c \<and> ub c < iLen then CheckValidChar r (nat (ub c))
          else Some 0)"

subsection \<open>The connections\<close>

text \<open>\<open>FindVer\<close> compares with the first connection only and stays there: the value \<open>None\<close> is a loop without end.\<close>

definition FindVer :: "'c \<Rightarrow> ('c \<times> cstring) list \<Rightarrow> cstring option option" where
  "FindVer c conns = (case conns of [] \<Rightarrow> Some None | (c', v) # _ \<Rightarrow> if c' = c then Some (Some v) else None)"

definition AddConn :: "'c \<Rightarrow> cstring \<Rightarrow> ('c \<times> cstring) list \<Rightarrow> (int \<times> ('c \<times> cstring) list) option" where
  "AddConn c v conns =
     do { f \<leftarrow> FindVer c conns; Some (1, if f = None then (c, v) # conns else conns) }"

definition DelConn :: "'c \<Rightarrow> ('c \<times> cstring) list \<Rightarrow> int \<times> ('c \<times> cstring) list" where
  "DelConn c conns = (case conns of [] \<Rightarrow> (0, []) | _ # r \<Rightarrow> (1, r))"

lemma AddConn_second: "c \<noteq> d \<Longrightarrow> AddConn c v [] = Some (1, [(c, v)]) \<and> AddConn d w [(c, v)] = None"
  by (simp add: AddConn_def FindVer_def)

subsection \<open>Redirections\<close>

text \<open>
  The rest of a text behind a key, in an array of 256 bytes, up to the closing bracket. Without the key
  the old value stays.
\<close>

definition bracket_value :: "cstring \<Rightarrow> cstring \<Rightarrow> cstring option option" where
  "bracket_value key s =
     (case strstr s key of
        None \<Rightarrow> Some None
      | Some i \<Rightarrow>
          let p = drop (i + length key) s
          in if \<not> length p < 256 then None
             else Some (Some (case strstr p '')'' of None \<Rightarrow> p | Some j \<Rightarrow> take j p)))"

text \<open>The new host and port.\<close>

definition redirect_target :: "cstring \<Rightarrow> cstring \<times> int \<Rightarrow> (cstring \<times> int) option" where
  "redirect_target oldconent old =
     do { h \<leftarrow> bracket_value ''(HOST='' oldconent;
          p \<leftarrow> bracket_value ''(PORT='' oldconent;
          Some (case h of None \<Rightarrow> fst old | Some h \<Rightarrow> h, case p of None \<Rightarrow> snd old | Some p \<Rightarrow> atoi p) }"

text \<open>\<open>connect\<close> has 1024 bytes.\<close>

definition connect_text :: "cstring \<Rightarrow> int \<Rightarrow> cstring option" where
  "connect_text host prt =
     (let s = ''(ADDRESS=(PROTOCOL=tcp)(HOST='' @ host @ '')(PORT='' @ fmt_d prt @ ''))''
      in if length s < 1024 then Some s else None)"

text \<open>
  The first port from 10500 on that nobody answers on. \<open>sock\<close> says whether the socket for a port can be made,
  \<open>taken\<close> whether the connection is accepted; the port is sent with 16 bits.
\<close>

partial_function (option) free_port :: "(int \<Rightarrow> bool) \<Rightarrow> (int \<Rightarrow> bool) \<Rightarrow> int \<Rightarrow> int option" where
  "free_port sock taken prt =
     (if \<not> sock prt then Some (-1)
      else if \<not> taken (prt mod 65536) then Some prt
      else free_port sock taken (prt + 1))"

definition getNewProt :: "(int \<Rightarrow> bool) \<Rightarrow> (int \<Rightarrow> bool) \<Rightarrow> int option" where
  "getNewProt sock taken = free_port sock taken 10500"

definition GetNewConnet :: "cstring \<Rightarrow> int \<Rightarrow> (cstring \<times> int) option" where
  "GetNewConnet sznewHost inewPort = (if inewPort \<le> 0 then None else Some (sznewHost, inewPort))"

subsection \<open>What a text with lengths is read as\<close>

definition pieces :: "cstring list \<Rightarrow> cstring" where
  "pieces xs = CHR 0xFE # concat (map (\<lambda>x. char_of (length x) # x) xs) @ [NUL]"

lemma nat_ub_char_of: "n < 256 \<Longrightarrow> nat (ub (char_of (n::nat))) = n"
proof -
  assume "n < 256"
  have "(char_of n :: char) = char_of (int n)" by simp
  then have "ub (char_of n) = int n mod 256" by (simp only: of_char_of)
  with \<open>n < 256\<close> show ?thesis by simp
qed

lemma fe_pieces_concat:
  assumes "\<forall>x\<in>set xs. 0 < length x \<and> length x < 256" and "length (sub @ concat xs) \<le> cap" and "int (length (sub @ concat xs)) \<le> n"
  shows "fe_pieces cap n k sub (concat (map (\<lambda>x. char_of (length x) # x) xs) @ NUL # r)
    = Some (k + int (length xs) + 1, sub @ concat xs, int (length (sub @ concat xs)))"
  using assms
proof (induction xs arbitrary: k sub)
  case Nil
  then show ?case by simp
next
  case (Cons x xs)
  have l: "nat (ub (char_of (length x))) = length x" using Cons.prems(1) by (intro nat_ub_char_of) simp
  show ?case
    using Cons.prems Cons.IH[of "sub @ x" "k + 1"] by (simp add: l Let_def)
qed

text \<open>C19: a text sent in pieces of 1 to 255 characters is put together again, and the result of the reader is the
  number of marks and lengths, so that text and result together are the length of what was read. A text
  behind a single length byte is not: the copy starts at the length byte and the last character is missing.\<close>

theorem ParseStrbyLen_texts:
  assumes "\<forall>x\<in>set xs. 0 < length x \<and> length x < 256" and "length (concat xs) \<le> cap" and "int (length (concat xs)) \<le> n"
    and "6 \<le> length (pieces xs @ r)"
    and "s \<noteq> []" and "length s < 254" and "length s \<le> cap" and "int (length s) < m" and "5 \<le> length (s @ r)"
    and "take 6 (char_of (length s) # s @ r) \<noteq> ''Oracle''"
  shows "ParseStrbyLen cap flag (pieces xs @ r) n
        = Some (int (length (pieces xs) - length (concat xs)), concat xs, int (length (concat xs)), flag)
    \<and> ParseStrbyLen cap 0 (char_of (length s) # s @ r) m = Some (1, char_of (length s) # butlast s, int (length s), 0)"
proof -
  have p: "pieces xs @ r = CHR 0xFE # concat (map (\<lambda>x. char_of (length x) # x) xs) @ NUL # r"
    by (simp add: pieces_def)
  have "length (pieces xs) = length (concat xs) + length xs + 2"
    by (induction xs) (simp_all add: pieces_def)
  moreover have "take 6 (pieces xs @ r) \<noteq> ''Oracle''" by (simp add: p)
  ultimately have 1: "ParseStrbyLen cap flag (pieces xs @ r) n
        = Some (int (length (pieces xs) - length (concat xs)), concat xs, int (length (concat xs)), flag)"
    using assms(4) fe_pieces_concat[OF assms(1), of "[]" cap n 1 r] assms(2,3)
    unfolding ParseStrbyLen_def p Let_def by simp
  have "nat (ub (char_of (length s))) = length s" using assms(6) by (intro nat_ub_char_of) simp
  moreover have "char_of (length s) \<noteq> CHR 0xFE" "char_of (length s) \<noteq> CHR 0xFF"
    using assms(6) calculation by (auto dest!: arg_cong[of _ _ "\<lambda>c. nat (ub c)"])
  moreover have "take (length s) (char_of (length s) # s @ r) = char_of (length s) # butlast s"
    using assms(5) by (cases s rule: rev_cases) simp_all
  ultimately have "ParseStrbyLen cap 0 (char_of (length s) # s @ r) m = Some (1, char_of (length s) # butlast s, int (length s), 0)"
    using assms(5-10) by (simp add: ParseStrbyLen_def Let_def)
  with 1 show ?thesis by blast
qed

theorem ParseStrbyLen_texts_witness:
  "ParseStrbyLen 40960 0 (pieces [''select '', ''1''] @ []) 20 = Some (4, ''select 1'', 8, 0)
   \<and> ParseStrbyLen 40960 0 (CHR 0x08 # ''select 1'') 9 = Some (1, CHR 0x08 # ''select '', 8, 0)"
proof -
  have c: "char_of (length ''select 1'') = CHR 0x08" by code_simp
  show ?thesis
    using ParseStrbyLen_texts[of "[''select '', ''1'']" 40960 20 "[]" "''select 1''" 9 0] unfolding c
    by (simp add: pieces_def)
qed

lemma strstr_skip: "c \<notin> set h \<Longrightarrow> strstr (h @ t) (c # p) = map_option ((+) (length h)) (strstr t (c # p))"
  by (induction h) (cases "strstr t (c # p)"; auto)+

lemma bracket_no_digit: "\<not> is_digit (CHR '')'')"
  by (simp add: is_digit_def)

lemma bracket_value_found:
  assumes "strstr s key = Some (length u)" and "s = u @ key @ v @ CHR '')'' # t" and "CHR '')'' \<notin> set v"
    and "length v < 200" and "length t \<le> 50"
  shows "bracket_value key s = Some (Some v)"
proof -
  have "strstr (v @ CHR '')'' # t) '')'' = Some (length v)"
    using strstr_skip[OF assms(3), of "CHR '')'' # t" "[]"] by simp
  moreover have "drop (length u + length key) s = v @ CHR '')'' # t" by (simp add: assms(2))
  ultimately show ?thesis using assms(1,4,5) by (simp add: bracket_value_def Let_def)
qed

definition connect_start :: cstring where "connect_start = ''(ADDRESS=(PROTOCOL=tcp)''"

lemma strstr_HOST: "strstr (connect_start @ ''(HOST='' @ u) ''(HOST='' = Some (length connect_start)"
  by (simp add: connect_start_def)

lemma strstr_PORT: "strstr (connect_start @ ''(HOST='' @ u) ''(PORT='' = map_option ((+) (length (connect_start @ ''(HOST=''))) (strstr u ''(PORT='')"
  unfolding connect_start_def by (cases "strstr u ''(PORT=''") simp_all

text \<open>C20: a redirection the proxy has written itself is read back as the host and the port in it.\<close>

theorem redirect_roundtrip:
  assumes "connect_text host prt = Some s" and "CHR '')'' \<notin> set host" and "CHR ''('' \<notin> set host" and "0 \<le> prt" and "prt < 65536"
    and "length host < 200"
  shows "redirect_target s old = Some (host, prt)"
proof -
  let ?d = "show_nat (nat prt)"
  have d: "fmt_d prt = ?d" using assms(4) by (simp add: fmt_d_def)
  have s: "s = ''(ADDRESS=(PROTOCOL=tcp)(HOST='' @ host @ '')(PORT='' @ ?d @ ''))''"
    using assms(1) by (simp add: connect_text_def d Let_def split: if_splits)
  have l: "length ?d \<le> 5" using length_show_nat[of "nat prt" 5] assms(4,5) by simp
  have n: "CHR '')'' \<notin> set ?d" using show_nat_digits[of "CHR '')''" "nat prt"] digit_char_is_digit bracket_no_digit by metis
  let ?t = "CHR '')'' # ''(PORT='' @ ?d @ ''))''"
  have s: "s = connect_start @ ''(HOST='' @ host @ ?t" by (simp add: s connect_start_def)
  have h: "bracket_value ''(HOST='' s = Some (Some host)"
    using assms(2,6) l by (intro bracket_value_found[where u = connect_start and t = "''(PORT='' @ ?d @ ''))''"]) (simp_all only: s strstr_HOST, simp_all)
  have t: "strstr ?t ''(PORT='' = Some 1" by simp
  have "strstr s ''(PORT='' = Some (length (connect_start @ ''(HOST='' @ host @ '')''))"
    unfolding s strstr_PORT strstr_skip[OF assms(3)] t by simp
  then have p: "bracket_value ''(PORT='' s = Some (Some ?d)"
    using n l by (intro bracket_value_found[where t = "'')''"]) (simp_all add: s)
  show ?thesis using atoi_show_nat[of "nat prt"] assms(4,5) by (simp add: redirect_target_def h p)
qed

theorem redirect_roundtrip_witness:
  "\<exists>s. connect_text ''10.0.0.2'' 10502 = Some s \<and> redirect_target s (''db'', 1521) = Some (''10.0.0.2'', 10502)"
proof -
  have "show_nat 10502 = ''10502''" by (simp add: show_nat.simps digit_char_def) code_simp
  then have c: "connect_text ''10.0.0.2'' 10502 = Some ''(ADDRESS=(PROTOCOL=tcp)(HOST=10.0.0.2)(PORT=10502))''"
    by (simp add: connect_text_def fmt_d_def)
  show ?thesis using redirect_roundtrip[OF c, of "(''db'', 1521)"] c by simp
qed

text \<open>The port offered to the client is the first one from 10500 on that is not taken, as long as a socket can be
  made for each port before it; without one the result is -1.\<close>

theorem getNewProt_result:
  assumes "\<And>q. 10500 \<le> q \<Longrightarrow> q < prt \<Longrightarrow> sock q \<and> taken (q mod 65536)" and "10500 \<le> prt"
    and "sock prt \<Longrightarrow> \<not> taken (prt mod 65536)"
  shows "getNewProt sock taken = Some (if sock prt then prt else -1)"
proof -
  have "free_port sock taken (prt - int k) = Some (if sock prt then prt else -1)" if "10500 \<le> prt - int k" for k
    using that
  proof (induction k)
    case 0
    then show ?case using assms(3) by (subst free_port.simps) simp
  next
    case (Suc k)
    then show ?case using assms(1)[of "prt - int (Suc k)"] by (subst free_port.simps) simp
  qed
  from this[of "nat (prt - 10500)"] show ?thesis using assms(2) by (simp add: getNewProt_def)
qed

theorem getNewProt_result_witness: "getNewProt (\<lambda>q. True) (\<lambda>q. q < 10502) = Some 10502"
  using getNewProt_result[of 10502 "\<lambda>q. True" "\<lambda>q. q < 10502"] by simp

end
