(* ===== verification/TnsRequest.thy ===== *)
theory TnsRequest
  imports TnsText Commands
begin

text \<open>
  The requests of an Oracle client, \<^verbatim>\<open>OracleProxy/oraclefilter.c\<close>: the statement of a packet (lines 541 to
  574 and 649 to 811), the packets of a client (2588 to 2659 and 2765 to 2773), what is done with a
  statement and a result (3092 to 3120), and the filter (2861 to 2868 and 2955 to 3090) with the entry
  for a client in oracleproxy.c. The answers of the server are not decoded here.

  \<open>tns\<close> has the globals the requests use, the session and the logs. A packet is the list of the
  characters from a pointer to the end of its buffer, and is returned as it is left.
\<close>

subsection \<open>State\<close>

record tns =
  isquery :: int
  iversion :: int
  istoad :: int
  isplsql :: int
  bitversion :: int
  oracleFlag :: int
  nGlobMaxColNum :: int
  sql_reslut :: cstring
  sznewHost :: cstring
  inewPort :: int
  t_px :: proxyinfo
  t_logs :: logs

subsection \<open>Statements and results\<close>

definition blank_lines :: "cstring \<Rightarrow> cstring" where
  "blank_lines s = map (\<lambda>c. if c = CHR 0x0D \<or> c = CHR 0x0A then CHR 0x20 else c) s"

text \<open>The statement as it is left, with blanks for line ends.\<close>

definition DBOracleOperate :: "sizes \<Rightarrow> session_env \<Rightarrow> cstring \<Rightarrow> tns \<Rightarrow> (cstring \<times> tns) option" where
  "DBOracleOperate z se szSQL t =
     (let s = blank_lines szSQL
      in if \<not> length s < sz_line z then None
         else do {
           (_, px, lg) \<leftarrow> InsertUseractivitylog z se (t_px t\<lparr>lineOutBuffer := s\<rparr>) (t_logs t);
           Some (s, t\<lparr>isquery := 1, t_px := px, t_logs := lg\<rparr>)
         })"

definition DBOracleReslut :: "sizes \<Rightarrow> session_env \<Rightarrow> cstring \<Rightarrow> tns \<Rightarrow> tns option" where
  "DBOracleReslut z se szData t =
     (let s = blank_lines szData
      in if \<not> length s < sz_line z then None
         else do {
           (_, px, lg) \<leftarrow> InsertUseractivityoutlog z se (t_px t\<lparr>lineOutBuffer := s\<rparr>) (t_logs t);
           Some (t\<lparr>sql_reslut := [], t_px := px, t_logs := lg\<rparr>)
         })"

text \<open>A pending result is written to the log first.\<close>

definition flush_result :: "sizes \<Rightarrow> session_env \<Rightarrow> tns \<Rightarrow> tns option" where
  "flush_result z se t = (if 0 < length (sql_reslut t) then DBOracleReslut z se (sql_reslut t) t else Some t)"

subsection \<open>The statement of a request\<close>

text \<open>The end of the first five zero bytes from \<open>i\<close> on.\<close>

fun five_zeros :: "nat \<Rightarrow> cstring \<Rightarrow> nat option" where
  "five_zeros i [] = None"
| "five_zeros i (c # r) = (if take 5 (c # r) = replicate 5 NUL then Some (i + 5) else five_zeros (i + 1) r)"

definition sql_place :: "tns \<Rightarrow> cstring \<Rightarrow> nat option" where
  "sql_place t d =
     (let i = (if iversion t = 9 then 81 else 93);
          i = (if iversion t = 11 \<and> istoad t = 1 then 93 + 20 else i)
      in if bitversion t = 64 then
           (if iversion t = 9 then Some 48
            else if iversion t = 11 then do { i \<leftarrow> five_zeros 28 (drop 28 d); Some (i + 21) }
            else if iversion t = 10 then Some 31
            else Some 54)
         else Some i)"

text \<open>The first place with the bytes 0xFE 0x40, or 0.\<close>

fun find_fe40 :: "nat \<Rightarrow> nat \<Rightarrow> cstring \<Rightarrow> nat option" where
  "find_fe40 j 0 d = Some 0"
| "find_fe40 j (Suc n) d =
     do {
       a \<leftarrow> nth_opt d j;
       (if a = CHR 0xFE then do {
          b \<leftarrow> nth_opt d (j + 1);
          if b = CHR 0x40 then Some j else find_fe40 (j + 1) n d
        } else find_fe40 (j + 1) n d)
     }"

text \<open>The copy behind the mark, into 40960 bytes; the length that is noted is the index of the last character.\<close>

definition QUERYSIZE :: nat where "QUERYSIZE = 40960"

fun copy_text :: "nat \<Rightarrow> cstring \<Rightarrow> cstring \<Rightarrow> cstring option" where
  "copy_text 0 d acc = Some acc"
| "copy_text (Suc n) [] acc = None"
| "copy_text (Suc n) (c # d) acc =
     (if c = NUL then Some acc
      else if \<not> length acc < QUERYSIZE then None
      else copy_text n d (acc @ [c]))"

text \<open>The lengths in front of the text, versions 9 and 10: the length field, its size and what is behind it.\<close>

definition length_field :: "cstring \<Rightarrow> nat \<Rightarrow> (int \<times> int \<times> nat) option" where
  "length_field d o1 =
     do {
       k \<leftarrow> nth_opt d o1;
       (if k = CHR 0x01 then do { a \<leftarrow> nth_opt d (o1 + 1); Some (1, ub a, o1 + 2) }
        else if k = CHR 0x02 then do {
          a \<leftarrow> nth_opt d (o1 + 1); b \<leftarrow> nth_opt d (o1 + 2); Some (2, ub a * 256 + ub b, o1 + 3) }
        else Some (ub k, 0, o1 + 1))
     }"

text \<open>
  \<open>data\<close> and \<open>offset\<close> are moved apart: the text is looked for at \<open>offset\<close>, its length at \<open>data\<close>.
\<close>

definition skip_fields :: "tns \<Rightarrow> cstring \<Rightarrow> nat \<Rightarrow> (nat \<times> nat) option" where
  "skip_fields t d o1 =
     (let offset = (if iversion t = 10 \<and> istoad t = 0 then (if isplsql t = 1 then o1 + 3 else o1 + 4)
                    else if iversion t = 9 \<and> istoad t = 0 \<and> isplsql t = 0 then o1 + 1 else o1)
      in do {
        a \<leftarrow> nth_opt d o1;
        b \<leftarrow> (if a = CHR 0x01 \<or> a = CHR 0x00 then nth_opt d (o1 + 1) else Some NUL);
        (if a = CHR 0x01 \<and> b = CHR 0x00 then
           (if bitversion t = 64 \<and> iversion t = 10 \<and> istoad t = 1 then Some (o1 + 5, offset + 5)
            else Some (o1 + 2, offset + 2))
         else if a = CHR 0x00 \<and> b = CHR 0x01 \<and> iversion t = 10 \<and> istoad t = 1 then Some (o1, offset + 3)
         else Some (o1, offset))
      })"

definition sql_offset :: "tns \<Rightarrow> cstring \<Rightarrow> int \<Rightarrow> nat \<Rightarrow> nat option" where
  "sql_offset t d len i =
     (if iversion t = 9 \<or> iversion t = 10 then do {
        n \<leftarrow> nth_opt d 1;
        (if \<not> ub n < len then Some i
         else do {
           let o1 = 2 + nat (ub n);
           a \<leftarrow> nth_opt d o1;
           b \<leftarrow> (if a = CHR 0x00 then nth_opt d (o1 + 1) else Some NUL);
           (if \<not> (a = CHR 0x00 \<and> b = CHR 0x01) then Some i
            else do {
              (k, sqllen, o2) \<leftarrow> length_field d (o1 + 2);
              (if k \<noteq> 1 \<and> k \<noteq> 2 then Some i
               else do {
                 (dat, offset) \<leftarrow> skip_fields t d (o2 + 17);
                 a \<leftarrow> nth_opt d dat;
                 (if k = 1 then Some (if ub a \<le> sqllen then offset else i)
                  else do { b \<leftarrow> nth_opt d (dat + 1); Some (if ub a * 256 + ub b = sqllen then offset else i) })
               })
            })
         })
      } else Some i)"

text \<open>The place of the text, the text, its length as noted, the flag of \<open>ParseStrbyLen\<close>.\<close>

definition request_text :: "tns \<Rightarrow> cstring \<Rightarrow> int \<Rightarrow> (nat \<times> cstring \<times> int \<times> int) option" where
  "request_text t d len =
     do {
       i \<leftarrow> sql_place t d;
       j \<leftarrow> find_fe40 0 (nat (len - 1)) d;
       (if 0 < j then do {
          s \<leftarrow> copy_text (nat (len - int (j + 2))) (drop (j + 2) d) [];
          Some (i, s, int (length s - 1), oracleFlag t)
        } else do {
          i \<leftarrow> sql_offset t d len i;
          (_, s, n, flag) \<leftarrow> ParseStrbyLen QUERYSIZE (oracleFlag t) (drop i d) (len - int i);
          Some (i, zstr s, n, flag)
        })
     }"

text \<open>A denied statement is spoilt in the packet.\<close>

definition spoil :: "nat \<Rightarrow> cstring \<Rightarrow> cstring \<Rightarrow> int \<Rightarrow> tns \<Rightarrow> (cstring \<times> tns) option" where
  "spoil i sql d len t =
     (if px_level (t_px t) = 1 then do {
        (_, r) \<leftarrow> findSQL (drop i d) (len - int i) sql;
        Some (take i d @ r, t\<lparr>t_px := t_px t\<lparr>px_level := 0\<rparr>\<rparr>)
      } else Some (d, t))"

definition DecodeTnsData035e :: "sizes \<Rightarrow> session_env \<Rightarrow> cstring \<Rightarrow> int \<Rightarrow> tns \<Rightarrow> (cstring \<times> tns) option" where
  "DecodeTnsData035e z se d len t =
     do {
       (i, s, n, flag) \<leftarrow> request_text t d len;
       let t = t\<lparr>nGlobMaxColNum := 0, oracleFlag := flag\<rparr>;
       (if n \<le> 1 then Some (d, t)
        else do {
          t \<leftarrow> flush_result z se t;
          (sql, t) \<leftarrow> DBOracleOperate z se (if n < 4096 then s else take 4096 s) t;
          spoil i sql d len t
        })
     }"

subsection \<open>The packets of a client\<close>

text \<open>The name in a login packet has to fit into 266 bytes; its length is a signed character. Nothing is changed.\<close>

definition DecodeTnsData0376 :: "session_env \<Rightarrow> cstring \<Rightarrow> int \<Rightarrow> int option" where
  "DecodeTnsData0376 se d len =
     (if len < 29 then Some (-1)
      else do {
        c \<leftarrow> nth_opt d 17;
        guard (ub c < 128 \<and> 18 + nat (ub c) \<le> length d);
        (_, isStop) \<leftarrow> GetStopExchangeUserSwitch (x_mysql_cfg (s_out se)) [];
        guard (length isStop < 2);
        Some (ub c + 30)
      })"

text \<open>
  The last place with 0x03 0x5E before \<open>cnt\<close>; the list is what is left from \<open>i\<close> on. The bound is an unsigned
  number: for an empty packet it is the largest one.
\<close>

fun last_035e :: "int \<Rightarrow> nat \<Rightarrow> nat option \<Rightarrow> cstring \<Rightarrow> nat option option" where
  "last_035e cnt i found [] = (if cnt \<le> int i then Some found else None)"
| "last_035e cnt i found (a # r) =
     (if cnt \<le> int i then Some found
      else if a = CHR 0x03 then
        (case r of [] \<Rightarrow> None
         | b # _ \<Rightarrow> last_035e cnt (i + 1) (if b = CHR 0x5E then Some i else found) r)
      else last_035e cnt (i + 1) found r)"

text \<open>
  One packet but the one that holds another (0x03 0x02): the size to go on behind, or \<open>None\<close> to return, and
  the packet and the state.
\<close>

definition request_part :: "sizes \<Rightarrow> session_env \<Rightarrow> char \<Rightarrow> char \<Rightarrow> cstring \<Rightarrow> int \<Rightarrow> tns
    \<Rightarrow> (nat option \<times> cstring \<times> tns) option" where
  "request_part z se c s body n t =
     (if c = CHR 0x03 \<and> (s = CHR 0x03 \<or> s = CHR 0x47 \<or> s = CHR 0x5E)
      then do { (body, t) \<leftarrow> DecodeTnsData035e z se body n t; Some (None, body, t) }
      else if c = CHR 0x03 \<and> s = CHR 0x09 then do { t \<leftarrow> flush_result z se t; Some (Some 1, body, t) }
      else if c = CHR 0x03 \<and> s = CHR 0x76 then do { _ \<leftarrow> DecodeTnsData0376 se body n; Some (None, body, t) }
      else if c = CHR 0x03 \<and> s = CHR 0x3B then Some (Some 17, body, t)
      else if c = CHR 0x11 \<and> s = CHR 0x69 then do {
        f \<leftarrow> last_035e (if n = 0 then 2 ^ 32 - 1 else n - 1) 0 None body;
        Some (Some (case f of None \<Rightarrow> 13 | Some i \<Rightarrow> i), body, t)
      }
      else if c = CHR 0x11 \<and> (s = CHR 0x6B \<or> s = CHR 0x78) then Some (Some 13, body, t)
      else Some (None, body, t))"

text \<open>A packet 0x03 0x02 holds another one, and what is behind its header is decoded once more.\<close>

function decode_request :: "sizes \<Rightarrow> session_env \<Rightarrow> cstring \<Rightarrow> int \<Rightarrow> tns \<Rightarrow> (int \<times> cstring \<times> tns) option" where
  "decode_request z se d len t =
     (if len < 0 then Some (-1, d, t)
      else if len < 2 then Some (0, d, t)
      else do {
        c \<leftarrow> nth_opt d 0;
        s \<leftarrow> nth_opt d 1;
        (k, body, t) \<leftarrow>
          (if c = CHR 0x03 \<and> s = CHR 0x02 then do {
             (_, b, t) \<leftarrow> decode_request z se (drop 9 (drop 2 d)) (len - 2 - 9) t;
             Some (Some 0, take 9 (drop 2 d) @ b, t)
           } else request_part z se c s (drop 2 d) (len - 2) t);
        (case k of
           Some k \<Rightarrow>
             if int k < len - 2 then do {
               (_, b, t) \<leftarrow> decode_request z se (drop k body) (len - 2 - int k) t;
               Some (0, take 2 d @ take k body @ b, t)
             } else Some (0, take 2 d @ body, t)
         | None \<Rightarrow> Some (0, take 2 d @ body, t))
      })"
  by pat_completeness auto
termination
  by (relation "measure (\<lambda>(z, se, d, len, t). nat len)") auto

declare decode_request.simps [simp del]

subsection \<open>The filter\<close>

definition be16 :: "int \<Rightarrow> cstring" where
  "be16 n = [char_of (n div 256), char_of n]"

definition be16_at :: "cstring \<Rightarrow> nat \<Rightarrow> int option" where
  "be16_at d i = do { a \<leftarrow> nth_opt d i; b \<leftarrow> nth_opt d (i + 1); Some (ub a * 256 + ub b) }"

text \<open>A string in the packet needs its end there.\<close>

definition text_at :: "cstring \<Rightarrow> nat \<Rightarrow> cstring option" where
  "text_at d i = (if length (zstr (drop i d)) < length (drop i d) then Some (zstr (drop i d)) else None)"

text \<open>The text of a connection is behind the two headers of 8 and 50 bytes.\<close>

definition filter_connect :: "cstring \<Rightarrow> tns \<Rightarrow> tns option" where
  "filter_connect d t =
     do {
       connect \<leftarrow> text_at d 58;
       Some (if contains connect ''Toad'' then t\<lparr>istoad := 1\<rparr>
             else if contains connect ''plsqldev'' then t\<lparr>isplsql := 1\<rparr> else t)
     }"

text \<open>The new target is noted, and the client gets an address of the proxy.\<close>

definition new_target :: "(int \<Rightarrow> bool) \<Rightarrow> (int \<Rightarrow> bool) \<Rightarrow> cstring \<Rightarrow> tns \<Rightarrow> (cstring \<times> tns) option" where
  "new_target sock taken oldconent t =
     do {
       (h, p) \<leftarrow> redirect_target oldconent (sznewHost t, inewPort t);
       prt \<leftarrow> getNewProt sock taken;
       connect \<leftarrow> connect_text (str_of (auth (t_px t)) ''pr_proxyHost'') prt;
       Some (connect, t\<lparr>sznewHost := h, inewPort := p, t_px := t_px t\<lparr>clientPort := prt\<rparr>\<rparr>)
     }"

text \<open>
  The code, the packet, what goes back and the state. In the first form the text is in a data packet behind the
  redirection, with a second text behind it; in the second it is in the packet.
\<close>

definition redirect_long :: "(int \<Rightarrow> bool) \<Rightarrow> (int \<Rightarrow> bool) \<Rightarrow> cstring \<Rightarrow> tns
    \<Rightarrow> (int \<times> cstring \<times> cstring option \<times> tns) option" where
  "redirect_long sock taken d t =
     do {
       c \<leftarrow> nth_opt d 14;
       (if c \<noteq> CHR 0x06 then Some (0, d, None, t)
        else do {
          oldconent \<leftarrow> text_at d 20;
          guard (length oldconent < 1024);
          rest \<leftarrow> text_at d (20 + length oldconent + 1);
          (connect, t) \<leftarrow> new_target sock taken oldconent t;
          let n = int (length connect) + 1 + int (length rest);
          let head = be16 10 @ take 6 (drop 2 d) @ be16 n @ be16 (n + 10) @ take 6 (drop 12 d) @ be16 64;
          Some (1, head @ drop 20 d, Some (head @ connect @ [NUL] @ rest), t)
        })
     }"

definition redirect_short :: "(int \<Rightarrow> bool) \<Rightarrow> (int \<Rightarrow> bool) \<Rightarrow> int \<Rightarrow> cstring \<Rightarrow> tns
    \<Rightarrow> (int \<times> cstring \<times> cstring option \<times> tns) option" where
  "redirect_short sock taken oldlen d t =
     do {
       guard (10 + oldlen \<le> int (length d) \<and> oldlen \<le> 1024);
       let oldconent = zstr (take (nat oldlen) (drop 10 d));
       guard (length oldconent < 1024);
       (connect, t) \<leftarrow> new_target sock taken oldconent t;
       let d = be16 (10 + int (length connect)) @ drop 2 d;
       Some (1, d, Some (take 8 d @ be16 (int (length connect)) @ connect), t)
     }"

definition filter_redirect :: "(int \<Rightarrow> bool) \<Rightarrow> (int \<Rightarrow> bool) \<Rightarrow> cstring \<Rightarrow> tns
    \<Rightarrow> (int \<times> cstring \<times> cstring option \<times> tns) option" where
  "filter_redirect sock taken d t =
     do {
       len \<leftarrow> be16_at d 0;
       oldlen \<leftarrow> be16_at d 8;
       if oldlen > len then redirect_long sock taken d t else redirect_short sock taken oldlen d t
     }"

text \<open>The filter for what a client sends (\<open>isclient\<close> is 1); \<open>inlen\<close> is the length that was read.\<close>

definition OracleFitler_client :: "sizes \<Rightarrow> session_env \<Rightarrow> (int \<Rightarrow> bool) \<Rightarrow> (int \<Rightarrow> bool) \<Rightarrow> cstring \<Rightarrow> int \<Rightarrow> tns
    \<Rightarrow> (int \<times> cstring \<times> cstring option \<times> tns) option" where
  "OracleFitler_client z se sock taken indata inlen t =
     (if inlen = 8 then Some (0, indata, None, t)
      else do {
        len \<leftarrow> be16_at indata 0;
        ucType \<leftarrow> nth_opt indata 4;
        (if ucType = CHR 0x06 then do {
           (_, d, t) \<leftarrow> decode_request z se (drop 10 indata) (len - 10) t;
           Some (0, take 10 indata @ d, None, t)
         }
         else if ucType = CHR 0x01 then do { t \<leftarrow> filter_connect indata t; Some (0, indata, None, t) }
         else if ucType = CHR 0x05 then filter_redirect sock taken indata t
         else Some (0, indata, None, t))
      })"

text \<open>What a client sends goes on to the server, changed in place; the result is always 0.\<close>

definition RecvOracleDBClient :: "sizes \<Rightarrow> session_env \<Rightarrow> (int \<Rightarrow> bool) \<Rightarrow> (int \<Rightarrow> bool) \<Rightarrow> cstring \<Rightarrow> int \<Rightarrow> tns
    \<Rightarrow> (int \<times> cstring \<times> tns) option" where
  "RecvOracleDBClient z se sock taken indata inlen t =
     do { (_, d, _, t) \<leftarrow> OracleFitler_client z se sock taken indata inlen t; Some (0, d, t) }"

subsection \<open>What is changed\<close>

text \<open>A packet in which some characters are replaced by a percent sign.\<close>

definition marked :: "cstring \<Rightarrow> cstring \<Rightarrow> bool" where
  "marked d d' \<longleftrightarrow> list_all2 (\<lambda>a b. b = a \<or> b = CHR 0x25) d d'"

lemma marked_refl [simp, intro]: "marked d d"
  by (simp add: marked_def list_all2_refl)

lemma marked_trans: "marked a b \<Longrightarrow> marked b c \<Longrightarrow> marked a c"
  unfolding marked_def by (erule (1) list_all2_trans[rotated]) auto

lemma marked_append [intro]: "marked a b \<Longrightarrow> marked c d \<Longrightarrow> marked (a @ c) (b @ d)"
  unfolding marked_def by (rule list_all2_appendI)

lemma marked_update: "marked d (d[k := CHR 0x25])"
  by (cases "k < length d") (simp_all add: marked_def list_all2_conv_all_nth nth_list_update)

lemma marked_rest: "marked (drop k d) b \<Longrightarrow> marked d (take k d @ b)"
  using marked_append[OF marked_refl[of "take k d"], of "drop k d" b] by simp

text \<open>A pending result stays or is gone, and so does the number of columns.\<close>

definition rest_kept :: "tns \<Rightarrow> tns \<Rightarrow> bool" where
  "rest_kept t t' \<longleftrightarrow> sql_reslut t' \<in> {sql_reslut t, []} \<and> nGlobMaxColNum t' \<in> {nGlobMaxColNum t, 0}"

lemma rest_kept_simps [simp]:
  "rest_kept t t" "rest_kept t (t\<lparr>t_px := px\<rparr>)" "rest_kept t (t\<lparr>istoad := i\<rparr>)" "rest_kept t (t\<lparr>isplsql := i\<rparr>)"
  by (simp_all add: rest_kept_def)

lemma rest_kept_trans: "rest_kept a b \<Longrightarrow> rest_kept b c \<Longrightarrow> rest_kept a c"
  by (auto simp: rest_kept_def)

lemma findSQL_marked: "findSQL d n s = Some (r, d') \<Longrightarrow> marked d d'"
  by (auto simp: findSQL_def Option.bind_eq_Some_conv marked_update)

lemma spoil_marked: "spoil i s d n t = Some (d', t') \<Longrightarrow> marked d d' \<and> t_logs t' = t_logs t \<and> rest_kept t t'"
  by (auto simp: spoil_def Option.bind_eq_Some_conv dest!: findSQL_marked marked_rest split: if_split_asm)

lemma log_command_grows: "log_command se u px lg = Some (px', lg') \<Longrightarrow> grows lg lg'"
  by (auto simp: log_command_def Option.bind_eq_Some_conv dest: SetUseractivitylog_grows split: if_split_asm)

lemma InsertUseractivitylog_grows: "InsertUseractivitylog z se px lg = Some (r, px', lg') \<Longrightarrow> grows lg lg'"
  by (auto simp: InsertUseractivitylog_def record_command_def Let_def Option.bind_eq_Some_conv dest: log_command_grows)

lemma InsertUseractivityoutlog_grows: "InsertUseractivityoutlog z se px lg = Some (r, px', lg') \<Longrightarrow> grows lg lg'"
  by (auto simp: InsertUseractivityoutlog_def Let_def Option.bind_eq_Some_conv dest: SetUseractivityoutlog_grows split: if_split_asm)

lemma DBOracle_grows:
  "DBOracleOperate z se s t = Some (s', t') \<Longrightarrow> grows (t_logs t) (t_logs t')"
  "flush_result z se t = Some t' \<Longrightarrow> grows (t_logs t) (t_logs t')"
  by (auto simp: DBOracleOperate_def flush_result_def DBOracleReslut_def Let_def Option.bind_eq_Some_conv
      dest: InsertUseractivitylog_grows InsertUseractivityoutlog_grows split: if_split_asm)

lemma DBOracle_rest:
  "DBOracleOperate z se s t = Some (s', t') \<Longrightarrow> rest_kept t t'"
  "flush_result z se t = Some t' \<Longrightarrow> rest_kept t t'"
  by (auto simp: DBOracleOperate_def flush_result_def DBOracleReslut_def rest_kept_def Let_def Option.bind_eq_Some_conv
      split: if_split_asm)

text \<open>What holds from a packet and its state to the ones after a call.\<close>

definition only_marks :: "cstring \<times> tns \<Rightarrow> cstring \<times> tns \<Rightarrow> bool" where
  "only_marks p q \<longleftrightarrow> marked (fst p) (fst q) \<and> grows (t_logs (snd p)) (t_logs (snd q)) \<and> rest_kept (snd p) (snd q)"

lemma only_marks_refl [simp]: "only_marks p p"
  by (simp add: only_marks_def)

lemma DecodeTnsData035e_marks:
  assumes "DecodeTnsData035e z se d n t = Some (d', t')"
  shows "only_marks (d, t) (d', t')"
proof -
  obtain i s k flag where r: "request_text t d n = Some (i, s, k, flag)"
    using assms by (auto simp: DecodeTnsData035e_def Option.bind_eq_Some_conv)
  show ?thesis
  proof (cases "k \<le> 1")
    case True
    with assms r show ?thesis by (auto simp: DecodeTnsData035e_def only_marks_def rest_kept_def)
  next
    case False
    with assms r obtain t1 sql t2 where f: "flush_result z se (t\<lparr>nGlobMaxColNum := 0, oracleFlag := flag\<rparr>) = Some t1"
      and o: "DBOracleOperate z se (if k < 4096 then s else take 4096 s) t1 = Some (sql, t2)"
      and p: "spoil i sql d n t2 = Some (d', t')"
      by (auto simp: DecodeTnsData035e_def Option.bind_eq_Some_conv)
    have "rest_kept t (t\<lparr>nGlobMaxColNum := 0, oracleFlag := flag\<rparr>)" by (simp add: rest_kept_def)
    with DBOracle_rest(2)[OF f] DBOracle_rest(1)[OF o] spoil_marked[OF p] have "rest_kept t t'" by (blast intro: rest_kept_trans)
    with DBOracle_grows(2)[OF f] DBOracle_grows(1)[OF o] spoil_marked[OF p] show ?thesis
      by (auto simp: only_marks_def intro: grows_trans)
  qed
qed

lemma request_part_marks:
  assumes "request_part z se c s d n t = Some (k, d', t')"
  shows "only_marks (d, t) (d', t')"
proof -
  consider "DecodeTnsData035e z se d n t = Some (d', t')" | "d' = d" "flush_result z se t = Some t'" | "d' = d" "t' = t"
    using assms by (auto simp: request_part_def Option.bind_eq_Some_conv split: if_split_asm)
  then show ?thesis
    by cases (auto simp: only_marks_def dest: DecodeTnsData035e_marks DBOracle_grows(2) DBOracle_rest(2))
qed

lemma only_marks_rest:
  "only_marks (drop k d, t) (b, t') \<Longrightarrow> only_marks (d, t) (take k d @ b, t')"
  by (simp add: only_marks_def marked_rest)

lemma only_marks_trans: "only_marks p q \<Longrightarrow> only_marks q r \<Longrightarrow> only_marks p r"
  by (auto simp: only_marks_def intro: marked_trans grows_trans rest_kept_trans)

lemma decode_request_marks:
  "decode_request z se d len t = Some (r, d', t') \<Longrightarrow> only_marks (d, t) (d', t')"
proof (induction z se d len t arbitrary: r d' t' rule: decode_request.induct)
  case (1 z se d len t)
  show ?case
  proof (cases "len < 2")
    case True
    with "1.prems" show ?thesis by (auto simp: decode_request.simps[of z se d] split: if_split_asm)
  next
    case False
    then have len: "\<not> len < 0" "\<not> len < 2" by auto
    from "1.prems" len obtain c s where cs: "nth_opt d 0 = Some c" "nth_opt d 1 = Some s"
      by (auto simp: decode_request.simps[of z se d] Option.bind_eq_Some_conv)
    define part where "part = (if c = CHR 0x03 \<and> s = CHR 0x02 then do {
             (_, b, t) \<leftarrow> decode_request z se (drop 9 (drop 2 d)) (len - 2 - 9) t;
             Some (Some 0, take 9 (drop 2 d) @ b, t)
           } else request_part z se c s (drop 2 d) (len - 2) t)"
    from "1.prems" len cs obtain k body t1 where p: "part = Some (k, body, t1)"
      and rest: "(case k of
           Some k \<Rightarrow>
             if int k < len - 2 then do {
               (_, b, t) \<leftarrow> decode_request z se (drop k body) (len - 2 - int k) t1;
               Some (0, take 2 d @ take k body @ b, t)
             } else Some (0, take 2 d @ body, t1)
         | None \<Rightarrow> Some (0, take 2 d @ body, t1)) = Some (r, d', t')"
      unfolding part_def by (simp only: decode_request.simps[of z se d] if_False Option.bind_eq_Some_conv) (auto simp del: nth_opt_Some)
    have m: "only_marks (drop 2 d, t) (body, t1)"
    proof (cases "c = CHR 0x03 \<and> s = CHR 0x02")
      case True
      with p obtain r1 b where b: "decode_request z se (drop 9 (drop 2 d)) (len - 2 - 9) t = Some (r1, b, t1)"
        and body: "body = take 9 (drop 2 d) @ b"
        by (auto simp: part_def Option.bind_eq_Some_conv)
      from "1.IH"(1)[OF len cs True b] show ?thesis unfolding body by (rule only_marks_rest)
    next
      case False
      with p show ?thesis by (auto simp: part_def intro: request_part_marks)
    qed
    show ?thesis
    proof (cases "\<exists>j. k = Some j \<and> int j < len - 2")
      case True
      then obtain j where j: "k = Some j" "int j < len - 2" by blast
      with rest obtain r1 b where b: "decode_request z se (drop j body) (len - 2 - int j) t1 = Some (r1, b, t')"
        and d': "d' = take 2 d @ take j body @ b"
        by (auto simp: Option.bind_eq_Some_conv)
      have "only_marks (body, t1) (take j body @ b, t')"
        using "1.IH"(2)[OF len cs _ refl refl j b] p unfolding part_def by (intro only_marks_rest) auto
      with m show ?thesis unfolding d' using only_marks_trans only_marks_rest by blast
    next
      case False
      with rest have "d' = take 2 d @ body" "t' = t1" by (auto split: option.split_asm)
      with m show ?thesis using only_marks_rest by blast
    qed
  qed
qed

lemma filter_connect_rest: "filter_connect d t = Some t' \<Longrightarrow> t_logs t' = t_logs t \<and> rest_kept t t'"
  by (auto simp: filter_connect_def Option.bind_eq_Some_conv split: if_split_asm)

lemma new_target_rest: "new_target sock taken s t = Some (c, t') \<Longrightarrow> t_logs t' = t_logs t \<and> rest_kept t t'"
  by (auto simp: new_target_def rest_kept_def Option.bind_eq_Some_conv)

lemma filter_redirect_rest: "filter_redirect sock taken d t = Some (r, d', x, t') \<Longrightarrow> t_logs t' = t_logs t \<and> rest_kept t t'"
  by (auto simp: filter_redirect_def redirect_long_def redirect_short_def Let_def Option.bind_eq_Some_conv
      dest!: new_target_rest split: if_split_asm)

lemma OracleFitler_client_cases:
  assumes "OracleFitler_client z se sock taken indata inlen t = Some (c, d', x, t')"
  shows "d' = indata \<and> t_logs t' = t_logs t \<and> rest_kept t t'
    \<or> (\<exists>c1 d1 len. decode_request z se (drop 10 indata) len t = Some (c1, d1, t') \<and> d' = take 10 indata @ d1)
    \<or> nth_opt indata 4 = Some (CHR 0x05) \<and> filter_redirect sock taken indata t = Some (c, d', x, t')"
proof (cases "inlen = 8")
  case True
  with assms show ?thesis by (simp add: OracleFitler_client_def)
next
  case False
  with assms obtain len u where u: "be16_at indata 0 = Some len" "nth_opt indata 4 = Some u"
    by (auto simp: OracleFitler_client_def Option.bind_eq_Some_conv simp del: nth_opt_Some)
  consider "u = CHR 0x06" | "u = CHR 0x01" | "u = CHR 0x05" | "u \<noteq> CHR 0x06" "u \<noteq> CHR 0x01" "u \<noteq> CHR 0x05" by blast
  then show ?thesis
  proof cases
    case 1
    with assms u False have "do { (_, d, t) \<leftarrow> decode_request z se (drop 10 indata) (len - 10) t;
        Some (0, take 10 indata @ d, None, t) } = Some (c, d', x, t')"
      by (simp add: OracleFitler_client_def del: nth_opt_Some)
    then show ?thesis by (auto simp: Option.bind_eq_Some_conv)
  next
    case 2
    with assms u False have "do { t \<leftarrow> filter_connect indata t; Some (0, indata, None, t) } = Some (c, d', x, t')"
      by (simp add: OracleFitler_client_def del: nth_opt_Some)
    then show ?thesis by (auto simp: Option.bind_eq_Some_conv dest!: filter_connect_rest)
  next
    case 3
    with assms u False show ?thesis by (simp add: OracleFitler_client_def del: nth_opt_Some)
  next
    case 4
    with assms u False show ?thesis by (simp add: OracleFitler_client_def del: nth_opt_Some)
  qed
qed

lemma RecvOracleDBClient_only_marks:
  assumes "RecvOracleDBClient z se sock taken indata inlen t = Some (r, d', t')"
  shows "r = 0 \<and> (nth_opt indata 4 \<noteq> Some (CHR 0x05) \<longrightarrow> marked indata d') \<and> grows (t_logs t) (t_logs t') \<and> rest_kept t t'"
proof -
  obtain c x where f: "OracleFitler_client z se sock taken indata inlen t = Some (c, d', x, t')" and r: "r = 0"
    using assms by (auto simp: RecvOracleDBClient_def Option.bind_eq_Some_conv)
  from OracleFitler_client_cases[OF f] consider "d' = indata" "t_logs t' = t_logs t" "rest_kept t t'"
    | c1 d1 len where "decode_request z se (drop 10 indata) len t = Some (c1, d1, t')" "d' = take 10 indata @ d1"
    | "nth_opt indata 4 = Some (CHR 0x05)" "filter_redirect sock taken indata t = Some (c, d', x, t')" by blast
  then show ?thesis
  proof cases
    case 2
    then have "only_marks (indata, t) (d', t')" using only_marks_rest decode_request_marks by blast
    with r show ?thesis by (simp add: only_marks_def)
  qed (use r in \<open>auto dest: filter_redirect_rest\<close>)
qed

text \<open>C5: whatever a client sends but a redirection, the packet that goes on to the server has the same length
  and differs from what was sent by percent signs only; the logs are only added to, and the code is 0.\<close>

theorem RecvOracleDBClient_marks:
  assumes "RecvOracleDBClient z se sock taken indata inlen t = Some (r, d', t')" and "nth_opt indata 4 \<noteq> Some (CHR 0x05)"
  shows "r = 0 \<and> length d' = length indata \<and> (\<forall>k<length indata. d' ! k = indata ! k \<or> d' ! k = CHR 0x25)
    \<and> grows (t_logs t) (t_logs t')"
  using RecvOracleDBClient_only_marks[OF assms(1)] assms(2) by (auto simp: marked_def list_all2_conv_all_nth)

subsection \<open>A statement in pieces\<close>

lemma find_fe40_strstr:
  "strstr s [CHR 0xFE, CHR 0x40] = Some k \<Longrightarrow> k < n \<Longrightarrow> find_fe40 (length u) n (u @ s) = Some (length u + k)"
proof (induction s arbitrary: u n k)
  case (Cons a s)
  obtain m where n: "n = Suc m" using Cons.prems(2) by (cases n) simp_all
  have a: "nth_opt (u @ a # s) (length u) = Some a" by (simp add: nth_opt_def)
  show ?case
  proof (cases "prefix [CHR 0xFE, CHR 0x40] (a # s)")
    case True
    then obtain v where "a = CHR 0xFE" "s = CHR 0x40 # v" by (cases s) auto
    then show ?thesis using Cons.prems(1) by (simp add: n nth_opt_def nth_append)
  next
    case False
    with Cons.prems(1) obtain j where j: "strstr s [CHR 0xFE, CHR 0x40] = Some j" "k = Suc j" by auto
    then have ih: "find_fe40 (length u + 1) m (u @ a # s) = Some (length u + k)"
      using Cons.IH[of j m "u @ [a]"] Cons.prems(2) n by simp
    from j(1) obtain b v where "s = b # v" by (cases s) simp_all
    then have "nth_opt (u @ a # s) (length u + 1) = Some b" by (simp add: nth_opt_def nth_append)
    with False ih a show ?thesis using \<open>s = b # v\<close>
      by (cases "a = CHR 0xFE") (simp_all add: n del: nth_opt_Some)
  qed
qed simp

lemma copy_text_until:
  "NUL \<notin> set s \<Longrightarrow> length s < n \<Longrightarrow> length acc + length s \<le> QUERYSIZE \<Longrightarrow> copy_text n (s @ NUL # r) acc = Some (acc @ s)"
proof (induction s arbitrary: n acc)
  case Nil
  then show ?case by (cases n) simp_all
next
  case (Cons c s)
  then obtain m where "n = Suc m" by (cases n) simp_all
  moreover have "c \<noteq> NUL" "NUL \<notin> set s" using Cons.prems(1) by auto
  ultimately show ?case using Cons.prems Cons.IH[of m "acc @ [c]"] by simp
qed

text \<open>What is taken for the statement when the first piece has 64 characters: the lengths of the other pieces are
  in it.\<close>

definition seen_text :: "cstring \<Rightarrow> cstring list \<Rightarrow> cstring" where
  "seen_text x ys = x @ concat (map (\<lambda>y. char_of (length y) # y) ys)"

lemma request_text_pieces:
  assumes "pre \<noteq> []" and "CHR 0xFE \<notin> set pre" and "length x = 64" and "NUL \<notin> set x"
    and "\<forall>y\<in>set ys. 0 < length y \<and> length y < 256 \<and> NUL \<notin> set y" and "length (seen_text x ys) \<le> QUERYSIZE"
    and "d = pre @ pieces (x # ys) @ r" and "sql_place t d = Some i"
  shows "request_text t d (int (length d)) = Some (i, seen_text x ys, int (length (seen_text x ys)) - 1, oracleFlag t)"
proof -
  let ?s = "seen_text x ys"
  have c: "char_of (length x) = CHR 0x40" unfolding assms(3) by code_simp
  have d: "d = pre @ CHR 0xFE # CHR 0x40 # ?s @ NUL # r"
    by (simp add: assms(7) pieces_def seen_text_def c)
  have n: "NUL \<notin> set ?s"
  proof -
    have "NUL \<noteq> char_of (length y)" if "y \<in> set ys" for y
    proof
      assume "NUL = char_of (length y)"
      then have "nat (ub NUL) = length y" using assms(5) that nat_ub_char_of[of "length y"] by metis
      with assms(5) that show False by auto
    qed
    then show ?thesis using assms(4,5) by (auto simp: seen_text_def)
  qed
  have "find_fe40 0 (nat (int (length d) - 1)) d = Some (0 + length pre)"
    using find_fe40_strstr[of d "length pre" "nat (int (length d) - 1)" "[]"]
      strstr_skip[OF assms(2), of "CHR 0xFE # CHR 0x40 # ?s @ NUL # r" "[CHR 0x40]"] by (simp add: d)
  moreover have "copy_text (nat (int (length d) - int (length pre + 2))) (drop (length pre + 2) d) [] = Some ?s"
    using copy_text_until[OF n, of "nat (int (length d) - int (length pre + 2))" "[]" r] assms(6) by (simp add: d)
  moreover have "?s \<noteq> []" using assms(3) by (auto simp: seen_text_def)
  ultimately show ?thesis using assms(1,8) by (simp add: request_text_def of_nat_diff Suc_le_eq)
qed

lemma ub_char_of: "0 \<le> n \<Longrightarrow> ub (char_of (n::int)) = n mod 256"
  by (simp add: of_char_of)

lemma be16_read:
  assumes "0 \<le> n" and "n < 65536"
  shows "be16_at (be16 n @ r) 0 = Some n"
  using assms by (simp add: be16_def be16_at_def nth_opt_def of_char_of)

text \<open>C4: a statement sent in pieces, the first of 64 characters, is seen by the policies and the log with the
  length byte of every other piece in it; the packet goes on as it was sent unless that text is denied.\<close>

theorem statement_in_pieces:
  assumes "pre \<noteq> []" and "CHR 0xFE \<notin> set pre" and "length x = 64" and "NUL \<notin> set x"
    and "\<forall>y\<in>set ys. 0 < length y \<and> length y < 256 \<and> NUL \<notin> set y"
    and "seen = seen_text x ys" and "length seen < 4096" and "length seen < sz_line z"
    and "body = pre @ pieces (x # ys) @ r" and "sql_place t body = Some i"
    and "indata = be16 (int (length indata)) @ h1 @ [CHR 0x06] @ h2 @ [CHR 0x03, CHR 0x5E] @ body"
    and "length h1 = 2" and "length h2 = 5" and "length indata < 65536" and "inlen \<noteq> 8"
    and "sql_reslut t = []"
    and "InsertUseractivitylog z se (t_px t\<lparr>lineOutBuffer := blank_lines seen\<rparr>) (t_logs t) = Some (rc, px, lg)"
  shows "RecvOracleDBClient z se sock taken indata inlen t =
    do { (b, t) \<leftarrow> spoil i (blank_lines seen) body (int (length body))
                    (t\<lparr>isquery := 1, nGlobMaxColNum := 0, t_px := px, t_logs := lg\<rparr>);
         Some (0, take 12 indata @ b, t) }"
proof -
  let ?n = "length (seen_text x ys)" and ?t = "t\<lparr>isquery := 1, nGlobMaxColNum := 0, t_px := px, t_logs := lg\<rparr>"
  obtain a1 a2 where h1: "h1 = [a1, a2]" using assms(12) by (auto simp: length_Suc_conv numeral_2_eq_2)
  obtain b1 b2 b3 b4 b5 where h2: "h2 = [b1, b2, b3, b4, b5]" using assms(13) by (auto simp: length_Suc_conv numeral_eq_Suc)
  have len: "be16_at indata 0 = Some (int (length indata))" using assms(11,14) be16_read by (metis of_nat_0_le_iff of_nat_less_iff of_nat_numeral)
  have u: "nth_opt indata 4 = Some (CHR 0x06)" and d: "drop 10 indata = CHR 0x03 # CHR 0x5E # body" and tk: "take 12 indata = take 10 indata @ [CHR 0x03, CHR 0x5E]"
    by (subst assms(11), simp add: be16_def h1 h2 nth_opt_def)+
  from d have l: "length indata = length body + 12" by (auto dest: arg_cong[of _ _ length])
  have q: "QUERYSIZE = 40960" by (simp add: QUERYSIZE_def)
  have r: "request_text t body (int (length body)) = Some (i, seen, int ?n - 1, oracleFlag t)"
    unfolding assms(6) using assms(6,7) q by (intro request_text_pieces[OF assms(1-5) _ assms(9,10)]) simp
  have n: "64 \<le> ?n" by (simp add: seen_text_def assms(3))
  have o: "DBOracleOperate z se seen (t\<lparr>nGlobMaxColNum := 0, oracleFlag := oracleFlag t\<rparr>) = Some (blank_lines seen, ?t)"
    using assms(8,17) by (simp add: DBOracleOperate_def blank_lines_def Let_def)
  have e: "DecodeTnsData035e z se body (int (length body)) t = spoil i (blank_lines seen) body (int (length body)) ?t"
    using r n o assms(6,7,16) by (simp add: DecodeTnsData035e_def flush_result_def)
  have "decode_request z se (drop 10 indata) (int (length indata) - 10) t =
      do { (b, t) \<leftarrow> spoil i (blank_lines seen) body (int (length body)) ?t; Some (0, [CHR 0x03, CHR 0x5E] @ b, t) }"
    unfolding d l by (subst decode_request.simps) (simp add: request_part_def e nth_opt_def del: nth_opt_Some)
  then show ?thesis
    using assms(15) len u tk
    by (cases "spoil i (blank_lines seen) body (int (length body)) ?t")
      (auto simp: RecvOracleDBClient_def OracleFitler_client_def simp del: nth_opt_Some)
qed

text \<open>The policy forbids DROP; the statement has it on the border of two pieces, and passes.\<close>

definition split_drop :: cstring where
  "split_drop = be16 86 @ [NUL, NUL] @ [CHR 0x06] @ replicate 5 NUL @ [CHR 0x03, CHR 0x5E]
     @ [CHR 0x01] @ pieces [replicate 62 (CHR 0x20) @ ''DR'', ''OP t''] @ [NUL]"

definition drop_px :: proxyinfo where
  "drop_px = plain_px [] [no_drop]\<lparr>table_count := 1, auth := [''pr_cmdFlag'' \<mapsto> FInt 1]\<rparr>"

definition plain_tns :: tns where
  "plain_tns = \<lparr>isquery = 0, iversion = 0, istoad = 0, isplsql = 0, bitversion = 32, oracleFlag = 0, nGlobMaxColNum = 0,
     sql_reslut = [], sznewHost = [], inewPort = 0, t_px = drop_px, t_logs = empty_logs\<rparr>"

definition plain_sizes :: sizes where
  "plain_sizes = \<lparr>sz_ptr = 8, sz_cmd = 512, sz_desc = 4096, sz_line = 8192\<rparr>"

lemma split_drop_passes:
  "\<exists>px. InsertUseractivitylog plain_sizes quiet_env
      (drop_px\<lparr>lineOutBuffer := blank_lines (seen_text (replicate 62 (CHR 0x20) @ ''DR'') [''OP t''])\<rparr>) empty_logs
    = Some (0, px, empty_logs) \<and> px_level px = 0"
proof -
  let ?s = "seen_text (replicate 62 (CHR 0x20) @ ''DR'') [''OP t'']"
  let ?px = "drop_px\<lparr>lineOutBuffer := blank_lines ?s\<rparr>"
  have s: "blank_lines ?s = ?s" "quotes ?s = ?s" "cut 8 ?s = ?s" "length ?s = 69" by code_simp+
  have "\<not> contains (strupr ?s) ''DROP''" by code_simp
  then have m: "MatchCclItem (Some no_drop) ?s 1 = Some 0"
    using s(4) by (simp add: MatchCclItem_def no_drop_def zero_policy_def ccl_hit_def)
  have px: "lineOutBuffer ?px = ?s" "int_of (auth ?px) ''pr_cmdFlag'' = 1" "int_of (auth ?px) ''pr_auditFlag'' = 0"
    "[no_drop] = take (nat (table_count ?px)) (policy ?px)" "nat (table_count ?px) \<le> length (policy ?px)" "px_level ?px = 0"
    by (simp_all add: drop_px_def plain_px_def s(1) int_of_def)
  have z: "2 \<le> sz_ptr plain_sizes" "sz_cmd plain_sizes \<le> 512" "sz_ptr plain_sizes = 8" "sz_cmd plain_sizes = 512"
    by (simp_all add: plain_sizes_def)
  have nul: "NUL \<notin> set (lineOutBuffer ?px)" unfolding px(1) by code_simp
  have len: "length (lineOutBuffer ?px) < BUFSIZE" "length ?s < sz_cmd plain_sizes" unfolding px(1) s(4) by (simp_all add: BUFSIZE_def z)
  have c: "?s = cut (sz_ptr plain_sizes) (quotes (lineOutBuffer ?px))" unfolding px(1) z(3) s(2,3) ..
  have ms: "\<forall>p\<in>set [no_drop]. MatchCclItem (Some p) ?s (int_of (auth ?px) ''pr_cmdFlag'') \<noteq> None" unfolding px(2) by (simp add: m)
  have no: "\<not> (\<exists>p\<in>set [no_drop]. MatchCclItem (Some p) ?s (int_of (auth ?px) ''pr_cmdFlag'') \<noteq> Some 0)"
    unfolding px(2) by (simp only: list.set set_simps m ball_simps bex_simps) simp
  note e = InsertUseractivitylog_eval[where se = quiet_env and st = empty_logs and ?st1.0 = empty_logs and rc = 0 and i = "[]",
      OF z(1) nul len(1) c len(2) z(2) px(4,5) ms refl]
  have "InsertUseractivitylog plain_sizes quiet_env ?px empty_logs = Some (0, ?px\<lparr>start_in := 1, px_cmd := ?s, px_level := px_level ?px, userlog_id := userlog_id ?px\<rparr>, empty_logs)"
    using e unfolding if_not_P[OF no] px(3) by (simp only: if_True simp_thms)
  then show ?thesis using px(6) by (intro exI conjI) (assumption, simp)
qed

theorem statement_in_pieces_witness:
  "\<exists>t'. RecvOracleDBClient plain_sizes quiet_env (\<lambda>_. True) (\<lambda>_. False) split_drop 86 plain_tns = Some (0, split_drop, t')"
proof -
  let ?x = "replicate 62 (CHR 0x20) @ ''DR''" and ?body = "[CHR 0x01] @ pieces [replicate 62 (CHR 0x20) @ ''DR'', ''OP t''] @ [NUL]"
  obtain px where px: "InsertUseractivitylog plain_sizes quiet_env
      (t_px plain_tns\<lparr>lineOutBuffer := blank_lines (seen_text ?x [''OP t''])\<rparr>) (t_logs plain_tns) = Some (0, px, empty_logs)"
    and lv: "px_level px = 0"
    using split_drop_passes by (auto simp: plain_tns_def)
  have l: "length split_drop = 86" "length ?x = 64" "length (seen_text ?x [''OP t'']) = 69"
    by (simp_all add: split_drop_def pieces_def be16_def seen_text_def)
  have d: "split_drop = be16 (int (length split_drop)) @ [NUL, NUL] @ [CHR 0x06] @ replicate 5 NUL @ [CHR 0x03, CHR 0x5E] @ ?body"
    unfolding l by (simp add: split_drop_def)
  have p: "sql_place plain_tns ?body = Some 93" by (simp add: sql_place_def plain_tns_def)
  have t: "drop 12 split_drop = ?body" by (simp add: split_drop_def be16_def numeral_eq_Suc)
  have "RecvOracleDBClient plain_sizes quiet_env (\<lambda>_. True) (\<lambda>_. False) split_drop 86 plain_tns =
    do { (b, t) \<leftarrow> spoil 93 (blank_lines (seen_text ?x [''OP t''])) ?body (int (length ?body))
                    (plain_tns\<lparr>isquery := 1, nGlobMaxColNum := 0, t_px := px, t_logs := empty_logs\<rparr>);
         Some (0, take 12 split_drop @ b, t) }"
    by (rule statement_in_pieces[OF _ _ l(2) _ _ refl _ _ refl p d _ _ _ _ _ px])
      (simp_all add: l plain_sizes_def plain_tns_def)
  also have "\<dots> = Some (0, take 12 split_drop @ drop 12 split_drop, plain_tns\<lparr>isquery := 1, nGlobMaxColNum := 0, t_px := px, t_logs := empty_logs\<rparr>)"
    unfolding t by (simp add: spoil_def lv)
  finally show ?thesis by simp
qed

text \<open>A packet that asks the server for something else.\<close>

theorem RecvOracleDBClient_marks_witness:
  "\<exists>d t'. RecvOracleDBClient plain_sizes quiet_env (\<lambda>_. True) (\<lambda>_. False) (be16 12 @ [NUL, NUL, CHR 0x06] @ replicate 5 NUL @ [CHR 0x03, CHR 0x73]) 12 plain_tns
     = Some (0, d, t') \<and> length d = 12"
proof -
  let ?d = "be16 12 @ [NUL, NUL, CHR 0x06] @ replicate 5 NUL @ [CHR 0x03, CHR 0x73]"
  have "decode_request plain_sizes quiet_env [CHR 0x03, CHR 0x73] 2 plain_tns = Some (0, [CHR 0x03, CHR 0x73], plain_tns)"
    by (subst decode_request.simps) (simp add: nth_opt_def request_part_def del: nth_opt_Some)
  then have r: "RecvOracleDBClient plain_sizes quiet_env (\<lambda>_. True) (\<lambda>_. False) ?d 12 plain_tns = Some (0, ?d, plain_tns)"
    using be16_read[of 12 "[NUL, NUL, CHR 0x06] @ replicate 5 NUL @ [CHR 0x03, CHR 0x73]"]
    by (simp add: RecvOracleDBClient_def OracleFitler_client_def nth_opt_def be16_def numeral_eq_Suc del: nth_opt_Some)
  have "nth_opt ?d 4 \<noteq> Some (CHR 0x05)" by (simp add: be16_def nth_opt_def)
  from RecvOracleDBClient_marks[OF r this] r show ?thesis by (intro exI conjI) (assumption, simp add: be16_def)
qed

end
