(* ===== verification/TnsValues.thy ===== *)
theory TnsValues
  imports TnsText
begin

text \<open>
  The values of result rows, \<^verbatim>\<open>OracleProxy/oraclefilter.c\<close>: \<open>printreslut\<close>, \<open>PrintfNum\<close> and \<open>PrintData\<close> (lines 43
  to 410), and \<open>GetColStrLen\<close> (859 to 869).

  A value is the list of the characters from its start to the end of its array; \<open>data_text\<close> is what
  \<open>PrintData\<close> prints for it, in one piece.
\<close>

subsection \<open>The result\<close>

text \<open>
  \<open>sql_reslut\<close> and \<open>sprint_buf\<close> have 4096 bytes. A text that does not fit is cut one character too late: the zero
  byte goes behind the array.
\<close>

definition printreslut :: "cstring \<Rightarrow> cstring \<Rightarrow> cstring option" where
  "printreslut sql_reslut s =
     (if \<not> length s < 4096 then None
      else if 4096 \<le> length sql_reslut then Some sql_reslut
      else if 4096 \<le> length sql_reslut + length s then None
      else Some (sql_reslut @ s))"

text \<open>A text that is printed in pieces ends up as the whole text does, as long as the result is in its array.\<close>

lemma printreslut_pieces:
  "length res < 4096 \<Longrightarrow> printreslut res (concat ss) = foldl (\<lambda>r s. do { r \<leftarrow> r; printreslut r s }) (Some res) ss"
proof (induction ss arbitrary: res)
  case Nil
  then show ?case by (simp add: printreslut_def)
next
  case (Cons s ss)
  have none: "foldl (\<lambda>r s. do { r \<leftarrow> r; printreslut r s }) None ss = None"
    by (induction ss) auto
  show ?case
  proof (cases "length res + length s < 4096")
    case True
    then have "printreslut res s = Some (res @ s)" and "printreslut res (s @ concat ss) = printreslut (res @ s) (concat ss)"
      by (auto simp: printreslut_def)
    with True Cons.IH[of "res @ s"] show ?thesis by simp
  next
    case False
    with Cons.prems none show ?thesis by (auto simp: printreslut_def)
  qed
qed

definition PrintfNum :: "int \<Rightarrow> cstring" where
  "PrintfNum uNum = (if uNum < 100 then fmt_0d 2 uNum else [])"

subsection \<open>Numbers\<close>

text \<open>The first \<open>n\<close> characters, all of them in the array.\<close>

definition first_n :: "int \<Rightarrow> cstring \<Rightarrow> cstring option" where
  "first_n n d = (if n \<le> int (length d) then Some (take (nat n) d) else None)"

text \<open>The digits, to the base 100, with the point before the one number \<open>intlen\<close>; \<open>dec\<close> reads a byte.\<close>

fun number_digits :: "(int \<Rightarrow> int) \<Rightarrow> int \<Rightarrow> int \<Rightarrow> cstring \<Rightarrow> cstring" where
  "number_digits dec intlen i [] = []"
| "number_digits dec intlen i (c # r) =
     (if i - 1 = intlen then (if intlen = 0 then ''0'' else []) @ ''.'' else [])
     @ (if i = 1 \<and> i < intlen then fmt_d (dec (ub c)) else PrintfNum (dec (ub c)))
     @ number_digits dec intlen (i + 1) r"

definition zero_pairs :: "int \<Rightarrow> cstring" where
  "zero_pairs n = concat (replicate (nat n) ''00'')"

definition number_text :: "cstring \<Rightarrow> int \<Rightarrow> cstring option" where
  "number_text d len =
     (case d of
        [] \<Rightarrow> None
      | c # r \<Rightarrow>
          if ub c < 0x3F then do {
            let intlen = 63 - ub c;
            nonzero \<leftarrow> (if 0 < len then do { e \<leftarrow> nth_opt r 0; Some (e \<noteq> NUL) } else Some False);
            (if \<not> nonzero then Some ''NULL|''
             else do {
               ds \<leftarrow> first_n (len - 2) r;
               Some ((if len - 2 > 0 then ''-'' else []) @ number_digits (\<lambda>b. (101 - b) mod 256) intlen 1 ds
                 @ (if len - 2 > 0 \<and> intlen > len - 2 then zero_pairs (intlen + 2 - len) else []) @ ''|'')
             })
          }
          else if 0xC0 \<le> ub c then do {
            let intlen = ub c - 192;
            ds \<leftarrow> first_n (len - 1) r;
            Some (number_digits (\<lambda>b. (b - 1) mod 256) intlen 1 ds
              @ (if len - 1 > 0 \<and> intlen > len - 1 then zero_pairs (intlen + 1 - len) else []) @ ''|'')
          }
          else if 0x80 \<le> ub c then Some ''0|'' else Some [])"

subsection \<open>Floating point numbers\<close>

text \<open>
  \<open>%f\<close>: the nearest number with six decimals, the even one of two. The arguments are the sizes of the
  exponent and the fraction and the bits.
\<close>

definition round_even :: "nat \<Rightarrow> nat \<Rightarrow> nat" where
  "round_even n k =
     (let q = n div k; r = n mod k
      in if 2 * r < k \<or> (2 * r = k \<and> even q) then q else q + 1)"

definition fmt_f :: "nat \<Rightarrow> nat \<Rightarrow> nat \<Rightarrow> cstring" where
  "fmt_f eb mb w =
     (let sign = (if odd (w div 2 ^ (mb + eb)) then ''-'' else []);
          e = w div 2 ^ mb mod 2 ^ eb;
          m = w mod 2 ^ mb;
          mant = (if e = 0 then m else 2 ^ mb + m);
          ex = int (max e 1) - (2 ^ (eb - 1) - 1) - int mb;
          n = (if 0 \<le> ex then mant * 10 ^ 6 * 2 ^ nat ex else round_even (mant * 10 ^ 6) (2 ^ nat (- ex)))
      in sign @ (if e = 2 ^ eb - 1 then (if m = 0 then ''inf'' else ''nan'')
                 else show_nat (n div 10 ^ 6) @ ''.'' @ pad0 6 (show_nat (n mod 10 ^ 6))))"

definition be_nat :: "cstring \<Rightarrow> nat" where
  "be_nat s = foldl (\<lambda>a c. 256 * a + of_char c) 0 s"

text \<open>With version 11 or 64 bits the sign bit is the other way round, and negative numbers are complemented.\<close>

definition float_bytes :: "bool \<Rightarrow> cstring \<Rightarrow> cstring" where
  "float_bytes flip s =
     (case s of [] \<Rightarrow> []
      | c # r \<Rightarrow> if \<not> flip then s
                 else if 0x80 \<le> ub c then char_of (ub c - 0x80) # r
                 else map (\<lambda>c. char_of (0xFF - ub c)) s)"

definition float_text :: "nat \<Rightarrow> nat \<Rightarrow> int \<Rightarrow> bool \<Rightarrow> cstring \<Rightarrow> int \<Rightarrow> cstring option" where
  "float_text eb mb n flip d len =
     (if len = n then do { s \<leftarrow> first_n n d; Some (fmt_f eb mb (be_nat (float_bytes flip s)) @ ''|'') }
      else Some [])"

subsection \<open>Dates and intervals\<close>

text \<open>A part of a date: the century and the year are moved by 100, the time of day by 1.\<close>

definition date_part :: "int \<Rightarrow> int \<Rightarrow> cstring \<Rightarrow> int \<Rightarrow> cstring" where
  "date_part low off sep b = (if b > low then PrintfNum (b - off) @ sep else [])"

definition date_text :: "cstring \<Rightarrow> cstring option" where
  "date_text d =
     do {
       s \<leftarrow> first_n 7 d;
       let b = (\<lambda>i. ub (s ! i));
       Some (date_part 100 100 [] (b 0) @ date_part 100 100 ''-'' (b 1) @ date_part 0 0 ''-'' (b 2) @ date_part 0 0 '' '' (b 3)
         @ date_part 0 1 '':'' (b 4) @ date_part 0 1 '':'' (b 5) @ date_part 0 1 [] (b 6) @ ''|'')
     }"

text \<open>Four bytes as an \<open>int\<close>; the first may be moved by 0x80.\<close>

definition be_int :: "cstring \<Rightarrow> int" where
  "be_int s = signed (word_of_int (int (be_nat s)) :: 32 word)"

definition be_int80 :: "cstring \<Rightarrow> int" where
  "be_int80 s = signed (word_of_int (int (be_nat s) - 2 ^ 31) :: 32 word)"

definition year_month_text :: "cstring \<Rightarrow> int \<Rightarrow> cstring option" where
  "year_month_text d len =
     (if len = 5 then do {
        s \<leftarrow> first_n 5 d;
        Some (fmt_d (be_int80 (take 4 s)) @ ''-'' @ fmt_d (0x3C - ub (s ! 4)) @ ''|'')
      } else Some ''NULL|'')"

definition day_second_text :: "cstring \<Rightarrow> int \<Rightarrow> cstring option" where
  "day_second_text d len =
     (if len = 11 then do {
        s \<leftarrow> first_n 11 d;
        Some (fmt_d (be_int80 (take 4 s)) @ '' '' @ fmt_d (ub (s ! 4) - 0x3C) @ '':'' @ fmt_d (ub (s ! 5) - 0x3C) @ '':''
          @ fmt_d (ub (s ! 6) - 0x3C) @ '':'' @ fmt_d (be_int80 (drop 7 s)) @ ''|'')
      } else Some ''NULL|'')"

text \<open>
  The zone is added to the time; what falls below zero borrows from the next part, a month having 30 days,
  but what goes over the end of a part stays.
\<close>

definition borrow :: "int \<times> int \<times> int \<times> int \<times> int \<Rightarrow> int \<times> int \<times> int \<times> int \<times> int" where
  "borrow t =
     (case t of (year, month, day, hour, minute) \<Rightarrow>
        let (hour, minute) = (if minute < 0 then (hour - 1, minute + 60) else (hour, minute));
            (day, hour) = (if hour < 0 then (day - 1, hour + 24) else (day, hour));
            (month, day) = (if day < 0 then (month - 1, day + 30) else (month, day));
            (year, month) = (if month < 0 then (year - 1, month + 12) else (year, month))
        in (year, month, day, hour, minute))"

definition time_text :: "int \<Rightarrow> int \<Rightarrow> int \<Rightarrow> int \<Rightarrow> int \<Rightarrow> int \<Rightarrow> int \<Rightarrow> cstring" where
  "time_text year month day hour minute second msecond =
     fmt_d year @ ''-'' @ fmt_0d 2 month @ ''-'' @ fmt_0d 2 day @ '' '' @ fmt_0d 2 hour @ '':'' @ fmt_0d 2 minute @ '':''
     @ fmt_0d 2 second @ '':'' @ fmt_0d 6 msecond"

definition timestamp_text :: "bool \<Rightarrow> cstring \<Rightarrow> int \<Rightarrow> cstring option" where
  "timestamp_text flip d len =
     (if len < 7 then Some ''NULL|''
      else do {
        s \<leftarrow> first_n (if len \<ge> 13 then 13 else if len \<ge> 11 then 11 else 7) d;
        let b = (\<lambda>i. ub (s ! i));
        let year = (b 0 - 100) * 100 + b 1 - 100;
        let month = (if flip then b 2 else b 2 - 1);
        let day = (if flip then b 3 else b 3 - 1);
        let msecond = (if len \<ge> 11 then be_int (take 4 (drop 7 s)) else 0);
        (if len \<ge> 13 then
           let z1 = b 11 - 0x14; z2 = b 12 - 0x3C
           in case borrow (year, month, day, b 4 - 1 + z1, b 5 - 1 + z2) of
                (year, month, day, hour, minute) \<Rightarrow>
                  Some (time_text year month day hour minute (b 6 - 1) msecond @ '' '' @ fmt_0d 2 z1 @ '':''
                    @ fmt_0d 2 (if z2 < 0 then 0 - z2 else z2) @ ''|'')
         else Some (time_text year month day (b 4 - 1) (b 5 - 1) (b 6 - 1) msecond @ ''|''))
      })"

subsection \<open>\<open>PrintData\<close>\<close>

text \<open>A text up to its zero byte, which has to be in the array.\<close>

definition string_text :: "cstring \<Rightarrow> cstring option" where
  "string_text d = (if length (zstr d) < length d then Some (zstr d @ ''|'') else None)"

definition data_text :: "int \<Rightarrow> int \<Rightarrow> int \<Rightarrow> cstring \<Rightarrow> int \<Rightarrow> cstring option" where
  "data_text iversion bitversion utype d len =
     (let flip = (iversion = 11 \<or> bitversion = 64)
      in if len = 0 then Some ''NULL|''
         else if utype = 0x00 then string_text d
         else if utype = 0x0B \<or> utype = 0xD0 then Some ''ROWID|''
         else if utype = 0x01 \<or> utype = 96 then do { s \<leftarrow> first_n len d; Some (filter (\<lambda>c. c \<noteq> NUL) s @ ''|'') }
         else if utype = 0x65 then float_text 11 52 8 flip d len
         else if utype = 0x64 then float_text 8 23 4 flip d len
         else if utype = 0xB6 then year_month_text d len
         else if utype = 0xB7 then day_second_text d len
         else if utype = 0x02 then number_text d len
         else if utype = 12 then date_text d
         else if utype = 0x08 \<or> utype = 0x18 then
           (if 0 < len then do { c \<leftarrow> nth_opt d 0; if c = NUL then Some ''NULL|'' else string_text d } else Some ''NULL|'')
         else if utype = 0x17 then do { s \<leftarrow> first_n len d; Some (concat (map (\<lambda>c. fmt_02X (of_char c)) s) @ ''|'') }
         else if utype = 0xB4 \<or> utype = 0xE7 \<or> utype = 0xB5 then timestamp_text flip d len
         else if utype = 0x69 then Some []
         else string_text d)"

definition PrintData :: "int \<Rightarrow> int \<Rightarrow> int \<Rightarrow> cstring \<Rightarrow> int \<Rightarrow> cstring \<Rightarrow> cstring option" where
  "PrintData iversion bitversion utype d len sql_reslut =
     do { s \<leftarrow> data_text iversion bitversion utype d len; printreslut sql_reslut s }"

definition GetColStrLen :: "int \<Rightarrow> int" where
  "GetColStrLen uColNum = (if uColNum = 0 then 1 else if uColNum mod 8 = 0 then uColNum div 8 else uColNum div 8 + 1)"

subsection \<open>Numbers are printed as they are\<close>

text \<open>
  A positive number as Oracle stores it: an exponent byte that counts the digits to the base 100 before the
  point, and the digits, each one more.
\<close>

definition base100 :: "nat list \<Rightarrow> nat" where
  "base100 ds = foldl (\<lambda>a d. 100 * a + d) 0 ds"

definition oracle_number :: "nat \<Rightarrow> nat list \<Rightarrow> cstring" where
  "oracle_number n ds = char_of (192 + n) # map (\<lambda>d. char_of (d + 1)) ds"

text \<open>The digits of a number two by two.\<close>

definition pairs :: "nat list \<Rightarrow> cstring" where
  "pairs ds = concat (map (\<lambda>d. fmt_0d 2 (int d)) ds)"

lemma ub_digit: "d < 100 \<Longrightarrow> (ub (char_of (d + 1)) - 1) mod 256 = int d"
proof -
  assume d: "d < 100"
  have "0 \<le> ub (char_of (d + 1))" by (metis of_nat_0_le_iff of_nat_of_char)
  with nat_ub_char_of[of "d + 1"] d have "ub (char_of (d + 1)) = int (d + 1)" by linarith
  with d show ?thesis by simp
qed

lemma show_nat_snoc: "0 < m \<Longrightarrow> r < 10 \<Longrightarrow> show_nat (10 * m + r) = show_nat m @ [digit_char r]"
  by (subst show_nat.simps) simp

lemma show_nat_pair:
  assumes "0 < a" and "b < 100"
  shows "show_nat (100 * a + b) = show_nat a @ fmt_0d 2 (int b)"
proof -
  have "show_nat (100 * a + b) = show_nat (10 * (10 * a + b div 10) + b mod 10)"
    by (simp add: algebra_simps)
  also have "\<dots> = show_nat (10 * a + b div 10) @ [digit_char (b mod 10)]"
    using assms by (intro show_nat_snoc) simp_all
  also have "show_nat (10 * a + b div 10) = show_nat a @ [digit_char (b div 10)]"
    using assms by (intro show_nat_snoc) simp_all
  finally show ?thesis using assms by (simp add: fmt_02d_two)
qed

lemma base100_pos: "ds \<noteq> [] \<Longrightarrow> 0 < hd ds \<Longrightarrow> 0 < base100 ds"
  by (induction ds rule: rev_induct) (auto simp: base100_def hd_append split: if_splits)

lemma show_nat_base100: "ds \<noteq> [] \<Longrightarrow> 0 < hd ds \<Longrightarrow> \<forall>d\<in>set ds. d < 100 \<Longrightarrow> show_nat (base100 ds) = show_nat (hd ds) @ pairs (tl ds)"
proof (induction ds rule: rev_induct)
  case (snoc d ds)
  show ?case
  proof (cases "ds = []")
    case True then show ?thesis by (simp add: base100_def pairs_def)
  next
    case False
    with snoc have "show_nat (base100 (ds @ [d])) = show_nat (base100 ds) @ fmt_0d 2 (int d)"
      using show_nat_pair[of "base100 ds" d] base100_pos[of ds] by (simp add: base100_def hd_append)
    with False snoc show ?thesis by (simp add: pairs_def hd_append tl_append split: list.splits)
  qed
qed simp

text \<open>A negative number has the complements of the digits and a last byte 102.\<close>

definition oracle_negative :: "nat \<Rightarrow> nat list \<Rightarrow> cstring" where
  "oracle_negative n ds = char_of (63 - n) # map (\<lambda>d. char_of (101 - d)) ds @ [char_of (102::nat)]"

text \<open>The digits before the point, filled up with zeros, and the number as a decimal text.\<close>

definition whole_digits :: "nat \<Rightarrow> nat list \<Rightarrow> nat list" where
  "whole_digits n ds = take n ds @ replicate (n - length ds) 0"

definition decimal_text :: "nat \<Rightarrow> nat list \<Rightarrow> cstring" where
  "decimal_text n ds =
     (if n = 0 then ''0'' else if n = 1 then pairs (take 1 ds) else show_nat (base100 (whole_digits n ds)))
     @ (if n < length ds then ''.'' @ pairs (drop n ds) else [])"

lemma ub_char_of_nat: "n < 256 \<Longrightarrow> ub (char_of (n::nat)) = int n"
  by (metis nat_ub_char_of int_nat_eq of_nat_0_le_iff of_nat_of_char)

lemma ub_complement: "d < 100 \<Longrightarrow> (101 - ub (char_of (101 - d))) mod 256 = int d"
  by (simp add: ub_char_of_nat of_nat_diff)

lemma pairs_append [simp]: "pairs (xs @ ys) = pairs xs @ pairs ys"
  by (simp add: pairs_def)

lemma number_digits_append:
  "number_digits dec n i (xs @ ys) = number_digits dec n i xs @ number_digits dec n (i + int (length xs)) ys"
  by (induction xs arbitrary: i) (simp_all add: add.assoc add.commute)

lemma number_digits_plain:
  assumes "\<forall>d\<in>set ds. d < 100 \<and> dec (ub (enc d)) = int d" and "1 < i \<or> \<not> i < n" and "n < i - 1 \<or> i - 1 + int (length ds) \<le> n"
  shows "number_digits dec n i (map enc ds) = pairs ds"
  using assms
proof (induction ds arbitrary: i)
  case (Cons d ds)
  then have "number_digits dec n (i + 1) (map enc ds) = pairs ds" by (intro Cons.IH) auto
  with Cons.prems show ?case by (auto simp: pairs_def PrintfNum_def)
qed (simp add: pairs_def)

text \<open>The digits behind the point, and those before it.\<close>

lemma number_digits_fraction:
  assumes "\<forall>d\<in>set ds. d < 100 \<and> dec (ub (enc d)) = int d" and "ds \<noteq> []"
  shows "number_digits dec (int n) (int n + 1) (map enc ds) = (if n = 0 then ''0'' else []) @ ''.'' @ pairs ds"
proof -
  obtain d r where ds: "ds = d # r" using assms(2) by (cases ds) auto
  then have "number_digits dec (int n) (int n + 1 + 1) (map enc r) = pairs r"
    using assms(1) by (intro number_digits_plain) auto
  with ds assms(1) show ?thesis by (auto simp: pairs_def PrintfNum_def)
qed

lemma number_digits_whole:
  assumes "\<forall>d\<in>set ds. d < 100 \<and> dec (ub (enc d)) = int d" and "ds \<noteq> []" and "1 < n" and "length ds \<le> n"
  shows "number_digits dec (int n) 1 (map enc ds) = show_nat (hd ds) @ pairs (tl ds)"
proof -
  obtain d r where ds: "ds = d # r" using assms(2) by (cases ds) auto
  then have "number_digits dec (int n) (1 + 1) (map enc r) = pairs r"
    using assms by (intro number_digits_plain) auto
  with ds assms show ?thesis by (simp add: fmt_d_def)
qed

lemma zero_pairs_eq: "zero_pairs (int n) = pairs (replicate n 0)"
proof -
  have "fmt_0d 2 0 = ''00''" by code_simp
  then show ?thesis by (simp add: zero_pairs_def pairs_def)
qed

text \<open>All that is printed for the digits, the zeros behind them included.\<close>

lemma number_digits_decimal:
  assumes "\<forall>d\<in>set ds. d < 100 \<and> dec (ub (enc d)) = int d" and "ds \<noteq> []" and "0 < hd ds"
  shows "number_digits dec (int n) 1 (map enc ds) @ (if length ds < n then zero_pairs (int n - int (length ds)) else [])
    = decimal_text n ds"
proof -
  have z: "zero_pairs (int n - int (length ds)) = pairs (replicate (n - length ds) 0)" if "length ds < n"
    using that zero_pairs_eq[of "n - length ds"] by (simp add: of_nat_diff)
  have split: "number_digits dec (int n) 1 (map enc ds)
      = number_digits dec (int n) 1 (map enc (take n ds)) @ (if n < length ds then (if n = 0 then ''0'' else []) @ ''.'' @ pairs (drop n ds) else [])"
  proof (cases "n < length ds")
    case True
    have "number_digits dec (int n) (int n + 1) (map enc (drop n ds)) = (if n = 0 then ''0'' else []) @ ''.'' @ pairs (drop n ds)"
      using assms(1) True by (intro number_digits_fraction) (auto dest: in_set_dropD)
    with True show ?thesis
      using number_digits_append[of dec "int n" 1 "map enc (take n ds)" "map enc (drop n ds)"]
      by (simp flip: map_append add: add.commute)
  qed simp
  consider "n = 0" | "n = 1" | "1 < n" by linarith
  then show ?thesis
  proof cases
    case 1
    with assms(2) split show ?thesis by (simp add: decimal_text_def)
  next
    case 2
    have "number_digits dec (int n) 1 (map enc (take n ds)) = pairs (take n ds)"
      using assms(1) 2 by (intro number_digits_plain) (auto dest: in_set_takeD)
    with 2 assms(2) split show ?thesis by (cases ds) (auto simp: decimal_text_def)
  next
    case 3
    let ?w = "whole_digits n ds"
    have w: "hd ?w = hd ds" "tl ?w = tl (take n ds) @ replicate (n - length ds) 0" "?w \<noteq> []"
      using 3 assms(2) by (cases ds; cases n; simp add: whole_digits_def)+
    have "show_nat (base100 ?w) = show_nat (hd ds) @ pairs (tl (take n ds)) @ pairs (replicate (n - length ds) 0)"
      using assms w by (subst show_nat_base100) (auto simp: whole_digits_def dest: in_set_takeD)
    moreover have "number_digits dec (int n) 1 (map enc (take n ds)) = show_nat (hd ds) @ pairs (tl (take n ds))"
      using assms 3 by (subst number_digits_whole) (auto dest: in_set_takeD)
    ultimately show ?thesis
      using 3 split z by (auto simp: decimal_text_def pairs_def)
  qed
qed

lemma first_n_append: "n = int (length xs) \<Longrightarrow> first_n n (xs @ ys) = Some xs"
  by (simp add: first_n_def)

lemma number_text_positive:
  assumes "ds \<noteq> []" and "0 < hd ds" and "\<forall>d\<in>set ds. d < 100" and "n < 64"
  shows "number_text (oracle_number n ds @ r) (int (length ds) + 1) = Some (decimal_text n ds @ ''|'')"
proof -
  have d: "\<forall>d\<in>set ds. d < 100 \<and> (ub (char_of (d + 1)) - 1) mod 256 = int d" using assms(3) ub_digit by blast
  have "ub (char_of (192 + n)) = 192 + int n" using assms(4) by (simp add: ub_char_of_nat)
  then have "number_text (oracle_number n ds @ r) (int (length ds) + 1)
      = Some ((number_digits (\<lambda>b. (b - 1) mod 256) (int n) 1 (map (\<lambda>d. char_of (d + 1)) ds)
          @ (if length ds < n then zero_pairs (int n - int (length ds)) else [])) @ ''|'')"
    using assms(1) by (auto simp: number_text_def oracle_number_def first_n_def Let_def)
  then show ?thesis using number_digits_decimal[OF d assms(1,2), of n] by simp
qed

lemma number_text_negative:
  assumes "ds \<noteq> []" and "0 < hd ds" and "\<forall>d\<in>set ds. d < 100" and "0 < n" and "n < 64"
  shows "number_text (oracle_negative n ds @ r) (int (length ds) + 2) = Some (CHR ''-'' # decimal_text n ds @ ''|'')"
proof -
  have d: "\<forall>d\<in>set ds. d < 100 \<and> (101 - ub (char_of (101 - d))) mod 256 = int d" using assms(3) ub_complement by blast
  have c: "ub (char_of (63 - n)) = 63 - int n" using assms(5) by (simp add: ub_char_of_nat of_nat_diff)
  let ?t = "map (\<lambda>d. char_of (101 - d)) ds @ char_of (102::nat) # r"
  have "ub (char_of (101 - hd ds)) \<noteq> 0" using assms(1,3) by (cases ds) (simp_all add: ub_char_of_nat)
  then have "char_of (101 - hd ds) \<noteq> NUL" by auto
  then have e: "nth_opt ?t 0 = Some (char_of (101 - hd ds))" "char_of (101 - hd ds) \<noteq> NUL"
    using assms(1) by (simp_all add: nth_append hd_conv_nth)
  have "first_n (int (length ds) + 2 - 2) ?t = Some (map (\<lambda>d. char_of (101 - d)) ds)"
    by (rule first_n_append) simp
  with e c assms(1,4) have "number_text (oracle_negative n ds @ r) (int (length ds) + 2)
      = Some (''-'' @ (number_digits (\<lambda>b. (101 - b) mod 256) (int n) 1 (map (\<lambda>d. char_of (101 - d)) ds)
          @ (if length ds < n then zero_pairs (int n - int (length ds)) else [])) @ ''|'')"
    by (auto simp: number_text_def oracle_negative_def Let_def simp del: nth_opt_Some)
  then show ?thesis using number_digits_decimal[OF d assms(1,2), of n] by simp
qed

text \<open>The number with \<open>n\<close> digits to the base 100 before the point, or \<open>- n\<close> zeros behind it, as the server sends it.\<close>

definition oracle_bytes :: "bool \<Rightarrow> int \<Rightarrow> nat list \<Rightarrow> cstring" where
  "oracle_bytes negative n ds =
     (if negative then char_of (nat (63 - n)) # map (\<lambda>d. char_of (101 - d)) ds @ [char_of (102::nat)]
      else char_of (nat (192 + n)) # map (\<lambda>d. char_of (d + 1)) ds)"

lemma number_text_oracle:
  assumes "ds \<noteq> []" and "0 < hd ds" and "\<forall>d\<in>set ds. d < 100" and "- 64 \<le> n" and "n < 64"
  shows "number_text (oracle_bytes False n ds @ r) (int (length ds) + 1) = Some (if n < 0 then ''0|'' else decimal_text (nat n) ds @ ''|'')"
    and "number_text (oracle_bytes True n ds @ r) (int (length ds) + 2) = Some (if n \<le> 0 then [] else CHR ''-'' # decimal_text (nat n) ds @ ''|'')"
proof -
  show "number_text (oracle_bytes False n ds @ r) (int (length ds) + 1) = Some (if n < 0 then ''0|'' else decimal_text (nat n) ds @ ''|'')"
  proof (cases "n < 0")
    case True
    have "ub (char_of (nat (192 + n))) = 192 + n" using assms(4) True by (subst ub_char_of_nat) auto
    with True assms(4) show ?thesis by (simp add: oracle_bytes_def number_text_def)
  next
    case False
    then have "oracle_bytes False n ds = oracle_number (nat n) ds" by (simp add: oracle_bytes_def oracle_number_def nat_add_distrib)
    with number_text_positive[OF assms(1-3), of "nat n" r] assms(5) False show ?thesis by simp
  qed
  show "number_text (oracle_bytes True n ds @ r) (int (length ds) + 2) = Some (if n \<le> 0 then [] else CHR ''-'' # decimal_text (nat n) ds @ ''|'')"
  proof (cases "n \<le> 0")
    case True
    have "ub (char_of (nat (63 - n))) = 63 - n" using assms(4) True by (subst ub_char_of_nat) auto
    with True assms(4) show ?thesis by (simp add: oracle_bytes_def number_text_def)
  next
    case False
    then have "oracle_bytes True n ds = oracle_negative (nat n) ds" by (simp add: oracle_bytes_def oracle_negative_def nat_diff_distrib)
    with number_text_negative[OF assms(1-3), of "nat n" r] assms(5) False show ?thesis by simp
  qed
qed



end
