(* ===== verification/TnsRows.thy ===== *)
theory TnsRows
  imports TnsValues TnsRequest
begin

text \<open>
  The rows of a result, \<^verbatim>\<open>OracleProxy/oraclefilter.c\<close> (lines 886 to 2242): the five decoders \<open>DecodeTnsData0600\<close>,
  \<open>DecodeTnsData0601\<close>, \<open>DecodeTnsData0602\<close>, \<open>DecodeTnsData0602_64\<close> and \<open>DecodeTnsData061a\<close>.

  The decoders are copies of each other with changes; what they share is defined once, with the
  differences as arguments. A decoder has two loops: over the columns of a row (\<open>columns\<close>) and over the rows
  (\<open>rows_loop\<close>). A place in the packet is an \<open>unsigned int\<close>; the sums that can leave its range are taken modulo
  \<open>2 ^ 32\<close>, the length of a packet comes from a field of 16 bits. The result of a decoder is \<open>None\<close> when it never returns,
  \<open>Some None\<close> when it reads or writes outside of its arrays.
\<close>

subsection \<open>State\<close>

text \<open>
  The arrays between the calls: the types of the columns (20 bytes), the texts of the last row (64 of 1024
  bytes, without the zeros behind them), their lengths, and the bits of the columns seen.
\<close>

record ora =
  o_t :: tns
  isjdbc :: int
  nMaxColNum :: int
  pszFieldType :: cstring
  pszRowStr :: "cstring list"
  pRowStrLen :: "int list"
  szOldCol :: cstring

definition set_t :: "tns \<Rightarrow> ora \<Rightarrow> ora" where
  "set_t t w = w\<lparr>o_t := t\<rparr>"

definition emit :: "cstring \<Rightarrow> ora \<Rightarrow> ora option" where
  "emit s w = do { r \<leftarrow> printreslut (sql_reslut (o_t w)) s; Some (set_t ((o_t w)\<lparr>sql_reslut := r\<rparr>) w) }"

text \<open>A row that is complete goes to the log.\<close>

definition log_row :: "sizes \<Rightarrow> session_env \<Rightarrow> ora \<Rightarrow> ora option" where
  "log_row z se w = do { t \<leftarrow> flush_result z se (o_t w); Some (set_t t w) }"

definition clear_rows :: "ora \<Rightarrow> ora" where
  "clear_rows w = w\<lparr>pszRowStr := replicate 64 [], szOldCol := replicate 128 NUL\<rparr>"

definition set_row :: "nat \<Rightarrow> cstring \<Rightarrow> ora \<Rightarrow> ora option" where
  "set_row k s w = (if k < length (pszRowStr w) then Some (w\<lparr>pszRowStr := (pszRowStr w)[k := s]\<rparr>) else None)"

text \<open>The bit of a column in a list of bytes.\<close>

definition mark_of :: "cstring \<Rightarrow> nat \<Rightarrow> bool option" where
  "mark_of s k = do { c \<leftarrow> nth_opt s (k div 8); Some (bit (of_char c :: nat) (k mod 8)) }"

definition set_mark :: "cstring \<Rightarrow> nat \<Rightarrow> cstring option" where
  "set_mark s k = do { c \<leftarrow> nth_opt s (k div 8); Some (s[k div 8 := char_of (set_bit (k mod 8) (of_char c :: nat))]) }"

definition print_value :: "nat \<Rightarrow> int \<Rightarrow> ora \<Rightarrow> ora option" where
  "print_value k len w =
     do {
       ty \<leftarrow> nth_opt (pszFieldType w) k;
       s \<leftarrow> nth_opt (pszRowStr w) k;
       r \<leftarrow> PrintData (iversion (o_t w)) (bitversion (o_t w)) (ub ty) (s @ replicate (1024 - length s) NUL) len (sql_reslut (o_t w));
       Some (set_t ((o_t w)\<lparr>sql_reslut := r\<rparr>) w)
     }"

text \<open>A column that is not sent again: the one of the row before, if there was one.\<close>

definition repeat_column :: "nat \<Rightarrow> ora \<Rightarrow> ora option" where
  "repeat_column k w =
     do {
       old \<leftarrow> mark_of (szOldCol w) k;
       (if old then do { len \<leftarrow> nth_opt (pRowStrLen w) k; print_value k len w } else emit ''NULL|'' w)
     }"

definition keep_value :: "nat \<Rightarrow> int \<Rightarrow> ora \<Rightarrow> ora option" where
  "keep_value k len w =
     (if k < length (pRowStrLen w) then do {
        m \<leftarrow> set_mark (szOldCol w) k;
        Some (w\<lparr>pRowStrLen := (pRowStrLen w)[k := if len < 1024 then len else 1024], szOldCol := m\<rparr>)
      } else None)"

subsection \<open>Reading a packet\<close>

definition u32 :: "int \<Rightarrow> int" where
  "u32 i = i mod 2 ^ 32"

definition s32 :: "int \<Rightarrow> int" where
  "s32 i = signed (word_of_int i :: 32 word)"

definition schar :: "char \<Rightarrow> int" where
  "schar c = (if ub c < 128 then ub c else ub c - 256)"

definition at :: "cstring \<Rightarrow> int \<Rightarrow> char option" where
  "at d p = (if 0 \<le> p then nth_opt d (nat p) else None)"

definition bytes_at :: "cstring \<Rightarrow> int \<Rightarrow> int \<Rightarrow> cstring option" where
  "bytes_at d p n = (if 0 \<le> p \<and> 0 \<le> n \<and> p + n \<le> int (length d) then Some (take (nat n) (drop (nat p) d)) else None)"

text \<open>Numbers with the low byte first.\<close>

definition le_at :: "cstring \<Rightarrow> int \<Rightarrow> int \<Rightarrow> int option" where
  "le_at d p n = do { s \<leftarrow> bytes_at d p n; Some (int (be_nat (rev s))) }"

text \<open>Two bytes; the second one is read only behind the right first one.\<close>

definition pair_at :: "cstring \<Rightarrow> int \<Rightarrow> char \<Rightarrow> char \<Rightarrow> bool option" where
  "pair_at d p a b = do { x \<leftarrow> at d p; if x = a then do { y \<leftarrow> at d (p + 1); Some (y = b) } else Some False }"

text \<open>\<open>%02x\<close> of a \<open>char\<close>, which is signed, and of an \<open>unsigned char\<close>.\<close>

definition hex_signed :: "char \<Rightarrow> cstring" where
  "hex_signed c = fmt_02x (word_of_int (schar c))"

definition hex_unsigned :: "char \<Rightarrow> cstring" where
  "hex_unsigned c = fmt_02x (of_char c)"

subsection \<open>Columns\<close>

text \<open>
  After a column the loop goes on with the next one, is left, or the decoder returns. The first two have the
  place in the packet.
\<close>

datatype 'w column = Col_next int 'w | Col_break int 'w | Col_return int 'w

text \<open>The length of a large object and its place, and whether it starts with 0xFE 0xFF.\<close>

definition lob_head :: "cstring \<Rightarrow> int \<Rightarrow> (bool \<times> int \<times> int) option" where
  "lob_head d p =
     do {
       fe \<leftarrow> pair_at d p (CHR 0xFE) (CHR 0xFF);
       let q = p + 1 + of_bool fe;
       a \<leftarrow> at d q;
       b \<leftarrow> at d (q + 1);
       Some (fe, ub a * 256 + ub b, q)
     }"

text \<open>
  Its bytes: 100 are skipped; a length below 100 wraps around in 16 bits where it is let through. The decoders differ
  in the lengths they refuse, in what they skip then and behind the bytes, and in what is printed. The code prints the bytes one by one,
  which comes to the same (\<open>printreslut_pieces\<close>).
\<close>

definition lob_body :: "(int \<Rightarrow> bool) \<Rightarrow> int \<Rightarrow> int \<Rightarrow> (cstring \<Rightarrow> cstring) \<Rightarrow> cstring \<Rightarrow> int \<Rightarrow> ora \<Rightarrow> ora column option" where
  "lob_body refused skip add pr d p w =
     do {
       (fe, len, p) \<leftarrow> lob_head d p;
       (if refused len then Some (Col_break (u32 (p + skip)) w)
        else do {
          let n = (len - 100) mod 65536;
          s \<leftarrow> bytes_at d (p + 102) n;
          w \<leftarrow> emit (pr s @ ''|'') w;
          Some (Col_next (u32 (p + 102 + n + add * of_bool fe)) w)
        })
     }"

text \<open>A BLOB, or nothing.\<close>

definition blob_column :: "(int \<Rightarrow> bool) \<Rightarrow> int \<Rightarrow> (char \<Rightarrow> cstring) \<Rightarrow> cstring \<Rightarrow> int \<Rightarrow> ora \<Rightarrow> ora column option" where
  "blob_column refused skip hex d place w =
     do {
       temp \<leftarrow> le_at d place 4;
       (if temp = 0 then do { w \<leftarrow> emit ''NULL|'' w; Some (Col_next (u32 (place + 4)) w) }
        else lob_body refused skip 2 (\<lambda>s. concat (map hex s)) d (place + 4) w)
     }"

text \<open>A CLOB; with 0xFF 0xFF in front it is an NCLOB.\<close>

definition clob_column :: "(int \<Rightarrow> bool) \<Rightarrow> cstring \<Rightarrow> int \<Rightarrow> cstring \<Rightarrow> int \<Rightarrow> ora \<Rightarrow> ora column option" where
  "clob_column refused null add d place w =
     do {
       ff \<leftarrow> pair_at d place (CHR 0xFF) (CHR 0xFF);
       let place = (if ff then place + 4 else place);
       temp \<leftarrow> le_at d place 4;
       (if temp = 0 then do { w \<leftarrow> emit null w; Some (Col_next (u32 (place + 4)) w) }
        else lob_body refused 0 add (filter (\<lambda>c. c \<noteq> NUL)) d (place + 4) w)
     }"

text \<open>A large object of which only the kind is noted; its length has 32 bits.\<close>

definition lob_skip :: "cstring \<Rightarrow> cstring \<Rightarrow> int \<Rightarrow> ora \<Rightarrow> ora column option" where
  "lob_skip kind d place w =
     do {
       len \<leftarrow> le_at d place 4;
       fe \<leftarrow> pair_at d (place + 4) (CHR 0xFE) (CHR 0xFF);
       w \<leftarrow> emit kind w;
       Some (Col_next (u32 (place + 4 + 16 * of_bool fe + of_bool (0 < len) + len)) w)
     }"

text \<open>A file: its directory and its name, with lengths of 16 bits. The length of the column may be negative.\<close>

definition s16_at :: "cstring \<Rightarrow> int \<Rightarrow> int option" where
  "s16_at d p = do { s \<leftarrow> bytes_at d p 2; let n = int (be_nat s); Some (if n < 32768 then n else n - 65536) }"

definition bfile_name :: "cstring \<Rightarrow> int \<Rightarrow> ora \<Rightarrow> ora option" where
  "bfile_name d p w =
     do {
       namelen \<leftarrow> s16_at d p;
       w \<leftarrow> (if 0 < namelen then do { name \<leftarrow> bytes_at d (p + 2) namelen; emit (zstr name) w } else Some w);
       emit ''|'' w
     }"

definition bfile_text :: "cstring \<Rightarrow> int \<Rightarrow> ora \<Rightarrow> ora option" where
  "bfile_text d p w =
     do {
       dirlen \<leftarrow> s16_at d p;
       (if 0 < dirlen then do {
          dir \<leftarrow> bytes_at d (p + 2) dirlen;
          w \<leftarrow> emit (zstr dir @ ''//'') w;
          bfile_name d (p + 2 + dirlen) w
        } else Some w)
     }"

definition bfile_column :: "cstring \<Rightarrow> int \<Rightarrow> ora \<Rightarrow> ora column option" where
  "bfile_column d place w =
     do {
       l \<leftarrow> bytes_at d (place + 1) 4;
       w \<leftarrow> bfile_text d (place + 21) w;
       Some (Col_next (u32 (place + 5 + be_int l)) w)
     }"

text \<open>
  Every other column has a length and its bytes. \<open>adjust\<close> changes the two lengths before the value is
  printed, \<open>extra\<close> is what is skipped besides.
\<close>

definition read_text :: "cstring \<Rightarrow> int \<Rightarrow> nat \<Rightarrow> int \<Rightarrow> ora \<Rightarrow> (int \<times> int \<times> ora) option" where
  "read_text d n k place w =
     do {
       (r, sub, len, flag) \<leftarrow> ParseStrbyLen 1024 (oracleFlag (o_t w)) (drop (nat place) d) (s32 (n - 33 - place));
       w \<leftarrow> set_row k sub (set_t ((o_t w)\<lparr>oracleFlag := flag\<rparr>) w);
       Some (r, len, w)
     }"

definition text_column :: "(char \<Rightarrow> int \<times> int \<Rightarrow> int \<times> int) \<Rightarrow> (char \<Rightarrow> int \<Rightarrow> int \<Rightarrow> int \<Rightarrow> int option)
    \<Rightarrow> cstring \<Rightarrow> int \<Rightarrow> nat \<Rightarrow> int \<Rightarrow> ora \<Rightarrow> ora column option" where
  "text_column adjust extra d n k place w =
     do {
       ty \<leftarrow> nth_opt (pszFieldType w) k;
       (r, len, w) \<leftarrow> read_text d n k place w;
       (if r < 0 then Some (Col_return (-1) w)
        else do {
          let (r, len) = adjust ty (r, len);
          w \<leftarrow> print_value k len w;
          w \<leftarrow> keep_value k len w;
          m \<leftarrow> extra ty place r len;
          Some (Col_next (u32 (place + m + len + r)) w)
        })
     }"

text \<open>
  With 64 bits a ROWID has a fixed length: the byte that should decide is compared by its address, so that the
  test is always true.
\<close>

definition rowid_length :: "tns \<Rightarrow> char \<Rightarrow> int \<times> int \<Rightarrow> int \<times> int" where
  "rowid_length t ty x =
     (if ty = CHR 0x0B \<and> bitversion t = 64 then (0, 14)
      else if ty = CHR 0xD0 \<and> bitversion t = 64 then (0, 9) else x)"

definition long_skip :: "char \<Rightarrow> int" where
  "long_skip ty = (if ty = CHR 0x08 \<or> ty = CHR 0x18 then 4 else 0)"

text \<open>A fixed text with one of two bytes in it is one byte longer.\<close>

definition char_skip :: "cstring \<Rightarrow> char \<Rightarrow> int \<Rightarrow> int \<Rightarrow> int \<Rightarrow> int option" where
  "char_skip d ty place r len =
     (if ty = CHR 96 then do {
        s \<leftarrow> (if r < len then bytes_at d (place + r) (len - r) else Some []);
        Some (if \<exists>c\<in>set s. c = CHR 0x9F \<or> c = CHR 0xFF then 1 else 0)
      } else Some 0)"

subsection \<open>The columns of a row\<close>

text \<open>
  \<open>u\<close> is the number of columns sent, \<open>nmax\<close> the number of all columns. With \<open>rep\<close> the bits \<open>szCol\<close> say which
  columns are sent; the others are repeated. Column \<open>lim\<close> and the ones behind it are an error. \<open>Inl\<close> is a return.
\<close>

function columns :: "(nat \<Rightarrow> int \<Rightarrow> ora \<Rightarrow> ora column option) \<Rightarrow> bool \<Rightarrow> cstring \<Rightarrow> int \<Rightarrow> int \<Rightarrow> int \<Rightarrow> nat
    \<Rightarrow> nat \<Rightarrow> int \<Rightarrow> int \<Rightarrow> ora \<Rightarrow> (int \<times> ora + int \<times> ora) option" where
  "columns col rep szCol n u nmax lim nCurCol nRealCol place w =
     (if \<not> int nCurCol < nmax then Some (Inr (place, w))
      else if place > n then Some (Inl (-2, w))
      else do {
        sent \<leftarrow> (if rep then mark_of szCol nCurCol else Some True);
        (if \<not> sent then do {
           w \<leftarrow> repeat_column nCurCol w;
           columns col rep szCol n u nmax lim (nCurCol + 1) nRealCol place w
         }
         else if nRealCol \<ge> u then Some (Inr (place, w))
         else if nCurCol \<ge> lim then Some (Inl (-1, w))
         else do {
           w \<leftarrow> set_row nCurCol [] w;
           c \<leftarrow> col nCurCol place w;
           (case c of
              Col_next p w \<Rightarrow> columns col rep szCol n u nmax lim (nCurCol + 1) (nRealCol + 1) p w
            | Col_break p w \<Rightarrow> Some (Inr (p, w))
            | Col_return r w \<Rightarrow> Some (Inl (r, w)))
         })
      })"
  by pat_completeness auto
termination
  by (relation "measure (\<lambda>(col, rep, szCol, n, u, nmax, lim, k, r, p, w). nat (nmax - int k))") auto

declare columns.simps [simp del]

text \<open>\<open>DecodeTnsData0602\<close> has no bits; a row ends with the byte 0x15, or 0x04 with 0x01 or 0x02.\<close>

definition row_end :: "cstring \<Rightarrow> int \<Rightarrow> bool option" where
  "row_end d p =
     do {
       a \<leftarrow> at d p;
       (if a = CHR 0x15 then Some True
        else if a = CHR 0x04 then do { b \<leftarrow> at d (p + 1); Some (b = CHR 0x01 \<or> b = CHR 0x02) }
        else Some False)
     }"

function columns0602 :: "(nat \<Rightarrow> int \<Rightarrow> ora \<Rightarrow> ora column option) \<Rightarrow> cstring \<Rightarrow> int \<Rightarrow> int \<Rightarrow> int
    \<Rightarrow> nat \<Rightarrow> int \<Rightarrow> int \<Rightarrow> ora \<Rightarrow> (int \<times> ora + int \<times> ora) option" where
  "columns0602 col d n u nmax nCurCol nRealCol place w =
     (if \<not> int nCurCol < nmax then Some (Inr (place, w))
      else if place > n then Some (Inl (-2, w))
      else if nRealCol \<ge> u then Some (Inr (place, w))
      else if nCurCol > 64 then Some (Inl (-1, w))
      else do {
        w \<leftarrow> set_row nCurCol [] w;
        c \<leftarrow> col nCurCol place w;
        (case c of
           Col_next p w \<Rightarrow> do {
             e \<leftarrow> row_end d p;
             if e then Some (Inr (p, w)) else columns0602 col d n u nmax (nCurCol + 1) (nRealCol + 1) p w
           }
         | Col_break p w \<Rightarrow> Some (Inr (p, w))
         | Col_return r w \<Rightarrow> Some (Inl (r, w)))
      })"
  by pat_completeness auto
termination
  by (relation "measure (\<lambda>(col, d, n, u, nmax, k, r, p, w). nat (nmax - int k))") auto

declare columns0602.simps [simp del]

subsection \<open>The rows of a packet\<close>

text \<open>The variables of the loop: the number of columns sent, the place, the bits, the row and whether a separator was read.\<close>

record row_vars =
  uColNum :: int
  iCurPlace :: int
  szCol :: cstring
  nRowNum :: nat
  isColCode :: bool

type_synonym row_step = "(int \<times> ora + row_vars \<times> ora) option"

text \<open>One round of the loop after the other, until one returns.\<close>

partial_function (option) rows_loop :: "(row_vars \<times> ora \<Rightarrow> row_step) \<Rightarrow> row_vars \<times> ora \<Rightarrow> (int \<times> ora) option option" where
  "rows_loop row st =
     (case row st of
        None \<Rightarrow> Some None
      | Some (Inl r) \<Rightarrow> Some (Some r)
      | Some (Inr st) \<Rightarrow> rows_loop row st)"

definition decode_rows :: "row_step \<Rightarrow> (row_vars \<times> ora \<Rightarrow> row_step) \<Rightarrow> (int \<times> ora) option option" where
  "decode_rows start row =
     (case start of
        None \<Rightarrow> Some None
      | Some (Inl r) \<Rightarrow> Some (Some r)
      | Some (Inr st) \<Rightarrow> rows_loop row st)"

text \<open>The end of the bits of a row, a byte 0x07; \<open>Inl\<close> is a place behind the packet.\<close>

fun find_07 :: "int \<Rightarrow> int \<Rightarrow> cstring \<Rightarrow> (int + int) option" where
  "find_07 n p [] = None"
| "find_07 n p (c # r) = (if c = CHR 0x07 then Some (Inr p) else if p + 1 > n then Some (Inl (p + 1)) else find_07 n (p + 1) r)"

text \<open>A list of bytes in an array of 128.\<close>

definition bits128 :: "cstring \<Rightarrow> cstring option" where
  "bits128 s = (if length s \<le> 128 then Some (s @ replicate (128 - length s) NUL) else None)"

definition new_columns :: "int \<Rightarrow> int \<Rightarrow> int" where
  "new_columns cols old = (if cols \<noteq> 0 then cols else old)"

text \<open>What separates two rows: 0x15, the number of columns, the bits, 0x07.\<close>

definition split_row :: "cstring \<Rightarrow> int \<Rightarrow> row_vars \<Rightarrow> ora \<Rightarrow> row_step" where
  "split_row d n l w =
     (let p = iCurPlace l; glob = nGlobMaxColNum (o_t w); nColLen = GetColStrLen glob
      in do {
        c \<leftarrow> at d p;
        (if c \<noteq> CHR 0x15 then Some (Inl (p, w))
         else do {
           cols \<leftarrow> le_at d (p + 1) 2;
           (if cols > glob then Some (Inl (p, w))
            else do {
              s \<leftarrow> bytes_at d (p + 3) nColLen;
              bits \<leftarrow> bits128 s;
              e \<leftarrow> find_07 n (p + 3 + nColLen) (drop (nat (p + 3 + nColLen)) d);
              (case e of
                 Inl q \<Rightarrow> Some (Inl (q, w))
               | Inr q \<Rightarrow> Some (Inr (l\<lparr>uColNum := new_columns cols (uColNum l), iCurPlace := q + 1, szCol := bits,
                                      isColCode := True\<rparr>, w)))
            })
         })
      })"

text \<open>
  What comes behind the columns: the row goes to the log, and \<open>between\<close> says what is done before the next one.
  A packet that has no room for a separator ends the decoder.
\<close>

definition after_row :: "sizes \<Rightarrow> session_env \<Rightarrow> int \<Rightarrow> (row_vars \<Rightarrow> ora \<Rightarrow> row_step) \<Rightarrow> row_vars \<Rightarrow> ora \<Rightarrow> row_step" where
  "after_row z se n between l w =
     (let l = l\<lparr>nRowNum := nRowNum l + 1\<rparr>
      in if iCurPlace l + 3 > n then Some (Inl (-1, w)) else between l w)"

definition decode_row :: "sizes \<Rightarrow> session_env \<Rightarrow> int \<Rightarrow> (row_vars \<Rightarrow> ora \<Rightarrow> (int \<times> ora + int \<times> ora) option)
    \<Rightarrow> (row_vars \<Rightarrow> ora \<Rightarrow> row_step) \<Rightarrow> row_vars \<times> ora \<Rightarrow> row_step" where
  "decode_row z se n cols between st =
     (case st of (l, w) \<Rightarrow> do {
        c \<leftarrow> cols l (w\<lparr>nMaxColNum := max (nMaxColNum w) (uColNum l)\<rparr>);
        (case c of
           Inl r \<Rightarrow> Some (Inl r)
         | Inr (p, w) \<Rightarrow> do { w \<leftarrow> log_row z se w; after_row z se n between (l\<lparr>iCurPlace := p\<rparr>) w })
      })"

text \<open>The columns of all decoders but \<open>DecodeTnsData0602\<close>: a Toad client gets no bits before the first separator.\<close>

definition row_columns :: "(nat \<Rightarrow> int \<Rightarrow> ora \<Rightarrow> ora column option) \<Rightarrow> bool \<Rightarrow> nat \<Rightarrow> int \<Rightarrow> row_vars \<Rightarrow> ora
    \<Rightarrow> (int \<times> ora + int \<times> ora) option" where
  "row_columns col always lim n l w =
     columns col (0 < nRowNum l \<and> (always \<or> istoad (o_t w) \<noteq> 1 \<or> isColCode l)) (szCol l) n (uColNum l) (nMaxColNum w) lim 0 0
       (iCurPlace l) w"

definition set_glob :: "int \<Rightarrow> ora \<Rightarrow> ora" where
  "set_glob u w = (if nGlobMaxColNum (o_t w) = 0 then set_t ((o_t w)\<lparr>nGlobMaxColNum := u\<rparr>) w else w)"

definition no_bits :: cstring where
  "no_bits = replicate 128 NUL"

definition first_row :: "int \<Rightarrow> int \<Rightarrow> row_vars" where
  "first_row u p = \<lparr>uColNum = u, iCurPlace = p, szCol = no_bits, nRowNum = 0, isColCode = False\<rparr>"

subsection \<open>\<open>DecodeTnsData0600\<close>\<close>

definition column0600 :: "cstring \<Rightarrow> int \<Rightarrow> nat \<Rightarrow> int \<Rightarrow> ora \<Rightarrow> ora column option" where
  "column0600 d n k place w =
     do {
       ty \<leftarrow> nth_opt (pszFieldType w) k;
       (if ty = CHR 0x71 then blob_column (\<lambda>len. len > n) 0 hex_signed d place w
        else if ty = CHR 0x70 then clob_column (\<lambda>len. len > n \<or> len < 100) ''NULL'' 2 d place w
        else text_column (\<lambda>_ x. x) (\<lambda>_ _ _ _. Some 0) d n k place w)
     }"

text \<open>Where the first row starts.\<close>

definition place0600 :: "cstring \<Rightarrow> int \<Rightarrow> ora \<Rightarrow> int option" where
  "place0600 d u w =
     (let v = iversion (o_t w)
      in if v = 9 \<or> v = 10 \<or> v = 11 then do {
           m \<leftarrow> (if v = 10 then at d 0 else Some NUL);
           let p = (if v = 9 then 30 else if v = 10 \<and> m = CHR 0x0A then 38 else 34);
           b \<leftarrow> at d (p + 1);
           Some (if b = CHR 0x07 \<and> u < nGlobMaxColNum (o_t w) then p + 2 else p)
         } else Some 34)"

definition start0600 :: "cstring \<Rightarrow> int \<Rightarrow> ora \<Rightarrow> row_step" where
  "start0600 d n w =
     (if n > 20 * 1024 then Some (Inl (n, w))
      else do {
        u \<leftarrow> le_at d 2 2;
        (if u > 64 then Some (Inl (-1, w))
         else do {
           let w = set_glob u w;
           p \<leftarrow> place0600 d u w;
           (if u < nGlobMaxColNum (o_t w) then do {
              let nColLen = GetColStrLen (nGlobMaxColNum (o_t w));
              s \<leftarrow> bytes_at d (p - nColLen - 1) nColLen;
              bits \<leftarrow> bits128 s;
              Some (Inr ((first_row u p)\<lparr>szCol := bits, nRowNum := 1\<rparr>, w))
            } else Some (Inr (first_row u p, clear_rows w)))
         })
      })"

definition DecodeTnsData0600 :: "sizes \<Rightarrow> session_env \<Rightarrow> cstring \<Rightarrow> int \<Rightarrow> ora \<Rightarrow> (int \<times> ora) option option" where
  "DecodeTnsData0600 z se d n w =
     decode_rows (start0600 d n w) (decode_row z se n (row_columns (column0600 d n) True 65 n) (split_row d n))"

subsection \<open>\<open>DecodeTnsData0602\<close>\<close>

definition column0602 :: "cstring \<Rightarrow> int \<Rightarrow> nat \<Rightarrow> int \<Rightarrow> ora \<Rightarrow> ora column option" where
  "column0602 d n k place w =
     do {
       (r, len, w) \<leftarrow> read_text d n k place w;
       (if r < 0 then Some (Col_return (-1) w)
        else do {
          ty \<leftarrow> nth_opt (pszFieldType w) k;
          w \<leftarrow> (if ty = CHR 0x71 then Some w else print_value k len w);
          m \<leftarrow> set_mark (szOldCol w) k;
          Some (Col_next (u32 (place + len + r)) (w\<lparr>szOldCol := m\<rparr>))
        })
     }"

definition columns_0602 :: "cstring \<Rightarrow> int \<Rightarrow> row_vars \<Rightarrow> ora \<Rightarrow> (int \<times> ora + int \<times> ora) option" where
  "columns_0602 d n l w =
     columns0602 (column0602 d n) d n (uColNum l) (nMaxColNum w) (if nRowNum l = 0 then nat (nMaxColNum w - uColNum l) else 0) 0
       (iCurPlace l) w"

definition between0602 :: "cstring \<Rightarrow> row_vars \<Rightarrow> ora \<Rightarrow> row_step" where
  "between0602 d l w =
     do {
       c \<leftarrow> at d (iCurPlace l);
       (if c \<noteq> CHR 0x15 then Some (Inl (iCurPlace l, w))
        else do {
          cols \<leftarrow> le_at d (iCurPlace l + 1) 2;
          Some (if cols > nGlobMaxColNum (o_t w) then Inl (iCurPlace l, w) else Inr (l\<lparr>iCurPlace := iCurPlace l + 5\<rparr>, w))
        })
     }"

definition start0602 :: "sizes \<Rightarrow> session_env \<Rightarrow> cstring \<Rightarrow> int \<Rightarrow> ora \<Rightarrow> row_step" where
  "start0602 z se d n w =
     (if nMaxColNum w > 64 then Some (Inl (-1, w))
      else do {
        u \<leftarrow> le_at d 1 2;
        (if u = 0 then after_row z se n (between0602 d) (first_row 0 9) (clear_rows w)
         else Some (Inr (first_row u 9, clear_rows (set_glob u w))))
      })"

definition DecodeTnsData0602 :: "sizes \<Rightarrow> session_env \<Rightarrow> cstring \<Rightarrow> int \<Rightarrow> ora \<Rightarrow> (int \<times> ora) option option" where
  "DecodeTnsData0602 z se d n w =
     decode_rows (start0602 z se d n w) (decode_row z se n (columns_0602 d n) (between0602 d))"

subsection \<open>\<open>DecodeTnsData0602_64\<close> and \<open>DecodeTnsData061a\<close>\<close>

text \<open>The columns of the two are the same but for a word and for texts of fixed length.\<close>

definition column_64 :: "cstring \<Rightarrow> (char \<Rightarrow> int \<Rightarrow> int \<Rightarrow> int \<Rightarrow> int option) \<Rightarrow> cstring \<Rightarrow> int \<Rightarrow> nat \<Rightarrow> int \<Rightarrow> ora
    \<Rightarrow> ora column option" where
  "column_64 kind extra d n k place w =
     (let t = o_t w; toad9 = (iversion t = 9 \<and> istoad t = 1 \<and> bitversion t = 64); refused = (\<lambda>len. len > n \<or> len \<le> 100)
      in do {
        ty \<leftarrow> nth_opt (pszFieldType w) k;
        (if ty = CHR 0x71 then (if toad9 then lob_skip kind d place w else blob_column refused 5 hex_signed d place w)
         else if ty = CHR 0x70 then
           (if iversion t = 11 \<or> toad9 then lob_skip ''clob|'' d place w else clob_column refused ''NULL|'' 5 d place w)
         else if ty = CHR 0x72 then bfile_column d place w
         else text_column (rowid_length t) extra d n k place w)
      })"

definition column0602_64 :: "cstring \<Rightarrow> int \<Rightarrow> nat \<Rightarrow> int \<Rightarrow> ora \<Rightarrow> ora column option" where
  "column0602_64 d = column_64 ''blob|'' (\<lambda>ty place r len. Some (long_skip ty)) d"

definition column061a :: "cstring \<Rightarrow> int \<Rightarrow> nat \<Rightarrow> int \<Rightarrow> ora \<Rightarrow> ora column option" where
  "column061a d = column_64 ''clob|''
     (\<lambda>ty place r len. if ty = CHR 96 then char_skip d ty place r len else Some (long_skip ty)) d"

definition between0602_64 :: "cstring \<Rightarrow> int \<Rightarrow> row_vars \<Rightarrow> ora \<Rightarrow> row_step" where
  "between0602_64 d n l w =
     do {
       c \<leftarrow> at d (iCurPlace l);
       (if istoad (o_t w) = 1 \<and> c = CHR 0x07 then
          (if uColNum l \<le> 0 \<or> uColNum l > 64 then Some (Inl (-1, w)) else Some (Inr (l\<lparr>iCurPlace := iCurPlace l + 1\<rparr>, w)))
        else split_row d n l w)
     }"

definition start0602_64 :: "sizes \<Rightarrow> session_env \<Rightarrow> cstring \<Rightarrow> int \<Rightarrow> ora \<Rightarrow> row_step" where
  "start0602_64 z se d n w =
     (if nMaxColNum w > 64 then Some (Inl (-1, w))
      else do {
        u \<leftarrow> le_at d 0 2;
        (if u = 0 then after_row z se n (between0602_64 d n) (first_row 0 21) (clear_rows w)
         else do {
           let w = clear_rows (set_glob u w);
           (if bitversion (o_t w) = 64 \<and> iversion (o_t w) = 9 then do {
              flag \<leftarrow> le_at d 4 2;
              Some (Inr (first_row u (if flag = 0x0F then 19 else 17), w))
            } else Some (Inr (first_row u 21, w)))
         })
      })"

definition DecodeTnsData0602_64 :: "sizes \<Rightarrow> session_env \<Rightarrow> cstring \<Rightarrow> int \<Rightarrow> ora \<Rightarrow> (int \<times> ora) option option" where
  "DecodeTnsData0602_64 z se d n w =
     decode_rows (start0602_64 z se d n w) (decode_row z se n (row_columns (column0602_64 d n) False 64 n) (between0602_64 d n))"

text \<open>The number of columns for a Toad client, a signed character, and the place behind it.\<close>

definition toad_columns :: "cstring \<Rightarrow> int \<Rightarrow> (int \<times> int) option" where
  "toad_columns d p =
     do {
       fe \<leftarrow> pair_at d p (CHR 0xFE) (CHR 0xFF);
       let q = p + 3 + of_bool fe;
       c \<leftarrow> at d q;
       Some (schar c mod 65536, q + 1)
     }"

definition between061a :: "cstring \<Rightarrow> int \<Rightarrow> row_vars \<Rightarrow> ora \<Rightarrow> row_step" where
  "between061a d n l w =
     do {
       c \<leftarrow> at d (iCurPlace l);
       let p = iCurPlace l + of_bool (istoad (o_t w) = 1 \<and> c = CHR 0x00);
       b \<leftarrow> at d p;
       (if istoad (o_t w) = 1 \<and> b = CHR 0x07 then do {
          (u, q) \<leftarrow> toad_columns d (p + 1);
          (if u \<le> 0 \<or> u > 64 then Some (Inl (-1, w)) else Some (Inr (l\<lparr>uColNum := u, iCurPlace := q\<rparr>, w)))
        } else split_row d n (l\<lparr>iCurPlace := p\<rparr>) w)
     }"

definition start061a :: "sizes \<Rightarrow> session_env \<Rightarrow> cstring \<Rightarrow> int \<Rightarrow> ora \<Rightarrow> row_step" where
  "start061a z se d n w =
     (if nMaxColNum w > 64 then Some (Inl (-1, w))
      else do {
        u \<leftarrow> le_at d 0 2;
        (if u = 0 then after_row z se n (between061a d n) (first_row 0 21) (clear_rows w)
         else do {
           let w = clear_rows (set_glob u w);
           (u, p) \<leftarrow> (if istoad (o_t w) = 1 then toad_columns d 21 else Some (u, 21));
           Some (Inr (first_row u p, w))
         })
      })"

definition DecodeTnsData061a :: "sizes \<Rightarrow> session_env \<Rightarrow> cstring \<Rightarrow> int \<Rightarrow> ora \<Rightarrow> (int \<times> ora) option option" where
  "DecodeTnsData061a z se d n w =
     decode_rows (start061a z se d n w) (decode_row z se n (row_columns (column061a d n) False 65 n) (between061a d n))"

subsection \<open>\<open>DecodeTnsData0601\<close>\<close>

definition column0601 :: "cstring \<Rightarrow> int \<Rightarrow> nat \<Rightarrow> int \<Rightarrow> ora \<Rightarrow> ora column option" where
  "column0601 d n k place w =
     do {
       ty \<leftarrow> nth_opt (pszFieldType w) k;
       (if ty = CHR 0x71 then blob_column (\<lambda>len. len > n \<or> len \<le> 100) 0 hex_unsigned d place w
        else if ty = CHR 0x70 then
          (if iversion (o_t w) = 11 then lob_skip ''clob|'' d place w
           else clob_column (\<lambda>len. len > n \<or> len < 100) ''NULL|'' 2 d place w)
        else text_column (\<lambda>_ x. x) (\<lambda>ty _ _ _. Some (long_skip ty)) d n k place w)
     }"

text \<open>Bits in one byte, and behind two bytes the number of columns.\<close>

definition toad_row :: "cstring \<Rightarrow> int \<Rightarrow> row_vars \<Rightarrow> row_vars option" where
  "toad_row d p l =
     do {
       b \<leftarrow> at d p;
       u \<leftarrow> at d (p + 3);
       Some (l\<lparr>szCol := b # replicate 127 NUL, uColNum := ub u, iCurPlace := p + 4\<rparr>)
     }"

definition start0601 :: "cstring \<Rightarrow> int \<Rightarrow> ora \<Rightarrow> row_step" where
  "start0601 d n w =
     do {
       u \<leftarrow> le_at d 2 2;
       (if u \<le> 0 \<or> u > 64 then Some (Inl (-1, w))
        else do {
          let w = clear_rows (set_glob u w);
          let v = iversion (o_t w);
          let toad = istoad (o_t w) = 1;
          m \<leftarrow> at d 0;
          l \<leftarrow> (if v = 10 \<and> \<not> toad then Some (first_row u (if m = CHR 0x0A then 37 else 33))
                else if v = 9 then Some (first_row u 29)
                else if v = 11 \<and> toad then do {
                  b \<leftarrow> at d 32;
                  (if b \<noteq> CHR 0x07 then Some (first_row u 32)
                   else if m = CHR 0x1A then toad_row d 33 (first_row u 33) else Some (first_row u 33))
                } else Some (first_row u 33));
          Some (Inr (l, w))
        })
     }"

definition between0601 :: "cstring \<Rightarrow> int \<Rightarrow> row_vars \<Rightarrow> ora \<Rightarrow> row_step" where
  "between0601 d n l w =
     (let p = iCurPlace l; v = iversion (o_t w); toad = (istoad (o_t w) = 1)
      in do {
        m \<leftarrow> at d 0;
        m1 \<leftarrow> at d 1;
        c \<leftarrow> at d p;
        (if v = 11 \<and> toad \<and> c = CHR 0x07 then do {
           l \<leftarrow> (if m = CHR 0x02 \<and> m1 = CHR 0x00 then Some (l\<lparr>iCurPlace := p + 1\<rparr>) else toad_row d (p + 1) l);
           (if uColNum l \<le> 0 \<or> uColNum l > 64 then Some (Inl (-1, w)) else Some (Inr (l, w)))
         }
         else if v = 11 \<and> toad \<and> m = CHR 0x02 \<and> c \<noteq> CHR 0x15 then do {
           b \<leftarrow> at d (p + 4);
           Some (if b = CHR 0x07 then Inr (l\<lparr>iCurPlace := p + 5\<rparr>, w) else Inl (p, w))
         }
         else if v = 10 \<and> \<not> toad \<and> m = CHR 0x0A \<and> c = CHR 0x07 then
           Some (Inr (l\<lparr>iCurPlace := p + 5, nRowNum := 0\<rparr>, w))
         else split_row d n l w)
      })"

definition DecodeTnsData0601 :: "sizes \<Rightarrow> session_env \<Rightarrow> cstring \<Rightarrow> int \<Rightarrow> ora \<Rightarrow> (int \<times> ora) option option" where
  "DecodeTnsData0601 z se d n w =
     decode_rows (start0601 d n w) (decode_row z se n (row_columns (column0601 d n) False 65 n) (between0601 d n))"

subsection \<open>What the decoders keep\<close>

lemma fe_pieces_bounds:
  assumes "fe_pieces cap b k sub d = Some (r, s, m)" and "length sub \<le> cap"
  shows "length s \<le> cap \<and> 0 \<le> m \<and> m \<le> int cap \<and> (r = -1 \<or> k < r \<and> r \<le> k + 1 + int (cap - length sub))"
  using assms
proof (induction cap b k sub d rule: fe_pieces.induct)
  case (2 cap b k sub c t)
  let ?i = "nat (ub c)"
  show ?case
  proof (cases "b < int (length sub + ?i) \<or> ?i = 0")
    case True
    with "2.prems" show ?thesis by (auto simp: Let_def split: if_split_asm)
  next
    case False
    with "2.prems" have g: "?i \<le> length t" "length sub + ?i \<le> cap"
      and rec: "fe_pieces cap b (k + 1) (sub @ take ?i t) (drop ?i t) = Some (r, s, m)"
      by (auto simp: Let_def split: if_split_asm)
    from False g have "1 \<le> ?i" "min (length t) ?i = ?i" by simp_all
    moreover have "length s \<le> cap \<and> 0 \<le> m \<and> m \<le> int cap
        \<and> (r = -1 \<or> k + 1 < r \<and> r \<le> k + 1 + 1 + int (cap - length (sub @ take ?i t)))"
      using False g rec by (intro "2.IH"[OF refl]) auto
    ultimately show ?thesis using g by auto
  qed
qed simp

lemma ParseStrbyLen_bounds:
  assumes "ParseStrbyLen cap f d n = Some (r, s, m, f')"
  shows "length s \<le> cap \<and> 0 \<le> m \<and> m \<le> int cap \<and> (r = -1 \<or> 1 \<le> r \<and> r \<le> int cap + 2)"
  using assms fe_pieces_bounds[of cap n 1 "[]" "tl d"]
  by (auto simp: ParseStrbyLen_def Let_def Option.bind_eq_Some_conv split: if_split_asm prod.split_asm)

lemma read_text_bounds:
  assumes "read_text d n k place w = Some (r, m, w')"
  shows "0 \<le> m \<and> m \<le> 1024 \<and> (r = -1 \<or> 1 \<le> r \<and> r \<le> 1026)"
  using assms ParseStrbyLen_bounds[of 1024] by (fastforce simp: read_text_def Option.bind_eq_Some_conv)

end
