(* ===== verification/TnsRowLaws.thy ===== *)
theory TnsRowLaws
  imports TnsRows
begin

text \<open>
  Laws of the row decoders of \<^verbatim>\<open>OracleProxy/oraclefilter.c\<close>: a relation between the states before and after that the
  basic operations keep is kept by every decoder (\<open>row_effects\<close>), and a decoder returns while the columns
  are texts.
\<close>

lemma set_t_same [simp]: "set_t (o_t w) w = w"
  by (simp add: set_t_def)

lemma set_mark_length: "set_mark s k = Some m \<Longrightarrow> length m = length s"
  by (auto simp: set_mark_def Option.bind_eq_Some_conv)

lemma ub_bounds: "0 \<le> ub c \<and> ub c < 256"
proof -
  have "ub c = int (of_char c)" by (simp only: of_nat_of_char)
  moreover have "(of_char c :: nat) < 256" by simp
  ultimately show ?thesis by linarith
qed

lemma be_nat_less: "be_nat s < 256 ^ length s"
proof (induction s rule: rev_induct)
  case (snoc c s)
  have "of_char c < (256 :: nat)" by simp
  then have "256 * be_nat s + of_char c < 256 * (be_nat s + 1)" by simp
  also have "\<dots> \<le> 256 * 256 ^ length s" using snoc by simp
  finally show ?case by (simp add: be_nat_def)
qed (simp add: be_nat_def)

lemma le_at_bounds:
  assumes "le_at d p n = Some v"
  shows "0 \<le> v \<and> v < 256 ^ nat n"
proof -
  let ?s = "take (nat n) (drop (nat p) d)"
  have v: "v = int (be_nat (rev ?s))" "length (rev ?s) = nat n"
    using assms by (auto simp: le_at_def bytes_at_def Option.bind_eq_Some_conv split: if_split_asm)
  with be_nat_less[of "rev ?s"] have "be_nat (rev ?s) < 256 ^ nat n" by simp
  then have "int (be_nat (rev ?s)) < 256 ^ nat n" by (metis of_nat_less_iff of_nat_numeral of_nat_power)
  with v show ?thesis by simp
qed

lemmas word_bounds = le_at_bounds[where n = 2, simplified]

text \<open>The number of columns has 16 bits.\<close>

definition vars_ok :: "row_vars \<Rightarrow> bool" where
  "vars_ok l \<longleftrightarrow> 0 \<le> uColNum l \<and> uColNum l < 65536"

lemma vars_ok_simps [simp]:
  "vars_ok (l\<lparr>iCurPlace := p\<rparr>) = vars_ok l" "vars_ok (l\<lparr>nRowNum := r\<rparr>) = vars_ok l" "vars_ok (l\<lparr>szCol := s\<rparr>) = vars_ok l"
  "vars_ok (l\<lparr>isColCode := b\<rparr>) = vars_ok l" "vars_ok (l\<lparr>uColNum := u\<rparr>) \<longleftrightarrow> 0 \<le> u \<and> u < 65536"
  "vars_ok (first_row u p) \<longleftrightarrow> 0 \<le> u \<and> u < 65536"
  by (simp_all add: vars_ok_def first_row_def)

lemma toad_columns_bounds: "toad_columns d p = Some (u, q) \<Longrightarrow> 0 \<le> u \<and> u < 65536 \<and> p + 4 \<le> q"
  by (auto simp: toad_columns_def Option.bind_eq_Some_conv Let_def)

lemma toad_row_ok: "toad_row d p l = Some l' \<Longrightarrow> vars_ok l' \<and> iCurPlace l' = p + 4"
  using ub_bounds by (auto simp: toad_row_def vars_ok_def Option.bind_eq_Some_conv intro: less_trans[of _ 256])

text \<open>What holds at the start of every round and at a return.\<close>

lemma rows_loop_result:
  assumes "rows_loop row st = Some (Some x)" and "P st"
    and "\<And>st x. P st \<Longrightarrow> row st = Some (Inl x) \<Longrightarrow> Q x" and "\<And>st st'. P st \<Longrightarrow> row st = Some (Inr st') \<Longrightarrow> P st'"
  shows "Q x"
proof -
  have "\<forall>x. y = Some x \<longrightarrow> P st \<longrightarrow> Q x" if "rows_loop r st = Some y" and "r = row" for r st y
    using that
  proof (induction r st y rule: rows_loop.raw_induct[rotated, consumes 1, case_names step])
    case (step loop r st y)
    show ?case
    proof (cases "r st")
      case None
      with step.hyps show ?thesis by simp
    next
      case (Some z)
      show ?thesis
      proof (cases z)
        case (Inl a)
        with step.hyps Some have "y = Some a" by simp
        with assms(3)[of st a] step.prems Some Inl show ?thesis by simp
      next
        case (Inr st')
        with step.hyps Some have "loop r st' = Some y" by simp
        from step.IH[OF this step.prems] assms(4)[of st st'] step.prems Some Inr show ?thesis by simp
      qed
    qed
  qed
  with assms(1,2) show ?thesis by blast
qed

text \<open>What comes between two rows changes no array, and goes forward in the packet.\<close>

definition goes_on :: "row_vars \<Rightarrow> ora \<Rightarrow> int \<times> ora + row_vars \<times> ora \<Rightarrow> bool" where
  "goes_on l w c = (case c of Inl (r, w') \<Rightarrow> w' = w
     | Inr (l', w') \<Rightarrow> w' = w \<and> (vars_ok l \<longrightarrow> vars_ok l') \<and> iCurPlace l < iCurPlace l')"

lemma goes_on_simps [simp]: "goes_on l w (Inl (q, w))"
  "goes_on l w (Inr (l', w)) \<longleftrightarrow> (vars_ok l \<longrightarrow> vars_ok l') \<and> iCurPlace l < iCurPlace l'"
  by (auto simp: goes_on_def)

lemma find_07_ge: "find_07 n p d = Some (Inr q) \<Longrightarrow> p \<le> q"
  by (induction n p d rule: find_07.induct) (auto split: if_split_asm)

lemma bytes_at_pos: "bytes_at d p n = Some s \<Longrightarrow> 0 \<le> n"
  by (simp add: bytes_at_def split: if_split_asm)

lemma new_columns_ok: "vars_ok l \<Longrightarrow> 0 \<le> u \<Longrightarrow> u < 65536 \<Longrightarrow> 0 \<le> new_columns u (uColNum l) \<and> new_columns u (uColNum l) < 65536"
  by (simp add: new_columns_def vars_ok_def)

lemma find_07_goes_on:
  assumes "(case e of Inl q \<Rightarrow> Some (Inl (q, w)) | Inr q \<Rightarrow> Some (Inr (f q, w))) = Some c" and "find_07 n p d = Some e"
    and "\<And>q. p \<le> q \<Longrightarrow> goes_on l w (Inr (f q, w))"
  shows "goes_on l w c"
  using assms by (cases e) (auto dest: find_07_ge)

lemma split_row_goes_on:
  assumes "split_row d n l w = Some c"
  shows "goes_on l w c"
  using assms
  by (auto simp: split_row_def Let_def Option.bind_eq_Some_conv new_columns_ok dest!: word_bounds bytes_at_pos
      elim!: find_07_goes_on split: if_split_asm)

lemma goes_on_later: "goes_on (l\<lparr>iCurPlace := p\<rparr>) w c \<Longrightarrow> iCurPlace l \<le> p \<Longrightarrow> goes_on l w c"
  by (auto simp: goes_on_def split: sum.splits)

lemma between0602_goes_on: "between0602 d l w = Some c \<Longrightarrow> goes_on l w c"
  by (auto simp: between0602_def Option.bind_eq_Some_conv split: if_split_asm)

lemma between0602_64_goes_on: "between0602_64 d n l w = Some c \<Longrightarrow> goes_on l w c"
  by (auto simp: between0602_64_def Option.bind_eq_Some_conv dest: split_row_goes_on split: if_split_asm)

lemma between061a_goes_on: "between061a d n l w = Some c \<Longrightarrow> goes_on l w c"
  by (auto simp: between061a_def Option.bind_eq_Some_conv Let_def dest!: split_row_goes_on toad_columns_bounds
      intro: goes_on_later split: if_split_asm split_of_bool_asm)

lemma between0601_goes_on:
  assumes "between0601 d n l w = Some c"
  shows "goes_on l w c"
proof -
  let ?p = "iCurPlace l"
  obtain m m1 a where g: "at d 0 = Some m" "at d 1 = Some m1" "at d ?p = Some a"
    using assms by (auto simp: between0601_def Let_def Option.bind_eq_Some_conv)
  note r = assms[unfolded between0601_def Let_def g Option.bind.bind_lunit]
  let ?v = "iversion (o_t w)" and ?toad = "istoad (o_t w) = 1"
  consider "?v = 11 \<and> ?toad \<and> a = CHR 0x07" | "\<not> (?v = 11 \<and> ?toad \<and> a = CHR 0x07)" "?v = 11 \<and> ?toad \<and> m = CHR 0x02 \<and> a \<noteq> CHR 0x15"
    | "\<not> (?v = 11 \<and> ?toad \<and> a = CHR 0x07)" "\<not> (?v = 11 \<and> ?toad \<and> m = CHR 0x02 \<and> a \<noteq> CHR 0x15)" by blast
  then show ?thesis
  proof cases
    case 1
    note r = r[unfolded if_P[OF 1]]
    from r obtain l' where l': "(if m = CHR 0x02 \<and> m1 = NUL then Some (l\<lparr>iCurPlace := ?p + 1\<rparr>) else toad_row d (?p + 1) l) = Some l'"
      and c: "(if uColNum l' \<le> 0 \<or> uColNum l' > 64 then Some (Inl (-1, w)) else Some (Inr (l', w))) = Some c"
      by (auto simp: Option.bind_eq_Some_conv)
    from l' have "l' = l\<lparr>iCurPlace := ?p + 1\<rparr> \<or> toad_row d (?p + 1) l = Some l'"
      by (cases "m = CHR 0x02 \<and> m1 = NUL") auto
    with c show ?thesis by (auto dest: toad_row_ok split: if_split_asm)
  next
    case 2
    note r = r[unfolded if_not_P[OF 2(1)] if_P[OF 2(2)]]
    then obtain b where "(if b = CHR 0x07 then Inr (l\<lparr>iCurPlace := ?p + 5\<rparr>, w) else Inl (?p, w)) = c"
      by (auto simp: Option.bind_eq_Some_conv)
    then show ?thesis by (auto split: if_split_asm)
  next
    case 3
    note r = r[unfolded if_not_P[OF 3(1)] if_not_P[OF 3(2)]]
    then show ?thesis by (auto dest: split_row_goes_on split: if_split_asm)
  qed
qed

subsection \<open>Effects\<close>

locale row_effects =
  fixes R :: "ora \<Rightarrow> ora \<Rightarrow> bool"
  assumes refl: "R w w"
    and trans: "R a b \<Longrightarrow> R b c \<Longrightarrow> R a c"
    and printed: "length r < 4096 \<Longrightarrow> R w (set_t ((o_t w)\<lparr>sql_reslut := r\<rparr>) w)"
    and flagged: "R w (set_t ((o_t w)\<lparr>oracleFlag := f\<rparr>) w)"
    and row_set: "length s \<le> 1024 \<Longrightarrow> k < length (pszRowStr w) \<Longrightarrow> R w (w\<lparr>pszRowStr := (pszRowStr w)[k := s]\<rparr>)"
    and row_kept: "0 \<le> len \<Longrightarrow> len \<le> 1024 \<Longrightarrow> k < length (pRowStrLen w) \<Longrightarrow> length m = length (szOldCol w)
      \<Longrightarrow> R w (w\<lparr>pRowStrLen := (pRowStrLen w)[k := len], szOldCol := m\<rparr>)"
    and marked_old: "length m = length (szOldCol w) \<Longrightarrow> R w (w\<lparr>szOldCol := m\<rparr>)"
    and logged: "flush_result z se (o_t w) = Some t \<Longrightarrow> R w (set_t t w)"
    and cleared: "R w (clear_rows w)"
    and columns_set: "0 \<le> u \<Longrightarrow> u < 65536 \<Longrightarrow> R w (w\<lparr>nMaxColNum := max (nMaxColNum w) u\<rparr>)"
    and glob_set: "0 \<le> u \<Longrightarrow> u < 65536 \<Longrightarrow> R w (set_t ((o_t w)\<lparr>nGlobMaxColNum := u\<rparr>) w)"
begin

lemma emit: "emit s w = Some w' \<Longrightarrow> R w w'"
  by (auto simp: emit_def printreslut_def Option.bind_eq_Some_conv intro!: printed intro: refl split: if_split_asm)

lemma print_value: "print_value k len w = Some w' \<Longrightarrow> R w w'"
  by (auto simp: print_value_def PrintData_def printreslut_def Option.bind_eq_Some_conv intro!: printed intro: refl split: if_split_asm)

lemma set_row: "set_row k s w = Some w' \<Longrightarrow> length s \<le> 1024 \<Longrightarrow> R w w'"
  by (auto simp: set_row_def intro: row_set split: if_split_asm)

lemma keep_value: "keep_value k len w = Some w' \<Longrightarrow> 0 \<le> len \<Longrightarrow> R w w'"
  by (auto simp: keep_value_def Option.bind_eq_Some_conv intro!: row_kept set_mark_length split: if_split_asm)

lemma repeat_column: "repeat_column k w = Some w' \<Longrightarrow> R w w'"
  by (auto simp: repeat_column_def Option.bind_eq_Some_conv dest: emit print_value split: if_split_asm)

lemma log_row: "log_row z se w = Some w' \<Longrightarrow> R w w'"
  by (auto simp: log_row_def Option.bind_eq_Some_conv intro: logged)

lemma set_glob: "0 \<le> u \<Longrightarrow> u < 65536 \<Longrightarrow> R w (set_glob u w)"
  by (simp add: set_glob_def refl glob_set)

lemma read_text: "read_text d n k place w = Some (r, m, w') \<Longrightarrow> R w w'"
  by (auto simp: read_text_def Option.bind_eq_Some_conv dest!: ParseStrbyLen_bounds set_row intro: trans flagged)

lemmas basic = emit print_value log_row set_glob read_text repeat_column

text \<open>The result of a column.\<close>

definition col_R :: "ora \<Rightarrow> ora column \<Rightarrow> bool" where
  "col_R w c = (case c of Col_next p w' \<Rightarrow> R w w' | Col_break p w' \<Rightarrow> R w w' | Col_return r w' \<Rightarrow> R w w')"

lemma lob_body: "lob_body refused skip add pr d p w = Some c \<Longrightarrow> col_R w c"
  by (auto simp: lob_body_def col_R_def Option.bind_eq_Some_conv Let_def refl dest!: emit split: if_split_asm)

lemma blob_column: "blob_column refused skip hex d place w = Some c \<Longrightarrow> col_R w c"
  by (auto simp: blob_column_def Option.bind_eq_Some_conv dest!: emit lob_body split: if_split_asm) (simp add: col_R_def)

lemma clob_column: "clob_column refused null add d place w = Some c \<Longrightarrow> col_R w c"
  by (auto simp: clob_column_def Option.bind_eq_Some_conv Let_def dest!: emit lob_body split: if_split_asm) (simp_all add: col_R_def)

lemma lob_skip: "lob_skip kind d place w = Some c \<Longrightarrow> col_R w c"
  by (auto simp: lob_skip_def col_R_def Option.bind_eq_Some_conv dest: emit)

lemma bfile_name: "bfile_name d p w = Some w' \<Longrightarrow> R w w'"
  by (auto simp: bfile_name_def Option.bind_eq_Some_conv dest!: emit intro: trans split: if_split_asm)

lemma bfile_text: "bfile_text d p w = Some w' \<Longrightarrow> R w w'"
  by (auto simp: bfile_text_def Option.bind_eq_Some_conv refl dest!: emit bfile_name intro: trans split: if_split_asm)

lemma bfile_column: "bfile_column d place w = Some c \<Longrightarrow> col_R w c"
  by (auto simp: bfile_column_def col_R_def Option.bind_eq_Some_conv dest: bfile_text)

lemma text_column:
  assumes "text_column adjust extra d n k place w = Some c" and "\<And>ty r l. 0 \<le> l \<Longrightarrow> 0 \<le> snd (adjust ty (r, l))"
  shows "col_R w c"
proof -
  obtain ty r len w1 where t: "nth_opt (pszFieldType w) k = Some ty" "read_text d n k place w = Some (r, len, w1)"
    using assms(1) by (auto simp: text_column_def Option.bind_eq_Some_conv simp del: nth_opt_Some)
  then have w1: "R w w1" "0 \<le> len" by (auto dest: read_text read_text_bounds)
  obtain r' len' where a: "adjust ty (r, len) = (r', len')" by fastforce
  with assms(2)[of len ty r] w1 have "0 \<le> len'" by simp
  with assms(1) t a w1 show ?thesis
    by (auto simp: text_column_def col_R_def Option.bind_eq_Some_conv simp del: nth_opt_Some dest!: print_value keep_value
        split: if_split_asm; meson trans)
qed

lemma row_skip: "w' = w \<or> R w w' \<Longrightarrow> R a w \<Longrightarrow> R a w'"
  using trans by blast

lemma column0600: "column0600 d n k place w = Some c \<Longrightarrow> col_R w c"
  by (auto simp: column0600_def Option.bind_eq_Some_conv dest: blob_column clob_column text_column split: if_split_asm)

lemma column0601: "column0601 d n k place w = Some c \<Longrightarrow> col_R w c"
  by (auto simp: column0601_def Option.bind_eq_Some_conv dest: blob_column clob_column lob_skip text_column split: if_split_asm)

lemma column0602:
  assumes "column0602 d n k place w = Some c"
  shows "col_R w c"
proof -
  obtain r len w1 where t: "read_text d n k place w = Some (r, len, w1)"
    using assms by (auto simp: column0602_def Option.bind_eq_Some_conv)
  then have w1: "R w w1" by (rule read_text)
  show ?thesis
  proof (cases "r < 0")
    case True
    with assms t w1 show ?thesis by (auto simp: column0602_def col_R_def)
  next
    case False
    with assms t obtain w2 m p where w2: "w2 = w1 \<or> print_value k len w1 = Some w2" and m: "set_mark (szOldCol w2) k = Some m"
      and c: "c = Col_next p (w2\<lparr>szOldCol := m\<rparr>)"
      by (auto simp: column0602_def Option.bind_eq_Some_conv split: if_split_asm)
    from w2 have "R w1 w2" by (auto intro: refl print_value)
    moreover have "R w2 (w2\<lparr>szOldCol := m\<rparr>)" using m by (intro marked_old set_mark_length)
    ultimately show ?thesis using w1 c by (auto simp: col_R_def intro: trans)
  qed
qed

lemma column_64:
  assumes "column_64 kind extra d n k place w = Some c"
  shows "col_R w c"
proof -
  have "col_R w c" if "text_column (rowid_length (o_t w)) extra d n k place w = Some c"
    using that by (rule text_column) (auto simp: rowid_length_def)
  with assms show ?thesis
    by (auto simp: column_64_def Option.bind_eq_Some_conv Let_def dest: blob_column clob_column lob_skip bfile_column
        split: if_split_asm)
qed

text \<open>The result of the columns of a row.\<close>

definition res_R :: "ora \<Rightarrow> int \<times> ora + int \<times> ora \<Rightarrow> bool" where
  "res_R w c = (case c of Inl (r, w') \<Rightarrow> R w w' | Inr (p, w') \<Rightarrow> R w w')"

lemma res_trans: "R a b \<Longrightarrow> res_R b c \<Longrightarrow> res_R a c"
  by (auto simp: res_R_def intro: trans split: sum.splits prod.splits)

lemma columns:
  assumes "columns col rep s n u m lim k q p w = Some c" and "\<And>k p w c. col k p w = Some c \<Longrightarrow> col_R w c"
  shows "res_R w c"
  using assms
proof (induction col rep s n u m lim k q p w arbitrary: c rule: columns.induct)
  case (1 col rep s n u m lim k q p w)
  show ?case
  proof (cases "int k < m \<and> \<not> n < p")
    case False
    with "1.prems"(1) show ?thesis by (auto simp: columns.simps[of col rep s n u m lim k] res_R_def refl split: if_split_asm)
  next
    case True
    then have g: "\<not> \<not> int k < m" "\<not> n < p" by auto
    with "1.prems"(1) obtain sent where sent: "(if rep then mark_of s k else Some True) = Some sent"
      by (auto simp: columns.simps[of col rep s n u m lim k] Option.bind_eq_Some_conv)
    show ?thesis
    proof (cases sent)
      case False
      with "1.prems"(1) g sent obtain w1 where w1: "repeat_column k w = Some w1"
        and rec: "columns col rep s n u m lim (k + 1) q p w1 = Some c"
        by (auto simp: columns.simps[of col rep s n u m lim k] Option.bind_eq_Some_conv)
      have "res_R w1 c" by (rule "1.IH"(1)[OF g sent False w1 rec]) (rule "1.prems"(2))
      with w1 show ?thesis by (blast intro: res_trans repeat_column)
    next
      case sentT: True
      show ?thesis
      proof (cases "u \<le> q \<or> lim \<le> k")
        case True
        with "1.prems"(1) g sent sentT show ?thesis
          by (auto simp: columns.simps[of col rep s n u m lim k] res_R_def refl split: if_split_asm)
      next
        case False
        then have h: "\<not> u \<le> q" "\<not> lim \<le> k" by auto
        with "1.prems"(1) g sent sentT obtain w1 x where w1: "set_row k [] w = Some w1" and x: "col k p w1 = Some x"
          and rest: "(case x of Col_next p w \<Rightarrow> columns col rep s n u m lim (Suc k) (q + 1) p w
            | Col_break p w \<Rightarrow> Some (Inr (p, w)) | Col_return r w \<Rightarrow> Some (Inl (r, w))) = Some c"
          by (auto simp: columns.simps[of col rep s n u m lim k] Option.bind_eq_Some_conv)
        have "res_R w1 c"
        proof (cases x)
          case (Col_next p' w')
          with rest have "columns col rep s n u m lim (k + 1) (q + 1) p' w' = Some c" by simp
          then have "res_R w' c" using sentT "1.prems"(2) by (intro "1.IH"(2)[OF g sent _ h w1 x Col_next]) auto
          with "1.prems"(2)[OF x] Col_next show ?thesis by (auto simp: col_R_def intro: res_trans)
        next
          case (Col_break p' w')
          with rest "1.prems"(2)[OF x] show ?thesis by (auto simp: col_R_def res_R_def)
        next
          case (Col_return r w')
          with rest "1.prems"(2)[OF x] show ?thesis by (auto simp: col_R_def res_R_def)
        qed
        moreover have "R w w1" using w1 by (rule set_row) simp
        ultimately show ?thesis by (blast intro: res_trans)
      qed
    qed
  qed
qed

lemma columns0602:
  assumes "columns0602 col d n u m k q p w = Some c" and "\<And>k p w c. col k p w = Some c \<Longrightarrow> col_R w c"
  shows "res_R w c"
  using assms
proof (induction col d n u m k q p w arbitrary: c rule: columns0602.induct)
  case (1 col d n u m k q p w)
  show ?case
  proof (cases "int k < m \<and> \<not> n < p \<and> \<not> u \<le> q \<and> \<not> 64 < k")
    case False
    with "1.prems"(1) show ?thesis by (auto simp: columns0602.simps[of col d n u m k] res_R_def refl split: if_split_asm)
  next
    case True
    then have g: "\<not> \<not> int k < m" "\<not> n < p" "\<not> u \<le> q" "\<not> 64 < k" by auto
    with "1.prems"(1) obtain w1 x where w1: "set_row k [] w = Some w1" and x: "col k p w1 = Some x"
      and rest: "(case x of Col_next p w \<Rightarrow> do { e \<leftarrow> row_end d p;
            if e then Some (Inr (p, w)) else columns0602 col d n u m (k + 1) (q + 1) p w }
          | Col_break p w \<Rightarrow> Some (Inr (p, w)) | Col_return r w \<Rightarrow> Some (Inl (r, w))) = Some c"
      by (auto simp: columns0602.simps[of col d n u m k] Option.bind_eq_Some_conv)
    have "res_R w1 c"
    proof (cases x)
      case (Col_next p' w')
      with rest obtain e where e: "row_end d p' = Some e"
        and c: "(if e then Some (Inr (p', w')) else columns0602 col d n u m (k + 1) (q + 1) p' w') = Some c"
        by (auto simp: Option.bind_eq_Some_conv)
      have "res_R w' c"
      proof (cases e)
        case True
        with c show ?thesis by (auto simp: res_R_def refl)
      next
        case False
        with c have "columns0602 col d n u m (k + 1) (q + 1) p' w' = Some c" by simp
        then show ?thesis using "1.prems"(2) by (intro "1.IH"[OF g w1 x Col_next e False]) auto
      qed
      with "1.prems"(2)[OF x] Col_next show ?thesis by (auto simp: col_R_def intro: res_trans)
    next
      case (Col_break p' w')
      with rest "1.prems"(2)[OF x] show ?thesis by (auto simp: col_R_def res_R_def)
    next
      case (Col_return r w')
      with rest "1.prems"(2)[OF x] show ?thesis by (auto simp: col_R_def res_R_def)
    qed
    moreover have "R w w1" using w1 by (rule set_row) simp
    ultimately show ?thesis by (blast intro: res_trans)
  qed
qed

text \<open>One round of the loop over the rows.\<close>

definition row_R :: "ora \<Rightarrow> int \<times> ora + row_vars \<times> ora \<Rightarrow> bool" where
  "row_R w c = (case c of Inl (r, w') \<Rightarrow> R w w' | Inr (l, w') \<Rightarrow> R w w' \<and> vars_ok l)"

lemma row_R_simps [simp]: "row_R w (Inl (r, w')) = R w w'" "row_R w (Inr (l, w')) \<longleftrightarrow> R w w' \<and> vars_ok l"
  by (simp_all add: row_R_def)

lemma row_trans: "R a b \<Longrightarrow> row_R b c \<Longrightarrow> row_R a c"
  by (auto simp: row_R_def intro: trans split: sum.splits prod.splits)

lemma goes_on: "goes_on l w c \<Longrightarrow> vars_ok l \<Longrightarrow> row_R w c"
  by (auto simp: goes_on_def row_R_def refl split: sum.splits)

lemma after_row:
  assumes "after_row z se n between l w = Some c" and "vars_ok l"
    and "\<And>l w c. between l w = Some c \<Longrightarrow> goes_on l w c"
  shows "row_R w c"
  using assms(1,2) by (auto simp: after_row_def Let_def refl dest!: assms(3) goes_on split: if_split_asm)

lemma decode_row:
  assumes "decode_row z se n cols between (l, w) = Some c" and "vars_ok l"
    and "\<And>l w c. cols l w = Some c \<Longrightarrow> res_R w c" and "\<And>l w c. between l w = Some c \<Longrightarrow> goes_on l w c"
  shows "row_R w c"
proof -
  let ?w = "w\<lparr>nMaxColNum := max (nMaxColNum w) (uColNum l)\<rparr>"
  have w: "R w ?w" using assms(2) by (auto simp: vars_ok_def intro: columns_set)
  obtain x where x: "cols l ?w = Some x" using assms(1) by (auto simp: decode_row_def Option.bind_eq_Some_conv)
  have r: "res_R ?w x" using x by (rule assms(3))
  have "row_R ?w c"
  proof (cases x)
    case (Inl y)
    with assms(1) x r show ?thesis by (cases y) (auto simp: decode_row_def res_R_def)
  next
    case (Inr y)
    obtain p w1 where y: "y = (p, w1)" by fastforce
    with assms(1) x Inr obtain w2 where w2: "log_row z se w1 = Some w2"
      and a: "after_row z se n between (l\<lparr>iCurPlace := p\<rparr>) w2 = Some c"
      by (auto simp: decode_row_def Option.bind_eq_Some_conv)
    from a have "row_R w2 c" using assms(2,4) by (elim after_row) simp_all
    moreover have "R ?w w1" using r Inr y by (simp add: res_R_def)
    ultimately show ?thesis using w2 by (blast intro: row_trans log_row)
  qed
  with w show ?thesis by (rule row_trans)
qed

lemma rows_loop:
  assumes "rows_loop row (l, w) = Some (Some (r, w'))" and "vars_ok l"
    and "\<And>l w c. row (l, w) = Some c \<Longrightarrow> vars_ok l \<Longrightarrow> row_R w c"
  shows "R w w'"
proof -
  have "(\<lambda>x. R w (snd x)) (r, w')"
  proof (rule rows_loop_result[OF assms(1)])
    show "(\<lambda>st. vars_ok (fst st) \<and> R w (snd st)) (l, w)" using assms(2) by (simp add: refl)
  next
    fix st x
    assume "vars_ok (fst st) \<and> R w (snd st)" "row st = Some (Inl x)"
    with assms(3)[of "fst st" "snd st"] show "R w (snd x)" by (cases x) (auto intro: trans)
  next
    fix st st'
    assume "vars_ok (fst st) \<and> R w (snd st)" "row st = Some (Inr st')"
    with assms(3)[of "fst st" "snd st"] show "vars_ok (fst st') \<and> R w (snd st')" by (cases st') (auto intro: trans)
  qed
  then show ?thesis by simp
qed

lemma decode_rows:
  assumes "decode_rows start (decode_row z se n cols between) = Some (Some (r, w'))"
    and "\<And>c. start = Some c \<Longrightarrow> row_R w c"
    and "\<And>l w c. cols l w = Some c \<Longrightarrow> res_R w c" and "\<And>l w c. between l w = Some c \<Longrightarrow> goes_on l w c"
  shows "R w w'"
proof (cases start)
  case None
  with assms(1) show ?thesis by (simp add: decode_rows_def)
next
  case (Some c)
  show ?thesis
  proof (cases c)
    case (Inl x)
    with Some assms(1) assms(2)[OF Some] show ?thesis by (auto simp: decode_rows_def)
  next
    case (Inr st)
    obtain l w1 where st: "st = (l, w1)" by fastforce
    have "rows_loop (decode_row z se n cols between) (l, w1) = Some (Some (r, w'))"
      using Some Inr st assms(1) by (simp add: decode_rows_def)
    moreover have w1: "R w w1" "vars_ok l" using assms(2)[OF Some] Inr st by simp_all
    ultimately have "R w1 w'" using assms(3,4) by (elim rows_loop) (auto elim: decode_row)
    with w1 show ?thesis by (blast intro: trans)
  qed
qed

lemma row_columns:
  assumes "row_columns col always lim n l w = Some c" and "\<And>k p w c. col k p w = Some c \<Longrightarrow> col_R w c"
  shows "res_R w c"
  using assms unfolding row_columns_def by (rule columns)

lemma set_glob_cleared: "0 \<le> u \<Longrightarrow> u < 65536 \<Longrightarrow> R w (clear_rows (set_glob u w))"
  by (blast intro: trans set_glob cleared)

lemma start0600: "start0600 d n w = Some c \<Longrightarrow> row_R w c"
  by (auto simp: start0600_def Option.bind_eq_Some_conv Let_def refl set_glob set_glob_cleared dest!: word_bounds split: if_split_asm)

lemma DecodeTnsData0600: "DecodeTnsData0600 z se d n w = Some (Some (r, w')) \<Longrightarrow> R w w'"
  unfolding DecodeTnsData0600_def
  by (erule decode_rows) (auto intro: start0600 split_row_goes_on elim!: row_columns column0600)

lemma start0602: "start0602 z se d n w = Some c \<Longrightarrow> row_R w c"
  by (auto simp: start0602_def Option.bind_eq_Some_conv refl set_glob_cleared dest!: word_bounds
      elim!: after_row between0602_goes_on intro: row_trans[OF cleared] split: if_split_asm)

lemma DecodeTnsData0602: "DecodeTnsData0602 z se d n w = Some (Some (r, w')) \<Longrightarrow> R w w'"
  unfolding DecodeTnsData0602_def columns_0602_def
  by (erule decode_rows) (auto intro: start0602 between0602_goes_on elim!: columns0602 column0602)

lemma start0602_64: "start0602_64 z se d n w = Some c \<Longrightarrow> row_R w c"
  by (auto simp: start0602_64_def Option.bind_eq_Some_conv Let_def refl set_glob_cleared dest!: word_bounds
      elim!: after_row between0602_64_goes_on intro: row_trans[OF cleared] split: if_split_asm)

lemma DecodeTnsData0602_64: "DecodeTnsData0602_64 z se d n w = Some (Some (r, w')) \<Longrightarrow> R w w'"
  unfolding DecodeTnsData0602_64_def column0602_64_def
  by (erule decode_rows) (auto intro: start0602_64 between0602_64_goes_on elim!: row_columns column_64)

lemma start061a: "start061a z se d n w = Some c \<Longrightarrow> row_R w c"
  by (auto simp: start061a_def Option.bind_eq_Some_conv Let_def refl set_glob_cleared dest!: word_bounds toad_columns_bounds
      elim!: after_row between061a_goes_on intro: row_trans[OF cleared] split: if_split_asm)

lemma DecodeTnsData061a: "DecodeTnsData061a z se d n w = Some (Some (r, w')) \<Longrightarrow> R w w'"
  unfolding DecodeTnsData061a_def column061a_def
  by (erule decode_rows) (auto intro: start061a between061a_goes_on elim!: row_columns column_64)

lemma start0601:
  assumes "start0601 d n w = Some c"
  shows "row_R w c"
proof -
  obtain u where u: "le_at d 2 2 = Some u" using assms by (auto simp: start0601_def Option.bind_eq_Some_conv)
  show ?thesis
  proof (cases "u \<le> 0 \<or> u > 64")
    case True
    with assms u show ?thesis by (auto simp: start0601_def refl)
  next
    case False
    with assms u obtain l where c: "c = Inr (l, clear_rows (set_glob u w))" and l: "vars_ok l"
      by (auto simp: start0601_def Let_def Option.bind_eq_Some_conv dest!: toad_row_ok split: if_split_asm)
    with False show ?thesis by (simp add: set_glob_cleared)
  qed
qed

lemma DecodeTnsData0601: "DecodeTnsData0601 z se d n w = Some (Some (r, w')) \<Longrightarrow> R w w'"
  unfolding DecodeTnsData0601_def
  by (erule decode_rows) (auto intro: start0601 between0601_goes_on elim!: row_columns column0601)

end

subsection \<open>What stays\<close>

text \<open>The decoders change no setting and no type of a column, and only add to the logs.\<close>

definition settings :: "tns \<Rightarrow> int \<times> int \<times> int \<times> int \<times> int \<times> cstring \<times> int" where
  "settings t = (isquery t, iversion t, istoad t, isplsql t, bitversion t, sznewHost t, inewPort t)"

definition same :: "ora \<Rightarrow> ora \<Rightarrow> bool" where
  "same w w' \<longleftrightarrow> settings (o_t w') = settings (o_t w) \<and> grows (t_logs (o_t w)) (t_logs (o_t w'))
     \<and> pszFieldType w' = pszFieldType w \<and> isjdbc w' = isjdbc w"

lemma flush_settings: "flush_result z se t = Some t' \<Longrightarrow> settings t' = settings t \<and> (t' = t \<or> sql_reslut t' = [])
    \<and> nGlobMaxColNum t' = nGlobMaxColNum t"
  by (auto simp: flush_result_def DBOracleReslut_def settings_def Let_def Option.bind_eq_Some_conv split: if_split_asm)

interpretation same: row_effects same
proof unfold_locales
  fix w :: ora and z se t
  assume "flush_result z se (o_t w) = Some t"
  then show "same w (set_t t w)" using DBOracle_grows(2) flush_settings by (auto simp: same_def set_t_def)
qed (auto simp: same_def settings_def set_t_def clear_rows_def intro: grows_trans)

text \<open>Every array has its size, and every text fits into its array.\<close>

definition arrays_ok :: "ora \<Rightarrow> bool" where
  "arrays_ok w \<longleftrightarrow> length (pszFieldType w) = 20
     \<and> length (pszRowStr w) = 64 \<and> list_all (\<lambda>s. length s \<le> 1024) (pszRowStr w)
     \<and> length (pRowStrLen w) = 64 \<and> list_all (\<lambda>n. 0 \<le> n \<and> n \<le> 1024) (pRowStrLen w)
     \<and> length (szOldCol w) = 128 \<and> length (sql_reslut (o_t w)) < 4096
     \<and> 0 \<le> nMaxColNum w \<and> nMaxColNum w < 65536 \<and> 0 \<le> nGlobMaxColNum (o_t w) \<and> nGlobMaxColNum (o_t w) < 65536"

definition arrays_kept :: "ora \<Rightarrow> ora \<Rightarrow> bool" where
  "arrays_kept w w' \<longleftrightarrow> (arrays_ok w \<longrightarrow> arrays_ok w')"

lemma list_all_update: "list_all Q xs \<Longrightarrow> Q v \<Longrightarrow> list_all Q (xs[k := v])"
  by (cases "k < length xs") (auto simp: list_all_length nth_list_update)

interpretation arrays: row_effects arrays_kept
proof unfold_locales
  fix w :: ora and z se t
  assume "flush_result z se (o_t w) = Some t"
  then show "arrays_kept w (set_t t w)" using flush_settings by (fastforce simp: arrays_kept_def arrays_ok_def set_t_def)
next
  fix w :: ora
  show "arrays_kept w (clear_rows w)" by (simp add: arrays_kept_def arrays_ok_def clear_rows_def list_all_length)
qed (simp_all add: arrays_kept_def arrays_ok_def set_t_def list_all_update le_max_iff_disj)

subsection \<open>The decoders return\<close>

text \<open>Columns of texts, the only ones there are while the types are not read.\<close>

definition texts :: "ora \<Rightarrow> bool" where
  "texts w \<longleftrightarrow> set (pszFieldType w) \<subseteq> {NUL}"

lemma texts_same: "same w w' \<Longrightarrow> texts w' = texts w"
  by (simp add: same_def texts_def)

lemma texts_type: "nth_opt (pszFieldType w) k = Some ty \<Longrightarrow> texts w \<Longrightarrow> ty = NUL"
  by (auto simp: texts_def dest!: nth_mem)

text \<open>A column that goes forward in a packet of \<open>n\<close> characters.\<close>

definition forward :: "int \<Rightarrow> (nat \<Rightarrow> int \<Rightarrow> ora \<Rightarrow> ora column option) \<Rightarrow> bool" where
  "forward n col \<longleftrightarrow> (\<forall>k p w c. col k p w = Some c \<longrightarrow> texts w \<longrightarrow> 0 \<le> p \<longrightarrow> p \<le> n \<longrightarrow>
     (case c of Col_next q w' \<Rightarrow> p \<le> q \<and> texts w' | Col_break q w' \<Rightarrow> False | Col_return r w' \<Rightarrow> True))"

lemma u32_small: "0 \<le> i \<Longrightarrow> i < 2 ^ 32 \<Longrightarrow> u32 i = i"
  by (simp add: u32_def)

lemma text_column_forward:
  assumes "n < 2 ^ 31" and "\<And>ty r l. ty = NUL \<Longrightarrow> adjust ty (r, l) = (r, l)" and "\<And>ty p r l. ty = NUL \<Longrightarrow> extra ty p r l = Some 0"
    and "text_column adjust extra d n k p w = Some c" and "texts w" and "0 \<le> p" and "p \<le> n"
  shows "case c of Col_next q w' \<Rightarrow> p \<le> q | Col_break q w' \<Rightarrow> False | Col_return r w' \<Rightarrow> True"
proof -
  obtain ty r len w1 where t: "nth_opt (pszFieldType w) k = Some ty" "read_text d n k p w = Some (r, len, w1)"
    using assms(4) by (auto simp: text_column_def Option.bind_eq_Some_conv simp del: nth_opt_Some)
  have ty: "ty = NUL" using t(1) assms(5) by (rule texts_type)
  from read_text_bounds[OF t(2)] assms(1,6,7) have "r < 0 \<or> u32 (p + len + r) = p + len + r \<and> 0 \<le> len \<and> 0 \<le> r"
    by (auto simp: u32_small)
  then show ?thesis
    using assms(4) t ty assms(2,3)[OF ty]
    by (auto simp: text_column_def Option.bind_eq_Some_conv simp del: nth_opt_Some split: if_split_asm)
qed

lemma forward_texts:
  assumes "\<And>k p w c. col k p w = Some c \<Longrightarrow> same.col_R w c"
    and "\<And>k p w c. col k p w = Some c \<Longrightarrow> texts w \<Longrightarrow> 0 \<le> p \<Longrightarrow> p \<le> n \<Longrightarrow>
      (case c of Col_next q w' \<Rightarrow> p \<le> q | Col_break q w' \<Rightarrow> False | Col_return r w' \<Rightarrow> True)"
  shows "forward n col"
  unfolding forward_def
proof (intro allI impI)
  fix k p w c
  assume "col k p w = Some c" "texts w" "0 \<le> p" "p \<le> n"
  with assms[of k p w c] show "case c of Col_next q w' \<Rightarrow> p \<le> q \<and> texts w' | Col_break q w' \<Rightarrow> False | Col_return r w' \<Rightarrow> True"
    by (cases c) (auto simp: same.col_R_def texts_same)
qed

lemma column0600_forward: "n < 2 ^ 31 \<Longrightarrow> forward n (column0600 d n)"
  by (rule forward_texts[OF same.column0600], assumption)
    (auto simp: column0600_def Option.bind_eq_Some_conv dest!: texts_type elim!: text_column_forward[rotated 3] simp del: nth_opt_Some)

lemma column0601_forward: "n < 2 ^ 31 \<Longrightarrow> forward n (column0601 d n)"
  by (rule forward_texts[OF same.column0601], assumption)
    (auto simp: column0601_def Option.bind_eq_Some_conv long_skip_def dest!: texts_type elim!: text_column_forward[rotated 3] simp del: nth_opt_Some)

lemma column_64_forward:
  assumes "n < 2 ^ 31" and "\<And>p r l. extra NUL p r l = Some 0"
  shows "forward n (column_64 kind extra d n)"
proof (rule forward_texts[OF same.column_64], assumption)
  fix k p w c
  assume c: "column_64 kind extra d n k p w = Some c" and w: "texts w" and p: "0 \<le> p" "p \<le> n"
  then have "text_column (rowid_length (o_t w)) extra d n k p w = Some c"
    by (auto simp: column_64_def Let_def Option.bind_eq_Some_conv dest!: texts_type simp del: nth_opt_Some)
  then show "case c of Col_next q w' \<Rightarrow> p \<le> q | Col_break q w' \<Rightarrow> False | Col_return r w' \<Rightarrow> True"
    using assms w p by (elim text_column_forward[rotated 3]) (auto simp: rowid_length_def)
qed

lemma column0602_forward:
  assumes "n < 2 ^ 31"
  shows "forward n (column0602 d n)"
proof (rule forward_texts[OF same.column0602], assumption)
  fix k p w c
  assume c: "column0602 d n k p w = Some c" and p: "0 \<le> p" "p \<le> n"
  obtain r len w1 where t: "read_text d n k p w = Some (r, len, w1)"
    using c by (auto simp: column0602_def Option.bind_eq_Some_conv)
  from read_text_bounds[OF t] assms p have "r < 0 \<or> u32 (p + len + r) = p + len + r \<and> 0 \<le> len \<and> 0 \<le> r"
    by (auto simp: u32_small)
  with c t show "case c of Col_next q w' \<Rightarrow> p \<le> q | Col_break q w' \<Rightarrow> False | Col_return r w' \<Rightarrow> True"
    by (auto simp: column0602_def Option.bind_eq_Some_conv split: if_split_asm)
qed

text \<open>The place after the columns of a row.\<close>

definition later :: "int \<Rightarrow> int \<times> ora + int \<times> ora \<Rightarrow> bool" where
  "later p c = (case c of Inl x \<Rightarrow> True | Inr (q, w) \<Rightarrow> p \<le> q \<and> texts w)"

lemma later_simps [simp]: "later p (Inl x)" "later p (Inr (q, w)) \<longleftrightarrow> p \<le> q \<and> texts w"
  by (simp_all add: later_def)

lemma later_trans: "p \<le> q \<Longrightarrow> later q c \<Longrightarrow> later p c"
  by (auto simp: later_def split: sum.splits)

lemma columns_later:
  assumes "columns col rep s n u m lim k q p w = Some c" and "forward n col" and "texts w" and "0 \<le> p"
  shows "later p c"
  using assms
proof (induction col rep s n u m lim k q p w arbitrary: c rule: columns.induct)
  case (1 col rep s n u m lim k q p w)
  show ?case
  proof (cases "int k < m \<and> \<not> n < p")
    case False
    with "1.prems"(1,3) show ?thesis by (auto simp: columns.simps[of col rep s n u m lim k] split: if_split_asm)
  next
    case True
    then have g: "\<not> \<not> int k < m" "\<not> n < p" by auto
    with "1.prems"(1) obtain sent where sent: "(if rep then mark_of s k else Some True) = Some sent"
      by (auto simp: columns.simps[of col rep s n u m lim k] Option.bind_eq_Some_conv)
    show ?thesis
    proof (cases sent)
      case False
      with "1.prems"(1) g sent obtain w1 where w1: "repeat_column k w = Some w1"
        and rec: "columns col rep s n u m lim (k + 1) q p w1 = Some c"
        by (auto simp: columns.simps[of col rep s n u m lim k] Option.bind_eq_Some_conv)
      have "texts w1" using same.repeat_column[OF w1] "1.prems"(3) by (simp add: texts_same)
      then show ?thesis using "1.IH"(1)[OF g sent False w1 rec] "1.prems"(2,4) by blast
    next
      case sentT: True
      show ?thesis
      proof (cases "u \<le> q \<or> lim \<le> k")
        case True
        with "1.prems"(1,3) g sent sentT show ?thesis
          by (auto simp: columns.simps[of col rep s n u m lim k] split: if_split_asm)
      next
        case False
        then have h: "\<not> u \<le> q" "\<not> lim \<le> k" by auto
        with "1.prems"(1) g sent sentT obtain w1 x where w1: "set_row k [] w = Some w1" and x: "col k p w1 = Some x"
          and rest: "(case x of Col_next p w \<Rightarrow> columns col rep s n u m lim (Suc k) (q + 1) p w
            | Col_break p w \<Rightarrow> Some (Inr (p, w)) | Col_return r w \<Rightarrow> Some (Inl (r, w))) = Some c"
          by (auto simp: columns.simps[of col rep s n u m lim k] Option.bind_eq_Some_conv)
        have "texts w1" using same.set_row[OF w1] "1.prems"(3) by (simp add: texts_same)
        with "1.prems"(2,4) x g(2) have f: "case x of Col_next q w' \<Rightarrow> p \<le> q \<and> texts w' | Col_break q w' \<Rightarrow> False | Col_return r w' \<Rightarrow> True"
          unfolding forward_def by (metis not_less)
        show ?thesis
        proof (cases x)
          case (Col_next p' w')
          with f have p': "p \<le> p'" "texts w'" by simp_all
          from rest Col_next have "columns col rep s n u m lim (k + 1) (q + 1) p' w' = Some c" by simp
          then have "later p' c"
            using sentT p' "1.prems"(2,4) by (intro "1.IH"(2)[OF g sent _ h w1 x Col_next]) auto
          with p' show ?thesis by (blast intro: later_trans)
        qed (use f rest in auto)
      qed
    qed
  qed
qed

lemma columns0602_later:
  assumes "columns0602 col d n u m k q p w = Some c" and "forward n col" and "texts w" and "0 \<le> p"
  shows "later p c"
  using assms
proof (induction col d n u m k q p w arbitrary: c rule: columns0602.induct)
  case (1 col d n u m k q p w)
  show ?case
  proof (cases "int k < m \<and> \<not> n < p \<and> \<not> u \<le> q \<and> \<not> 64 < k")
    case False
    with "1.prems"(1,3) show ?thesis by (auto simp: columns0602.simps[of col d n u m k] split: if_split_asm)
  next
    case True
    then have g: "\<not> \<not> int k < m" "\<not> n < p" "\<not> u \<le> q" "\<not> 64 < k" by auto
    with "1.prems"(1) obtain w1 x where w1: "set_row k [] w = Some w1" and x: "col k p w1 = Some x"
      and rest: "(case x of Col_next p w \<Rightarrow> do { e \<leftarrow> row_end d p;
            if e then Some (Inr (p, w)) else columns0602 col d n u m (k + 1) (q + 1) p w }
          | Col_break p w \<Rightarrow> Some (Inr (p, w)) | Col_return r w \<Rightarrow> Some (Inl (r, w))) = Some c"
      by (auto simp: columns0602.simps[of col d n u m k] Option.bind_eq_Some_conv)
    have "texts w1" using same.set_row[OF w1] "1.prems"(3) by (simp add: texts_same)
    with "1.prems"(2,4) x g(2) have f: "case x of Col_next q w' \<Rightarrow> p \<le> q \<and> texts w' | Col_break q w' \<Rightarrow> False | Col_return r w' \<Rightarrow> True"
      unfolding forward_def by (metis not_less)
    show ?thesis
    proof (cases x)
      case (Col_next p' w')
      with f have p': "p \<le> p'" "texts w'" by simp_all
      from rest Col_next obtain e where e: "row_end d p' = Some e"
        and c: "(if e then Some (Inr (p', w')) else columns0602 col d n u m (k + 1) (q + 1) p' w') = Some c"
        by (auto simp: Option.bind_eq_Some_conv)
      show ?thesis
      proof (cases e)
        case True
        with c p' show ?thesis by auto
      next
        case False
        with c have "columns0602 col d n u m (k + 1) (q + 1) p' w' = Some c" by simp
        then have "later p' c" using p' "1.prems"(2,4) by (intro "1.IH"[OF g w1 x Col_next e False]) auto
        with p' show ?thesis by (blast intro: later_trans)
      qed
    qed (use f rest in auto)
  qed
qed

text \<open>A round that goes on leaves less of the packet.\<close>

definition fair :: "(row_vars \<Rightarrow> ora \<Rightarrow> (int \<times> ora + int \<times> ora) option) \<Rightarrow> bool" where
  "fair cols \<longleftrightarrow> (\<forall>l w c. cols l w = Some c \<longrightarrow> texts w \<longrightarrow> 0 \<le> iCurPlace l \<longrightarrow> later (iCurPlace l) c)"

lemma row_columns_fair: "forward n col \<Longrightarrow> fair (row_columns col always lim n)"
  by (auto simp: fair_def row_columns_def intro: columns_later)

lemma columns_0602_fair: "n < 2 ^ 31 \<Longrightarrow> fair (columns_0602 d n)"
  unfolding fair_def columns_0602_def by (blast intro: columns0602_later column0602_forward)

lemma decode_row_later:
  assumes "decode_row z se n cols between (l, w) = Some (Inr (l', w'))" and "fair cols"
    and "\<And>l w c. between l w = Some c \<Longrightarrow> goes_on l w c" and "texts w" and "0 \<le> iCurPlace l"
  shows "texts w' \<and> iCurPlace l < iCurPlace l' \<and> iCurPlace l < n"
proof -
  let ?w = "w\<lparr>nMaxColNum := max (nMaxColNum w) (uColNum l)\<rparr>"
  obtain x where x: "cols l ?w = Some x" using assms(1) by (auto simp: decode_row_def Option.bind_eq_Some_conv)
  with assms(1) obtain p w1 where y: "x = Inr (p, w1)" by (cases x) (auto simp: decode_row_def)
  with assms(1) x obtain w2 where w2: "log_row z se w1 = Some w2"
    and a: "after_row z se n between (l\<lparr>iCurPlace := p\<rparr>) w2 = Some (Inr (l', w'))"
    by (auto simp: decode_row_def Option.bind_eq_Some_conv)
  note c = x[unfolded y]
  have "texts ?w" using assms(4) by (simp add: texts_def)
  with c assms(2,5) have "later (iCurPlace l) (Inr (p, w1))" unfolding fair_def by blast
  then have p: "iCurPlace l \<le> p" "texts w1" by simp_all
  with same.log_row[OF w2] have "texts w2" by (simp add: texts_same)
  moreover from a have n: "p + 3 \<le> n" and b: "between (l\<lparr>iCurPlace := p, nRowNum := nRowNum l + 1\<rparr>) w2 = Some (Inr (l', w'))"
    by (auto simp: after_row_def Let_def split: if_split_asm)
  from assms(3)[OF b] have "w' = w2" "p < iCurPlace l'" by (simp_all add: goes_on_def)
  ultimately show ?thesis using p n by simp
qed

lemma rows_loop_returns:
  assumes "P st" and "\<And>st st'. P st \<Longrightarrow> row st = Some (Inr st') \<Longrightarrow> P st' \<and> m st' < (m st :: nat)"
  shows "\<exists>x. rows_loop row st = Some x"
  using assms(1)
proof (induction "m st" arbitrary: st rule: less_induct)
  case less
  show ?case
  proof (cases "row st")
    case None
    then show ?thesis by (subst rows_loop.simps) simp
  next
    case (Some c)
    show ?thesis
    proof (cases c)
      case (Inl x)
      with Some show ?thesis by (subst rows_loop.simps) simp
    next
      case (Inr st')
      with Some less assms(2)[of st st'] have "\<exists>x. rows_loop row st' = Some x" by simp
      with Some Inr show ?thesis by (subst rows_loop.simps) simp
    qed
  qed
qed

lemma decode_rows_returns:
  assumes "\<And>l w. start = Some (Inr (l, w)) \<Longrightarrow> texts w \<and> 0 \<le> iCurPlace l" and "fair cols"
    and "\<And>l w c. between l w = Some c \<Longrightarrow> goes_on l w c"
  shows "\<exists>x. decode_rows start (decode_row z se n cols between) = Some x"
proof (cases "\<exists>l w. start = Some (Inr (l, w))")
  case True
  then obtain l w where s: "start = Some (Inr (l, w))" by blast
  have "\<exists>x. rows_loop (decode_row z se n cols between) (l, w) = Some x"
  proof (rule rows_loop_returns[where P = "\<lambda>(l, w). texts w \<and> 0 \<le> iCurPlace l" and m = "\<lambda>(l, w). nat (n - iCurPlace l)"])
    show "case (l, w) of (l, w) \<Rightarrow> texts w \<and> 0 \<le> iCurPlace l" using assms(1)[OF s] by simp
  next
    fix st st'
    assume P: "case st of (l, w) \<Rightarrow> texts w \<and> 0 \<le> iCurPlace l" and r: "decode_row z se n cols between st = Some (Inr st')"
    obtain l w l' w' where st: "st = (l, w)" "st' = (l', w')" by fastforce
    with P r decode_row_later[OF _ assms(2,3)] show "(case st' of (l, w) \<Rightarrow> texts w \<and> 0 \<le> iCurPlace l)
        \<and> (case st' of (l, w) \<Rightarrow> nat (n - iCurPlace l)) < (case st of (l, w) \<Rightarrow> nat (n - iCurPlace l))"
      by fastforce
  qed
  with s show ?thesis by (simp add: decode_rows_def)
next
  case False
  then show ?thesis by (auto simp: decode_rows_def split: option.split sum.split)
qed

text \<open>Every decoder starts behind the start of the packet.\<close>

lemma first_row_place [simp]: "iCurPlace (first_row u p) = p"
  by (simp add: first_row_def)

lemma place0600_pos: "place0600 d u w = Some p \<Longrightarrow> 0 \<le> p"
  by (auto simp: place0600_def Let_def Option.bind_eq_Some_conv split: if_split_asm)

lemma after_row_pos:
  assumes "after_row z se n between l w = Some (Inr (l', w'))" and "\<And>l w c. between l w = Some c \<Longrightarrow> goes_on l w c"
  shows "iCurPlace l < iCurPlace l'"
  using assms(1) by (auto simp: after_row_def Let_def goes_on_def dest!: assms(2) split: if_split_asm)

lemma start_pos:
  "start0600 d n w = Some (Inr (l, w')) \<Longrightarrow> 0 \<le> iCurPlace l"
  "start0602 z se d n w = Some (Inr (l, w')) \<Longrightarrow> 0 \<le> iCurPlace l"
  "start0602_64 z se d n w = Some (Inr (l, w')) \<Longrightarrow> 0 \<le> iCurPlace l"
  "start061a z se d n w = Some (Inr (l, w')) \<Longrightarrow> 0 \<le> iCurPlace l"
  by (auto simp: start0600_def start0602_def start0602_64_def start061a_def Let_def Option.bind_eq_Some_conv
      dest!: place0600_pos toad_columns_bounds dest: after_row_pos[OF _ between0602_goes_on]
        after_row_pos[OF _ between0602_64_goes_on] after_row_pos[OF _ between061a_goes_on] split: if_split_asm)

lemma start0601_pos: "start0601 d n w = Some (Inr (l, w')) \<Longrightarrow> 0 \<le> iCurPlace l"
  by (auto simp: start0601_def Let_def Option.bind_eq_Some_conv dest!: toad_row_ok split: if_split_asm)

lemma start_texts:
  assumes "start = Some (Inr (l, w'))" and "\<And>c. start = Some c \<Longrightarrow> same.row_R w c" and "texts w"
  shows "texts w'"
  using assms(2)[OF assms(1)] assms(3) by (auto dest: texts_same)

lemma start_ok:
  assumes "texts w"
  shows "start0600 d n w = Some (Inr (l, w')) \<Longrightarrow> texts w' \<and> 0 \<le> iCurPlace l"
    and "start0601 d n w = Some (Inr (l, w')) \<Longrightarrow> texts w' \<and> 0 \<le> iCurPlace l"
    and "start0602 z se d n w = Some (Inr (l, w')) \<Longrightarrow> texts w' \<and> 0 \<le> iCurPlace l"
    and "start0602_64 z se d n w = Some (Inr (l, w')) \<Longrightarrow> texts w' \<and> 0 \<le> iCurPlace l"
    and "start061a z se d n w = Some (Inr (l, w')) \<Longrightarrow> texts w' \<and> 0 \<le> iCurPlace l"
  using start_texts[OF _ same.start0600 assms] start_texts[OF _ same.start0601 assms]
    start_texts[OF _ same.start0602 assms] start_texts[OF _ same.start0602_64 assms] start_texts[OF _ same.start061a assms]
  by (simp_all add: start_pos start0601_pos)

lemma decoders_return:
  assumes "texts w" and "n < 2 ^ 31"
  shows "\<exists>x. DecodeTnsData0600 z se d n w = Some x" and "\<exists>x. DecodeTnsData0601 z se d n w = Some x"
    and "\<exists>x. DecodeTnsData0602 z se d n w = Some x" and "\<exists>x. DecodeTnsData0602_64 z se d n w = Some x"
    and "\<exists>x. DecodeTnsData061a z se d n w = Some x"
proof -
  have e: "long_skip NUL = 0" by (simp add: long_skip_def)
  note fair64 = row_columns_fair[OF column_64_forward[OF assms(2)]]
  show "\<exists>x. DecodeTnsData0600 z se d n w = Some x" unfolding DecodeTnsData0600_def
    by (rule decode_rows_returns[OF start_ok(1)[OF assms(1)] row_columns_fair[OF column0600_forward[OF assms(2)]] split_row_goes_on])
  show "\<exists>x. DecodeTnsData0601 z se d n w = Some x" unfolding DecodeTnsData0601_def
    by (rule decode_rows_returns[OF start_ok(2)[OF assms(1)] row_columns_fair[OF column0601_forward[OF assms(2)]] between0601_goes_on])
  show "\<exists>x. DecodeTnsData0602 z se d n w = Some x" unfolding DecodeTnsData0602_def
    by (rule decode_rows_returns[OF start_ok(3)[OF assms(1)] columns_0602_fair[OF assms(2)] between0602_goes_on])
  show "\<exists>x. DecodeTnsData0602_64 z se d n w = Some x" unfolding DecodeTnsData0602_64_def column0602_64_def
    by (rule decode_rows_returns[OF start_ok(4)[OF assms(1)] fair64 between0602_64_goes_on]) (simp_all add: e)
  show "\<exists>x. DecodeTnsData061a z se d n w = Some x" unfolding DecodeTnsData061a_def column061a_def
    by (rule decode_rows_returns[OF start_ok(5)[OF assms(1)] fair64 between061a_goes_on]) (simp_all add: e)
qed

end
