(* ===== verification/TnsAnswer.thy ===== *)
theory TnsAnswer
  imports TnsRowLaws
begin

text \<open>
  The answers of an Oracle server, \<^verbatim>\<open>OracleProxy/oraclefilter.c\<close>: the message of a packet (\<open>DecodeTnsData0401\<close>,
  lines 2502 to 2569), the packets of a server (2588 to 2606 and 2660 to 2773), the filter for them and the entry in
  oracleproxy.c, and a session of packets in both directions.

  The packets of a server are not changed. As for the rows, \<open>None\<close> is a call that never returns and \<open>Some None\<close> one
  that leaves its arrays.
\<close>

subsection \<open>Messages\<close>

text \<open>\<open>strstr\<close> in the packet: a text that is not found needs its end there.\<close>

definition strstr_at :: "cstring \<Rightarrow> int \<Rightarrow> cstring \<Rightarrow> bool option" where
  "strstr_at d p pat =
     (let r = drop (nat p) d
      in if contains (zstr r) pat then Some True
         else if length (zstr r) < length r then Some False else None)"

text \<open>The length of the message and its place, by the version of the server.\<close>

definition message_field :: "ora \<Rightarrow> cstring \<Rightarrow> (int \<times> int) option" where
  "message_field w d =
     (let t = o_t w
      in if bitversion t = 64 then do {
           let k = (if iversion t \<noteq> 9 then 65 else 63);
           c \<leftarrow> at d (k - 1);
           (if ub c \<le> 0 then do {
              e \<leftarrow> at d 78;
              let k = (if iversion t = 9 then 77 else 79);
              found \<leftarrow> strstr_at d k ''ORA-01465'';
              Some (if found then ub e else 0, k)
            } else Some (ub c, k))
         } else do { c \<leftarrow> at d 94; Some (ub c, 95) })"

text \<open>The first character of the message must be printable; \<open>Some None\<close> is the result -1.\<close>

definition first_char :: "cstring \<Rightarrow> char" where
  "first_char s = (case s of [] \<Rightarrow> NUL | c # _ \<Rightarrow> c)"

definition DecodeTnsData0401 :: "cstring \<Rightarrow> ora \<Rightarrow> cstring option option" where
  "DecodeTnsData0401 d w =
     (if isjdbc w = 0 then do {
        (n, k) \<leftarrow> message_field w d;
        s \<leftarrow> bytes_at d k n;
        Some (if schar (first_char s) < 0x20 \<or> n = 0 then None else Some (blank_lines (zstr s)))
      } else do {
        c \<leftarrow> at d 30;
        s \<leftarrow> bytes_at d 31 (schar c);
        Some (if schar (first_char s) < 0x20 then None else Some (zstr s))
      })"

text \<open>A pending result goes to the log, or else the message, but not the one for the end of the rows.\<close>

definition answer_message :: "sizes \<Rightarrow> session_env \<Rightarrow> cstring \<Rightarrow> ora \<Rightarrow> ora option" where
  "answer_message z se d w =
     do {
       m \<leftarrow> DecodeTnsData0401 d w;
       (case m of
          None \<Rightarrow> Some w
        | Some s \<Rightarrow>
            if 0 < length (sql_reslut (o_t w)) then log_row z se w
            else if contains s ''ORA-01403'' then Some w
            else do { t \<leftarrow> DBOracleReslut z se s (o_t w); Some (set_t t w) })
     }"

subsection \<open>The packets of a server\<close>

text \<open>The name of the server sets its version.\<close>

definition server_version :: "cstring \<Rightarrow> tns \<Rightarrow> tns" where
  "server_version v t =
     t\<lparr>iversion := (if contains v ''Oracle Database 10g'' then 10
                     else if contains v ''Oracle Database 11g'' then 11
                     else if contains v ''Oracle9i'' then 9 else iversion t),
       bitversion := (if contains v ''64bit Production'' then 64 else bitversion t)\<rparr>"

definition answer_version :: "cstring \<Rightarrow> int \<Rightarrow> ora \<Rightarrow> ora option" where
  "answer_version d n w =
     do {
       (r, sub, len, flag) \<leftarrow> ParseStrbyLen 1024 (oracleFlag (o_t w)) (drop 1 d) (s32 (n - 1));
       guard (length (zstr sub) < 1024);
       Some (set_t (server_version (zstr sub) ((o_t w)\<lparr>oracleFlag := flag\<rparr>)) w)
     }"

text \<open>The decoder of a packet with rows.\<close>

definition answer_rows :: "sizes \<Rightarrow> session_env \<Rightarrow> char \<Rightarrow> cstring \<Rightarrow> int \<Rightarrow> ora \<Rightarrow> (int \<times> ora) option option option" where
  "answer_rows z se s d n w =
     (let toad11 = (iversion (o_t w) = 11 \<and> istoad (o_t w) = 1)
      in if s = CHR 0x00 then Some (if toad11 then DecodeTnsData0601 z se d n w else DecodeTnsData0600 z se d n w)
         else if s = CHR 0x01 then Some (DecodeTnsData0601 z se d n w)
         else if s = CHR 0x02 \<or> s = CHR 0x0A \<or> s = CHR 0x22 then
           Some (if bitversion (o_t w) = 64 then DecodeTnsData0602_64 z se d n w
                 else if toad11 then DecodeTnsData0601 z se d n w
                 else DecodeTnsData0602 z se d n w)
         else if s = CHR 0x1A then Some (DecodeTnsData061a z se d n w)
         else None)"

text \<open>
  One packet: the size to go on behind it, or \<open>None\<close> to return, and the state. A decoder that fails gives a
  large size, the number -1 or -2 without its sign.
\<close>

definition answer_part :: "sizes \<Rightarrow> session_env \<Rightarrow> char \<Rightarrow> char \<Rightarrow> cstring \<Rightarrow> int \<Rightarrow> ora \<Rightarrow> (nat option \<times> ora) option option" where
  "answer_part z se c s d n w =
     (if c = CHR 0x04 \<and> s \<in> {CHR 0x01, CHR 0x02, CHR 0x05} then Some (map_option (Pair None) (answer_message z se d w))
      else if c = CHR 0x06 then
        (case answer_rows z se s d n w of
           None \<Rightarrow> Some (Some (None, w))
         | Some x \<Rightarrow> map_option (map_option (\<lambda>(r, w). (Some (nat (u32 r)), w))) x)
      else if c = CHR 0x08 \<and> s = CHR 0x05 then Some (Some (Some 25, w))
      else if c = CHR 0x08 \<and> s \<in> {CHR 0x01, CHR 0xA2, CHR 0x7A, CHR 0x94, CHR 0x9C, CHR 0x80, CHR 0x9A} then
        Some (map_option (Pair None) (answer_version d n w))
      else Some (Some (None, w)))"

function decode_answer :: "sizes \<Rightarrow> session_env \<Rightarrow> cstring \<Rightarrow> int \<Rightarrow> ora \<Rightarrow> (int \<times> ora) option option" where
  "decode_answer z se d len w =
     (if len < 0 then Some (Some (-1, w))
      else if len < 2 then Some (Some (0, w))
      else
        (case (nth_opt d 0, nth_opt d 1) of
           (Some c, Some s) \<Rightarrow>
             (case answer_part z se c s (drop 2 d) (len - 2) w of
                None \<Rightarrow> None
              | Some None \<Rightarrow> Some None
              | Some (Some (None, w)) \<Rightarrow> Some (Some (0, w))
              | Some (Some (Some k, w)) \<Rightarrow>
                  if int k < len - 2
                  then map_option (map_option (apfst (\<lambda>_. 0))) (decode_answer z se (drop k (drop 2 d)) (len - 2 - int k) w)
                  else Some (Some (0, w)))
         | _ \<Rightarrow> Some None))"
  by pat_completeness auto
termination
  by (relation "measure (\<lambda>(z, se, d, len, w). nat len)") auto

declare decode_answer.simps [simp del]

subsection \<open>The filter\<close>

text \<open>The filter for what a server sends (\<open>isclient\<close> is 0).\<close>

definition OracleFitler_server :: "sizes \<Rightarrow> session_env \<Rightarrow> (int \<Rightarrow> bool) \<Rightarrow> (int \<Rightarrow> bool) \<Rightarrow> cstring \<Rightarrow> int \<Rightarrow> ora
    \<Rightarrow> (int \<times> cstring \<times> cstring option \<times> ora) option option" where
  "OracleFitler_server z se sock taken indata inlen w =
     (if inlen = 8 then Some (Some (0, indata, None, w))
      else
        (case (be16_at indata 0, nth_opt indata 4) of
           (Some len, Some ucType) \<Rightarrow>
             if ucType = CHR 0x06 then
               map_option (map_option (\<lambda>(r, w). (0, indata, None, w))) (decode_answer z se (drop 10 indata) (len - 10) w)
             else if ucType = CHR 0x01 then
               Some (map_option (\<lambda>t. (0, indata, None, set_t t w)) (filter_connect indata (o_t w)))
             else if ucType = CHR 0x05 then
               Some (map_option (\<lambda>(r, d, x, t). (r, d, x, set_t t w)) (filter_redirect sock taken indata (o_t w)))
             else Some (Some (0, indata, None, w))
         | _ \<Rightarrow> Some None))"

definition RecvOracleDBServer :: "sizes \<Rightarrow> session_env \<Rightarrow> (int \<Rightarrow> bool) \<Rightarrow> (int \<Rightarrow> bool) \<Rightarrow> cstring \<Rightarrow> int \<Rightarrow> ora
    \<Rightarrow> (int \<times> cstring \<times> cstring option \<times> ora) option option" where
  "RecvOracleDBServer z se sock taken indata inlen w = OracleFitler_server z se sock taken indata inlen w"

subsection \<open>A session\<close>

text \<open>The state before the first packet, and the packets of both sides in any order.\<close>

definition new_session :: "tns \<Rightarrow> ora" where
  "new_session t = \<lparr>o_t = t\<lparr>sql_reslut := [], nGlobMaxColNum := 0\<rparr>, isjdbc = 0, nMaxColNum = 0, pszFieldType = replicate 20 NUL,
     pszRowStr = replicate 64 [], pRowStrLen = replicate 64 0, szOldCol = replicate 128 NUL\<rparr>"

inductive session_step :: "ora \<Rightarrow> ora \<Rightarrow> bool" where
  from_client: "RecvOracleDBClient z se sock taken indata inlen (o_t w) = Some (r, d, t) \<Longrightarrow> session_step w (set_t t w)"
| from_server: "RecvOracleDBServer z se sock taken indata inlen w = Some (Some (r, d, x, w')) \<Longrightarrow> session_step w w'"

inductive reachable :: "ora \<Rightarrow> bool" where
  start: "reachable (new_session t)"
| step: "reachable w \<Longrightarrow> session_step w w' \<Longrightarrow> reachable w'"

inductive_cases session_stepE: "session_step w w'"

text \<open>What every packet keeps, but the settings: the version is set by the first answer.\<close>

definition kept :: "ora \<Rightarrow> ora \<Rightarrow> bool" where
  "kept w w' \<longleftrightarrow> grows (t_logs (o_t w)) (t_logs (o_t w')) \<and> pszFieldType w' = pszFieldType w \<and> isjdbc w' = isjdbc w
     \<and> (arrays_ok w \<longrightarrow> arrays_ok w')"

lemma kept_refl [simp]: "kept w w"
  by (simp add: kept_def)

lemma kept_trans: "kept a b \<Longrightarrow> kept b c \<Longrightarrow> kept a c"
  by (auto simp: kept_def intro: grows_trans)

lemma kept_both: "same w w' \<Longrightarrow> arrays_kept w w' \<Longrightarrow> kept w w'"
  by (simp add: same_def arrays_kept_def kept_def)

lemma kept_set_t: "grows (t_logs (o_t w)) (t_logs t) \<Longrightarrow> rest_kept (o_t w) t \<Longrightarrow> kept w (set_t t w)"
  by (auto simp: kept_def rest_kept_def arrays_ok_def set_t_def)

lemma log_row_kept: "log_row z se w = Some w' \<Longrightarrow> kept w w'"
  by (blast intro: kept_both same.log_row arrays.log_row)

lemma DBOracleReslut_kept: "DBOracleReslut z se s (o_t w) = Some t \<Longrightarrow> kept w (set_t t w)"
  by (rule kept_set_t) (auto simp: DBOracleReslut_def rest_kept_def Let_def Option.bind_eq_Some_conv
      dest: InsertUseractivityoutlog_grows split: if_split_asm)

lemma answer_message_kept: "answer_message z se d w = Some w' \<Longrightarrow> kept w w'"
  by (auto simp: answer_message_def Option.bind_eq_Some_conv dest: log_row_kept DBOracleReslut_kept
      split: option.split_asm if_split_asm)

lemma answer_version_kept: "answer_version d n w = Some w' \<Longrightarrow> kept w w'"
  by (auto simp: answer_version_def Option.bind_eq_Some_conv intro!: kept_set_t split: if_split_asm)
    (simp_all add: server_version_def rest_kept_def)

lemma decoders_kept:
  "DecodeTnsData0600 z se d n w = Some (Some (r, w')) \<Longrightarrow> kept w w'"
  "DecodeTnsData0601 z se d n w = Some (Some (r, w')) \<Longrightarrow> kept w w'"
  "DecodeTnsData0602 z se d n w = Some (Some (r, w')) \<Longrightarrow> kept w w'"
  "DecodeTnsData0602_64 z se d n w = Some (Some (r, w')) \<Longrightarrow> kept w w'"
  "DecodeTnsData061a z se d n w = Some (Some (r, w')) \<Longrightarrow> kept w w'"
  by (blast intro: kept_both same.DecodeTnsData0600 arrays.DecodeTnsData0600 same.DecodeTnsData0601 arrays.DecodeTnsData0601
      same.DecodeTnsData0602 arrays.DecodeTnsData0602 same.DecodeTnsData0602_64 arrays.DecodeTnsData0602_64
      same.DecodeTnsData061a arrays.DecodeTnsData061a)+

lemma answer_rows_kept: "answer_rows z se s d n w = Some (Some (Some (r, w'))) \<Longrightarrow> kept w w'"
  by (auto simp: answer_rows_def Let_def dest: decoders_kept split: if_split_asm)

lemma answer_part_kept: "answer_part z se c s d n w = Some (Some (k, w')) \<Longrightarrow> kept w w'"
  by (auto simp: answer_part_def dest: answer_message_kept answer_version_kept answer_rows_kept
      split: if_split_asm option.split_asm)

lemma decode_answer_kept: "decode_answer z se d len w = Some (Some (r, w')) \<Longrightarrow> kept w w'"
proof (induction z se d len w arbitrary: r w' rule: decode_answer.induct)
  case (1 z se d len w)
  show ?case
  proof (cases "len < 2")
    case True
    with "1.prems" show ?thesis by (auto simp: decode_answer.simps[of z se d] split: if_split_asm)
  next
    case False
    then have len: "\<not> len < 0" "\<not> len < 2" by auto
    from "1.prems" len obtain c s where cs: "nth_opt d 0 = Some c" "nth_opt d 1 = Some s"
      by (auto simp: decode_answer.simps[of z se d] split: option.split_asm)
    from "1.prems" len cs obtain k w1 where p: "answer_part z se c s (drop 2 d) (len - 2) w = Some (Some (k, w1))"
      by (auto simp: decode_answer.simps[of z se d] simp del: nth_opt_Some split: option.split_asm)
    then have w1: "kept w w1" by (rule answer_part_kept)
    show ?thesis
    proof (cases "\<exists>j. k = Some j \<and> int j < len - 2")
      case True
      then obtain j where j: "k = Some j" "int j < len - 2" by blast
      with "1.prems" len cs p obtain r1 where "decode_answer z se (drop j (drop 2 d)) (len - 2 - int j) w1 = Some (Some (r1, w'))"
        by (auto simp: decode_answer.simps[of z se d] apfst_def map_prod_def simp del: nth_opt_Some)
      from "1.IH"[OF len refl cs p refl refl j this] w1 show ?thesis by (rule kept_trans[rotated])
    next
      case False
      with "1.prems" len cs p have "w' = w1"
        by (auto simp: decode_answer.simps[of z se d] simp del: nth_opt_Some split: option.split_asm)
      with w1 show ?thesis by simp
    qed
  qed
qed

lemma filter_server_cases:
  assumes "OracleFitler_server z se sock taken indata inlen w = Some (Some (r, d, x, w'))"
  shows "nth_opt indata 4 = Some (CHR 0x05) \<and> (\<exists>t. filter_redirect sock taken indata (o_t w) = Some (r, d, x, t) \<and> w' = set_t t w)
    \<or> r = 0 \<and> d = indata \<and> x = None \<and> kept w w'"
proof (cases "inlen = 8")
  case True
  with assms show ?thesis by (simp add: OracleFitler_server_def)
next
  case False
  with assms obtain len u where u: "be16_at indata 0 = Some len" "nth_opt indata 4 = Some u"
    by (auto simp: OracleFitler_server_def split: option.split_asm)
  note u = False u
  consider "u = CHR 0x06" | "u = CHR 0x01" | "u = CHR 0x05" | "u \<noteq> CHR 0x06" "u \<noteq> CHR 0x01" "u \<noteq> CHR 0x05" by blast
  then show ?thesis
  proof cases
    case 1
    with assms u obtain r1 where "decode_answer z se (drop 10 indata) (len - 10) w = Some (Some (r1, w'))" "r = 0" "d = indata" "x = None"
      by (auto simp: OracleFitler_server_def simp del: nth_opt_Some)
    then show ?thesis by (auto dest: decode_answer_kept)
  next
    case 2
    with assms u obtain t where "filter_connect indata (o_t w) = Some t" "w' = set_t t w" "r = 0" "d = indata" "x = None"
      by (auto simp: OracleFitler_server_def simp del: nth_opt_Some)
    then show ?thesis by (auto dest!: filter_connect_rest intro: kept_set_t)
  next
    case 3
    with assms u show ?thesis by (auto simp: OracleFitler_server_def simp del: nth_opt_Some)
  next
    case 4
    with assms u show ?thesis by (simp add: OracleFitler_server_def del: nth_opt_Some)
  qed
qed

lemma RecvOracleDBServer_kept:
  assumes "RecvOracleDBServer z se sock taken indata inlen w = Some (Some (r, d, x, w'))"
  shows "kept w w'"
  using filter_server_cases[OF assms[unfolded RecvOracleDBServer_def]] by (auto dest!: filter_redirect_rest intro: kept_set_t)

lemma session_step_kept: "session_step w w' \<Longrightarrow> kept w w'"
  by (erule session_stepE) (auto dest!: RecvOracleDBClient_only_marks intro: kept_set_t RecvOracleDBServer_kept)

lemma texts_kept: "kept w w' \<Longrightarrow> texts w' = texts w"
  by (simp add: kept_def texts_def)

text \<open>A packet of a server is decoded in the end.\<close>

lemma answer_part_returns: "texts w \<Longrightarrow> n < 2 ^ 31 \<Longrightarrow> \<exists>x. answer_part z se c s d n w = Some x"
  using decoders_return[of w n z se d] by (auto simp: answer_part_def answer_rows_def Let_def split: option.split)

lemma decode_answer_returns: "texts w \<Longrightarrow> len < 2 ^ 31 \<Longrightarrow> \<exists>x. decode_answer z se d len w = Some x"
proof (induction z se d len w rule: decode_answer.induct)
  case (1 z se d len w)
  show ?case
  proof (cases "len < 2 \<or> nth_opt d 0 = None \<or> nth_opt d 1 = None")
    case True
    then show ?thesis by (auto simp: decode_answer.simps[of z se d] split: option.split)
  next
    case False
    then have len: "\<not> len < 0" "\<not> len < 2" by auto
    from False obtain c s where cs: "nth_opt d 0 = Some c" "nth_opt d 1 = Some s" by blast
    obtain x where x: "answer_part z se c s (drop 2 d) (len - 2) w = Some x" using answer_part_returns "1.prems" by fastforce
    show ?thesis
    proof (cases "\<exists>j w1. x = Some (Some j, w1) \<and> int j < len - 2")
      case True
      then obtain j w1 where j: "x = Some (Some j, w1)" "int j < len - 2" by blast
      with x have "kept w w1" by (auto dest: answer_part_kept)
      with "1.IH"[OF len refl cs x j(1) refl refl j(2)] "1.prems" j have
        "\<exists>y. decode_answer z se (drop j (drop 2 d)) (len - 2 - int j) w1 = Some y" by (simp add: texts_kept)
      with len cs x j show ?thesis by (auto simp: decode_answer.simps[of z se d] simp del: nth_opt_Some)
    next
      case False
      with len cs x show ?thesis
        by (auto simp: decode_answer.simps[of z se d] simp del: nth_opt_Some split: option.split)
    qed
  qed
qed

lemma be16_at_bounds: "be16_at d i = Some n \<Longrightarrow> 0 \<le> n \<and> n < 65536"
  using ub_bounds[of "d ! i"] ub_bounds[of "d ! (i + 1)"] by (auto simp: be16_at_def Option.bind_eq_Some_conv)

lemma reachable_kept: "reachable w \<Longrightarrow> arrays_ok w \<and> texts w \<and> isjdbc w = 0"
proof (induction rule: reachable.induct)
  case (start t)
  then show ?case by (simp add: new_session_def arrays_ok_def texts_def list_all_length)
next
  case (step w w')
  then show ?case by (auto dest!: session_step_kept simp: texts_kept) (simp_all add: kept_def)
qed

text \<open>C9: in every session every packet of the server is decoded in the end, whatever the server sends: the loops over
  the rows, the columns and the parts of the packet go forward in it.\<close>

theorem server_packet_returns:
  assumes "reachable w"
  shows "\<exists>x. RecvOracleDBServer z se sock taken indata inlen w = Some x"
proof (cases "be16_at indata 0")
  case None
  then show ?thesis by (simp add: RecvOracleDBServer_def OracleFitler_server_def)
next
  case (Some len)
  then have "len - 10 < 2 ^ 31" using be16_at_bounds by fastforce
  with assms obtain x where "decode_answer z se (drop 10 indata) (len - 10) w = Some x"
    using decode_answer_returns reachable_kept by blast
  with Some show ?thesis by (simp add: RecvOracleDBServer_def OracleFitler_server_def split: option.split)
qed

text \<open>The banner of a server of version 11 with 64 bits.\<close>

definition banner :: cstring where
  "banner = be16 64 @ [NUL, NUL, CHR 0x06] @ replicate 5 NUL @ [CHR 0x08, CHR 0x01, NUL] @ ''Oracle Database 11g - 64bit Production'' @ replicate 13 NUL"

definition after_banner :: ora where
  "after_banner = set_t ((o_t (new_session plain_tns))\<lparr>iversion := 11, bitversion := 64, oracleFlag := 1\<rparr>) (new_session plain_tns)"

lemma banner_read:
  "RecvOracleDBServer plain_sizes quiet_env (\<lambda>_. True) (\<lambda>_. False) banner 64 (new_session plain_tns)
     = Some (Some (0, banner, None, after_banner))"
proof -
  let ?d = "''Oracle Database 11g - 64bit Production''" and ?w = "new_session plain_tns"
  have v: "contains ?d ''Oracle Database 10g'' = False" "contains ?d ''Oracle Database 11g'' = True"
    "contains ?d ''64bit Production'' = True" "length (zstr ?d) < 1024" "zstr ?d = ?d" "s32 51 = 51"
    by code_simp+
  have p: "ParseStrbyLen 1024 0 (?d @ replicate 13 NUL) 51 = Some (1, ?d, 38, 1)"
    by code_simp
  have w: "oracleFlag (o_t ?w) = 0" by (simp add: new_session_def plain_tns_def)
  have "server_version ?d ((o_t ?w)\<lparr>oracleFlag := 1\<rparr>) = (o_t ?w)\<lparr>iversion := 11, bitversion := 64, oracleFlag := 1\<rparr>"
    by (simp only: server_version_def v if_True if_False) simp
  then have "set_t (server_version (zstr ?d) ((o_t ?w)\<lparr>oracleFlag := 1\<rparr>)) ?w = after_banner"
    by (simp only: v after_banner_def)
  then have "answer_version (NUL # ?d @ replicate 13 NUL) 52 ?w = Some after_banner"
    using p v w by (simp only: answer_version_def drop_Suc_Cons One_nat_def drop0) simp
  then have "answer_part plain_sizes quiet_env (CHR 0x08) (CHR 0x01) (NUL # ?d @ replicate 13 NUL) 52 ?w = Some (Some (None, after_banner))"
    by (simp add: answer_part_def)
  then have "decode_answer plain_sizes quiet_env (CHR 0x08 # CHR 0x01 # NUL # ?d @ replicate 13 NUL) 54 ?w = Some (Some (0, after_banner))"
    by (subst decode_answer.simps) (simp add: nth_opt_def del: nth_opt_Some)
  moreover have "be16_at banner 0 = Some 64" by (simp add: banner_def be16_read)
  moreover have "nth_opt banner 4 = Some (CHR 0x06)" "drop 10 banner = CHR 0x08 # CHR 0x01 # NUL # ?d @ replicate 13 NUL"
    by (simp_all add: banner_def be16_def nth_opt_def numeral_eq_Suc)
  ultimately show ?thesis by (simp add: RecvOracleDBServer_def OracleFitler_server_def del: nth_opt_Some)
qed

lemma banner_reachable: "reachable after_banner"
  by (rule reachable.step[OF reachable.start from_server[OF banner_read]])

theorem server_packet_returns_witness:
  "\<exists>x. RecvOracleDBServer plain_sizes quiet_env (\<lambda>_. True) (\<lambda>_. False) (be16 400 @ [NUL, NUL, CHR 0x06]) 400 after_banner = Some x"
  by (rule server_packet_returns[OF banner_reachable])

subsection \<open>What is logged of a row\<close>

text \<open>A column of a row as the server sends it, and what the proxy takes for its value.\<close>

definition field_of :: "cstring \<Rightarrow> cstring" where
  "field_of s = char_of (length s) # s"

definition seen_field :: "cstring \<Rightarrow> cstring" where
  "seen_field s = zstr (char_of (length s) # butlast s) @ ''|''"

definition field_ok :: "cstring \<Rightarrow> bool" where
  "field_ok s \<longleftrightarrow> 0 < length s \<and> length s < 254 \<and> (length s = 79 \<longrightarrow> take 5 s \<noteq> ''racle'')"

lemma s32_small: "- (2 ^ 31) \<le> i \<Longrightarrow> i < 2 ^ 31 \<Longrightarrow> s32 i = i"
  unfolding s32_def signed_of_int by (simp add: signed_take_bit_int_eq_self)

lemma zstr_zeros: "zstr (s @ replicate m NUL) = zstr s"
  by (cases m; induction s) (simp_all add: zstr_def)

lemma ParseStrbyLen_field:
  assumes "field_ok s" and "6 \<le> length (field_of s @ r)" and "int (length s) < b"
  shows "ParseStrbyLen 1024 0 (field_of s @ r) b = Some (1, char_of (length s) # butlast s, int (length s), 0)"
proof -
  have l: "nat (ub (char_of (length s))) = length s" using assms(1) by (simp add: nat_ub_char_of field_ok_def)
  then have c: "char_of (length s) \<noteq> c" if "nat (ub c) \<ge> 254" for c using that assms(1) by (auto simp: field_ok_def)
  have c: "char_of (length s) \<noteq> CHR 0xFE" "char_of (length s) \<noteq> CHR 0xFF" by (rule c, simp)+
  have o: "take 6 (field_of s @ r) \<noteq> ''Oracle''"
  proof
    assume "take 6 (field_of s @ r) = ''Oracle''"
    then have "char_of (length s) = CHR ''O''" and t: "take 5 (s @ r) = ''racle''"
      by (simp_all add: field_of_def numeral_eq_Suc)
    with l have n: "length s = 79" by simp
    with t have "take 5 s = ''racle''" by simp
    with n assms(1) show False by (simp add: field_ok_def)
  qed
  have "take (length s) (field_of s @ r) = char_of (length s) # butlast s"
    using assms(1) by (cases "length s") (simp_all add: field_of_def field_ok_def butlast_conv_take)
  moreover have "hd (field_of s @ r) = char_of (length s)" by (simp add: field_of_def)
  moreover have "length s \<le> length (field_of s @ r)" by (simp add: field_of_def)
  ultimately show ?thesis
    using assms l c o by (simp add: ParseStrbyLen_def Let_def field_ok_def)
qed

text \<open>A text column is printed, and the place is behind it.\<close>

lemma text_column_field:
  assumes "field_ok s" and "drop (nat p) d = field_of s @ r" and "0 \<le> p" and "33 < length r" and "n = int (length d)" and "n < 2 ^ 31"
    and "oracleFlag (o_t w) = 0" and "texts w" and "arrays_ok w" and "k < 20" and "\<And>ty x. adjust ty x = x" and "\<And>p a b. extra NUL p a b = Some 0"
    and "length (sql_reslut (o_t w)) + length (seen_field s) < 4096"
  shows "\<exists>w'. text_column adjust extra d n k p w = Some (Col_next (p + 1 + int (length s)) w')
    \<and> o_t w' = (o_t w)\<lparr>sql_reslut := sql_reslut (o_t w) @ seen_field s\<rparr> \<and> texts w' \<and> arrays_ok w'"
proof -
  let ?v = "char_of (length s) # butlast s" and ?L = "int (length s)"
  have L: "0 < length s" "length s < 254" using assms(1) by (simp_all add: field_ok_def)
  have v: "length ?v = length s" using L by simp
  have "length (drop (nat p) d) = 1 + length s + length r" using assms(2) by (simp add: field_of_def)
  then have n: "n = p + 1 + ?L + int (length r)" using assms(3,5) L by simp
  have "s32 (n - 33 - p) = n - 33 - p" using n assms(3,4,6) by (intro s32_small) simp_all
  then have P: "ParseStrbyLen 1024 0 (drop (nat p) d) (s32 (n - 33 - p)) = Some (1, ?v, ?L, 0)"
    using assms(1,4) n L unfolding assms(2) by (simp only:) (rule ParseStrbyLen_field, auto simp: field_of_def)
  have a: "length (pszFieldType w) = 20" "length (pszRowStr w) = 64" "length (pRowStrLen w) = 64" "length (szOldCol w) = 128"
    using assms(9) by (simp_all add: arrays_ok_def)
  have "pszFieldType w ! k \<in> set (pszFieldType w)" using assms(10) a(1) by simp
  then have "pszFieldType w ! k = NUL" using assms(8) unfolding texts_def by blast
  then have ty: "nth_opt (pszFieldType w) k = Some NUL" using assms(10) a(1) by (simp add: nth_opt_def)
  let ?w1 = "w\<lparr>pszRowStr := (pszRowStr w)[k := ?v]\<rparr>"
  have flag: "set_t ((o_t w)\<lparr>oracleFlag := 0\<rparr>) w = w" using assms(7) by (simp add: set_t_def)
  have rt: "read_text d n k p w = Some (1, ?L, ?w1)"
    using P assms(7,10) a flag by (simp add: read_text_def set_row_def)
  have "zstr (?v @ replicate (1024 - length ?v) NUL) = zstr ?v" by (rule zstr_zeros)
  moreover have "length (zstr ?v) \<le> length ?v" by (rule length_zstr_le)
  ultimately have "data_text iv bv 0 (?v @ replicate (1024 - length ?v) NUL) ?L = Some (seen_field s)" for iv bv
    using L v by (simp add: data_text_def string_text_def seen_field_def Let_def)
  then have pv: "print_value k ?L ?w1 = Some (set_t ((o_t w)\<lparr>sql_reslut := sql_reslut (o_t w) @ seen_field s\<rparr>) ?w1)"
    using ty assms(10,13) a by (simp add: print_value_def PrintData_def printreslut_def del: nth_opt_Some) (simp add: nth_opt_def)
  have "k div 8 < 128" using assms(10) by linarith
  then obtain m where "set_mark (szOldCol w) k = Some m" using a by (auto simp: set_mark_def nth_opt_def)
  then have kv: "\<exists>w'. keep_value k ?L (set_t ((o_t w)\<lparr>sql_reslut := sql_reslut (o_t w) @ seen_field s\<rparr>) ?w1) = Some w'
      \<and> o_t w' = (o_t w)\<lparr>sql_reslut := sql_reslut (o_t w) @ seen_field s\<rparr>"
    using a assms(10) by (simp add: keep_value_def set_t_def)
  then obtain w' where w': "text_column adjust extra d n k p w = Some (Col_next (p + 1 + ?L) w')"
    and o: "o_t w' = (o_t w)\<lparr>sql_reslut := sql_reslut (o_t w) @ seen_field s\<rparr>"
    using ty rt pv n assms(3,6,11,12) by (auto simp: text_column_def u32_small add.commute simp del: nth_opt_Some)
  have "same.col_R w (Col_next (p + 1 + ?L) w')" "arrays.col_R w (Col_next (p + 1 + ?L) w')"
    using same.text_column[OF w'] arrays.text_column[OF w'] assms(11) by simp_all
  then have "texts w'" "arrays_ok w'" using assms(8,9) by (auto simp: same.col_R_def arrays.col_R_def arrays_kept_def dest: texts_same)
  with w' o show ?thesis by blast
qed

text \<open>The columns of a row, one behind the other.\<close>

definition row_of :: "cstring list \<Rightarrow> cstring" where
  "row_of fs = concat (map field_of fs)"

definition seen_row :: "cstring list \<Rightarrow> cstring" where
  "seen_row fs = concat (map seen_field fs)"

lemma columns_fields:
  assumes "\<forall>s\<in>set fs. field_ok s" and "drop (nat p) d = row_of fs @ r" and "0 \<le> p" and "33 < length r" and "n = int (length d)"
    and "n < 2 ^ 31" and "oracleFlag (o_t w) = 0" and "texts w" and "arrays_ok w" and "k + length fs \<le> 20"
    and "\<And>ty x. adjust ty x = x" and "\<And>p a b. extra NUL p a b = Some 0"
    and "length (sql_reslut (o_t w)) + length (seen_row fs) < 4096"
    and "\<And>k p w. texts w \<Longrightarrow> k < 20 \<Longrightarrow> arrays_ok w \<Longrightarrow> col k p w = text_column adjust extra d n k p w"
    and "u = q + int (length fs)" and "20 < lim" and "int k + int (length fs) \<le> nmax"
  shows "\<exists>w'. columns col False bits n u nmax lim k q p w = Some (Inr (p + int (length (row_of fs)), w'))
    \<and> o_t w' = (o_t w)\<lparr>sql_reslut := sql_reslut (o_t w) @ seen_row fs\<rparr>"
  using assms
proof (induction fs arbitrary: k q p w)
  case Nil
  have "length (drop (nat p) d) = length r" using Nil.prems(2) by (simp add: row_of_def)
  then have "p \<le> n" using Nil.prems(3-5) by simp
  with Nil.prems(15,17) show ?case by (subst columns.simps) (simp add: row_of_def seen_row_def)
next
  case (Cons s fs)
  let ?r = "row_of fs @ r" and ?p = "p + 1 + int (length s)"
  have d: "drop (nat p) d = field_of s @ ?r" using Cons.prems(2) by (simp add: row_of_def)
  then have "length (drop (nat p) d) = 1 + length s + length ?r" by (simp add: field_of_def)
  then have pn: "p < n" using Cons.prems(3,5) by simp
  let ?w = "w\<lparr>pszRowStr := (pszRowStr w)[k := []]\<rparr>"
  have k: "k < 20" using Cons.prems(10) by simp
  have sr: "set_row k [] w = Some ?w" using Cons.prems(9,10) by (simp add: set_row_def arrays_ok_def)
  have w: "texts ?w" "arrays_ok ?w" using Cons.prems(8,9) by (simp_all add: texts_def arrays_ok_def list_all_update)
  have sum: "length (seen_row (s # fs)) = length (seen_field s) + length (seen_row fs)" by (simp add: seen_row_def)
  obtain w1 where c: "text_column adjust extra d n k p ?w = Some (Col_next ?p w1)"
    and o: "o_t w1 = (o_t w)\<lparr>sql_reslut := sql_reslut (o_t w) @ seen_field s\<rparr>" and w1: "texts w1" "arrays_ok w1"
    using text_column_field[where adjust = adjust and extra = extra, OF _ d Cons.prems(3) _ Cons.prems(5,6) _ w k Cons.prems(11,12)] Cons.prems(1,4,7,13) sum by auto
  have "nat ?p = Suc (nat p + length s)" using Cons.prems(3) by simp
  moreover have "drop (Suc (nat p + length s)) d = drop (Suc (length s)) (drop (nat p) d)" by (simp add: add.commute)
  ultimately have d': "drop (nat ?p) d = ?r" unfolding d by (simp add: field_of_def)
  have "\<exists>w'. columns col False bits n u nmax lim (k + 1) (q + 1) ?p w1 = Some (Inr (?p + int (length (row_of fs)), w'))
    \<and> o_t w' = (o_t w1)\<lparr>sql_reslut := sql_reslut (o_t w1) @ seen_row fs\<rparr>"
    using Cons.prems o w1 sum by (intro Cons.IH[OF _ d']) auto
  moreover have "columns col False bits n u nmax lim k q p w = columns col False bits n u nmax lim (k + 1) (q + 1) ?p w1"
    using Cons.prems(10,15-17) pn sr c Cons.prems(14)[OF w(1) k w(2)]
    by (subst columns.simps) simp
  moreover have "?p + int (length (row_of fs)) = p + int (length (row_of (s # fs)))" by (simp add: row_of_def field_of_def)
  ultimately show ?case using o by (simp add: seen_row_def)
qed

text \<open>The first rows of a result from a server of version 11: a header of 33 bytes, the columns, and what is behind them.\<close>

definition rows_packet :: "cstring \<Rightarrow> cstring list \<Rightarrow> cstring \<Rightarrow> cstring" where
  "rows_packet h fs r = take 2 h @ [char_of (length fs), NUL] @ drop 2 h @ row_of fs @ r"

lemma rows_packet_header:
  assumes "length h = 31" and "length fs \<le> 20"
  shows "le_at (rows_packet h fs r) 2 2 = Some (int (length fs))" "drop 33 (rows_packet h fs r) = row_of fs @ r"
    "length (rows_packet h fs r) = 33 + length (row_of fs) + length r" "\<exists>m. at (rows_packet h fs r) 0 = Some m"
proof -
  obtain a b t where h: "h = a # b # t" "length t = 29" using assms(1) by (auto simp: length_Suc_conv numeral_eq_Suc)
  have "bytes_at (rows_packet h fs r) 2 2 = Some [char_of (length fs), NUL]" by (simp add: bytes_at_def rows_packet_def h)
  moreover have "length fs mod 256 = length fs" using assms(2) by simp
  ultimately show "le_at (rows_packet h fs r) 2 2 = Some (int (length fs))" by (simp add: le_at_def be_nat_def)
  show "drop 33 (rows_packet h fs r) = row_of fs @ r" "length (rows_packet h fs r) = 33 + length (row_of fs) + length r"
    using h(2) by (simp_all add: rows_packet_def h(1))
  show "\<exists>m. at (rows_packet h fs r) 0 = Some m" by (simp add: rows_packet_def h at_def nth_opt_def)
qed

text \<open>C6: the first row of a result of a server of version 11 to a client other than Toad, with no result pending and columns of one to 253
  characters, is logged with a bar behind every column; but each column has its length byte in front and its last character is missing.\<close>

theorem DecodeTnsData0601_row:
  assumes "\<forall>s\<in>set fs. field_ok s" and "0 < length fs" and "length fs \<le> 20" and "length h = 31" and "33 < length r"
    and "hd r \<noteq> CHR 0x15" and "d = rows_packet h fs r" and "n = int (length d)" and "n < 2 ^ 31"
    and "reachable w" and "iversion (o_t w) = 11" and "istoad (o_t w) \<noteq> 1" and "oracleFlag (o_t w) = 0"
    and "sql_reslut (o_t w) = []" and "nGlobMaxColNum (o_t w) = 0" and "length (seen_row fs) < 4096"
    and "DBOracleReslut z se (seen_row fs) ((o_t w)\<lparr>nGlobMaxColNum := int (length fs), sql_reslut := seen_row fs\<rparr>) = Some t"
  shows "\<exists>w'. DecodeTnsData0601 z se d n w = Some (Some (33 + int (length (row_of fs)), w')) \<and> o_t w' = t"
proof -
  let ?u = "int (length fs)" and ?p = "33 + int (length (row_of fs))"
  note hdr = rows_packet_header[OF assms(4,3), of r, folded assms(7)]
  obtain m where m: "at d 0 = Some m" using hdr(4) by blast
  let ?w0 = "clear_rows (set_t ((o_t w)\<lparr>nGlobMaxColNum := ?u\<rparr>) w)"
  have w: "arrays_ok w" "texts w" using reachable_kept[OF assms(10)] by simp_all
  let ?w1 = "?w0\<lparr>nMaxColNum := max (nMaxColNum ?w0) ?u\<rparr>"
  have t1: "o_t ?w1 = (o_t w)\<lparr>nGlobMaxColNum := ?u\<rparr>" by (simp add: clear_rows_def set_t_def)
  have s: "start0601 d n w = Some (Inr (first_row ?u 33, ?w0))"
    using hdr(1) m assms(2,3,11,12,15) by (simp add: start0601_def set_glob_def Let_def set_t_def clear_rows_def)
  have ok: "arrays_ok ?w1" "texts ?w1" using w assms(3) arrays.glob_set[of ?u w] arrays.cleared arrays.columns_set[of ?u ?w0]
    by (auto simp: arrays_kept_def texts_def clear_rows_def set_t_def)
  have "\<exists>w'. columns (column0601 d n) False no_bits n ?u (nMaxColNum ?w1) 65 0 0 33 ?w1 = Some (Inr (33 + int (length (row_of fs)), w'))
      \<and> o_t w' = (o_t ?w1)\<lparr>sql_reslut := sql_reslut (o_t ?w1) @ seen_row fs\<rparr>"
  proof (rule columns_fields[OF assms(1) _ _ assms(5) assms(8,9) _ ok(2,1)])
    show "column0601 d n k p w = text_column (\<lambda>_ x. x) (\<lambda>ty _ _ _. Some (long_skip ty)) d n k p w"
      if "texts w" "k < 20" "arrays_ok w" for k p w
    proof -
      have "k < length (pszFieldType w)" using that by (simp add: arrays_ok_def)
      then have "pszFieldType w ! k = NUL" using that(1) nth_mem unfolding texts_def by blast
      with \<open>k < length (pszFieldType w)\<close> show ?thesis by (simp add: column0601_def nth_opt_def)
    qed
  qed (use hdr(2) assms(3,13,14,16) t1 in \<open>simp_all add: long_skip_def\<close>)
  then obtain w2 where c: "columns (column0601 d n) False no_bits n ?u (nMaxColNum ?w1) 65 0 0 33 ?w1 = Some (Inr (?p, w2))"
    and o2: "o_t w2 = (o_t w)\<lparr>nGlobMaxColNum := ?u, sql_reslut := seen_row fs\<rparr>"
    using t1 assms(14) by auto
  have "seen_row fs \<noteq> []" using assms(2) by (cases fs) (simp_all add: seen_row_def seen_field_def)
  then have l: "log_row z se w2 = Some (set_t t w2)" using assms(17) o2 by (simp add: log_row_def flush_result_def)
  have n: "n = ?p + int (length r)" using hdr(3) assms(8) by simp
  have i: "istoad t \<noteq> 1" "iversion t = 11" "nGlobMaxColNum t = ?u"
    using assms(11,12,17) by (auto simp: DBOracleReslut_def Let_def Option.bind_eq_Some_conv split: if_split_asm)
  obtain c r1 where r: "r = c # r1" using assms(5) by (cases r) simp_all
  have rest: "drop (nat ?p) d = r"
    using arg_cong[OF hdr(2), of "drop (length (row_of fs))"] by (simp add: nat_add_distrib add.commute)
  have "at d ?p = Some c"
  proof -
    have "nat ?p < length d" using n assms(5,8) by simp
    then show ?thesis using rest r nth_drop[of "nat ?p" d 0] by (simp add: at_def nth_opt_def)
  qed
  moreover have "\<exists>m1. at d 1 = Some m1" using hdr(3) by (simp add: at_def nth_opt_def assms(7))
  ultimately have b: "between0601 d n l (set_t t w2) = Some (Inl (?p, set_t t w2))" if "iCurPlace l = ?p" for l
    using that m i assms(6) r by (auto simp: between0601_def split_row_def Let_def set_t_def)
  have "decode_row z se n (row_columns (column0601 d n) False 65 n) (between0601 d n) (first_row ?u 33, ?w0) = Some (Inl (?p, set_t t w2))"
    using c l b n assms(5) t1 by (simp add: decode_row_def row_columns_def after_row_def first_row_def Let_def)
  then have "rows_loop (decode_row z se n (row_columns (column0601 d n) False 65 n) (between0601 d n)) (first_row ?u 33, ?w0)
      = Some (Some (?p, set_t t w2))"
    by (subst rows_loop.simps) simp
  then have "DecodeTnsData0601 z se d n w = Some (Some (?p, set_t t w2))"
    by (simp add: DecodeTnsData0601_def decode_rows_def s)
  then show ?thesis by (auto simp: set_t_def)
qed

text \<open>Two columns, \<open>ab\<close> and \<open>xyz\<close>.\<close>

definition v11_tns :: tns where
  "v11_tns = plain_tns\<lparr>iversion := 11\<rparr>"

theorem DecodeTnsData0601_row_witness:
  "seen_row [''ab'', ''xyz''] = [CHR 0x02, CHR 0x61, CHR 0x7C, CHR 0x03, CHR 0x78, CHR 0x79, CHR 0x7C]
   \<and> (\<exists>w'. DecodeTnsData0601 plain_sizes quiet_env (rows_packet (replicate 31 NUL) [''ab'', ''xyz''] (replicate 40 NUL)) 80 (new_session v11_tns)
        = Some (Some (40, w')))"
proof
  let ?fs = "[''ab'', ''xyz'']" and ?r = "replicate 40 NUL" and ?h = "replicate 31 NUL" and ?w = "new_session v11_tns"
  show row: "seen_row ?fs = [CHR 0x02, CHR 0x61, CHR 0x7C, CHR 0x03, CHR 0x78, CHR 0x79, CHR 0x7C]" by code_simp
  have len: "length (rows_packet ?h ?fs ?r) = 80" "length (row_of ?fs) = 7"
    by (simp_all add: rows_packet_def row_of_def field_of_def)
  have ok: "\<forall>s\<in>set ?fs. field_ok s" by (simp add: field_ok_def)
  have t: "iversion (o_t ?w) = 11" "istoad (o_t ?w) = 0" "oracleFlag (o_t ?w) = 0" "sql_reslut (o_t ?w) = []" "nGlobMaxColNum (o_t ?w) = 0"
    "auth (t_px (o_t ?w)) = [''pr_cmdFlag'' \<mapsto> FInt 1]" "lineOutLen (t_px (o_t ?w)) = 0"
    by (simp_all add: new_session_def v11_tns_def plain_tns_def drop_px_def plain_px_def)
  have b: "blank_lines (seen_row ?fs) = seen_row ?fs" "length (seen_row ?fs) = 7" unfolding row by code_simp+
  have "\<exists>t. DBOracleReslut plain_sizes quiet_env (seen_row ?fs) ((o_t ?w)\<lparr>nGlobMaxColNum := int (length ?fs), sql_reslut := seen_row ?fs\<rparr>) = Some t"
    using t b by (simp add: DBOracleReslut_def InsertUseractivityoutlog_def plain_sizes_def int_of_def)
  then obtain t where db: "DBOracleReslut plain_sizes quiet_env (seen_row ?fs) ((o_t ?w)\<lparr>nGlobMaxColNum := int (length ?fs), sql_reslut := seen_row ?fs\<rparr>) = Some t"
    by blast
  have n: "(80::int) = int (length (rows_packet ?h ?fs ?r))" unfolding len by simp
  have "\<exists>w'. DecodeTnsData0601 plain_sizes quiet_env (rows_packet ?h ?fs ?r) 80 ?w = Some (Some (33 + int (length (row_of ?fs)), w')) \<and> o_t w' = t"
    by (rule DecodeTnsData0601_row[OF ok _ _ _ _ _ refl n _ reachable.start t(1) _ t(3-5) _ db]) (simp_all add: t(2) b(2))
  then show "\<exists>w'. DecodeTnsData0601 plain_sizes quiet_env (rows_packet ?h ?fs ?r) 80 ?w = Some (Some (40, w'))"
    unfolding len by auto
qed

subsection \<open>Messages are logged\<close>

lemma blank_lines_first: "schar (first_char s) \<ge> 0x20 \<Longrightarrow> s \<noteq> []"
  by (auto simp: first_char_def schar_def)

text \<open>C12: a message of a server with 32 bits, 94 bytes behind the command, goes to the log with blanks for its line
  ends when no result is pending, but not the one for the end of the rows; a pending result goes to the
  log instead of the message.\<close>

theorem server_message_logged:
  assumes "indata = be16 (int (length indata)) @ h1 @ [CHR 0x06] @ h2 @ [CHR 0x04, s] @ pre @ [char_of (length m)] @ m @ r"
    and "length h1 = 2" and "length h2 = 5" and "length pre = 94" and "s \<in> {CHR 0x01, CHR 0x02, CHR 0x05}"
    and "length m < 256" and "NUL \<notin> set m" and "schar (first_char m) \<ge> 0x20" and "length indata < 65536" and "inlen \<noteq> 8"
    and "isjdbc w = 0" and "bitversion (o_t w) \<noteq> 64"
    and "t = (if sql_reslut (o_t w) \<noteq> [] then DBOracleReslut z se (sql_reslut (o_t w)) (o_t w)
              else if contains (blank_lines m) ''ORA-01403'' then Some (o_t w)
              else DBOracleReslut z se (blank_lines m) (o_t w))"
  shows "RecvOracleDBServer z se sock taken indata inlen w
    = Some (map_option (\<lambda>t. (0, indata, None, set_t t w)) t)"
proof -
  let ?d = "pre @ [char_of (length m)] @ m @ r"
  obtain a1 a2 where h1: "h1 = [a1, a2]" using assms(2) by (auto simp: length_Suc_conv numeral_2_eq_2)
  obtain b1 b2 b3 b4 b5 where h2: "h2 = [b1, b2, b3, b4, b5]" using assms(3) by (auto simp: length_Suc_conv numeral_eq_Suc)
  have len: "be16_at indata 0 = Some (int (length indata))"
    using assms(1,9) be16_read by (metis of_nat_0_le_iff of_nat_less_iff of_nat_numeral)
  have u: "nth_opt indata 4 = Some (CHR 0x06)" and d: "drop 10 indata = CHR 0x04 # s # ?d"
    by (subst assms(1), simp add: be16_def h1 h2 nth_opt_def)+
  from d have l: "length indata = length ?d + 12" by (auto dest: arg_cong[of _ _ length])
  have n: "ub (char_of (length m)) = int (length m)" using assms(6) by (rule ub_char_of_nat)
  have m: "m \<noteq> []" using assms(8) by (rule blank_lines_first)
  have "bytes_at ?d 95 (int (length m)) = Some m" using assms(4) by (simp add: bytes_at_def)
  moreover have "at ?d 94 = Some (char_of (length m))" using assms(4) by (simp add: at_def nth_opt_def nth_append)
  moreover have "zstr m = m" using assms(7) by (auto simp: zstr_def takeWhile_eq_all_conv)
  ultimately have "DecodeTnsData0401 ?d w = Some (Some (blank_lines m))"
    using assms(8,11,12) n m by (simp add: DecodeTnsData0401_def message_field_def Let_def)
  then have "answer_message z se ?d w = map_option (\<lambda>t. set_t t w) t"
    using assms(13) by (auto simp: answer_message_def log_row_def flush_result_def map_conv_bind_option comp_def)
  then have "answer_part z se (CHR 0x04) s ?d (int (length ?d)) w = Some (map_option (\<lambda>t. (None, set_t t w)) t)"
    using assms(5) by (simp add: answer_part_def option.map_comp comp_def)
  then have "decode_answer z se (drop 10 indata) (int (length indata) - 10) w = Some (map_option (\<lambda>t. (0, set_t t w)) t)"
    unfolding d l by (subst decode_answer.simps) (simp add: nth_opt_def del: nth_opt_Some split: option.split)
  with len u assms(10) show ?thesis
    by (simp add: RecvOracleDBServer_def OracleFitler_server_def option.map_comp comp_def del: nth_opt_Some)
qed

definition no_table :: cstring where
  "no_table = ''ORA-00942'' @ [CHR 0x0A]"

definition no_table_packet :: cstring where
  "no_table_packet = be16 117 @ [NUL, NUL] @ [CHR 0x06] @ replicate 5 NUL @ [CHR 0x04, CHR 0x02] @ replicate 94 NUL
     @ [char_of (length no_table)] @ no_table"

theorem server_message_logged_witness:
  "\<exists>t. DBOracleReslut plain_sizes quiet_env ''ORA-00942 '' (o_t (new_session plain_tns)) = Some t
     \<and> RecvOracleDBServer plain_sizes quiet_env (\<lambda>_. True) (\<lambda>_. False) no_table_packet 117 (new_session plain_tns)
       = Some (Some (0, no_table_packet, None, set_t t (new_session plain_tns)))"
proof -
  let ?w = "new_session plain_tns"
  have b: "blank_lines no_table = ''ORA-00942 ''" "\<not> contains (blank_lines no_table) ''ORA-01403''" "blank_lines ''ORA-00942 '' = ''ORA-00942 ''"
    "NUL \<notin> set no_table" "0x20 \<le> schar (first_char no_table)" by code_simp+
  have n: "length no_table = 10" by (simp add: no_table_def)
  have w: "isjdbc ?w = 0" "bitversion (o_t ?w) = 32" "sql_reslut (o_t ?w) = []" "auth (t_px (o_t ?w)) = [''pr_cmdFlag'' \<mapsto> FInt 1]"
    "lineOutLen (t_px (o_t ?w)) = 0"
    by (simp_all add: new_session_def plain_tns_def drop_px_def plain_px_def)
  obtain t where t: "DBOracleReslut plain_sizes quiet_env ''ORA-00942 '' (o_t ?w) = Some t"
    using w b(3) by (auto simp: DBOracleReslut_def InsertUseractivityoutlog_def plain_sizes_def int_of_def)
  have l: "length no_table_packet = 117" by (simp add: no_table_packet_def be16_def n)
  have i: "no_table_packet = be16 (int (length no_table_packet)) @ [NUL, NUL] @ [CHR 0x06] @ replicate 5 NUL @ [CHR 0x04, CHR 0x02]
      @ replicate 94 NUL @ [char_of (length no_table)] @ no_table @ []"
    unfolding l by (simp add: no_table_packet_def)
  have "RecvOracleDBServer plain_sizes quiet_env (\<lambda>_. True) (\<lambda>_. False) no_table_packet 117 ?w
      = Some (map_option (\<lambda>t. (0, no_table_packet, None, set_t t ?w)) (Some t))"
    by (rule server_message_logged[OF i _ _ _ _ _ b(4,5) _ _ w(1)]) (simp_all add: n l w b(2)[unfolded b(1)] b t)
  with t show ?thesis by auto
qed

end
