(* ===== verification/TnsFields.thy ===== *)
theory TnsFields
  imports TnsRowLaws
begin

text \<open>
  The names and types of the columns, \<^verbatim>\<open>OracleProxy/oraclefilter.c\<close>: \<open>DecodeTnsData1019\<close> and
  \<open>DecodeTnsData1019_jdbc\<close> (lines 2259 to 2488). The call of the two in \<open>DecodeTnsData\<close> is commented out, so
  that no session reaches them.
\<close>

subsection \<open>The number of columns\<close>

text \<open>It is at another place for every version; behind it the columns start.\<close>

definition column_count :: "cstring \<Rightarrow> tns \<Rightarrow> (int \<times> int) option" where
  "column_count d t =
     (if iversion t = 11 \<and> istoad t = 1 then do { u \<leftarrow> le_at d 30 2; Some (u, 35) }
      else if iversion t \<noteq> 9 then do { u \<leftarrow> le_at d 27 2; Some (u, 32) }
      else if bitversion t = 64 then do {
        c \<leftarrow> at d 32;
        (if ub c = 0x4B then do { b \<leftarrow> at d 31; Some (ub b, 37) } else Some (ub c, 38))
      } else do { u \<leftarrow> le_at d 29 2; Some (u, 34) })"

text \<open>The types have room for 20 columns.\<close>

definition set_type :: "nat \<Rightarrow> char \<Rightarrow> ora \<Rightarrow> ora option" where
  "set_type k c w = (if k < length (pszFieldType w) then Some (w\<lparr>pszFieldType := (pszFieldType w)[k := c]\<rparr>) else None)"

definition clear_types :: "int \<Rightarrow> ora \<Rightarrow> ora" where
  "clear_types u w = w\<lparr>pszFieldType := replicate 20 NUL, nMaxColNum := u32 u\<rparr>"

text \<open>The name of a column is printed.\<close>

definition print_name :: "cstring \<Rightarrow> int \<Rightarrow> int \<Rightarrow> ora \<Rightarrow> (int \<times> int \<times> ora) option" where
  "print_name d n p w =
     do {
       (r, sub, len, flag) \<leftarrow> ParseStrbyLen 1024 (oracleFlag (o_t w)) (drop (nat p) d) (s32 (n - p));
       guard (length (zstr sub) < 1024);
       w \<leftarrow> emit (zstr sub @ ''|'') (set_t ((o_t w)\<lparr>oracleFlag := flag\<rparr>) w);
       Some (r, len, w)
     }"

subsection \<open>\<open>DecodeTnsData1019\<close>\<close>

text \<open>
  The type of a column and the place of its name; \<open>skip\<close> (\<open>iNotFindSplit\<close>) says that the column before had no
  separator.
\<close>

definition column_head :: "cstring \<Rightarrow> tns \<Rightarrow> bool \<Rightarrow> int \<Rightarrow> (char \<times> int) option" where
  "column_head d t skip p =
     (if bitversion t = 32 then do { c \<leftarrow> at d (p + 1); Some (c, p + 39) }
      else if iversion t \<noteq> 9 then do { c \<leftarrow> at d p; Some (c, p + 35) }
      else do {
        c \<leftarrow> at d p;
        let q = p + 13 + 4 * of_bool skip;
        x \<leftarrow> at d q;
        y \<leftarrow> at d (q + 2);
        e \<leftarrow> (if x = y then do { z \<leftarrow> at d (q + 3); Some (x = z) } else Some False);
        Some (c, q + 3 * of_bool e)
      })"

text \<open>
  The place behind a name of which \<open>a\<close> characters were read. For a version other than 9 it is behind the name with version 11
  and 64 bits only: a statement of the source is commented out, and the next one took its place under the \<open>if\<close>.
\<close>

definition column_tail :: "cstring \<Rightarrow> ora \<Rightarrow> int \<Rightarrow> int \<Rightarrow> (int \<times> bool) option" where
  "column_tail d w p a =
     (let t = o_t w
      in if iversion t \<noteq> 9 \<and> isjdbc w = 0 then
           Some (if iversion t = 11 \<and> bitversion t = 64 then p + a + 10 else p, False)
         else if isjdbc w = 1 then Some (p + a + 12, False)
         else if bitversion t = 64 then do {
           let q = p + a + 2;
           x \<leftarrow> pair_at d q (CHR 0x02) (CHR 0x00);
           y \<leftarrow> (if x then pair_at d (q + 2) (CHR 0x00) (CHR 0x81) else Some False);
           Some (if y then (q + 4, False) else (q, True))
         } else Some (p + a + 8, False))"

text \<open>All columns; \<open>Inl\<close> is a place behind the packet.\<close>

fun columns1019 :: "nat \<Rightarrow> cstring \<Rightarrow> int \<Rightarrow> nat \<Rightarrow> bool \<Rightarrow> int \<Rightarrow> ora \<Rightarrow> (int \<times> ora + int \<times> ora) option" where
  "columns1019 0 d n k skip p w = Some (Inr (p, w))"
| "columns1019 (Suc m) d n k skip p w =
     do {
       (c, q) \<leftarrow> column_head d (o_t w) skip p;
       w \<leftarrow> set_type k c w;
       (if u32 q > n then Some (Inl (u32 q, w))
        else do {
          (r, len, w) \<leftarrow> print_name d n (u32 q) w;
          (p, skip) \<leftarrow> column_tail d w (u32 q) (len + r);
          columns1019 m d n (k + 1) skip (u32 p) w
        })
     }"

definition DecodeTnsData1019 :: "sizes \<Rightarrow> session_env \<Rightarrow> cstring \<Rightarrow> int \<Rightarrow> ora \<Rightarrow> (int \<times> ora) option" where
  "DecodeTnsData1019 z se d n w =
     (if n < 32 then Some (0, w)
      else do {
        (u, p) \<leftarrow> column_count d (o_t w);
        x \<leftarrow> columns1019 (nat u) d n 0 False p (clear_types u w);
        (case x of
           Inl r \<Rightarrow> Some r
         | Inr (p, w) \<Rightarrow> do {
             w \<leftarrow> log_row z se w;
             Some (u32 (p + (if iversion (o_t w) \<noteq> 9 then (if istoad (o_t w) = 1 \<and> iversion (o_t w) = 11 then 32 else 28) else 12)), w)
           })
      })"

subsection \<open>\<open>DecodeTnsData1019_jdbc\<close>\<close>

text \<open>The place of the number of columns, between the bytes 0x01 and 0x39; \<open>Inl\<close> is a place behind the packet.\<close>

fun jdbc_mark :: "int \<Rightarrow> int \<Rightarrow> cstring \<Rightarrow> (int + int) option" where
  "jdbc_mark n p [] = None"
| "jdbc_mark n p (c # r) =
     do {
       b \<leftarrow> (if c = CHR 0x01 then nth_opt r 1 else Some NUL);
       (if c = CHR 0x01 \<and> b = CHR 0x39 then Some (Inr (p + 1))
        else if p > n then Some (Inl p) else jdbc_mark n (p + 1) r)
     }"

fun columns_jdbc :: "nat \<Rightarrow> cstring \<Rightarrow> int \<Rightarrow> nat \<Rightarrow> int \<Rightarrow> ora \<Rightarrow> (int \<times> ora + int \<times> ora) option" where
  "columns_jdbc 0 d n k p w = Some (Inr (p, w))"
| "columns_jdbc (Suc m) d n k p w =
     do {
       c \<leftarrow> at d p;
       w \<leftarrow> set_type k c w;
       ty \<leftarrow> at d (p + 14);
       let q = u32 (p + (if ty = CHR 0x01 then 20 else if ty = CHR 0x71 then 18 else 17));
       (if q > n then Some (Inl (q, w))
        else do {
          (r, len, w) \<leftarrow> print_name d n q w;
          let q = u32 (q + len + r + 2);
          e \<leftarrow> at d q;
          columns_jdbc m d n (k + 1) (u32 (if e = CHR 0x00 then q + 1 else if e = CHR 0x01 then q + 2 else q)) w
        })
     }"

definition DecodeTnsData1019_jdbc :: "sizes \<Rightarrow> session_env \<Rightarrow> cstring \<Rightarrow> int \<Rightarrow> ora \<Rightarrow> (int \<times> ora) option" where
  "DecodeTnsData1019_jdbc z se d n w =
     (if n < 32 then Some (0, w)
      else do {
        m \<leftarrow> jdbc_mark n 0 d;
        (case m of
           Inl p \<Rightarrow> Some (p, w\<lparr>nMaxColNum := 0\<rparr>)
         | Inr p \<Rightarrow> do {
             c \<leftarrow> at d p;
             x \<leftarrow> columns_jdbc (nat (schar c)) d n 0 (p + 2) (clear_types (schar c) w);
             (case x of
                Inl r \<Rightarrow> Some r
              | Inr (p, w) \<Rightarrow> do {
                  w \<leftarrow> log_row z se w;
                  Some (u32 (p + (if iversion (o_t w) \<noteq> 9 then 28 else 12)), w)
                })
           })
      })"

subsection \<open>More than 20 columns\<close>

lemma emit_types: "emit s w = Some w' \<Longrightarrow> pszFieldType w' = pszFieldType w"
  using same.emit[of s w w'] by (simp add: same_def)

lemma print_name_types: "print_name d n p w = Some (r, len, w') \<Longrightarrow> pszFieldType w' = pszFieldType w"
  by (auto simp: print_name_def set_t_def Option.bind_eq_Some_conv dest!: emit_types split: if_split_asm)

lemma columns1019_limit:
  "columns1019 m d n k skip p w = Some (Inr (q, w')) \<Longrightarrow> length (pszFieldType w) = 20 \<Longrightarrow> k \<le> 20 \<Longrightarrow> k + m \<le> 20"
proof (induction m arbitrary: k skip p w)
  case (Suc m)
  from Suc.prems(1) obtain c p1 w1 where s: "set_type k c w = Some w1"
    and b: "\<exists>r len w2 p2 skip. print_name d n p1 w1 = Some (r, len, w2) \<and> columns1019 m d n (k + 1) skip p2 w2 = Some (Inr (q, w'))"
    by (auto simp: Option.bind_eq_Some_conv split: if_split_asm) blast
  from s Suc.prems(2) have w1: "k < 20" "length (pszFieldType w1) = 20" by (auto simp: set_type_def split: if_split_asm)
  from b obtain r len w2 p2 sk where "print_name d n p1 w1 = Some (r, len, w2)" "columns1019 m d n (k + 1) sk p2 w2 = Some (Inr (q, w'))"
    by blast
  with w1 Suc.IH[of "k + 1" sk p2 w2] show ?case by (auto dest: print_name_types)
qed simp

end
