(* ===== verification/Aes.thy ===== *)
theory Aes
  imports Cipher
begin

text \<open>
  The AES block cipher of \<^verbatim>\<open>public/AES.cpp\<close> and \<^verbatim>\<open>public/AES.h\<close>: the tables, the key schedule of the constructor,
  \<open>AES::Cipher\<close> and \<open>AES::InvCipher\<close> for one block, and that the second undoes the first.

  \<open>State\<close> is a list of four rows of four bytes; a function of the class that changes it returns the new one. \<open>Nb\<close> is
  always 4.
\<close>

subsection \<open>Tables\<close>

definition Sbox :: "byte list list" where
  "Sbox =
    [[0x63, 0x7c, 0x77, 0x7b, 0xf2, 0x6b, 0x6f, 0xc5, 0x30, 0x01, 0x67, 0x2b, 0xfe, 0xd7, 0xab, 0x76],
     [0xca, 0x82, 0xc9, 0x7d, 0xfa, 0x59, 0x47, 0xf0, 0xad, 0xd4, 0xa2, 0xaf, 0x9c, 0xa4, 0x72, 0xc0],
     [0xb7, 0xfd, 0x93, 0x26, 0x36, 0x3f, 0xf7, 0xcc, 0x34, 0xa5, 0xe5, 0xf1, 0x71, 0xd8, 0x31, 0x15],
     [0x04, 0xc7, 0x23, 0xc3, 0x18, 0x96, 0x05, 0x9a, 0x07, 0x12, 0x80, 0xe2, 0xeb, 0x27, 0xb2, 0x75],
     [0x09, 0x83, 0x2c, 0x1a, 0x1b, 0x6e, 0x5a, 0xa0, 0x52, 0x3b, 0xd6, 0xb3, 0x29, 0xe3, 0x2f, 0x84],
     [0x53, 0xd1, 0x00, 0xed, 0x20, 0xfc, 0xb1, 0x5b, 0x6a, 0xcb, 0xbe, 0x39, 0x4a, 0x4c, 0x58, 0xcf],
     [0xd0, 0xef, 0xaa, 0xfb, 0x43, 0x4d, 0x33, 0x85, 0x45, 0xf9, 0x02, 0x7f, 0x50, 0x3c, 0x9f, 0xa8],
     [0x51, 0xa3, 0x40, 0x8f, 0x92, 0x9d, 0x38, 0xf5, 0xbc, 0xb6, 0xda, 0x21, 0x10, 0xff, 0xf3, 0xd2],
     [0xcd, 0x0c, 0x13, 0xec, 0x5f, 0x97, 0x44, 0x17, 0xc4, 0xa7, 0x7e, 0x3d, 0x64, 0x5d, 0x19, 0x73],
     [0x60, 0x81, 0x4f, 0xdc, 0x22, 0x2a, 0x90, 0x88, 0x46, 0xee, 0xb8, 0x14, 0xde, 0x5e, 0x0b, 0xdb],
     [0xe0, 0x32, 0x3a, 0x0a, 0x49, 0x06, 0x24, 0x5c, 0xc2, 0xd3, 0xac, 0x62, 0x91, 0x95, 0xe4, 0x79],
     [0xe7, 0xc8, 0x37, 0x6d, 0x8d, 0xd5, 0x4e, 0xa9, 0x6c, 0x56, 0xf4, 0xea, 0x65, 0x7a, 0xae, 0x08],
     [0xba, 0x78, 0x25, 0x2e, 0x1c, 0xa6, 0xb4, 0xc6, 0xe8, 0xdd, 0x74, 0x1f, 0x4b, 0xbd, 0x8b, 0x8a],
     [0x70, 0x3e, 0xb5, 0x66, 0x48, 0x03, 0xf6, 0x0e, 0x61, 0x35, 0x57, 0xb9, 0x86, 0xc1, 0x1d, 0x9e],
     [0xe1, 0xf8, 0x98, 0x11, 0x69, 0xd9, 0x8e, 0x94, 0x9b, 0x1e, 0x87, 0xe9, 0xce, 0x55, 0x28, 0xdf],
     [0x8c, 0xa1, 0x89, 0x0d, 0xbf, 0xe6, 0x42, 0x68, 0x41, 0x99, 0x2d, 0x0f, 0xb0, 0x54, 0xbb, 0x16]]"

definition iSbox :: "byte list list" where
  "iSbox =
    [[0x52, 0x09, 0x6a, 0xd5, 0x30, 0x36, 0xa5, 0x38, 0xbf, 0x40, 0xa3, 0x9e, 0x81, 0xf3, 0xd7, 0xfb],
     [0x7c, 0xe3, 0x39, 0x82, 0x9b, 0x2f, 0xff, 0x87, 0x34, 0x8e, 0x43, 0x44, 0xc4, 0xde, 0xe9, 0xcb],
     [0x54, 0x7b, 0x94, 0x32, 0xa6, 0xc2, 0x23, 0x3d, 0xee, 0x4c, 0x95, 0x0b, 0x42, 0xfa, 0xc3, 0x4e],
     [0x08, 0x2e, 0xa1, 0x66, 0x28, 0xd9, 0x24, 0xb2, 0x76, 0x5b, 0xa2, 0x49, 0x6d, 0x8b, 0xd1, 0x25],
     [0x72, 0xf8, 0xf6, 0x64, 0x86, 0x68, 0x98, 0x16, 0xd4, 0xa4, 0x5c, 0xcc, 0x5d, 0x65, 0xb6, 0x92],
     [0x6c, 0x70, 0x48, 0x50, 0xfd, 0xed, 0xb9, 0xda, 0x5e, 0x15, 0x46, 0x57, 0xa7, 0x8d, 0x9d, 0x84],
     [0x90, 0xd8, 0xab, 0x00, 0x8c, 0xbc, 0xd3, 0x0a, 0xf7, 0xe4, 0x58, 0x05, 0xb8, 0xb3, 0x45, 0x06],
     [0xd0, 0x2c, 0x1e, 0x8f, 0xca, 0x3f, 0x0f, 0x02, 0xc1, 0xaf, 0xbd, 0x03, 0x01, 0x13, 0x8a, 0x6b],
     [0x3a, 0x91, 0x11, 0x41, 0x4f, 0x67, 0xdc, 0xea, 0x97, 0xf2, 0xcf, 0xce, 0xf0, 0xb4, 0xe6, 0x73],
     [0x96, 0xac, 0x74, 0x22, 0xe7, 0xad, 0x35, 0x85, 0xe2, 0xf9, 0x37, 0xe8, 0x1c, 0x75, 0xdf, 0x6e],
     [0x47, 0xf1, 0x1a, 0x71, 0x1d, 0x29, 0xc5, 0x89, 0x6f, 0xb7, 0x62, 0x0e, 0xaa, 0x18, 0xbe, 0x1b],
     [0xfc, 0x56, 0x3e, 0x4b, 0xc6, 0xd2, 0x79, 0x20, 0x9a, 0xdb, 0xc0, 0xfe, 0x78, 0xcd, 0x5a, 0xf4],
     [0x1f, 0xdd, 0xa8, 0x33, 0x88, 0x07, 0xc7, 0x31, 0xb1, 0x12, 0x10, 0x59, 0x27, 0x80, 0xec, 0x5f],
     [0x60, 0x51, 0x7f, 0xa9, 0x19, 0xb5, 0x4a, 0x0d, 0x2d, 0xe5, 0x7a, 0x9f, 0x93, 0xc9, 0x9c, 0xef],
     [0xa0, 0xe0, 0x3b, 0x4d, 0xae, 0x2a, 0xf5, 0xb0, 0xc8, 0xeb, 0xbb, 0x3c, 0x83, 0x53, 0x99, 0x61],
     [0x17, 0x2b, 0x04, 0x7e, 0xba, 0x77, 0xd6, 0x26, 0xe1, 0x69, 0x14, 0x63, 0x55, 0x21, 0x0c, 0x7d]]"

definition Rcon :: "byte list list" where
  "Rcon =
    [[0x00, 0x00, 0x00, 0x00],
     [0x01, 0x00, 0x00, 0x00],
     [0x02, 0x00, 0x00, 0x00],
     [0x04, 0x00, 0x00, 0x00],
     [0x08, 0x00, 0x00, 0x00],
     [0x10, 0x00, 0x00, 0x00],
     [0x20, 0x00, 0x00, 0x00],
     [0x40, 0x00, 0x00, 0x00],
     [0x80, 0x00, 0x00, 0x00],
     [0x1b, 0x00, 0x00, 0x00],
     [0x36, 0x00, 0x00, 0x00]]"

subsection \<open>The key schedule\<close>

datatype ENUM_KEYSIZE = BIT128 | BIT192 | BIT256

text \<open>The fields the constructor sets: \<open>Nk\<close>, \<open>Nr\<close> and the words \<open>w\<close>.\<close>

record AES_object =
  aes_Nk :: nat
  aes_Nr :: nat
  aes_w :: "byte list list"

definition Sbox_at :: "byte \<Rightarrow> byte" where
  "Sbox_at b = Sbox ! unat (drop_bit 4 b) ! unat (b AND 0x0f)"

definition iSbox_at :: "byte \<Rightarrow> byte" where
  "iSbox_at b = iSbox ! unat (drop_bit 4 b) ! unat (b AND 0x0f)"

definition RotWord :: "byte list \<Rightarrow> byte list" where
  "RotWord v = [v ! 1, v ! 2, v ! 3, v ! 0]"

definition SubWord :: "byte list \<Rightarrow> byte list" where
  "SubWord v = map (\<lambda>i. Sbox_at (v ! i)) [0..<4]"

text \<open>The word of the next row.\<close>

definition key_word :: "nat \<Rightarrow> byte list list \<Rightarrow> byte list" where
  "key_word nk ws =
     (let row = length ws;
          temp = ws ! (row - 1);
          temp = (if row mod nk = 0 then map (\<lambda>i. SubWord (RotWord temp) ! i XOR Rcon ! (row div nk) ! i) [0..<4]
                  else if nk > 6 \<and> row mod nk = 4 then SubWord temp
                  else temp)
      in map (\<lambda>i. ws ! (row - nk) ! i XOR temp ! i) [0..<4])"

fun key_rows :: "nat \<Rightarrow> nat \<Rightarrow> byte list list \<Rightarrow> byte list list" where
  "key_rows nk 0 ws = ws"
| "key_rows nk (Suc n) ws = key_rows nk n (ws @ [key_word nk ws])"

definition key_sizes :: "ENUM_KEYSIZE \<Rightarrow> nat \<times> nat" where
  "key_sizes z = (case z of BIT128 \<Rightarrow> (4, 10) | BIT192 \<Rightarrow> (6, 12) | BIT256 \<Rightarrow> (8, 14))"

definition AES :: "ENUM_KEYSIZE \<Rightarrow> byte list \<Rightarrow> AES_object option" where
  "AES z key_asc =
     (let (nk, nr) = key_sizes z
      in do {
        key \<leftarrow> rd key_asc 0 (nk * 4);
        Some \<lparr>aes_Nk = nk, aes_Nr = nr,
              aes_w = key_rows nk (4 * (nr + 1) - nk) (map (\<lambda>row. map (\<lambda>i. key ! (4 * row + i)) [0..<4]) [0..<nk])\<rparr>
      })"

subsection \<open>The rounds\<close>

text \<open>A loop over the rows and the columns of the state.\<close>

definition state_of :: "(nat \<Rightarrow> nat \<Rightarrow> byte) \<Rightarrow> byte list list" where
  "state_of f = map (\<lambda>r. map (\<lambda>c. f r c) [0..<4]) [0..<4]"

definition AddRoundKey :: "AES_object \<Rightarrow> nat \<Rightarrow> byte list list \<Rightarrow> byte list list" where
  "AddRoundKey a n st = state_of (\<lambda>r c. st ! r ! c XOR aes_w a ! (n * 4 + c) ! r)"

definition SubBytes :: "byte list list \<Rightarrow> byte list list" where
  "SubBytes st = state_of (\<lambda>r c. Sbox_at (st ! r ! c))"

definition InvSubBytes :: "byte list list \<Rightarrow> byte list list" where
  "InvSubBytes st = state_of (\<lambda>r c. iSbox_at (st ! r ! c))"

definition ShiftRows :: "byte list list \<Rightarrow> byte list list" where
  "ShiftRows st = state_of (\<lambda>r c. if r = 0 then st ! r ! c else st ! r ! ((c + r) mod 4))"

definition InvShiftRows :: "byte list list \<Rightarrow> byte list list" where
  "InvShiftRows st =
     map (\<lambda>r. if r = 0 then st ! r else foldl (\<lambda>row c. row[(c + r) mod 4 := st ! r ! c]) (st ! r) [0..<4]) [0..<4]"

definition gfmultby02 :: "byte \<Rightarrow> byte" where
  "gfmultby02 b = (if b < 0x80 then push_bit 1 b else push_bit 1 b XOR 0x1b)"

definition gfmultby03 :: "byte \<Rightarrow> byte" where
  "gfmultby03 b = gfmultby02 b XOR b"

definition gfmultby09 :: "byte \<Rightarrow> byte" where
  "gfmultby09 b = gfmultby02 (gfmultby02 (gfmultby02 b)) XOR b"

definition gfmultby0b :: "byte \<Rightarrow> byte" where
  "gfmultby0b b = gfmultby02 (gfmultby02 (gfmultby02 b)) XOR gfmultby02 b XOR b"

definition gfmultby0d :: "byte \<Rightarrow> byte" where
  "gfmultby0d b = gfmultby02 (gfmultby02 (gfmultby02 b)) XOR gfmultby02 (gfmultby02 b) XOR b"

definition gfmultby0e :: "byte \<Rightarrow> byte" where
  "gfmultby0e b = gfmultby02 (gfmultby02 (gfmultby02 b)) XOR gfmultby02 (gfmultby02 b) XOR gfmultby02 b"

definition MixColumns :: "byte list list \<Rightarrow> byte list list" where
  "MixColumns st =
     [map (\<lambda>c. gfmultby02 (st ! 0 ! c) XOR gfmultby03 (st ! 1 ! c) XOR st ! 2 ! c XOR st ! 3 ! c) [0..<4],
      map (\<lambda>c. st ! 0 ! c XOR gfmultby02 (st ! 1 ! c) XOR gfmultby03 (st ! 2 ! c) XOR st ! 3 ! c) [0..<4],
      map (\<lambda>c. st ! 0 ! c XOR st ! 1 ! c XOR gfmultby02 (st ! 2 ! c) XOR gfmultby03 (st ! 3 ! c)) [0..<4],
      map (\<lambda>c. gfmultby03 (st ! 0 ! c) XOR st ! 1 ! c XOR st ! 2 ! c XOR gfmultby02 (st ! 3 ! c)) [0..<4]]"

definition InvMixColumns :: "byte list list \<Rightarrow> byte list list" where
  "InvMixColumns st =
     [map (\<lambda>c. gfmultby0e (st ! 0 ! c) XOR gfmultby0b (st ! 1 ! c) XOR gfmultby0d (st ! 2 ! c) XOR gfmultby09 (st ! 3 ! c)) [0..<4],
      map (\<lambda>c. gfmultby09 (st ! 0 ! c) XOR gfmultby0e (st ! 1 ! c) XOR gfmultby0b (st ! 2 ! c) XOR gfmultby0d (st ! 3 ! c)) [0..<4],
      map (\<lambda>c. gfmultby0d (st ! 0 ! c) XOR gfmultby09 (st ! 1 ! c) XOR gfmultby0e (st ! 2 ! c) XOR gfmultby0b (st ! 3 ! c)) [0..<4],
      map (\<lambda>c. gfmultby0b (st ! 0 ! c) XOR gfmultby0d (st ! 1 ! c) XOR gfmultby09 (st ! 2 ! c) XOR gfmultby0e (st ! 3 ! c)) [0..<4]]"

definition load_state :: "byte list \<Rightarrow> byte list list" where
  "load_state inp = state_of (\<lambda>r c. inp ! (4 * c + r))"

definition store_state :: "byte list list \<Rightarrow> byte list" where
  "store_state st = map (\<lambda>i. st ! (i mod 4) ! (i div 4)) [0..<16]"

definition AES_Cipher :: "AES_object \<Rightarrow> byte list \<Rightarrow> byte list" where
  "AES_Cipher a inp =
     (let st = AddRoundKey a 0 (load_state inp);
          st = foldl (\<lambda>st n. AddRoundKey a n (MixColumns (ShiftRows (SubBytes st)))) st [1..<aes_Nr a]
      in store_state (AddRoundKey a (aes_Nr a) (ShiftRows (SubBytes st))))"

text \<open>\<open>InvCipher\<close> before its last loop, which sets the control characters of the text to zero.\<close>

definition AES_InvState :: "AES_object \<Rightarrow> byte list \<Rightarrow> byte list" where
  "AES_InvState a inp =
     (let st = AddRoundKey a (aes_Nr a) (load_state inp);
          st = foldl (\<lambda>st n. InvMixColumns (AddRoundKey a n (InvSubBytes (InvShiftRows st)))) st (rev [1..<aes_Nr a])
      in store_state (AddRoundKey a 0 (InvSubBytes (InvShiftRows st))))"

definition clear_control :: "byte \<Rightarrow> byte" where
  "clear_control b = (if b < 0x20 \<or> b = 0x7f then 0 else b)"

definition AES_InvCipher :: "AES_object \<Rightarrow> byte list \<Rightarrow> byte list" where
  "AES_InvCipher a inp = map clear_control (AES_InvState a inp)"

subsection \<open>The steps of a round are undone\<close>

definition state_ok :: "byte list list \<Rightarrow> bool" where
  "state_ok st \<longleftrightarrow> length st = 4 \<and> (\<forall>r<4. length (st ! r) = 4)"

lemma state_of_at [simp]: "r < 4 \<Longrightarrow> c < 4 \<Longrightarrow> state_of f ! r ! c = f r c"
  by (simp add: state_of_def)

lemma state_of_ok [simp]: "state_ok (state_of f)"
  by (simp add: state_of_def state_ok_def)

lemma state_of_cong: "(\<And>r c. r < 4 \<Longrightarrow> c < 4 \<Longrightarrow> f r c = g r c) \<Longrightarrow> state_of f = state_of g"
  unfolding state_of_def by (intro map_cong) auto

lemma state_of_cells: "state_ok st \<Longrightarrow> state_of (\<lambda>r c. st ! r ! c) = st"
  by (auto simp: state_of_def state_ok_def intro!: nth_equalityI)

lemma state_of_id: "state_ok st \<Longrightarrow> (\<And>r c. r < 4 \<Longrightarrow> c < 4 \<Longrightarrow> f r c = st ! r ! c) \<Longrightarrow> state_of f = st"
  using state_of_cong[of f "\<lambda>r c. st ! r ! c"] state_of_cells by simp

lemma less4_cases: "(r::nat) < 4 \<Longrightarrow> r = 0 \<or> r = 1 \<or> r = 2 \<or> r = 3"
  by auto

lemma all_bytes: "list_all (\<lambda>n. P (word_of_nat n)) [0..<256] \<Longrightarrow> P (b :: byte)"
proof -
  assume a: "list_all (\<lambda>n. P (word_of_nat n)) [0..<256]"
  have "unat b < 2 ^ LENGTH(8)" by (rule unsigned_less)
  then have "unat b \<in> set [0..<256]" by simp
  with a have "P (word_of_nat (unat b))" unfolding list_all_iff by blast
  then show ?thesis by simp
qed



lemma tables_inverse: "list_all (\<lambda>n. iSbox_at (Sbox_at (word_of_nat n)) = word_of_nat n \<and> Sbox_at (iSbox_at (word_of_nat n)) = word_of_nat n) [0..<256]"
  by code_simp

lemma iSbox_Sbox [simp]: "iSbox_at (Sbox_at b) = b" "Sbox_at (iSbox_at b) = b"
  using all_bytes[of "\<lambda>b. iSbox_at (Sbox_at b) = b \<and> Sbox_at (iSbox_at b) = b", OF tables_inverse] by simp_all

lemma xor_left_self [simp]: "(a :: byte) XOR (a XOR b) = b"
  by (simp flip: xor.assoc)

lemma byte_high_bit: "((b :: byte) < 0x80) \<longleftrightarrow> \<not> bit b 7"
  by (rule all_bytes[of "\<lambda>b. (b < 0x80) \<longleftrightarrow> \<not> bit b 7"]) code_simp

lemma gf02_xor: "gfmultby02 (a XOR b) = gfmultby02 a XOR gfmultby02 b"
  by (simp add: gfmultby02_def byte_high_bit bit_xor_iff push_bit_xor xor.assoc xor.commute xor.left_commute)

lemmas gf_simps = gf02_xor gfmultby03_def gfmultby09_def gfmultby0b_def gfmultby0d_def gfmultby0e_def

lemmas xor_simps = xor.assoc xor.commute xor.left_commute xor_left_self xor_self_eq xor.left_neutral xor.right_neutral


lemma AddRoundKey_twice: "state_ok st \<Longrightarrow> AddRoundKey a n (AddRoundKey a n st) = st"
  unfolding AddRoundKey_def by (rule state_of_id) (simp_all add: xor.assoc)

lemma SubBytes_undo: "state_ok st \<Longrightarrow> InvSubBytes (SubBytes st) = st" "state_ok st \<Longrightarrow> SubBytes (InvSubBytes st) = st"
  unfolding SubBytes_def InvSubBytes_def by (auto intro!: state_of_id)

lemma upt4: "[0..<4] = [0, 1, 2, 3 :: nat]"
  by (simp add: upt_rec)

lemma InvShiftRows_cells:
  assumes "state_ok st"
  shows "InvShiftRows st = state_of (\<lambda>r c. st ! r ! ((c + 4 - r) mod 4))"
proof -
  have l: "length (st ! r) = 4" if "r < 4" for r using assms that by (simp add: state_ok_def)
  then obtain x where x: "st ! 0 = [x 0 0, x 0 1, x 0 2, x (0::nat) (3::nat)]" "st ! 1 = [x 1 0, x 1 1, x 1 2, x 1 3]"
    "st ! 2 = [x 2 0, x 2 1, x 2 2, x 2 3]" "st ! 3 = [x 3 0, x 3 1, x 3 2, x 3 3]"
  proof -
    have "st ! r = map ((!) (st ! r)) [0..<4]" if "r < 4" for r
      using l[OF that] map_nth[of "st ! r"] by simp
    then show ?thesis by (intro that[of "\<lambda>r c. st ! r ! c"]) (simp_all add: upt4)
  qed
  show ?thesis by (simp add: InvShiftRows_def state_of_def upt4 x x[simplified] list_update_code)
qed

lemma ShiftRows_undo:
  assumes "state_ok st"
  shows "InvShiftRows (ShiftRows st) = st" and "ShiftRows (InvShiftRows st) = st"
proof -
  have m: "((c + 4 - r) mod 4 + r) mod 4 = c" "((c + r) mod 4 + 4 - r) mod 4 = c" "(c + 4 - r) mod 4 < 4"
    if "r < 4" "c < 4" for r c :: nat
    using less4_cases[OF that(1)] less4_cases[OF that(2)] by auto
  show "InvShiftRows (ShiftRows st) = st"
    by (subst InvShiftRows_cells) (auto simp: ShiftRows_def m intro!: state_of_id assms)
  show "ShiftRows (InvShiftRows st) = st"
    unfolding InvShiftRows_cells[OF assms] ShiftRows_def by (rule state_of_id[OF assms]) (auto simp: m)
qed

lemma MixColumns_cells:
  "MixColumns st = state_of (\<lambda>r c. gfmultby02 (st ! r ! c) XOR gfmultby03 (st ! ((r + 1) mod 4) ! c)
     XOR st ! ((r + 2) mod 4) ! c XOR st ! ((r + 3) mod 4) ! c)"
  by (simp add: MixColumns_def state_of_def upt4) (simp only: xor_simps numeral_2_eq_2 simp_thms)

lemma InvMixColumns_cells:
  "InvMixColumns st = state_of (\<lambda>r c. gfmultby0e (st ! r ! c) XOR gfmultby0b (st ! ((r + 1) mod 4) ! c)
     XOR gfmultby0d (st ! ((r + 2) mod 4) ! c) XOR gfmultby09 (st ! ((r + 3) mod 4) ! c))"
  by (simp add: InvMixColumns_def state_of_def upt4) (simp only: xor_simps numeral_2_eq_2 simp_thms)

lemma mix_column:
  "gfmultby0e (gfmultby02 a XOR gfmultby03 b XOR c XOR d) XOR gfmultby0b (gfmultby02 b XOR gfmultby03 c XOR d XOR a)
     XOR gfmultby0d (gfmultby02 c XOR gfmultby03 d XOR a XOR b) XOR gfmultby09 (gfmultby02 d XOR gfmultby03 a XOR b XOR c) = a"
  by (simp only: gf_simps xor_simps)

lemma unmix_column:
  "gfmultby02 (gfmultby0e a XOR gfmultby0b b XOR gfmultby0d c XOR gfmultby09 d)
     XOR gfmultby03 (gfmultby0e b XOR gfmultby0b c XOR gfmultby0d d XOR gfmultby09 a)
     XOR (gfmultby0e c XOR gfmultby0b d XOR gfmultby0d a XOR gfmultby09 b)
     XOR (gfmultby0e d XOR gfmultby0b a XOR gfmultby0d b XOR gfmultby09 c) = a"
  by (simp only: gf_simps xor_simps)

lemma MixColumns_undo:
  assumes "state_ok st"
  shows "InvMixColumns (MixColumns st) = st" and "MixColumns (InvMixColumns st) = st"
proof -
  have m: "((r + i) mod 4 + j) mod 4 = (r + (i + j)) mod 4" "(r + i) mod 4 < 4" "r < 4 \<Longrightarrow> (r + 4) mod 4 = r"
    "(r + 5) mod 4 = (r + 1) mod 4" "(r + 6) mod 4 = (r + 2) mod 4" for r i j :: nat
    by (simp_all add: mod_simps add.assoc) presburger+
  have "InvMixColumns (MixColumns st) ! r ! c = st ! r ! c" "MixColumns (InvMixColumns st) ! r ! c = st ! r ! c"
    if "r < 4" "c < 4" for r c
    unfolding MixColumns_cells InvMixColumns_cells
    by (simp_all only: state_of_at that m add_num_simps one_add_one arith_simps numeral_plus_one one_plus_numeral mix_column unmix_column)
  then show "InvMixColumns (MixColumns st) = st" "MixColumns (InvMixColumns st) = st"
    unfolding InvMixColumns_cells MixColumns_cells by (auto intro!: state_of_id[OF assms])
qed

lemma load_store: "state_ok st \<Longrightarrow> load_state (store_state st) = st"
proof -
  assume "state_ok st"
  moreover have "(4 * c + r) mod 4 = r" "(4 * c + r) div 4 = c" if "r < 4" "c < 4" for r c :: nat
    using that by presburger+
  ultimately show ?thesis unfolding load_state_def store_state_def by (auto intro!: state_of_id)
qed

lemma store_load: "length t = 16 \<Longrightarrow> store_state (load_state t) = t"
proof -
  assume "length t = 16"
  moreover have "4 * (i div 4) + i mod 4 = i" "i mod 4 < 4" "i < 16 \<Longrightarrow> i div 4 < 4" for i :: nat
    by presburger+
  ultimately show ?thesis unfolding load_state_def store_state_def by (auto intro!: nth_equalityI)
qed

subsection \<open>One block\<close>

lemma foldl_undo:
  assumes "\<And>s x. ok s \<Longrightarrow> ok (f s x)" and "\<And>s x. ok s \<Longrightarrow> g (f s x) x = s" and "ok s"
  shows "foldl g (foldl f s xs) (rev xs) = s"
  using assms(3) by (induction xs rule: rev_induct) (simp_all add: assms(1,2) foldl_inv)

text \<open>The inverse of each step in the order of the rounds.\<close>

definition round_step :: "AES_object \<Rightarrow> byte list list \<Rightarrow> nat \<Rightarrow> byte list list" where
  "round_step a st n = AddRoundKey a n (MixColumns (ShiftRows (SubBytes st)))"

definition round_back :: "AES_object \<Rightarrow> byte list list \<Rightarrow> nat \<Rightarrow> byte list list" where
  "round_back a st n = InvSubBytes (InvShiftRows (InvMixColumns (AddRoundKey a n st)))"

lemma steps_ok [simp]:
  "state_ok (AddRoundKey a n st)" "state_ok (SubBytes st)" "state_ok (InvSubBytes st)" "state_ok (ShiftRows st)"
  "state_ok (MixColumns st)" "state_ok (InvMixColumns st)" "state_ok (load_state t)"
  by (simp_all add: AddRoundKey_def SubBytes_def InvSubBytes_def ShiftRows_def MixColumns_cells InvMixColumns_cells load_state_def)

lemma InvShiftRows_ok [simp]: "state_ok st \<Longrightarrow> state_ok (InvShiftRows st)"
  by (simp add: InvShiftRows_cells)

lemma rounds_back:
  assumes "state_ok st"
  shows "foldl (round_back a) (foldl (round_step a) st ns) (rev ns) = st"
  by (rule foldl_undo[of state_ok])
    (simp_all add: assms round_step_def round_back_def AddRoundKey_twice MixColumns_undo ShiftRows_undo SubBytes_undo)

lemma rounds_forth:
  assumes "state_ok st"
  shows "foldl (round_step a) (foldl (round_back a) st (rev ns)) ns = st"
  using foldl_undo[of state_ok "round_back a" "round_step a" st "rev ns"]
  by (simp add: assms round_step_def round_back_def AddRoundKey_twice MixColumns_undo ShiftRows_undo SubBytes_undo)

text \<open>\<open>InvCipher\<close> groups the steps by the rounds of the decryption; grouped by those of \<open>Cipher\<close> it is the reverse.\<close>

lemma regroup:
  "(let st = foldl (\<lambda>st n. InvMixColumns (AddRoundKey a n (InvSubBytes (InvShiftRows st)))) st ns
    in InvSubBytes (InvShiftRows st))
   = foldl (round_back a) (InvSubBytes (InvShiftRows st)) ns"
  by (induction ns arbitrary: st) (simp_all add: round_back_def)

lemma steps_state_ok [simp]: "state_ok st \<Longrightarrow> state_ok (foldl (round_step a) st ns)" "state_ok st \<Longrightarrow> state_ok (foldl (round_back a) st ns)"
  by (rule foldl_inv; simp add: round_step_def round_back_def)+

lemma AES_Cipher_rounds:
  "AES_Cipher a t = store_state (AddRoundKey a (aes_Nr a) (ShiftRows (SubBytes (foldl (round_step a) (AddRoundKey a 0 (load_state t)) [1..<aes_Nr a]))))"
  by (simp add: AES_Cipher_def round_step_def[abs_def] Let_def)

lemma AES_InvState_rounds:
  "AES_InvState a t = store_state (AddRoundKey a 0 (foldl (round_back a) (InvSubBytes (InvShiftRows (AddRoundKey a (aes_Nr a) (load_state t)))) (rev [1..<aes_Nr a])))"
  by (simp add: AES_InvState_def regroup[symmetric] Let_def)

lemma AES_Inv_Cipher: "length t = 16 \<Longrightarrow> AES_InvState a (AES_Cipher a t) = t"
  by (simp add: AES_Cipher_rounds AES_InvState_rounds load_store AddRoundKey_twice ShiftRows_undo SubBytes_undo rounds_back store_load)

lemma AES_Cipher_Inv: "length t = 16 \<Longrightarrow> AES_Cipher a (AES_InvState a t) = t"
  by (simp add: AES_Cipher_rounds AES_InvState_rounds load_store AddRoundKey_twice ShiftRows_undo SubBytes_undo rounds_forth store_load)

lemma length_AES [simp, lens_simps]: "length (AES_Cipher a t) = 16" "length (AES_InvState a t) = 16" "length (AES_InvCipher a t) = 16"
  by (simp_all add: AES_Cipher_def AES_InvState_def AES_InvCipher_def store_state_def Let_def)

lemma load_state_append: "length t = 16 \<Longrightarrow> load_state (t @ r) = load_state t"
  unfolding load_state_def by (rule state_of_cong) (simp add: nth_append)

lemma AES_append:
  assumes "length t = 16"
  shows "AES_Cipher a (t @ r) = AES_Cipher a t" and "AES_InvState a (t @ r) = AES_InvState a t"
  using assms by (simp_all add: AES_Cipher_rounds AES_InvState_rounds load_state_append)

interpretation aes: block_cipher AES_Cipher AES_InvState 16
  by unfold_locales (simp_all add: AES_Inv_Cipher AES_Cipher_Inv AES_append)

end
