(* ===== verification/AesText.thy ===== *)
theory AesText
  imports Aes
begin

text \<open>
  The text encryption of \<^verbatim>\<open>public/AES.cpp\<close> (lines 213 to 283 and 420 to 607): texts as hexadecimal digits of their blocks,
  \<open>_encrypt\<close> and \<open>_decrypt\<close>, which put an encrypted random key behind the text, and what they give back.

  \<open>asctobcd\<close>, \<open>bcdtoasc\<close> and \<open>sss_rn_gen\<close> are the same functions as those of \<^verbatim>\<open>DBRecord/datasafe.h\<close> and are taken from Cipher. Memory that
  was never written counts as outside of its array.
\<close>

subsection \<open>Texts\<close>

text \<open>\<open>Cipher\<close> for a text of \<open>len\<close> bytes: each block of 16 bytes, the last one read beyond the length if need be, is
  written as 32 digits and a terminator. \<open>m\<close> blocks are left, \<open>j\<close> are written, from the place \<open>p\<close> of the output on.\<close>

fun cipher_blocks :: "AES_object \<Rightarrow> byte list \<Rightarrow> nat \<Rightarrow> nat \<Rightarrow> nat \<Rightarrow> byte list \<Rightarrow> byte list option" where
  "cipher_blocks a inp p j 0 out = Some out"
| "cipher_blocks a inp p j (Suc m) out =
     do {
       t \<leftarrow> rd inp (16 * j) 16;
       out \<leftarrow> poke_opt out (p + 32 * j) (bcdtoasc (AES_Cipher a t) 32 @ [0]);
       cipher_blocks a inp p (j + 1) m out
     }"

definition AES_Cipher_text :: "AES_object \<Rightarrow> byte list \<Rightarrow> nat \<Rightarrow> nat \<Rightarrow> byte list \<Rightarrow> byte list option" where
  "AES_Cipher_text a inp len p out = cipher_blocks a inp p 0 ((len + 15) div 16) out"

text \<open>\<open>InvCipher\<close> for a text: each block is added to the output as a C string, which ends at its first zero.\<close>

definition block_string :: "byte list \<Rightarrow> byte list" where
  "block_string t = takeWhile (\<lambda>b. b \<noteq> 0) t"

fun inv_blocks :: "AES_object \<Rightarrow> byte list \<Rightarrow> nat \<Rightarrow> nat \<Rightarrow> byte list \<Rightarrow> byte list option" where
  "inv_blocks a inp j 0 out = Some out"
| "inv_blocks a inp j (Suc m) out =
     do {
       t \<leftarrow> rd inp (16 * j) 16;
       out \<leftarrow> strcat_buf out (block_string (AES_InvCipher a t));
       inv_blocks a inp (j + 1) m out
     }"

definition AES_InvCipher_text :: "AES_object \<Rightarrow> byte list \<Rightarrow> nat \<Rightarrow> byte list \<Rightarrow> byte list option" where
  "AES_InvCipher_text a inp len out =
     do {
       (r, bs) \<leftarrow> asctobcd inp len;
       guard (r = 0);
       inv_blocks a bs 0 ((len div 2 + 15) div 16) out
     }"

subsection \<open>Keys\<close>

definition char_bytes :: "string \<Rightarrow> byte list" where
  "char_bytes s = map of_char s"

definition syskey :: "ENUM_KEYSIZE \<Rightarrow> byte list" where
  "syskey z = char_bytes (case z of
     BIT128 \<Rightarrow> ''!QAZ@WSX#EDC$RFV''
   | BIT192 \<Rightarrow> ''!QAZ@WSX#EDC$RFV%TGB^YHN''
   | BIT256 \<Rightarrow> ''!QAZ@WSX#EDC$RFV%TGB^YHN&UJM*IK<'')"

definition mode_size :: "int \<Rightarrow> ENUM_KEYSIZE" where
  "mode_size mode_type = (if mode_type = 0 then BIT128 else if mode_type = 1 then BIT192 else BIT256)"

subsection \<open>\<open>_encrypt\<close>\<close>

text \<open>
  The room for the digits is 64 characters for every block of the text and a terminator. The last 24 digits of the text are
  encrypted again, together with the random key, which makes 64 digits of them. With a length of 0 the code looks
  for them before its array.
\<close>

definition AES_encrypt :: "(nat \<Rightarrow> int) \<Rightarrow> nat \<Rightarrow> byte list \<Rightarrow> int \<Rightarrow> byte list \<Rightarrow> int \<Rightarrow> (byte list \<times> nat) option" where
  "AES_encrypt rand n input_asc len output_asc mode_type =
     (if len \<le> 0 then None
      else let z = mode_size mode_type;
               p = (if len div 16 = 0 \<or> len mod 16 \<noteq> 0 then len div 16 + 1 else len div 16) * 64;
               (_, randomKey, n) = sss_rn_gen rand n 8;
               randomKey = bcdtoasc randomKey 8
           in do {
             aes \<leftarrow> AES z (randomKey @ drop 8 (syskey z));
             output \<leftarrow> AES_Cipher_text aes input_asc (nat len) 0 (replicate (nat (p + 1)) 0);
             s \<leftarrow> cstr output;
             guard (24 \<le> length s);
             let randomTxt = drop (length s - 24) s @ randomKey;
             aes \<leftarrow> AES z (syskey z);
             output \<leftarrow> AES_Cipher_text aes (randomTxt @ [0]) 32 (length s - 24) output;
             s \<leftarrow> cstr output;
             output_asc \<leftarrow> strcpy_buf output_asc s;
             Some (output_asc, n)
           })"

subsection \<open>\<open>_decrypt\<close>\<close>

definition AES_decrypt :: "byte list \<Rightarrow> int \<Rightarrow> byte list \<Rightarrow> int \<Rightarrow> byte list option" where
  "AES_decrypt input_asc len output_asc mode_type =
     (if len < 64 then Some output_asc
      else let z = mode_size mode_type; offset = nat (len - 64)
           in do {
             s \<leftarrow> cstr (drop offset input_asc);
             input \<leftarrow> strcpy_buf (replicate (nat len + 1) 0) s;
             aes \<leftarrow> AES z (syskey z);
             randomTxt \<leftarrow> AES_InvCipher_text aes input (length s) (replicate 65 0);
             k \<leftarrow> cstr (drop 24 randomTxt);
             randomKey \<leftarrow> strcpy_buf (replicate 33 0) k;
             randomKey \<leftarrow> strcat_buf randomKey (drop 8 (syskey z));
             t \<leftarrow> cstr (randomTxt[24 := 0]);
             h \<leftarrow> rd input_asc 0 offset;
             input \<leftarrow> strcat_buf (h @ replicate 65 0) t;
             s \<leftarrow> cstr input;
             aes \<leftarrow> AES z randomKey;
             AES_InvCipher_text aes input (length s) output_asc
           })"


subsection \<open>The functions for each size of the key\<close>

definition AES128_decrypt :: "byte list \<Rightarrow> int \<Rightarrow> byte list \<Rightarrow> byte list option" where
  "AES128_decrypt input_asc len output_asc = AES_decrypt input_asc len output_asc 0"

definition AES128_encrypt :: "(nat \<Rightarrow> int) \<Rightarrow> nat \<Rightarrow> byte list \<Rightarrow> int \<Rightarrow> byte list \<Rightarrow> (byte list \<times> nat) option" where
  "AES128_encrypt rand n input_asc len output_asc = AES_encrypt rand n input_asc len output_asc 0"

definition AES192_decrypt :: "byte list \<Rightarrow> int \<Rightarrow> byte list \<Rightarrow> byte list option" where
  "AES192_decrypt input_asc len output_asc = AES_decrypt input_asc len output_asc 1"

definition AES192_encrypt :: "(nat \<Rightarrow> int) \<Rightarrow> nat \<Rightarrow> byte list \<Rightarrow> int \<Rightarrow> byte list \<Rightarrow> (byte list \<times> nat) option" where
  "AES192_encrypt rand n input_asc len output_asc = AES_encrypt rand n input_asc len output_asc 1"

definition AES256_decrypt :: "byte list \<Rightarrow> int \<Rightarrow> byte list \<Rightarrow> byte list option" where
  "AES256_decrypt input_asc len output_asc = AES_decrypt input_asc len output_asc 2"

definition AES256_encrypt :: "(nat \<Rightarrow> int) \<Rightarrow> nat \<Rightarrow> byte list \<Rightarrow> int \<Rightarrow> byte list \<Rightarrow> (byte list \<times> nat) option" where
  "AES256_encrypt rand n input_asc len output_asc = AES_encrypt rand n input_asc len output_asc 2"

subsection \<open>Texts are read back\<close>

definition cipher_bytes :: "AES_object \<Rightarrow> byte list \<Rightarrow> nat \<Rightarrow> nat \<Rightarrow> byte list" where
  "cipher_bytes a inp j m = concat (map (\<lambda>i. AES_Cipher a (piece inp i)) [j..<j + m])"

lemma cipher_bytes_simps [simp]: "cipher_bytes a inp j 0 = []"
  "cipher_bytes a inp j (Suc m) = AES_Cipher a (piece inp j) @ cipher_bytes a inp (Suc j) m"
  by (simp_all add: cipher_bytes_def upt_conv_Cons del: upt_Suc)

lemma length_cipher_bytes [simp, lens_simps]: "length (cipher_bytes a inp j m) = 16 * m"
  by (induction m arbitrary: j) simp_all

lemma hexenc_append: "hexenc (xs @ ys) = hexenc xs @ hexenc ys"
  by (simp add: hexenc_def nibbles_def)

lemma poke_poke: "q + length x + length y \<le> length out \<Longrightarrow> length z \<le> length y \<Longrightarrow>
    poke (poke out q (x @ z)) (q + length x) y = poke out q (x @ y)"
  by (simp add: poke_def drop_take add.assoc) (simp add: add.commute add.left_commute)

lemma cipher_blocks_eval:
  assumes "16 * (j + Suc m) \<le> length inp" and "p + 32 * (j + Suc m) < length out"
  shows "cipher_blocks a inp p j (Suc m) out = Some (poke out (p + 32 * j) (hexenc (cipher_bytes a inp j (Suc m)) @ [0]))"
  using assms
proof (induction m arbitrary: j out)
  case 0
  then show ?case by (simp add: rd_def poke_opt_def piece_def bcdtoasc_hexenc[of 16, simplified])
next
  case (Suc m)
  let ?x = "hexenc (AES_Cipher a (piece inp j))"
  have "cipher_blocks a inp p j (Suc (Suc m)) out = cipher_blocks a inp p (Suc j) (Suc m) (poke out (p + 32 * j) (?x @ [0]))"
    using Suc.prems by (simp add: piece_def bcdtoasc_hexenc[of 16, simplified] del: cipher_blocks.simps(2)) (simp add: rd_def poke_opt_def piece_def bcdtoasc_hexenc[of 16, simplified])
  also have "\<dots> = Some (poke (poke out (p + 32 * j) (?x @ [0])) (p + 32 * j + length ?x) (hexenc (cipher_bytes a inp (Suc j) (Suc m)) @ [0]))"
    using Suc.prems by (subst Suc.IH) (simp_all add: ac_simps)
  also have "\<dots> = Some (poke out (p + 32 * j) (?x @ hexenc (cipher_bytes a inp (Suc j) (Suc m)) @ [0]))"
    by (subst poke_poke) (use Suc.prems in simp_all)
  finally show ?case by (simp add: hexenc_append del: cipher_blocks.simps(2))
qed

lemma cstr_poke:
  assumes "0 \<notin> set (take p out)" and "0 \<notin> set x" and "p + length x < length out"
  shows "cstr (poke out p (x @ [0])) = Some (take p out @ x)"
proof -
  have "poke out p (x @ [0]) = (take p out @ x) @ 0 # drop (p + length (x @ [0])) out" by (simp add: poke_def)
  with assms(1,2) show ?thesis by (metis (no_types, lifting) Un_iff cstr_prefix set_append)
qed

text \<open>The result of \<open>_encrypt\<close>: the digits of the text but the last 24, and those of the key block.\<close>

definition text_key :: "ENUM_KEYSIZE \<Rightarrow> byte list \<Rightarrow> AES_object" where
  "text_key z rn = the (AES z (hexenc (take 4 rn) @ drop 8 (syskey z)))"

definition sys_key :: "ENUM_KEYSIZE \<Rightarrow> AES_object" where
  "sys_key z = the (AES z (syskey z))"

definition cipher_digits :: "ENUM_KEYSIZE \<Rightarrow> byte list \<Rightarrow> byte list \<Rightarrow> nat \<Rightarrow> byte list" where
  "cipher_digits z rn inp m = hexenc (cipher_bytes (text_key z rn) inp 0 m)"

definition key_text :: "ENUM_KEYSIZE \<Rightarrow> byte list \<Rightarrow> byte list \<Rightarrow> nat \<Rightarrow> byte list" where
  "key_text z rn inp m = drop (32 * m - 24) (cipher_digits z rn inp m) @ hexenc (take 4 rn)"

definition encrypted :: "ENUM_KEYSIZE \<Rightarrow> byte list \<Rightarrow> byte list \<Rightarrow> nat \<Rightarrow> byte list" where
  "encrypted z rn inp m = take (32 * m - 24) (cipher_digits z rn inp m) @ hexenc (cipher_bytes (sys_key z) (key_text z rn inp m) 0 2)"

lemma length_syskey: "length (syskey z) = fst (key_sizes z) * 4"
  by (cases z) (simp_all add: syskey_def key_sizes_def char_bytes_def)

lemma keys_read: "AES z (syskey z @ r) = Some (sys_key z)"
  "length rn = 8 \<Longrightarrow> AES z (hexenc (take 4 rn) @ drop 8 (syskey z) @ r) = Some (text_key z rn)"
proof -
  have l: "8 \<le> length (syskey z)" by (cases z) (simp_all add: syskey_def char_bytes_def)
  have a: "\<exists>a. AES z k = Some a \<and> (\<forall>r. AES z (k @ r) = Some a)" if "length k = fst (key_sizes z) * 4" for k
    using that by (simp add: AES_def rd_def case_prod_beta)
  show "AES z (syskey z @ r) = Some (sys_key z)"
    using a[OF length_syskey] by (auto simp: sys_key_def)
  assume "length rn = 8"
  then have "length (hexenc (take 4 rn) @ drop 8 (syskey z)) = fst (key_sizes z) * 4"
    using l length_syskey by simp
  from a[OF this] show "AES z (hexenc (take 4 rn) @ drop 8 (syskey z) @ r) = Some (text_key z rn)"
    by (auto simp: text_key_def)
qed

lemma length_encrypted [simp]: "2 \<le> m \<Longrightarrow> length (encrypted z rn inp m) = 32 * m + 40"
  by (simp add: encrypted_def cipher_digits_def)

lemma encrypted_nonzero: "0 \<notin> set (encrypted z rn inp m)"
  by (auto simp: encrypted_def cipher_digits_def dest: in_set_takeD)

lemma hexenc_append_nonzero: "0 \<notin> set (take k (hexenc x))" "0 \<notin> set (drop k (hexenc x))"
  using hexenc_nonzero in_set_takeD in_set_dropD by metis+

lemma blocks_int: "0 < (n::int) \<Longrightarrow> (n + 15) div 16 = (if n mod 16 \<noteq> 0 then n div 16 + 1 else n div 16)"
proof -
  define q r where "q = n div 16" and "r = n mod 16"
  have n: "n = 16 * q + r" "0 \<le> r" "r < 16" by (simp_all add: q_def r_def)
  have "(16 * q + r + 15) div 16 = q + (r + 15) div 16"
    using div_mult_self2[of 16 "r + 15" q] by (simp add: add.assoc add.commute)
  moreover have "(r + 15) div 16 = (if r \<noteq> 0 then 1 else 0)" using n(2,3) by (auto intro: int_div_pos_eq)
  ultimately have "(n + 15) div 16 = q + (if r \<noteq> 0 then 1 else 0)" by (simp add: n(1))
  then show ?thesis by (simp add: q_def r_def)
qed

lemma AES_encrypt_eval:
  assumes "16 < len" and m: "m = (nat len + 15) div 16" and "16 * m \<le> length inp" and "32 * m + 40 < length out"
  shows "AES_encrypt rand n inp len out mode
    = Some (poke out 0 (encrypted (mode_size mode) (rand_bytes rand n) inp m @ [0]), n + 8)"
proof -
  let ?z = "mode_size mode" and ?rn = "rand_bytes rand n"
  let ?D = "cipher_digits ?z ?rn inp m" and ?K = "key_text ?z ?rn inp m"
  have m2: "2 \<le> m" using assms(1) m by linarith
  then obtain m' where m': "m = Suc m'" by (cases m) auto
  have "int m = (len + 15) div 16" unfolding m by (use assms(1) in \<open>simp only: zdiv_int of_nat_add of_nat_numeral nat_0_le\<close>)
  then have p: "(if len div 16 = 0 \<or> len mod 16 \<noteq> 0 then len div 16 + 1 else len div 16) = int m"
    using assms(1) blocks_int[of len] by simp
  have rn: "bcdtoasc ?rn 8 = hexenc (take 4 ?rn)" "length ?rn = 8"
    using bcdtoasc_hexenc[of 4 ?rn] sss_rn_gen_8 by simp_all
  have len: "length ?D = 32 * m" "length ?K = 32" using m2 rn by (simp_all add: cipher_digits_def key_text_def)
  have c1: "AES_Cipher_text (text_key ?z ?rn) inp (nat len) 0 (replicate (nat (int m * 64 + 1)) 0)
      = Some (?D @ replicate (Suc (32 * m)) 0)" (is "?l = _")
  proof -
    have "?l = Some (poke (replicate (nat (int m * 64 + 1)) 0) 0 (?D @ [0]))"
      using cipher_blocks_eval[of 0 m' inp 0 "replicate (nat (int m * 64 + 1)) 0"] assms(3)
      by (simp add: AES_Cipher_text_def cipher_digits_def m[symmetric] m' del: cipher_blocks.simps cipher_bytes_simps)
    moreover have "poke (replicate (nat (int m * 64 + 1)) 0) 0 (?D @ [0]) = ?D @ replicate (Suc (32 * m)) 0"
    proof -
      have "nat (int m * 64 + 1) = 64 * m + 1" by (simp add: nat_add_distrib nat_mult_distrib)
      moreover have "replicate (Suc (32 * m)) (0 :: byte) = 0 # replicate (32 * m) 0" by simp
      ultimately show ?thesis using len(1) by (simp add: poke_def)
    qed
    ultimately show ?thesis by simp
  qed
  have c2: "AES_Cipher_text (sys_key ?z) (?K @ [0]) 32 (32 * m - 24) (?D @ replicate (Suc (32 * m)) 0)
      = Some (poke (?D @ replicate (Suc (32 * m)) 0) (32 * m - 24) (hexenc (cipher_bytes (sys_key ?z) (?K @ [0]) 0 2) @ [0]))"
    using cipher_blocks_eval[of 0 1 "?K @ [0]" "32 * m - 24" "?D @ replicate (Suc (32 * m)) 0"] len m2
    by (simp add: AES_Cipher_text_def numeral_2_eq_2 del: cipher_blocks.simps cipher_bytes_simps)
  have k: "cipher_bytes (sys_key ?z) (?K @ [0]) 0 2 = cipher_bytes (sys_key ?z) ?K 0 2"
    using len by (simp add: numeral_2_eq_2 piece_def)
  have s: "cstr (poke (?D @ replicate (Suc (32 * m)) 0) (32 * m - 24) (hexenc (cipher_bytes (sys_key ?z) ?K 0 2) @ [0]))
      = Some (encrypted ?z ?rn inp m)"
    using len m2 by (subst cstr_poke) (simp_all add: encrypted_def cipher_digits_def hexenc_append_nonzero)
  have "0 \<notin> set ?D" by (simp add: cipher_digits_def)
  then have "cstr (?D @ replicate (Suc (32 * m)) 0) = Some ?D" by (rule cstr_zeros) simp
  note d = this
  have k24: "24 \<le> 32 * m" using m2 by simp
  have r: "drop (32 * m - 24) ?D @ hexenc (take 4 ?rn) @ [0] = ?K @ [0]" by (simp add: key_text_def)
  show ?thesis
    using assms(1,4) m2
    by (simp add: AES_encrypt_def Let_def sss_rn_gen_8(1) p rn(1) keys_read(2)[OF rn(2), of _ "[]", simplified] c1 d len(1) k24
        keys_read(1)[of _ "[]", simplified] r c2 k s strcpy_buf_def poke_opt_def del: replicate.simps replicate_Suc)
qed

text \<open>What \<open>InvCipher\<close> leaves of a text: each block up to its first zero or control character.\<close>

definition seen_text :: "byte list \<Rightarrow> nat \<Rightarrow> byte list" where
  "seen_text inp m = concat (map (\<lambda>i. block_string (map clear_control (piece inp i))) [0..<m])"

lemma cstr_split: "cstr buf = Some s \<Longrightarrow> \<exists>r. buf = s @ 0 # r"
proof -
  assume a: "cstr buf = Some s"
  then have "0 \<in> set buf" and s: "s = takeWhile (\<lambda>b. b \<noteq> 0) buf" by (auto simp: cstr_def split: if_splits)
  then obtain r where "dropWhile (\<lambda>b. b \<noteq> 0) buf = 0 # r"
    by (metis (mono_tags, lifting) dropWhile_eq_Nil_conv hd_dropWhile list.collapse)
  with s show ?thesis by (metis takeWhile_dropWhile_id)
qed

lemma inv_blocks_eval:
  assumes "16 * (j + m) \<le> length bs" and "cstr out = Some d"
    and "length d + length (concat (map (\<lambda>i. block_string (AES_InvCipher a (piece bs i))) [j..<j + m])) < length out"
  shows "\<exists>out'. inv_blocks a bs j m out = Some out'
    \<and> cstr out' = Some (d @ concat (map (\<lambda>i. block_string (AES_InvCipher a (piece bs i))) [j..<j + m])) \<and> length out' = length out"
  using assms
proof (induction m arbitrary: j out d)
  case 0
  then show ?case by simp
next
  case (Suc m)
  let ?b = "block_string (AES_InvCipher a (piece bs j))"
  have u: "[j..<j + Suc m] = j # [Suc j..<Suc j + m]" by (simp add: upt_conv_Cons)
  have nz: "0 \<notin> set ?b" unfolding block_string_def by (auto dest: set_takeWhileD)
  have room: "length d + length ?b < length out" using Suc.prems(3) unfolding u by simp
  have more_room: "length d + (length ?b + length (concat (map (\<lambda>i. block_string (AES_InvCipher a (piece bs i))) [Suc j..<Suc j + m]))) < length out"
    using Suc.prems(3) unfolding u by simp
  from strcat_cstr[OF Suc.prems(2) nz room] obtain o1 where
    o1: "strcat_buf out ?b = Some o1" "cstr o1 = Some (d @ ?b)" "length o1 = length out" by blast
  have "\<exists>out'. inv_blocks a bs (Suc j) m o1 = Some out'
    \<and> cstr out' = Some ((d @ ?b) @ concat (map (\<lambda>i. block_string (AES_InvCipher a (piece bs i))) [Suc j..<Suc j + m]))
    \<and> length out' = length o1"
    by (rule Suc.IH) (use Suc.prems(1) more_room o1(2,3) in \<open>simp_all only: add_Suc_shift length_append add.assoc\<close>)
  then show ?case
    using Suc.prems(1) o1 unfolding u by (auto simp: rd_def piece_def)
qed

lemma piece_cipher_bytes: "i < m \<Longrightarrow> piece (cipher_bytes a inp 0 m) i = AES_Cipher a (piece inp i)"
  using rd_concat[of m "\<lambda>i. AES_Cipher a (piece inp i)" 16 i "[]"] by (simp add: cipher_bytes_def piece_def mult.commute)

lemma AES_InvCipher_text_eval:
  assumes "16 * m \<le> length inp" and "cstr out = Some d" and "length d + length (seen_text inp m) < length out"
  shows "\<exists>out'. AES_InvCipher_text a (hexenc (cipher_bytes a inp 0 m) @ r) (32 * m) out = Some out'
    \<and> cstr out' = Some (d @ seen_text inp m) \<and> length out' = length out"
proof -
  let ?bs = "cipher_bytes a inp 0 m"
  have "concat (map (\<lambda>i. block_string (AES_InvCipher a (piece ?bs i))) [0..<0 + m]) = seen_text inp m"
    unfolding seen_text_def
  proof (intro arg_cong[of _ _ concat] map_cong)
    fix i assume "i \<in> set [0..<m]"
    then have i: "i < m" "length (piece inp i) = 16" using assms(1) by (simp_all add: piece_simps)
    then show "block_string (AES_InvCipher a (piece ?bs i)) = block_string (map clear_control (piece inp i))"
      by (simp add: piece_cipher_bytes AES_InvCipher_def AES_Inv_Cipher)
  qed simp
  moreover have "asctobcd (hexenc ?bs @ r) (32 * m) = Some (0, ?bs)"
    using asctobcd_hexenc[of ?bs r] by simp
  moreover have "(32 * m div 2 + 15) div 16 = m" by simp
  ultimately show ?thesis
    using inv_blocks_eval[of 0 m ?bs out d a] assms(2,3) by (simp add: AES_InvCipher_text_def del: add_0)
qed

lemma clear_hex: "b \<in> set (hexenc x) \<Longrightarrow> clear_control b = b \<and> b \<noteq> 0"
proof -
  assume "b \<in> set (hexenc x)"
  then obtain n where "b = ascii_nibble (n AND 0x0f)" by (auto simp: hexenc_def nibbles_def)
  with hex_ascii[of n] have "0x30 \<le> b \<and> b \<le> 0x39 \<or> 0x61 \<le> b \<and> b \<le> 0x66 \<or> 0x41 \<le> b \<and> b \<le> 0x46"
    by (auto simp: hex_nibble_def split: if_splits)
  then have "32 \<le> unat b" "unat b < 127" by (auto simp: word_le_nat_alt)
  then show ?thesis by (auto simp: clear_control_def word_less_nat_alt)
qed

lemma seen_whole:
  assumes "\<forall>b\<in>set s. clear_control b = b \<and> b \<noteq> 0" and "16 * m \<le> length s + z" and "length s \<le> 16 * m"
  shows "seen_text (s @ replicate z 0) m = s"
proof -
  have b: "block_string (map clear_control (piece (s @ replicate z 0) i)) = piece s i" for i
  proof -
    have p: "piece (s @ replicate z 0) i = piece s i @ take (16 - length (piece s i)) (drop (16 * i - length s) (replicate z 0))"
      by (simp add: piece_def min_def)
    have "map clear_control (piece s i) = piece s i"
      using assms(1) by (intro map_idI) (auto simp: piece_def dest!: in_set_takeD in_set_dropD)
    moreover have "\<forall>b\<in>set (piece s i). b \<noteq> 0"
      using assms(1) by (auto simp: piece_def dest!: in_set_takeD in_set_dropD)
    moreover have "clear_control 0 = 0" by (simp add: clear_control_def)
    ultimately show ?thesis
      unfolding p by (simp add: block_string_def takeWhile_append2 drop_replicate take_replicate takeWhile_replicate)
  qed
  show ?thesis using assms(3) by (simp add: seen_text_def b concat_piece)
qed

lemma seen_hex: "length (hexenc x) = 16 * m \<Longrightarrow> seen_text (hexenc x) m = hexenc x"
  using seen_whole[of "hexenc x" m 0] clear_hex[of _ x] by simp

lemma key_text_parts:
  assumes "2 \<le> m" and "length rn = 8"
  shows "length (key_text z rn inp m) = 32" and "seen_text (key_text z rn inp m) 2 = key_text z rn inp m"
    and "take 24 (key_text z rn inp m) = drop (32 * m - 24) (cipher_digits z rn inp m)"
    and "drop 24 (key_text z rn inp m) = hexenc (take 4 rn)" and "0 \<notin> set (key_text z rn inp m)"
proof -
  have d: "length (drop (32 * m - 24) (cipher_digits z rn inp m)) = 24" using assms by (simp add: cipher_digits_def)
  then show l: "length (key_text z rn inp m) = 32" "take 24 (key_text z rn inp m) = drop (32 * m - 24) (cipher_digits z rn inp m)"
    "drop 24 (key_text z rn inp m) = hexenc (take 4 rn)"
    using assms by (simp_all add: key_text_def)
  have c: "\<forall>b\<in>set (key_text z rn inp m). clear_control b = b \<and> b \<noteq> 0"
    unfolding key_text_def cipher_digits_def using clear_hex in_set_dropD by fastforce
  then show "seen_text (key_text z rn inp m) 2 = key_text z rn inp m" "0 \<notin> set (key_text z rn inp m)"
    using seen_whole[of "key_text z rn inp m" 2 0] l by auto
qed

lemma AES_decrypt_eval:
  assumes m: "2 \<le> m" and rn: "length rn = 8" and inp: "16 * m \<le> length inp"
    and out: "cstr out = Some d" "length d + length (seen_text inp m) < length out" and z: "z = mode_size mode"
  shows "\<exists>out'. AES_decrypt (encrypted z rn inp m @ 0 # r) (int (32 * m + 40)) out mode = Some out'
    \<and> cstr out' = Some (d @ seen_text inp m) \<and> length out' = length out"
proof -
  let ?D = "cipher_digits z rn inp m" and ?K = "key_text z rn inp m" and ?n = "32 * m - 24"
  let ?H = "hexenc (cipher_bytes (sys_key z) ?K 0 2)"
  note kt = key_text_parts[OF m rn, of z inp]
  have D: "length ?D = 32 * m" "0 \<notin> set ?D" by (simp_all add: cipher_digits_def)
  have e: "drop ?n (encrypted z rn inp m @ 0 # r) = ?H @ 0 # r" "rd (encrypted z rn inp m @ 0 # r) 0 ?n = Some (take ?n ?D)"
    using m D by (simp_all add: encrypted_def rd_def)
  have H: "length ?H = 64" "cstr (?H @ 0 # r) = Some ?H" by simp_all
  have i1: "strcpy_buf (replicate (nat (int (32 * m + 40)) + 1) 0) ?H = Some (?H @ replicate (?n + 1) 0)"
    using m H unfolding nat_int by (simp add: strcpy_buf_def poke_opt_def poke_def Suc_diff_le)
  obtain tx where tx: "AES_InvCipher_text (sys_key z) (?H @ replicate (?n + 1) 0) 64 (replicate 65 0) = Some tx"
    "cstr tx = Some ?K" "length tx = 65"
    using AES_InvCipher_text_eval[of 2 ?K "replicate 65 0" "[]" "sys_key z" "replicate (?n + 1) 0"] kt by (auto simp: cstr_def)
  obtain r1 where r1: "tx = ?K @ 0 # r1" using cstr_split[OF tx(2)] by blast
  have k: "cstr (drop 24 tx) = Some (hexenc (take 4 rn))" using kt by (simp add: r1)
  have t: "cstr (tx[24 := 0]) = Some (drop ?n ?D)"
  proof -
    have "tx[24 := 0] = take 24 ?K @ 0 # drop 25 tx" using kt(1) by (simp add: r1 upd_conv_take_nth_drop)
    moreover have "0 \<notin> set (take 24 ?K)" using kt(5) in_set_takeD by metis
    ultimately show ?thesis using kt(3) by simp
  qed
  obtain k1 where k1: "strcpy_buf (replicate 33 0) (hexenc (take 4 rn)) = Some k1" "cstr k1 = Some (hexenc (take 4 rn))" "length k1 = 33"
    using strcpy_cstr[of "hexenc (take 4 rn)" "replicate 33 0"] rn by auto
  have op: "0 \<notin> set (drop 8 (syskey z))" "length (drop 8 (syskey z)) \<le> 24"
    by (cases z; simp add: syskey_def char_bytes_def)+
  obtain k2 where k2: "strcat_buf k1 (drop 8 (syskey z)) = Some k2" "cstr k2 = Some (hexenc (take 4 rn) @ drop 8 (syskey z))"
    using strcat_cstr[OF k1(2) op(1)] op(2) rn k1(3) by fastforce
  obtain r2 where "k2 = (hexenc (take 4 rn) @ drop 8 (syskey z)) @ 0 # r2" using cstr_split[OF k2(2)] by blast
  then have key: "AES z k2 = Some (text_key z rn)" using keys_read(2)[OF rn] by simp
  have nz: "0 \<notin> set (take ?n ?D)" "0 \<notin> set (drop ?n ?D)" using D(2) in_set_takeD in_set_dropD by metis+
  have "cstr (take ?n ?D @ replicate 65 0) = Some (take ?n ?D)" using nz(1) by simp
  from strcat_cstr[OF this nz(2)] obtain i2 where i2: "strcat_buf (take ?n ?D @ replicate 65 0) (drop ?n ?D) = Some i2" "cstr i2 = Some ?D"
    using D(1) m by auto
  obtain r3 where r3: "i2 = ?D @ 0 # r3" using cstr_split[OF i2(2)] by blast
  obtain out' where o: "AES_InvCipher_text (text_key z rn) i2 (32 * m) out = Some out'" "cstr out' = Some (d @ seen_text inp m)"
    "length out' = length out"
    using AES_InvCipher_text_eval[OF inp out, of "text_key z rn" "0 # r3"] unfolding r3 cipher_digits_def by blast
  have off: "nat (int (32 * m + 40) - 64) = ?n" "\<not> int (32 * m + 40) < 64" using m by linarith+
  have "AES_decrypt (encrypted z rn inp m @ 0 # r) (int (32 * m + 40)) out mode = Some out'"
    unfolding AES_decrypt_def Let_def z[symmetric] off
    by (simp only: off if_False bind.bind_lunit e H i1 keys_read(1)[of z "[]", unfolded append_Nil2] tx k k1 k2 t i2 key D o)
  with o show ?thesis by blast
qed

text \<open>C27: what \<open>_encrypt\<close> makes of a text of more than 16 bytes is read back by \<open>_decrypt\<close>, in every mode and for all
  random bytes, block by block, each up to its first zero or control character; a text with none of them, in
  an array filled up with zeros, comes back whole.\<close>

theorem AES_roundtrip:
  assumes "16 < len" and "m = (nat len + 15) div 16" and "16 * m \<le> length inp" and "32 * m + 40 < length out"
    and "cstr out2 = Some d" and "length d + length (seen_text inp m) < length out2"
  shows "\<exists>out' c out2'. AES_encrypt rand n inp len out mode = Some (out', n + 8) \<and> cstr out' = Some c
    \<and> AES_decrypt (c @ 0 # r) (int (length c)) out2 mode = Some out2' \<and> cstr out2' = Some (d @ seen_text inp m)
    \<and> (\<forall>s k. inp = s @ replicate k 0 \<and> length s = nat len \<and> (\<forall>b\<in>set s. 0x20 \<le> b \<and> b \<noteq> 0x7f) \<longrightarrow> seen_text inp m = s)"
proof -
  let ?c = "encrypted (mode_size mode) (rand_bytes rand n) inp m"
  have m: "2 \<le> m" using assms(1,2) by linarith
  have "cstr (poke out 0 (?c @ [0])) = Some ?c"
    using cstr_poke[of 0 out ?c] encrypted_nonzero assms(4) m by simp
  moreover have "seen_text inp m = s"
    if "inp = s @ replicate k 0" "length s = nat len" "\<forall>b\<in>set s. 0x20 \<le> b \<and> b \<noteq> 0x7f" for s k
  proof -
    have "\<forall>b\<in>set s. clear_control b = b \<and> b \<noteq> 0" using that(3) by (auto simp: clear_control_def)
    with that assms(2,3) show ?thesis using seen_whole[of s m k] by simp
  qed
  ultimately show ?thesis
    using AES_encrypt_eval[OF assms(1-4), of rand n mode]
      AES_decrypt_eval[OF m _ assms(3,5,6) refl, where rn = "rand_bytes rand n" and r = r and mode = mode] sss_rn_gen_8(2)[of rand n] m
    by fastforce
qed

theorem AES_roundtrip_witness:
  "\<exists>out' c out2'. AES_encrypt (\<lambda>i. int i) 0 (replicate 20 0x41 @ replicate 12 0) 20 (replicate 200 0) 2 = Some (out', 8) \<and> cstr out' = Some c
    \<and> AES_decrypt (c @ [0]) (int (length c)) (replicate 40 0) 2 = Some out2' \<and> cstr out2' = Some (replicate 20 0x41)"
proof -
  have c: "\<forall>b\<in>set (replicate 20 (0x41 :: byte)). clear_control b = b \<and> b \<noteq> 0" by (simp add: clear_control_def)
  have s: "seen_text (replicate 20 0x41 @ replicate 12 0) 2 = replicate 20 0x41"
    using seen_whole[OF c, of 2 12] by simp
  have e: "cstr (replicate 40 0) = Some []" by (simp add: cstr_def)
  from AES_roundtrip[of 20 2 "replicate 20 0x41 @ replicate 12 0" "replicate 200 0" "replicate 40 0" "[]" "\<lambda>i. int i" 0 2 "[]", OF _ _ _ _ e]
  show ?thesis unfolding s by fastforce
qed

text \<open>C28: a text of at most 16 bytes, a password for one, never fits: its 72 digits and the terminator are written into an array of
  65.\<close>

theorem AES_encrypt_short:
  assumes "len \<le> 16"
  shows "AES_encrypt rand n inp len out mode = None"
proof (cases "len \<le> 0")
  case False
  let ?z = "mode_size mode" and ?rn = "rand_bytes rand n"
  have p: "(if len div 16 = 0 \<or> len mod 16 \<noteq> 0 then len div 16 + 1 else len div 16) = 1" "(nat len + 15) div 16 = Suc 0"
  proof -
    show "(if len div 16 = 0 \<or> len mod 16 \<noteq> 0 then len div 16 + 1 else len div 16) = 1"
      using False assms by (cases "len = 16") (simp_all add: div_pos_pos_trivial)
    show "(nat len + 15) div 16 = Suc 0" using False assms by (intro div_nat_eqI) linarith+
  qed
  have rn: "bcdtoasc ?rn 8 = hexenc (take 4 ?rn)" "length ?rn = 8"
    using bcdtoasc_hexenc[of 4 ?rn] sss_rn_gen_8 by simp_all
  have "AES_Cipher_text a inp (nat len) 0 (replicate 65 0) = None \<or>
     (\<exists>h. AES_Cipher_text a inp (nat len) 0 (replicate 65 0) = Some (h @ replicate 33 0) \<and> length h = 32 \<and> 0 \<notin> set h)" for a
    using cipher_blocks_eval[of 0 0 inp 0 "replicate 65 0" a] 
    by (cases "16 \<le> length inp") (auto simp: AES_Cipher_text_def p rd_def poke_def simp flip: replicate_Suc)
  note first = this
  have "AES_Cipher_text a k 32 8 (h @ replicate 33 0) = None" if "length h = 32" for a k h
    using that by (simp add: AES_Cipher_text_def numeral_2_eq_2 rd_def poke_opt_def bind_eq_None_conv bcdtoasc_hexenc[of 16, simplified])
  note second = this
  show ?thesis
  proof (rule ccontr)
    assume "AES_encrypt rand n inp len out mode \<noteq> None"
    then obtain a o1 s b o2 where o1: "AES_Cipher_text a inp (nat len) 0 (replicate 65 0) = Some o1" "cstr o1 = Some s"
      and o2: "AES_Cipher_text b (drop (length s - 24) s @ bcdtoasc ?rn 8 @ [0]) 32 (length s - 24) o1 = Some o2"
      using False by (auto simp: AES_encrypt_def Let_def sss_rn_gen_8(1) p Option.bind_eq_Some_conv split: if_splits)
    from first[of a] o1(1) obtain h where h: "o1 = h @ replicate 33 0" "length h = 32" "0 \<notin> set h" by auto
    then have "s = h" using o1(2) by simp
    with second[OF h(2)] o2 h show False by simp
  qed
qed (simp add: AES_encrypt_def)

theorem AES_encrypt_short_witness: "AES_encrypt (\<lambda>i. int i) 0 (replicate 16 0x41) 8 (replicate 100 0) 0 = None"
  by (rule AES_encrypt_short) simp

end
