(* ===== verification/OleDb.thy ===== *)
theory OleDb
  imports LogText Db
begin

text \<open>
  The access to Oracle and DB2 of the Windows programs, \<^verbatim>\<open>OleDbAccess\<close>: the connection string, the loop over the records of a query
  with its callback, and updates with and without a transaction (TransBusi.cpp, OleDbAccess.cpp, \<open>Table::Get\<close> and \<open>ISEOF\<close> of
  Database.cpp).

  ADO is not part of the repository. What it answers to a statement is an argument (\<open>ole_server\<close>), which may depend on all
  that was sent before; a record set is the list of its records, which \<open>MoveNext\<close> walks through without failing. What is sent,
  statements and the calls for transactions, is kept in order as the list of events.
\<close>

subsection \<open>Values\<close>

text \<open>
  The kinds of \<open>VARIANT\<close> the code tells apart: a date; a number, with what its \<open>intVal\<close> holds (\<open>VT_UINT\<close>, \<open>VT_INT\<close>, \<open>VT_DECIMAL\<close>,
  \<open>VT_I2\<close>, \<open>VT_I4\<close>); anything else with the actual size of the field and the string \<open>bstrVal\<close> points to, if it points to one.
\<close>

datatype VARIANT =
    VT_DATE int int int int int int
  | VT_INT int
  | VT_BSTR nat "cstring option"

text \<open>A record: the value of each of its fields; asking for another field throws.\<close>

type_synonym ole_record = "cstring \<Rightarrow> VARIANT option"

datatype ole_reply = Com_error | Records "ole_record list"

datatype event = Sql cstring | BeginTrans | CommitTrans | RollbackTrans

type_synonym ole_server = "event list \<Rightarrow> cstring \<Rightarrow> ole_reply"

text \<open>\<open>Table::Get\<close> into the array \<open>val\<close>: its result and the text, which is empty when nothing was printed.\<close>

definition Table_Get :: "ole_record \<Rightarrow> cstring \<Rightarrow> (bool \<times> cstring) option" where
  "Table_Get rec FieldName =
     (case rec FieldName of
        None \<Rightarrow> Some (False, [])
      | Some (VT_DATE y m d h mi s) \<Rightarrow>
          Some (True, fmt_d y @ ''-'' @ fmt_0d 2 m @ ''-'' @ fmt_0d 2 d @ '' '' @ fmt_0d 2 h @ '':'' @ fmt_0d 2 mi @ '':'' @ fmt_0d 2 s)
      | Some (VT_INT i) \<Rightarrow> Some (True, fmt_d i)
      | Some (VT_BSTR n b) \<Rightarrow> if n > 0 then map_option (Pair True) b else Some (True, []))"

subsection \<open>Queries\<close>

text \<open>The callback gets the name of a field and its text, NULL for an empty one, and changes what \<open>handle\<close> points to.\<close>

type_synonym 'h callback = "cstring \<Rightarrow> cstring option \<Rightarrow> 'h \<Rightarrow> 'h option"

fun record_fields :: "'h callback \<Rightarrow> cstring list \<Rightarrow> ole_record \<Rightarrow> 'h \<Rightarrow> 'h option" where
  "record_fields func [] rec handle = Some handle"
| "record_fields func (f # fs) rec handle =
     do {
       (ok, val) \<leftarrow> Table_Get rec f;
       guard (length val < 10240);
       handle \<leftarrow> func f (if ok \<and> length val > 0 then Some val else None) handle;
       record_fields func fs rec handle
     }"

text \<open>\<open>ISEOF\<close> gives \<open>EndOfFile\<close>, which is 0 at a record and -1 behind the last one.\<close>

definition ISEOF :: "ole_record list \<Rightarrow> int" where
  "ISEOF recs = (if recs = [] then - 1 else 0)"

function records_loop :: "'h callback \<Rightarrow> cstring list \<Rightarrow> ole_record list \<Rightarrow> int \<Rightarrow> 'h \<Rightarrow> ('h \<times> int) option" where
  "records_loop func cols recs recordCount handle =
     (if ISEOF recs \<ge> 0 then
        do {
          handle \<leftarrow> record_fields func cols (hd recs) handle;
          records_loop func cols (tl recs) (recordCount + 1) handle
        }
      else Some (handle, recordCount))"
  by pat_completeness auto
termination by (relation "measure (\<lambda>(func, cols, recs, n, h). length recs)") (auto simp: ISEOF_def split: if_splits)

declare records_loop.simps [simp del]

text \<open>
  \<open>TRANSBUSI\<close> as a connection that is open or not, with the events sent over it. A query returns the handle and the number of
  records, \<open>None\<close> in their place when it returns false.
\<close>

definition TRANSBUSI_query :: "ole_server \<Rightarrow> bool \<Rightarrow> cstring \<Rightarrow> cstring list \<Rightarrow> 'h callback \<Rightarrow> 'h \<Rightarrow> event list
    \<Rightarrow> (('h \<times> int) option \<times> event list) option" where
  "TRANSBUSI_query srv isOpen sqlStr cols func handle ev =
     (if \<not> isOpen then Some (None, ev)
      else case srv ev sqlStr of
        Com_error \<Rightarrow> Some (None, ev @ [Sql sqlStr])
      | Records recs \<Rightarrow> do { r \<leftarrow> records_loop func cols recs 0 handle; Some (Some r, ev @ [Sql sqlStr]) })"

subsection \<open>Updates\<close>

definition Execute :: "ole_server \<Rightarrow> cstring \<Rightarrow> event list \<Rightarrow> bool \<times> event list" where
  "Execute srv sqlStr ev = (srv ev sqlStr \<noteq> Com_error, ev @ [Sql sqlStr])"

definition TRANSBUSI_update :: "ole_server \<Rightarrow> bool \<Rightarrow> cstring \<Rightarrow> event list \<Rightarrow> bool \<times> event list" where
  "TRANSBUSI_update srv isOpen sqlStr ev = (if \<not> isOpen then (False, ev) else Execute srv sqlStr ev)"

definition TRANSBUSI_beginTrans :: "bool \<Rightarrow> event list \<Rightarrow> event list" where
  "TRANSBUSI_beginTrans isOpen ev = (if \<not> isOpen then ev else ev @ [BeginTrans])"

definition TRANSBUSI_commitTrans :: "bool \<Rightarrow> event list \<Rightarrow> event list" where
  "TRANSBUSI_commitTrans isOpen ev = (if \<not> isOpen then ev else ev @ [CommitTrans])"

definition TRANSBUSI_rollbackTrans :: "bool \<Rightarrow> event list \<Rightarrow> event list" where
  "TRANSBUSI_rollbackTrans isOpen ev = (if \<not> isOpen then ev else ev @ [RollbackTrans])"

definition TRANSBUSI_update_trans :: "ole_server \<Rightarrow> bool \<Rightarrow> cstring \<Rightarrow> bool \<Rightarrow> event list \<Rightarrow> bool \<times> event list" where
  "TRANSBUSI_update_trans srv isOpen sqlStr isTrans ev =
     (if \<not> isOpen then (False, ev)
      else let ev = (if isTrans then ev @ [BeginTrans] else ev);
               (ok, ev) = Execute srv sqlStr ev
           in if \<not> ok then (False, if isTrans then ev @ [RollbackTrans] else ev)
              else (True, if isTrans then ev @ [CommitTrans] else ev))"

fun execute_all :: "ole_server \<Rightarrow> cstring list \<Rightarrow> event list \<Rightarrow> bool \<times> event list" where
  "execute_all srv [] ev = (True, ev)"
| "execute_all srv (s # ss) ev =
     (let (ok, ev) = Execute srv s ev in if \<not> ok then (False, ev) else execute_all srv ss ev)"

definition TRANSBUSI_update_array :: "ole_server \<Rightarrow> bool \<Rightarrow> cstring list \<Rightarrow> bool \<Rightarrow> event list \<Rightarrow> bool \<times> event list" where
  "TRANSBUSI_update_array srv isOpen sqlStrs isTrans ev =
     (if \<not> isOpen then (False, ev)
      else let ev = (if isTrans then ev @ [BeginTrans] else ev);
               (ok, ev) = execute_all srv sqlStrs ev
           in if \<not> ok then (False, if isTrans then ev @ [RollbackTrans] else ev)
              else (True, if isTrans then ev @ [CommitTrans] else ev))"

subsection \<open>\<open>COleDbAccess\<close>\<close>

text \<open>The object holds \<open>busiHandle\<close>: \<open>None\<close> for NULL, else whether the connection of the \<open>TRANSBUSI\<close> is open.\<close>

type_synonym COleDbAccess = "bool option"

definition CnnStr :: "cstring \<Rightarrow> cstring \<Rightarrow> cstring \<Rightarrow> int \<Rightarrow> cstring \<Rightarrow> cstring \<Rightarrow> cstring" where
  "CnnStr dbtype address dbname port dbuser dbpwd =
     (if dbtype = ''ORACLE'' then
        ''Provider=OraOLEDB.Oracle;Persist Security Info=True;Data Source=(DESCRIPTION =(ADDRESS_LIST =(ADDRESS =(PROTOCOL = TCP)(HOST =''
        @ address @ '')(PORT = '' @ fmt_d port @ '')))(CONNECT_DATA =(SERVICE_NAME = '' @ dbname @ '')));User ID='' @ dbuser
        @ '';Password='' @ dbpwd
      else if dbtype = ''DB2'' then
        ''Provider=IBMDADB2;HOSTNAME='' @ address @ '';PROTOCOL=TCPIP;PORT='' @ fmt_d port @ '';Database='' @ dbname @ '';uid='' @ dbuser
        @ '';pwd='' @ dbpwd
      else if dbtype = ''PGSQL'' then
        ''Driver={PostgreSQL ANSI};Server='' @ address @ '';Port='' @ fmt_d port @ '';Database='' @ dbname @ '';Uid='' @ dbuser
        @ '';Pwd='' @ dbpwd @ '';''
      else [])"

text \<open>The constructor: the copies of the settings have to fit, and an unknown type of database stays closed. \<open>ado_open\<close> says whether
  ADO opens a connection string.\<close>

definition TRANSBUSI :: "(cstring \<Rightarrow> bool) \<Rightarrow> cstring \<Rightarrow> cstring \<Rightarrow> cstring \<Rightarrow> int \<Rightarrow> cstring \<Rightarrow> cstring \<Rightarrow> bool option" where
  "TRANSBUSI ado_open dbtype address dbname port dbuser dbpwd =
     (let s = CnnStr dbtype address dbname port dbuser dbpwd
      in if length address < 20 \<and> length dbname < 20 \<and> length dbpwd < 50 \<and> length dbuser < 50 \<and> length dbtype < 10 \<and> length s < 512
         then Some (s \<noteq> [] \<and> ado_open s) else None)"

definition oleDb_Open :: "(cstring \<Rightarrow> bool) \<Rightarrow> cstring \<Rightarrow> cstring \<Rightarrow> cstring \<Rightarrow> int \<Rightarrow> cstring \<Rightarrow> cstring \<Rightarrow> (bool \<times> COleDbAccess) option" where
  "oleDb_Open ado_open dbtype address dbname port dbuser dbpwd =
     do { b \<leftarrow> TRANSBUSI ado_open dbtype address dbname port dbuser dbpwd; Some (b, Some b) }"

definition oleDb_Query :: "ole_server \<Rightarrow> COleDbAccess \<Rightarrow> cstring \<Rightarrow> cstring list \<Rightarrow> 'h callback \<Rightarrow> 'h \<Rightarrow> event list
    \<Rightarrow> (('h \<times> int) option \<times> event list) option" where
  "oleDb_Query srv busiHandle sqlStr cols func handle ev =
     (case busiHandle of None \<Rightarrow> Some (None, ev) | Some b \<Rightarrow> TRANSBUSI_query srv b sqlStr cols func handle ev)"

definition oleDb_OneUpdate :: "ole_server \<Rightarrow> COleDbAccess \<Rightarrow> cstring \<Rightarrow> event list \<Rightarrow> bool \<times> event list" where
  "oleDb_OneUpdate srv busiHandle sqlStr ev =
     (case busiHandle of None \<Rightarrow> (False, ev) | Some b \<Rightarrow> TRANSBUSI_update srv b sqlStr ev)"

definition oleDb_Update :: "ole_server \<Rightarrow> COleDbAccess \<Rightarrow> cstring \<Rightarrow> bool \<Rightarrow> event list \<Rightarrow> bool \<times> event list" where
  "oleDb_Update srv busiHandle sqlStr isTrans ev =
     (case busiHandle of None \<Rightarrow> (False, ev) | Some b \<Rightarrow> TRANSBUSI_update_trans srv b sqlStr isTrans ev)"

definition oleDb_UpdateArray :: "ole_server \<Rightarrow> COleDbAccess \<Rightarrow> cstring list \<Rightarrow> bool \<Rightarrow> event list \<Rightarrow> bool \<times> event list" where
  "oleDb_UpdateArray srv busiHandle sqlStrs isTrans ev =
     (case busiHandle of None \<Rightarrow> (False, ev) | Some b \<Rightarrow> TRANSBUSI_update_array srv b sqlStrs isTrans ev)"

definition oleDb_beginTrans :: "COleDbAccess \<Rightarrow> event list \<Rightarrow> event list" where
  "oleDb_beginTrans busiHandle ev = (case busiHandle of None \<Rightarrow> ev | Some b \<Rightarrow> TRANSBUSI_beginTrans b ev)"

definition oleDb_commitTrans :: "COleDbAccess \<Rightarrow> event list \<Rightarrow> event list" where
  "oleDb_commitTrans busiHandle ev = (case busiHandle of None \<Rightarrow> ev | Some b \<Rightarrow> TRANSBUSI_commitTrans b ev)"

definition oleDb_rollbackTrans :: "COleDbAccess \<Rightarrow> event list \<Rightarrow> event list" where
  "oleDb_rollbackTrans busiHandle ev = (case busiHandle of None \<Rightarrow> ev | Some b \<Rightarrow> TRANSBUSI_rollbackTrans b ev)"

definition oleDb_Close :: "COleDbAccess \<Rightarrow> COleDbAccess" where
  "oleDb_Close busiHandle = None"

subsection \<open>Every field of every record\<close>

text \<open>What a callback is told of a field.\<close>

definition told :: "ole_record \<Rightarrow> cstring \<Rightarrow> cstring option" where
  "told rec f = (case Table_Get rec f of Some (True, x # xs) \<Rightarrow> Some (x # xs) | _ \<Rightarrow> None)"

definition readable :: "ole_record \<Rightarrow> cstring \<Rightarrow> bool" where
  "readable rec f \<longleftrightarrow> (case Table_Get rec f of None \<Rightarrow> False | Some (ok, val) \<Rightarrow> length val < 10240)"

fun tell :: "'h callback \<Rightarrow> (cstring \<times> cstring option) list \<Rightarrow> 'h \<Rightarrow> 'h option" where
  "tell func [] h = Some h"
| "tell func ((f, v) # xs) h = do { h \<leftarrow> func f v h; tell func xs h }"

lemma tell_append: "tell func (xs @ ys) h = do { h \<leftarrow> tell func xs h; tell func ys h }"
proof (induction xs arbitrary: h)
  case (Cons x xs)
  then show ?case by (cases x; cases "func (fst x) (snd x) h") auto
qed simp

definition calls_of :: "cstring list \<Rightarrow> ole_record \<Rightarrow> (cstring \<times> cstring option) list" where
  "calls_of cols rec = map (\<lambda>f. (f, told rec f)) cols"

lemma record_fields_tell:
  "(\<And>f. f \<in> set cols \<Longrightarrow> readable rec f) \<Longrightarrow> record_fields func cols rec h = tell func (calls_of cols rec) h"
proof (induction cols arbitrary: h)
  case (Cons f cols)
  obtain ok val where g: "Table_Get rec f = Some (ok, val)" "length val < 10240"
    using Cons.prems[of f] by (auto simp: readable_def split: option.splits)
  have "(if ok \<and> length val > 0 then Some val else None) = told rec f"
    using g by (cases val) (auto simp: told_def split: bool.splits)
  then show ?case using g Cons by (cases "func f (told rec f) h") (auto simp: calls_of_def)
qed (simp add: calls_of_def)

lemma records_loop_simps [simp]:
  "records_loop func cols [] n h = Some (h, n)"
  "records_loop func cols (r # rs) n h = do { h \<leftarrow> record_fields func cols r h; records_loop func cols rs (n + 1) h }"
  by (subst records_loop.simps, simp add: ISEOF_def)+

lemma records_loop_tell:
  assumes "\<And>r f. r \<in> set recs \<Longrightarrow> f \<in> set cols \<Longrightarrow> readable r f"
  shows "records_loop func cols recs n h
    = map_option (\<lambda>h. (h, n + int (length recs))) (tell func (concat (map (calls_of cols) recs)) h)"
  using assms
proof (induction recs arbitrary: n h)
  case (Cons r rs)
  then show ?case
    by (cases "tell func (calls_of cols r) h") (simp_all add: record_fields_tell tell_append algebra_simps)
qed simp

theorem oleDb_Query_result:
  assumes "srv ev sql = Records recs" and "\<forall>r\<in>set recs. \<forall>f\<in>set cols. readable r f"
  shows "oleDb_Query srv (Some True) sql cols func h ev
    = map_option (\<lambda>h. (Some (h, int (length recs)), ev @ [Sql sql])) (tell func (concat (map (calls_of cols) recs)) h)"
  using assms records_loop_tell[of recs cols func 0 h]
  by (cases "tell func (concat (map (calls_of cols) recs)) h") (simp_all add: oleDb_Query_def TRANSBUSI_query_def)

subsection \<open>Transactions\<close>

text \<open>
  What of the events is in force in the end: the statements that succeeded, those of a transaction from its commit on. The second part is
  the open transaction.
\<close>

definition in_force_step :: "ole_server \<Rightarrow> event list \<Rightarrow> event \<Rightarrow> cstring list \<times> cstring list option \<Rightarrow> cstring list \<times> cstring list option" where
  "in_force_step srv ev e st =
     (case e of
        Sql s \<Rightarrow> if srv ev s = Com_error then st
                 else (case snd st of None \<Rightarrow> (fst st @ [s], None) | Some p \<Rightarrow> (fst st, Some (p @ [s])))
      | BeginTrans \<Rightarrow> (fst st, Some [])
      | CommitTrans \<Rightarrow> (fst st @ (case snd st of None \<Rightarrow> [] | Some p \<Rightarrow> p), None)
      | RollbackTrans \<Rightarrow> (fst st, None))"

fun in_force :: "ole_server \<Rightarrow> event list \<Rightarrow> event list \<Rightarrow> cstring list \<times> cstring list option \<Rightarrow> cstring list \<times> cstring list option" where
  "in_force srv ev [] st = st"
| "in_force srv ev (e # es) st = in_force srv (ev @ [e]) es (in_force_step srv ev e st)"

lemma in_force_append: "in_force srv ev (xs @ ys) st = in_force srv (ev @ xs) ys (in_force srv ev xs st)"
  by (induction xs arbitrary: ev st) auto

definition force :: "ole_server \<Rightarrow> event list \<Rightarrow> cstring list \<times> cstring list option" where
  "force srv ev = in_force srv [] ev ([], None)"

lemma force_snoc: "force srv (ev @ [e]) = in_force_step srv ev e (force srv ev)"
  by (simp add: force_def in_force_append)

lemma execute_all_open:
  assumes "execute_all srv sqls ev = (ok, ev')" and "force srv ev = (c, Some p)"
  shows "(\<exists>q. force srv ev' = (c, Some q)) \<and> (ok \<longrightarrow> force srv ev' = (c, Some (p @ sqls)))"
  using assms
proof (induction sqls arbitrary: ev p)
  case (Cons s sqls)
  show ?case
  proof (cases "srv ev s = Com_error")
    case True
    then show ?thesis using Cons.prems by (auto simp: Execute_def force_snoc in_force_step_def)
  next
    case False
    have f: "force srv (ev @ [Sql s]) = (c, Some (p @ [s]))"
      using Cons.prems False by (simp add: force_snoc in_force_step_def)
    have e: "execute_all srv sqls (ev @ [Sql s]) = (ok, ev')"
      using Cons.prems False by (simp add: Execute_def)
    show ?thesis using Cons.IH[OF e f] by simp
  qed
qed simp

lemma execute_all_plain:
  assumes "execute_all srv sqls ev = (ok, ev')" and "force srv ev = (c, None)"
  shows "(\<exists>k\<le>length sqls. force srv ev' = (c @ take k sqls, None) \<and> (ok \<longleftrightarrow> k = length sqls))"
  using assms
proof (induction sqls arbitrary: ev c)
  case (Cons s sqls)
  show ?case
  proof (cases "srv ev s = Com_error")
    case True
    then show ?thesis using Cons.prems by (auto simp: Execute_def force_snoc in_force_step_def intro!: exI[of _ 0])
  next
    case False
    have f: "force srv (ev @ [Sql s]) = (c @ [s], None)"
      using Cons.prems False by (simp add: force_snoc in_force_step_def)
    have e: "execute_all srv sqls (ev @ [Sql s]) = (ok, ev')"
      using Cons.prems False by (simp add: Execute_def)
    obtain k where "k \<le> length sqls" "force srv ev' = ((c @ [s]) @ take k sqls, None)" "ok \<longleftrightarrow> k = length sqls"
      using Cons.IH[OF e f] by blast
    then show ?thesis by (intro exI[of _ "Suc k"]) simp
  qed
qed simp

theorem update_array_atomic:
  assumes "force srv ev = (c, None)" and "oleDb_UpdateArray srv (Some True) sqls isTrans ev = (ok, ev')"
  shows "(ok \<longrightarrow> force srv ev' = (c @ sqls, None))
    \<and> (\<not> ok \<and> isTrans \<longrightarrow> force srv ev' = (c, None))
    \<and> (\<not> ok \<and> \<not> isTrans \<longrightarrow> (\<exists>k<length sqls. force srv ev' = (c @ take k sqls, None)))"
proof (cases isTrans)
  case True
  obtain o' e' where e: "execute_all srv sqls (ev @ [BeginTrans]) = (o', e')" by (cases "execute_all srv sqls (ev @ [BeginTrans])")
  have "force srv (ev @ [BeginTrans]) = (c, Some [])" using assms(1) by (simp add: force_snoc in_force_step_def)
  from execute_all_open[OF e this] show ?thesis
    using True assms(2) e
    by (auto simp: oleDb_UpdateArray_def TRANSBUSI_update_array_def Let_def force_snoc in_force_step_def split: if_splits)
next
  case False
  obtain o' e' where e: "execute_all srv sqls ev = (o', e')" by (cases "execute_all srv sqls ev")
  from execute_all_plain[OF e assms(1)] show ?thesis
    using False assms(2) e
    by (fastforce simp: oleDb_UpdateArray_def TRANSBUSI_update_array_def Let_def le_less split: if_splits)
qed

end
