(* ===== verification/Syslog.thy ===== *)
theory Syslog
  imports LogText
begin

text \<open>
  The system log of the Windows programs, \<^verbatim>\<open>OSCShell/syslog-client.c\<close>: the logger as a state machine with its socket, the address
  read from \<^verbatim>\<open>syslog.host\<close>, and the datagrams it sends.

  Windows is the record \<open>winsys\<close>: the name of the program and of the computer, the contents of files, the names of hosts, and what
  the calls for sockets answer. The state also keeps what Windows knows of the logger, the sockets it has open, how
  often WSAStartup was called without WSACleanup, and the datagrams that were sent.
\<close>

type_synonym sockaddr = "32 word \<times> 16 word"  \<comment> \<open>\<open>sin_addr\<close> and \<open>sin_port\<close>, both as numbers\<close>

record winsys =
  argv0 :: cstring
  process_id :: nat
  computer_name :: "cstring option"
  wsa_starts :: bool
  file_text :: "cstring \<Rightarrow> cstring option"
  gethostbyname :: "cstring \<Rightarrow> 32 word option"
  new_socket :: "nat \<Rightarrow> int"          \<comment> \<open>the socket the n-th call gives\<close>
  bind_ok :: "int \<Rightarrow> bool"
  max_msg_size :: "int \<Rightarrow> int option"
  atexit_ok :: bool

record logger =
  initialized :: bool
  log_mask :: int
  syslog_conf_dir :: cstring
  syslog_ident :: "cstring option"
  syslog_facility :: int
  str_pid :: cstring
  sa_logger :: sockaddr
  log_sock :: int
  local_hostname :: cstring
  datagramm :: cstring      \<comment> \<open>an array of 1024 characters\<close>
  datagramm_size :: int
  socket_calls :: nat
  open_sockets :: "int list"
  wsa_count :: int
  datagrams_sent :: "(sockaddr \<times> cstring) list"

definition INVALID_SOCKET :: int where "INVALID_SOCKET = - 1"
definition LOG_PRIMASK :: int where "LOG_PRIMASK = 7"
definition LOG_FACMASK :: int where "LOG_FACMASK = 0x03f8"
definition LOG_USER :: int where "LOG_USER = 8"
definition LOG_PID :: int where "LOG_PID = 1"
definition SYSLOG_PORT :: int where "SYSLOG_PORT = 514"

definition LOG_PRI :: "int \<Rightarrow> int" where "LOG_PRI p = p AND LOG_PRIMASK"
definition LOG_MASK :: "int \<Rightarrow> int" where "LOG_MASK p = 2 ^ nat p"

text \<open>The statics before the first call.\<close>

definition logger0 :: logger where
  "logger0 = \<lparr>initialized = False, log_mask = 0xFF, syslog_conf_dir = ''.'', syslog_ident = None, syslog_facility = 0, str_pid = [],
     sa_logger = (0, 0), log_sock = 0, local_hostname = [], datagramm = replicate 1024 NUL, datagramm_size = 0, socket_calls = 0,
     open_sockets = [], wsa_count = 0, datagrams_sent = []\<rparr>"

subsection \<open>The address of the server\<close>

definition set_syslog_conf_dir :: "cstring \<Rightarrow> logger \<Rightarrow> cstring \<times> logger" where
  "set_syslog_conf_dir dir l = (syslog_conf_dir l, l\<lparr>syslog_conf_dir := dir\<rparr>)"

text \<open>\<open>strrchr(s, c) + 1\<close> as an offset into \<open>s\<close>; NULL + 1 is below every address and becomes 0.\<close>

definition after_last :: "char \<Rightarrow> cstring \<Rightarrow> nat" where
  "after_last c s = length s - length (takeWhile (\<lambda>x. x \<noteq> c) (rev s))"

definition bslash :: char where "bslash = CHR 0x5C"

definition program_dir :: "cstring \<Rightarrow> cstring" where
  "program_dir path =
     (let p = after_last bslash path; q = after_last (CHR ''/'') path
      in if p < q then take q path else if p > q then take p path else [])"

text \<open>The name of the file. The last character is looked at even when there is none, and \<open>syslog_conf_dir[1]\<close> even when it is empty.
  \<open>pathname\<close> has 260 bytes.\<close>

definition conf_file :: "cstring \<Rightarrow> cstring \<Rightarrow> cstring option" where
  "conf_file prog dir =
     (if dir = [] then None
      else do {
        path \<leftarrow> (if hd dir = bslash \<or> hd dir = CHR ''/'' \<or> 1 < length dir \<and> dir ! 1 = CHR '':''
                then (if length dir < 260 then Some dir else None)
                else (if length prog < 260 then Some (program_dir prog) else None));
        guard (path \<noteq> []);
        let path = (if last path \<noteq> bslash \<and> last path \<noteq> CHR ''/'' then path @ [bslash] else path);
        guard (length path + 11 < 260);
        Some (path @ ''syslog.host'')
      })"

text \<open>\<open>fgets\<close> into \<open>host\<close>, with 256 bytes, on a file in text mode.\<close>

definition first_line :: "cstring \<Rightarrow> cstring" where
  "first_line t = take 255 (if CHR 0x0A \<in> set t then upto_char (CHR 0x0A) t @ [CHR 0x0A] else t)"

text \<open>\<open>strtoul(p, NULL, 0)\<close> for an unsigned long of 32 bits, cut to an unsigned short.\<close>

definition port_value :: "cstring \<Rightarrow> 16 word" where
  "port_value s =
     (let t = dropWhile is_space s;
          neg = (t \<noteq> [] \<and> hd t = CHR ''-'');
          t = (if t \<noteq> [] \<and> (hd t = CHR ''-'' \<or> hd t = CHR ''+'') then tl t else t);
          v = (if t \<noteq> [] \<and> is_digit (hd t) then fst (strtoul0 t) else 0);
          v = (if v \<ge> 2 ^ 32 then 2 ^ 32 - 1 else if neg then - v else v)
      in word_of_int v)"

text \<open>The address and the port in the file; both stay 0 without a file or when the host is not known.\<close>

definition read_addr :: "winsys \<Rightarrow> cstring \<Rightarrow> sockaddr" where
  "read_addr w path =
     (case file_text w path of
        None \<Rightarrow> (0, 0)
      | Some t \<Rightarrow>
          let host = upto_char (CHR 0x0D) (upto_char (CHR 0x0A) (first_line t));
              name = upto_char (CHR '':'') host
          in (case gethostbyname w name of
                None \<Rightarrow> (0, 0)
              | Some a \<Rightarrow>
                  if CHR '':'' \<in> set host then (a, port_value (drop (length name + 1) host)) else (a, word_of_int SYSLOG_PORT)))"

definition init_logger_addr :: "winsys \<Rightarrow> logger \<Rightarrow> logger option" where
  "init_logger_addr w l =
     do { path \<leftarrow> conf_file (argv0 w) (syslog_conf_dir l); Some (l\<lparr>sa_logger := read_addr w path\<rparr>) }"

subsection \<open>Opening and closing\<close>

definition closesocket :: "int \<Rightarrow> logger \<Rightarrow> logger" where
  "closesocket s l = l\<lparr>open_sockets := remove1 s (open_sockets l)\<rparr>"

definition WSACleanup :: "logger \<Rightarrow> logger" where
  "WSACleanup l = l\<lparr>wsa_count := wsa_count l - 1\<rparr>"

definition closelog :: "logger \<Rightarrow> logger" where
  "closelog l = (if \<not> initialized l then l else (WSACleanup (closesocket (log_sock l) l))\<lparr>initialized := False\<rparr>)"

text \<open>The loop over new sockets until one is bound; \<open>n\<close> counts up to 100. The result says whether one was.\<close>

function bind_loop :: "winsys \<Rightarrow> nat \<Rightarrow> logger \<Rightarrow> bool \<times> logger" where
  "bind_loop w n l =
     (let s = new_socket w (socket_calls l);
          l = l\<lparr>log_sock := s, socket_calls := socket_calls l + 1\<rparr>
      in if s = INVALID_SOCKET then (False, l)
         else let l = l\<lparr>open_sockets := open_sockets l @ [s]\<rparr>
              in if bind_ok w s then (True, l)
                 else let l = (closesocket s l)\<lparr>log_sock := INVALID_SOCKET\<rparr>
                      in if n \<ge> 100 then (False, l) else bind_loop w (n + 1) l)"
  by pat_completeness auto
termination by (relation "measure (\<lambda>(w, n, l). 101 - n)") auto

declare bind_loop.simps [simp del]

text \<open>The steps between \<open>bind\<close> and \<open>done\<close>. The comparisons are those of unsigned numbers of 32 bits.\<close>

definition open_bound :: "winsys \<Rightarrow> cstring option \<Rightarrow> int \<Rightarrow> logger \<Rightarrow> bool \<times> logger" where
  "open_bound w ident facility l =
     (case max_msg_size w (log_sock l) of
        None \<Rightarrow> (False, l)
      | Some d \<Rightarrow>
          let l = l\<lparr>datagramm_size := d\<rparr>;
              room = (word_of_int d :: 32 word) - of_nat (length (local_hostname l))
                - (case ident of None \<Rightarrow> 0 | Some i \<Rightarrow> of_nat (length i))
          in if room < 64 then (False, l)
             else let l = (if (word_of_int d :: 32 word) > 1024 then l\<lparr>datagramm_size := 1024\<rparr> else l)
                  in if \<not> atexit_ok w then (False, l)
                     else (True, l\<lparr>syslog_ident := ident, syslog_facility := facility\<rparr>))"

text \<open>What happens at \<open>done\<close>.\<close>

definition open_done :: "bool \<Rightarrow> bool \<Rightarrow> logger \<Rightarrow> logger" where
  "open_done ok wsa_initialized l =
     (let l = (if ok then l
               else let l = (if log_sock l \<noteq> INVALID_SOCKET then closesocket (log_sock l) l else l)
                    in if wsa_initialized then WSACleanup l else l)
      in l\<lparr>initialized := ok\<rparr>)"

definition open_socket :: "winsys \<Rightarrow> cstring option \<Rightarrow> int \<Rightarrow> logger \<Rightarrow> logger" where
  "open_socket w ident facility l =
     (let (ok, l) = bind_loop w 0 l;
          (ok, l) = (if ok then open_bound w ident facility l else (False, l))
      in open_done ok True l)"

definition openlog :: "winsys \<Rightarrow> cstring option \<Rightarrow> int \<Rightarrow> int \<Rightarrow> logger \<Rightarrow> logger option" where
  "openlog w ident option facility l =
     (if initialized l then Some l
      else let l = l\<lparr>syslog_facility := (if facility \<noteq> 0 then facility else LOG_USER),
                     str_pid := (if option AND LOG_PID \<noteq> 0 then ''['' @ show_nat (process_id w) @ '']'' else [])\<rparr>
           in case computer_name w of
                None \<Rightarrow> Some (open_done False False l)
              | Some name \<Rightarrow>
                  let l = l\<lparr>local_hostname := name, log_sock := INVALID_SOCKET\<rparr>
                  in if \<not> wsa_starts w then Some (open_done False False l)
                     else do {
                       l \<leftarrow> init_logger_addr w (l\<lparr>wsa_count := wsa_count l + 1\<rparr>);
                       Some (open_socket w ident facility l)
                     })"

definition setlogmask :: "int \<Rightarrow> logger \<Rightarrow> int \<times> logger" where
  "setlogmask m l = (log_mask l, if m \<noteq> 0 then l\<lparr>log_mask := m\<rparr> else l)"

subsection \<open>Messages\<close>

text \<open>
  The text \<open>t\<close> is what the format and its arguments make. \<open>vsnprintf\<close> of the compilers before 2015 writes at most \<open>n\<close> characters
  and a terminator only if there is room for it; a negative \<open>n\<close> is a large number.
\<close>

definition vsnprintf :: "cstring \<Rightarrow> nat \<Rightarrow> int \<Rightarrow> cstring \<Rightarrow> cstring option" where
  "vsnprintf buf off n t =
     poke_opt buf off (if n < 0 \<or> int (length t) < n then t @ [NUL] else take (nat n) t)"

text \<open>\<open>strchr\<close> and the cut at what it finds; it leaves the array when there is neither the character nor a terminator.\<close>

definition cut_at :: "char \<Rightarrow> cstring \<Rightarrow> cstring option" where
  "cut_at c buf =
     (let t = takeWhile (\<lambda>x. x \<noteq> c \<and> x \<noteq> NUL) buf
      in if length t < length buf then Some (buf[length t := NUL]) else None)"

definition vsyslog :: "winsys \<Rightarrow> int \<Rightarrow> cstring \<Rightarrow> logger \<Rightarrow> logger option" where
  "vsyslog w pri t l =
     (if LOG_MASK (LOG_PRI pri) AND log_mask l = 0 then Some l
      else do {
        l \<leftarrow> openlog w None 0 (pri AND LOG_FACMASK) l;
        (if \<not> initialized l then Some l
         else let pri = (if pri AND LOG_FACMASK = 0 then pri OR syslog_facility l else pri);
                  head = ''<'' @ fmt_d pri @ ''>''
              in do {
                buf \<leftarrow> poke_opt (datagramm l) 0 (head @ [NUL]);
                buf \<leftarrow> vsnprintf buf (length head) (datagramm_size l - int (length head)) t;
                buf \<leftarrow> cut_at (CHR 0x0A) buf;
                buf \<leftarrow> cut_at (CHR 0x0D) buf;
                guard (NUL \<in> set buf);
                Some (l\<lparr>datagramm := buf, datagrams_sent := datagrams_sent l @ [(sa_logger l, zstr buf)]\<rparr>)
              })
      })"

definition syslog :: "winsys \<Rightarrow> int \<Rightarrow> cstring \<Rightarrow> logger \<Rightarrow> logger option" where
  "syslog w pri t l = vsyslog w pri t l"

subsection \<open>Sockets are not lost\<close>

definition logger_ok :: "logger \<Rightarrow> bool" where
  "logger_ok l \<longleftrightarrow> length (datagramm l) = 1024
     \<and> (if initialized l then open_sockets l = [log_sock l] \<and> wsa_count l = 1 else open_sockets l = [] \<and> wsa_count l = 0)"

inductive logger_reachable :: "logger \<Rightarrow> bool" where
  start: "logger_reachable logger0"
| openlog: "logger_reachable l \<Longrightarrow> openlog w ident opt facility l = Some l' \<Longrightarrow> logger_reachable l'"
| closelog: "logger_reachable l \<Longrightarrow> logger_reachable (closelog l)"
| setlogmask: "logger_reachable l \<Longrightarrow> logger_reachable (snd (setlogmask m l))"
| conf_dir: "logger_reachable l \<Longrightarrow> logger_reachable (snd (set_syslog_conf_dir dir l))"
| vsyslog: "logger_reachable l \<Longrightarrow> vsyslog w pri t l = Some l' \<Longrightarrow> logger_reachable l'"

text \<open>What the loop for a socket leaves alone, and the sockets that are open behind it.\<close>

definition same_rest :: "logger \<Rightarrow> logger \<Rightarrow> bool" where
  "same_rest l l' \<longleftrightarrow> datagramm l' = datagramm l \<and> wsa_count l' = wsa_count l \<and> local_hostname l' = local_hostname l \<and> sa_logger l' = sa_logger l
     \<and> log_mask l' = log_mask l \<and> datagrams_sent l' = datagrams_sent l"

lemma bind_loop_result:
  "bind_loop w n l = (ok, l') \<Longrightarrow> open_sockets l = [] \<Longrightarrow>
     same_rest l l' \<and> (if ok then open_sockets l' = [log_sock l'] \<and> log_sock l' \<noteq> INVALID_SOCKET
        else log_sock l' = INVALID_SOCKET \<and> open_sockets l' = [])"
proof (induction w n l rule: bind_loop.induct)
  case (1 w n l)
  let ?s = "new_socket w (socket_calls l)"
  let ?l1 = "l\<lparr>log_sock := ?s, socket_calls := socket_calls l + 1\<rparr>"
  let ?l2 = "?l1\<lparr>open_sockets := open_sockets ?l1 @ [?s]\<rparr>"
  let ?l3 = "(closesocket ?s ?l2)\<lparr>log_sock := INVALID_SOCKET\<rparr>"
  have c3: "same_rest l ?l3" "open_sockets ?l3 = []" "log_sock ?l3 = INVALID_SOCKET"
    using "1.prems"(2) by (simp_all add: closesocket_def same_rest_def)
  consider "?s = INVALID_SOCKET" | "?s \<noteq> INVALID_SOCKET" "bind_ok w ?s" | "?s \<noteq> INVALID_SOCKET" "\<not> bind_ok w ?s" "n \<ge> 100"
    | "?s \<noteq> INVALID_SOCKET" "\<not> bind_ok w ?s" "\<not> n \<ge> 100" by blast
  then show ?case
  proof cases
    case 4
    then have "bind_loop w (n + 1) ?l3 = (ok, l')" using "1.prems"(1) by (subst (asm) bind_loop.simps) (simp add: Let_def)
    from "1.IH"[OF refl refl _ refl _ refl _ this] 4 c3 have
      "same_rest ?l3 l' \<and> (if ok then open_sockets l' = [log_sock l'] \<and> log_sock l' \<noteq> INVALID_SOCKET
        else log_sock l' = INVALID_SOCKET \<and> open_sockets l' = [])" by simp
    then show ?thesis using c3(1) by (simp add: same_rest_def)
  next
    case 3
    then have "(ok, l') = (False, ?l3)" using "1.prems"(1) by (subst (asm) bind_loop.simps) (simp add: Let_def)
    then show ?thesis using c3 by simp
  qed (use "1.prems" in \<open>subst (asm) bind_loop.simps, force simp: Let_def same_rest_def\<close>)+
qed

lemma open_bound_result:
  assumes "open_bound w ident facility l = (ok, l')"
  shows "datagramm l' = datagramm l \<and> wsa_count l' = wsa_count l \<and> open_sockets l' = open_sockets l \<and> log_sock l' = log_sock l
    \<and> sa_logger l' = sa_logger l \<and> log_mask l' = log_mask l \<and> datagrams_sent l' = datagrams_sent l"
  using assms by (auto simp: open_bound_def Let_def split: option.splits if_splits)

lemma init_logger_addr_result:
  assumes "init_logger_addr w l = Some l'"
  shows "datagramm l' = datagramm l \<and> wsa_count l' = wsa_count l \<and> open_sockets l' = open_sockets l \<and> log_sock l' = log_sock l
    \<and> local_hostname l' = local_hostname l \<and> log_mask l' = log_mask l \<and> datagrams_sent l' = datagrams_sent l"
  using assms by (auto simp: init_logger_addr_def Option.bind_eq_Some_conv)

lemma openlog_ok:
  assumes "openlog w ident opt facility l = Some l'" and "logger_ok l"
  shows "logger_ok l' \<and> log_mask l' = log_mask l \<and> datagrams_sent l' = datagrams_sent l"
proof (cases "initialized l")
  case True
  then show ?thesis using assms by (simp add: openlog_def)
next
  case False
  have l: "open_sockets l = []" "wsa_count l = 0" "length (datagramm l) = 1024" using assms(2) False by (auto simp: logger_ok_def)
  define l0 where "l0 = l\<lparr>syslog_facility := (if facility \<noteq> 0 then facility else LOG_USER),
    str_pid := (if opt AND LOG_PID \<noteq> 0 then ''['' @ show_nat (process_id w) @ '']'' else [])\<rparr>"
  show ?thesis
  proof (cases "computer_name w")
    case None
    then have "l' = open_done False False l0" using assms(1) False by (simp add: openlog_def l0_def Let_def)
    then show ?thesis using l by (auto simp: open_done_def l0_def logger_ok_def closesocket_def Let_def)
  next
    case (Some name)
    define l1 where "l1 = l0\<lparr>local_hostname := name, log_sock := INVALID_SOCKET\<rparr>"
    show ?thesis
    proof (cases "wsa_starts w")
      case False
      then have "l' = open_done False False l1" using assms(1) Some \<open>\<not> initialized l\<close> by (simp add: openlog_def l0_def l1_def Let_def)
      then show ?thesis using l by (auto simp: open_done_def l0_def l1_def logger_ok_def Let_def)
    next
      case True
      obtain l2 where l2: "init_logger_addr w (l1\<lparr>wsa_count := wsa_count l1 + 1\<rparr>) = Some l2"
        "l' = open_socket w ident facility l2"
        using assms(1) Some True False by (auto simp: openlog_def l0_def l1_def Let_def Option.bind_eq_Some_conv)
      obtain ok l3 where l3: "bind_loop w 0 l2 = (ok, l3)" by (cases "bind_loop w 0 l2")
      obtain ok' l4 where l4: "(if ok then open_bound w ident facility l3 else (False, l3)) = (ok', l4)" by (cases "if ok then open_bound w ident facility l3 else (False, l3)")
      have i: "open_sockets l2 = []" "wsa_count l2 = 1" "datagramm l2 = datagramm l" "log_mask l2 = log_mask l" "datagrams_sent l2 = datagrams_sent l"
        using init_logger_addr_result[OF l2(1)] l by (simp_all add: l1_def l0_def)
      note b = bind_loop_result[OF l3 i(1)]
      have o4: "datagramm l4 = datagramm l3 \<and> wsa_count l4 = wsa_count l3 \<and> open_sockets l4 = open_sockets l3 \<and> log_sock l4 = log_sock l3
         \<and> log_mask l4 = log_mask l3 \<and> datagrams_sent l4 = datagrams_sent l3"
        using l4 open_bound_result[of w ident facility l3 ok' l4] by (auto split: if_splits)
      have "l' = open_done ok' True l4" using l2(2) l3 l4 by (simp add: open_socket_def)
      moreover have "ok' \<Longrightarrow> ok" using l4 by (auto split: if_splits)
      ultimately show ?thesis using b o4 i l
        by (auto simp: open_done_def logger_ok_def same_rest_def closesocket_def WSACleanup_def Let_def split: if_splits)
    qed
  qed
qed

lemma length_cut_at: "cut_at c buf = Some b \<Longrightarrow> length b = length buf"
  by (auto simp: cut_at_def Let_def split: if_splits)

lemma vsnprintf_length: "vsnprintf buf off n t = Some b \<Longrightarrow> length b = length buf"
  by (auto simp: vsnprintf_def Let_def)

lemma vsyslog_ok:
  assumes "vsyslog w pri t l = Some l'" and "logger_ok l"
  shows "logger_ok l'"
proof (cases "LOG_MASK (LOG_PRI pri) AND log_mask l = 0")
  case False
  then obtain l1 where l1: "openlog w None 0 (pri AND LOG_FACMASK) l = Some l1" using assms(1)
    by (auto simp: vsyslog_def Option.bind_eq_Some_conv)
  note o = conjunct1[OF openlog_ok[OF l1 assms(2)]]
  show ?thesis
  proof (cases "initialized l1")
    case True
    with assms(1) False l1 obtain buf d where "l' = l1\<lparr>datagramm := buf, datagrams_sent := d\<rparr>" "length buf = length (datagramm l1)"
      by (auto simp: vsyslog_def Let_def Option.bind_eq_Some_conv dest!: length_cut_at vsnprintf_length split: if_split_asm)
    then show ?thesis using o by (simp add: logger_ok_def)
  qed (use assms False l1 o in \<open>simp add: vsyslog_def\<close>)
qed (use assms in \<open>simp add: vsyslog_def\<close>)

lemma reachable_ok: "logger_reachable l \<Longrightarrow> logger_ok l"
proof (induction rule: logger_reachable.induct)
  case start
  show ?case by (simp add: logger_ok_def logger0_def)
next
  case (closelog l)
  then show ?case by (auto simp: closelog_def logger_ok_def closesocket_def WSACleanup_def)
qed (auto simp: openlog_ok vsyslog_ok setlogmask_def set_syslog_conf_dir_def logger_ok_def dest: openlog_ok vsyslog_ok)

text \<open>C36: whatever is called, and however the calls for sockets fail, an open logger has exactly its socket open and one start of the
  sockets, a closed one has none.\<close>

theorem logger_sockets:
  assumes "logger_reachable l"
  shows "(initialized l \<longrightarrow> open_sockets l = [log_sock l] \<and> wsa_count l = 1) \<and> (\<not> initialized l \<longrightarrow> open_sockets l = [] \<and> wsa_count l = 0)"
  using reachable_ok[OF assms] by (simp add: logger_ok_def)

subsection \<open>Messages\<close>

lemma upto_char_append: "c \<notin> set s \<Longrightarrow> upto_char c (s @ t) = s @ upto_char c t"
  by (induction s) (auto simp: upto_char_def)

lemma cut_at_string:
  assumes "NUL \<notin> set s"
  shows "\<exists>r'. cut_at c (s @ NUL # r) = Some (upto_char c s @ NUL # r')"
proof -
  let ?t = "upto_char c s"
  have pre: "take (length ?t) s = ?t" unfolding upto_char_def by (rule takeWhile_eq_take[symmetric])
  have t: "takeWhile (\<lambda>x. x \<noteq> c \<and> x \<noteq> NUL) (s @ NUL # r) = ?t"
    using assms by (induction s) (auto simp: upto_char_def)
  have l: "length ?t \<le> length s" by (simp add: upto_char_def length_takeWhile_le)
  have "(s @ NUL # r)[length ?t := NUL] = take (length ?t) (s @ NUL # r) @ NUL # drop (Suc (length ?t)) (s @ NUL # r)"
    using l by (simp add: upd_conv_take_nth_drop)
  moreover have "take (length ?t) (s @ NUL # r) = ?t" using pre l by simp
  ultimately show ?thesis using t l by (simp add: cut_at_def Let_def)
qed

lemma upto_char_set: "set (upto_char c s) \<subseteq> set s"
  by (auto simp: upto_char_def dest: set_takeWhileD)

definition message_head :: "int \<Rightarrow> cstring" where
  "message_head pri = ''<'' @ fmt_d pri @ ''>''"

lemma head_plain: "NUL \<notin> set (message_head pri)" "CHR 0x0A \<notin> set (message_head pri)" "CHR 0x0D \<notin> set (message_head pri)"
proof -
  have "c \<notin> set (fmt_d pri)" if "\<not> is_digit c" "c \<noteq> CHR ''-''" for c
    using that digit_char_is_digit by (auto simp: fmt_d_def dest!: show_nat_digits)
  then show "NUL \<notin> set (message_head pri)" "CHR 0x0A \<notin> set (message_head pri)" "CHR 0x0D \<notin> set (message_head pri)"
    by (simp_all add: message_head_def is_digit_def)
qed

definition full_priority :: "int \<Rightarrow> logger \<Rightarrow> int" where
  "full_priority pri l = (if pri AND LOG_FACMASK = 0 then pri OR syslog_facility l else pri)"

lemma vsyslog_open:
  assumes "initialized l" and "LOG_MASK (LOG_PRI pri) AND log_mask l \<noteq> 0"
  shows "vsyslog w pri t l =
     do {
       buf \<leftarrow> poke_opt (datagramm l) 0 (message_head (full_priority pri l) @ [NUL]);
       buf \<leftarrow> vsnprintf buf (length (message_head (full_priority pri l))) (datagramm_size l - int (length (message_head (full_priority pri l)))) t;
       buf \<leftarrow> cut_at (CHR 0x0A) buf;
       buf \<leftarrow> cut_at (CHR 0x0D) buf;
       guard (NUL \<in> set buf);
       Some (l\<lparr>datagramm := buf, datagrams_sent := datagrams_sent l @ [(sa_logger l, zstr buf)]\<rparr>)
     }"
  using assms by (simp add: vsyslog_def openlog_def full_priority_def message_head_def Let_def)

lemma vsyslog_sends:
  assumes "logger_ok l" and "initialized l" and "LOG_MASK (LOG_PRI pri) AND log_mask l \<noteq> 0" and "NUL \<notin> set t"
    and "datagramm_size l \<le> 1024" and f: "int (length (message_head (full_priority pri l)) + length t) < datagramm_size l"
  shows "\<exists>l'. vsyslog w pri t l = Some l' \<and> initialized l' \<and> datagrams_sent l' = datagrams_sent l
    @ [(sa_logger l, message_head (full_priority pri l) @ upto_char (CHR 0x0D) (upto_char (CHR 0x0A) t))]"
proof -
  let ?h = "message_head (full_priority pri l)"
  let ?b = "poke (datagramm l) 0 (?h @ [NUL])"
  have b: "poke_opt (datagramm l) 0 (?h @ [NUL]) = Some ?b" "length ?b = 1024" "take (length ?h) ?b = ?h"
    using assms(1,5,6) by (auto simp: poke_opt_def poke_def logger_ok_def)
  have p: "vsnprintf ?b (length ?h) (datagramm_size l - int (length ?h)) t = Some (?h @ t @ NUL # drop (length ?h + length t + 1) ?b)"
    using f assms(5) b by (simp add: vsnprintf_def poke_opt_def poke_def)
  obtain r1 where r1: "cut_at (CHR 0x0A) (?h @ t @ NUL # drop (length ?h + length t + 1) ?b) = Some (?h @ upto_char (CHR 0x0A) t @ NUL # r1)"
    using cut_at_string[of "?h @ t" "CHR 0x0A"] head_plain assms(4) by (fastforce simp: upto_char_append)
  have nt: "NUL \<notin> set (?h @ upto_char (CHR 0x0A) t)" using head_plain assms(4) upto_char_set by fastforce
  obtain r2 where r2: "cut_at (CHR 0x0D) (?h @ upto_char (CHR 0x0A) t @ NUL # r1)
      = Some (?h @ upto_char (CHR 0x0D) (upto_char (CHR 0x0A) t) @ NUL # r2)"
    using cut_at_string[OF nt, of "CHR 0x0D" r1] head_plain by (auto simp: upto_char_append)
  have "NUL \<notin> set (?h @ upto_char (CHR 0x0D) (upto_char (CHR 0x0A) t))" using nt upto_char_set by fastforce
  from zstr_prefix[OF this, of r2] have z: "zstr (?h @ upto_char (CHR 0x0D) (upto_char (CHR 0x0A) t) @ NUL # r2)
      = ?h @ upto_char (CHR 0x0D) (upto_char (CHR 0x0A) t)" by simp
  have "vsyslog w pri t l = Some (l\<lparr>datagramm := ?h @ upto_char (CHR 0x0D) (upto_char (CHR 0x0A) t) @ NUL # r2,
      datagrams_sent := datagrams_sent l @ [(sa_logger l, ?h @ upto_char (CHR 0x0D) (upto_char (CHR 0x0A) t))]\<rparr>)"
    by (simp only: vsyslog_open[OF assms(2,3)] b(1) p r1 r2 z bind.bind_lunit) simp
  then show ?thesis using assms(2) by simp
qed

lemma vsyslog_overflow:
  assumes "logger_ok l" and "initialized l" and "LOG_MASK (LOG_PRI pri) AND log_mask l \<noteq> 0" and "NUL \<notin> set t" and "CHR 0x0A \<notin> set t"
    and "datagramm_size l = 1024" and "length (message_head (full_priority pri l)) + length t \<ge> 1024"
    and "length (message_head (full_priority pri l)) < 20"
  shows "vsyslog w pri t l = None"
proof -
  let ?h = "message_head (full_priority pri l)"
  let ?b = "poke (datagramm l) 0 (?h @ [NUL])" and ?u = "take (1024 - length ?h) t"
  have b: "poke_opt (datagramm l) 0 (?h @ [NUL]) = Some ?b" "length ?b = 1024" "take (length ?h) ?b = ?h"
    using assms(1,8) by (auto simp: poke_opt_def poke_def logger_ok_def)
  have p: "vsnprintf ?b (length ?h) (datagramm_size l - int (length ?h)) t = Some (?h @ ?u)"
    using assms(6-8) b by (simp add: vsnprintf_def poke_opt_def poke_def nat_diff_distrib')
  have "\<forall>x\<in>set (?h @ ?u). x \<noteq> CHR 0x0A \<and> x \<noteq> NUL" using head_plain assms(4,5) by (auto dest: in_set_takeD)
  then have "cut_at (CHR 0x0A) (?h @ ?u) = None" by (simp add: cut_at_def Let_def takeWhile_all)
  then show ?thesis by (simp add: vsyslog_open[OF assms(2,3)] b(1) p)
qed

text \<open>C37: an open logger sends each message that passes its mask, with its priority in front and up to the first line break, to its server,
  when it fits; one that fills the array of 1024 characters without a line break is read beyond its end.\<close>

theorem vsyslog_result:
  assumes "logger_reachable l" and "initialized l" and "LOG_MASK (LOG_PRI pri) AND log_mask l \<noteq> 0" and "NUL \<notin> set t"
    and "datagramm_size l \<le> 1024" and "length (message_head (full_priority pri l)) < 20"
  shows "(int (length (message_head (full_priority pri l)) + length t) < datagramm_size l \<longrightarrow>
       (\<exists>l'. vsyslog w pri t l = Some l' \<and> datagrams_sent l' = datagrams_sent l
          @ [(sa_logger l, message_head (full_priority pri l) @ upto_char (CHR 0x0D) (upto_char (CHR 0x0A) t))]))
    \<and> (datagramm_size l = 1024 \<and> length (message_head (full_priority pri l)) + length t \<ge> 1024 \<and> CHR 0x0A \<notin> set t
         \<longrightarrow> vsyslog w pri t l = None)"
  using vsyslog_sends[OF reachable_ok[OF assms(1)] assms(2-5)] vsyslog_overflow[OF reachable_ok[OF assms(1)] assms(2-4)] assms(6) by blast

subsection \<open>The default facility\<close>

lemma openlog_facility:
  assumes "openlog w ident opt facility l = Some l'" and "\<not> initialized l" and "initialized l'"
  shows "syslog_facility l' = facility"
proof -
  obtain l2 where l2: "l' = open_socket w ident facility l2"
    using assms by (auto simp: openlog_def open_done_def Let_def Option.bind_eq_Some_conv split: option.split_asm if_split_asm)
  obtain ok l3 where l3: "bind_loop w 0 l2 = (ok, l3)" by (cases "bind_loop w 0 l2")
  have "syslog_facility l4 = facility" if "open_bound w ident facility l3 = (True, l4)" for l4
    using that by (auto simp: open_bound_def Let_def split: option.split_asm if_split_asm)
  then show ?thesis using l2 l3 assms(3)
    by (auto simp: open_socket_def open_done_def Let_def split: prod.splits if_split_asm)
qed

lemma cut_at_keeps:
  assumes "cut_at c buf = Some b" and "take (length h) buf = h" and "c \<notin> set h" and "NUL \<notin> set h"
  shows "take (length h) b = h"
proof -
  let ?k = "length (takeWhile (\<lambda>x. x \<noteq> c \<and> x \<noteq> NUL) buf)"
  have "takeWhile (\<lambda>x. x \<noteq> c \<and> x \<noteq> NUL) (h @ drop (length h) buf) = h @ takeWhile (\<lambda>x. x \<noteq> c \<and> x \<noteq> NUL) (drop (length h) buf)"
    using assms(3,4) by (intro takeWhile_append2) auto
  moreover have "h @ drop (length h) buf = buf" using assms(2) by (metis append_take_drop_id)
  ultimately have "length h \<le> ?k" by (metis le_add1 length_append)
  moreover have "b = buf[?k := NUL]" using assms(1) by (simp add: cut_at_def Let_def split: if_splits)
  ultimately show ?thesis using assms(2) by simp
qed

lemma zstr_head:
  assumes "take (length h) buf = h" and "NUL \<notin> set h"
  shows "\<exists>t. zstr buf = h @ t"
proof -
  have "buf = h @ drop (length h) buf" using assms(1) by (metis append_take_drop_id)
  then have "zstr buf = takeWhile (\<lambda>c. c \<noteq> NUL) (h @ drop (length h) buf)" by (simp add: zstr_def)
  also have "\<dots> = h @ takeWhile (\<lambda>c. c \<noteq> NUL) (drop (length h) buf)" using assms(2) by (intro takeWhile_append2) auto
  finally show ?thesis by blast
qed

text \<open>C38: the first message without a facility goes out with facility 0, that of the kernel: \<open>LOG_USER\<close>, the default that \<open>openlog\<close>
  sets, is overwritten with the 0 of the call.\<close>

theorem first_message_facility:
  assumes "logger_ok l" and "\<not> initialized l" and "pri AND LOG_FACMASK = 0" and "LOG_MASK (LOG_PRI pri) AND log_mask l \<noteq> 0"
    and "vsyslog w pri t l = Some l'" and "initialized l'"
  shows "syslog_facility l' = 0 \<and> (\<exists>a body. datagrams_sent l' = datagrams_sent l @ [(a, message_head pri @ body)])"
proof -
  obtain l1 where l1: "openlog w None 0 (pri AND LOG_FACMASK) l = Some l1" "initialized l1"
    using assms(4-6) by (auto simp: vsyslog_def Option.bind_eq_Some_conv split: if_split_asm)
  note o = openlog_ok[OF l1(1) assms(1)]
  have f: "syslog_facility l1 = 0" using openlog_facility[OF l1(1) assms(2) l1(2)] assms(3) by simp
  have p: "full_priority pri l1 = pri" using f assms(3) by (simp add: full_priority_def)
  have m: "LOG_MASK (LOG_PRI pri) AND log_mask l1 \<noteq> 0" using o assms(4) by simp
  have v: "vsyslog w pri t l1 = Some l'"
    using l1 assms(2,4,5) o by (simp add: vsyslog_def openlog_def)
  obtain b0 b1 b2 b3 where b: "poke_opt (datagramm l1) 0 (message_head pri @ [NUL]) = Some b0"
    "vsnprintf b0 (length (message_head pri)) (datagramm_size l1 - int (length (message_head pri))) t = Some b1"
    "cut_at (CHR 0x0A) b1 = Some b2" "cut_at (CHR 0x0D) b2 = Some b3"
    "l' = l1\<lparr>datagramm := b3, datagrams_sent := datagrams_sent l1 @ [(sa_logger l1, zstr b3)]\<rparr>"
    using v unfolding vsyslog_open[OF l1(2) m] p by (auto simp: Option.bind_eq_Some_conv split: if_split_asm)
  let ?h = "message_head pri"
  have "take (length ?h) b0 = ?h" using b(1) by (auto simp: poke_opt_def poke_def split: if_split_asm)
  then have "take (length ?h) b1 = ?h" using b(2) by (auto simp: vsnprintf_def poke_opt_def poke_def split: if_split_asm)
  then have "take (length ?h) b3 = ?h" using cut_at_keeps[OF b(3)] cut_at_keeps[OF b(4)] head_plain by blast
  with zstr_head[OF this] head_plain show ?thesis using b(5) o f by auto
qed

subsection \<open>The address\<close>

lemma after_last_append:
  assumes "c \<notin> set s"
  shows "after_last c (d @ c # s) = Suc (length d)" and "after_last c s = 0"
proof -
  have t: "takeWhile (\<lambda>x. x \<noteq> c) (rev s) = rev s" using assms by (intro takeWhile_all) auto
  have "takeWhile (\<lambda>x. x \<noteq> c) (rev s @ c # rev d) = rev s"
    using assms by (subst takeWhile_append2) auto
  then show "after_last c (d @ c # s) = Suc (length d)" by (simp add: after_last_def)
  show "after_last c s = 0" by (simp only: after_last_def t) simp
qed

lemma after_last_le: "after_last c s \<le> length s"
  by (simp add: after_last_def)

lemma after_last_before: "x \<noteq> c \<Longrightarrow> c \<notin> set s \<Longrightarrow> after_last c (d @ x # s) \<le> length d"
proof -
  assume a: "x \<noteq> c" "c \<notin> set s"
  have "takeWhile (\<lambda>y. y \<noteq> c) (rev s @ x # rev d) = rev s @ x # takeWhile (\<lambda>y. y \<noteq> c) (rev d)"
    using a by (subst takeWhile_append2) auto
  then show ?thesis by (simp add: after_last_def)
qed

lemma port_value_nat: "n < 65536 \<Longrightarrow> port_value (show_nat n) = of_nat n"
proof -
  assume n: "n < 65536"
  have dg: "takeWhile is_digit (show_nat n) = show_nat n"
    using show_nat_digits digit_char_is_digit by (fastforce simp: takeWhile_eq_all_conv)
  have hd: "hd (show_nat n) \<noteq> CHR ''-''" "hd (show_nat n) \<noteq> CHR ''+''" "\<not> is_space (hd (show_nat n))" using show_nat_hd by auto
  have isd: "is_digit (hd (show_nat n))"
    using show_nat_digits[of "hd (show_nat n)" n] digit_char_is_digit by fastforce
  have sp: "dropWhile is_space (show_nat n) = show_nat n" using hd(3) by (cases "show_nat n") auto
  have b10: "base_value 10 ds = digits_value ds" if "\<forall>c\<in>set ds. is_digit c" for ds
  proof -
    have "xdigit_value c = of_char c - 48" if "is_digit c" for c
    proof -
      have "(of_char c :: int) \<le> 57" using that by (metis is_digit_def of_nat_le_iff of_nat_numeral of_nat_of_char)
      then show ?thesis by (simp add: xdigit_value_def Let_def)
    qed
    then have "foldl (\<lambda>a c. 10 * a + xdigit_value c) i ds = foldl (\<lambda>a c. 10 * a + (of_char c - 48)) i ds" for i
      using that by (induction ds arbitrary: i) auto
    then show ?thesis by (simp add: base_value_def digits_value_def)
  qed
  have nz: "n = 0 \<or> hd (show_nat n) \<noteq> CHR ''0''"
  proof (induction n rule: show_nat.induct)
    case (1 n)
    have "digit_char n \<noteq> CHR ''0''" if "n < 10" "n \<noteq> 0"
    proof -
      have "(of_char (digit_char n) :: nat) \<noteq> of_char (CHR ''0'')" using that digit_char_code[of n] by simp
      then show ?thesis by auto
    qed
    with 1 show ?case by (subst show_nat.simps) (auto simp: hd_append)
  qed
  have "fst (strtoul0 (show_nat n)) = int n"
  proof (cases "n = 0")
    case True
    have "fst (strtoul0 (show_nat 0)) = 0" by code_simp
    then show ?thesis by (simp only: True of_nat_0)
  next
    case False
    then obtain c s where s: "show_nat n = c # s" "c \<noteq> CHR ''0''" using nz by (cases "show_nat n") auto
    have "strtoul0 (c # s) = (base_value 10 (takeWhile is_digit (c # s)), dropWhile is_digit (c # s))"
      using s(2) by (cases c) (auto simp: strtoul0_def split: bool.split)
    moreover have "base_value 10 (show_nat n) = int n"
      using b10[of "show_nat n"] dg by (simp add: digits_value_show_nat takeWhile_eq_all_conv)
    ultimately show ?thesis using dg s by simp
  qed
  then show ?thesis using sp hd isd n by (simp add: port_value_def Let_def)
qed


text \<open>A program in a directory reads the address of its server from the file \<open>syslog.host\<close> there, the host with or without a port;
  one that was started without a path looks at the character before its name.\<close>

theorem logger_address:
  assumes "set prog \<inter> {bslash, CHR ''/''} = {}" and "length dir < 200" and "length prog < 40"
    and "set host \<inter> {CHR 0x0A, CHR 0x0D, CHR '':''} = {}" and "length host < 200" and "p < 65536" and "gethostbyname w host = Some a"
    and "file_text w (dir @ bslash # ''syslog.host'') = Some (host @ port_text @ [CHR 0x0A])"
    and "port_text = [] \<or> port_text = CHR '':'' # show_nat p"
    and "syslog_conf_dir l = ''.''"
  shows "(argv0 w = dir @ bslash # prog \<longrightarrow>
      init_logger_addr w l = Some (l\<lparr>sa_logger := (a, if port_text = [] then 514 else of_nat p)\<rparr>))
    \<and> (argv0 w = prog \<longrightarrow> init_logger_addr w l = None)"
proof -
  have np: "bslash \<notin> set prog" "CHR ''/'' \<notin> set prog" using assms(1) by auto
  have b: "bslash \<noteq> CHR ''/''" "bslash \<noteq> CHR ''.''" "CHR ''.'' \<noteq> bslash" by (simp_all add: bslash_def)
  have al: "after_last bslash (dir @ bslash # prog) = Suc (length dir)" "after_last (CHR ''/'') (dir @ bslash # prog) \<le> length dir"
    using after_last_append(1)[OF np(1)] after_last_before[OF b(1) np(2)] by auto
  have pd: "program_dir (dir @ bslash # prog) = dir @ [bslash]" using al by (simp add: program_dir_def Let_def)
  have pn: "program_dir prog = []" using after_last_append(2)[OF np(1)] after_last_append(2)[OF np(2)] by (simp add: program_dir_def)
  have path: "conf_file (dir @ bslash # prog) ''.'' = Some (dir @ bslash # ''syslog.host'')" "conf_file prog ''.'' = None"
    using assms(2,3) by (simp_all add: conf_file_def pd pn b Let_def)
  have nh: "CHR 0x0A \<notin> set host" "CHR 0x0D \<notin> set host" "CHR '':'' \<notin> set host" using assms(4) by auto
  have nd: "c \<notin> set (show_nat p)" if "\<not> is_digit c" for c using that digit_char_is_digit by (auto dest!: show_nat_digits)
  have nt: "CHR 0x0A \<notin> set port_text" "CHR 0x0D \<notin> set port_text"
    using assms(9) nd[of "CHR 0x0A"] nd[of "CHR 0x0D"] by (auto simp: is_digit_def)
  have lp: "length port_text \<le> 6" using assms(6,9) length_show_nat[of p 5] by auto
  have line: "first_line (host @ port_text @ [CHR 0x0A]) = host @ port_text @ [CHR 0x0A]"
    using nh(1) nt(1) lp assms(5) by (simp add: first_line_def upto_char_append) (simp add: upto_char_def)
  have host: "upto_char (CHR 0x0D) (upto_char (CHR 0x0A) (host @ port_text @ [CHR 0x0A])) = host @ port_text"
    using nh nt by (simp add: upto_char_append) (simp add: upto_char_def)
  have name: "upto_char (CHR '':'') (host @ port_text) = host"
    using nh(3) assms(9) by (auto simp: upto_char_append) (simp_all add: upto_char_def)
  have "read_addr w (dir @ bslash # ''syslog.host'') = (a, if port_text = [] then 514 else of_nat p)"
    using assms(9) nh(3) port_value_nat[OF assms(6)] assms(7)
    by (auto simp: read_addr_def assms(8) line host name Let_def SYSLOG_PORT_def)
  then show ?thesis using assms(10) by (simp add: init_logger_addr_def path)
qed

subsection \<open>A computer\<close>

definition sample_sys :: winsys where
  "sample_sys = \<lparr>argv0 = ''osc'' @ bslash # ''shell.exe'', process_id = 4, computer_name = Some ''pc'', wsa_starts = True,
     file_text = \<lambda>f. Some (''loghost:80'' @ [CHR 0x0A]), gethostbyname = \<lambda>n. Some 0x0A000001, new_socket = \<lambda>n. 7, bind_ok = \<lambda>s. True,
     max_msg_size = \<lambda>s. Some 65507, atexit_ok = True\<rparr>"

theorem logger_address_witness:
  "init_logger_addr sample_sys logger0 = Some (logger0\<lparr>sa_logger := (0x0A000001, 80)\<rparr>)"
proof -
  have p: "show_nat 80 = ''80''" by code_simp
  have f: "file_text sample_sys (''osc'' @ bslash # ''syslog.host'') = Some (''loghost'' @ (CHR '':'' # show_nat 80) @ [CHR 0x0A])"
    by (simp add: sample_sys_def p)
  have i: "argv0 sample_sys = ''osc'' @ bslash # ''shell.exe''" "gethostbyname sample_sys ''loghost'' = Some 0x0A000001"
    "syslog_conf_dir logger0 = ''.''" by (simp_all add: sample_sys_def logger0_def)
  have s: "set ''shell.exe'' \<inter> {bslash, CHR ''/''} = {}" "set ''loghost'' \<inter> {CHR 0x0A, CHR 0x0D, CHR '':''} = {}"
    by (simp_all add: bslash_def)
  note logger_address[where p = 80, OF s(1) _ _ s(2) _ _ i(2) f _ i(3)]
  then have "argv0 sample_sys = ''osc'' @ bslash # ''shell.exe'' \<longrightarrow> init_logger_addr sample_sys logger0
      = Some (logger0\<lparr>sa_logger := (0x0A000001, if CHR '':'' # show_nat 80 = [] then 514 else of_nat 80)\<rparr>)" by simp
  then show ?thesis using i(1) by simp
qed

definition sample_logger :: logger where
  "sample_logger = logger0\<lparr>initialized := True, sa_logger := (0x0A000001, 80), log_sock := 7,
    local_hostname := ''pc'', datagramm_size := 1024, socket_calls := 1, open_sockets := [7], wsa_count := 1\<rparr>"

lemma sample_open: "openlog sample_sys None 0 0 logger0 = Some sample_logger"
proof -
  have a: "read_addr sample_sys (''osc'' @ bslash # ''syslog.host'') = (0x0A000001, 80)" by code_simp
  have c: "conf_file (''osc'' @ bslash # ''shell.exe'') ''.'' = Some (''osc'' @ bslash # ''syslog.host'')" by code_simp
  have i: "argv0 sample_sys = ''osc'' @ bslash # ''shell.exe''" by (simp add: sample_sys_def)
  have ia: "init_logger_addr sample_sys l = Some (l\<lparr>sa_logger := (0x0A000001, 80)\<rparr>)" if "syslog_conf_dir l = ''.''" for l
    unfolding init_logger_addr_def that i c by (simp only: bind.bind_lunit a)
  have s: "computer_name sample_sys = Some ''pc''" "wsa_starts sample_sys" "new_socket sample_sys n = 7" "bind_ok sample_sys x"
    "max_msg_size sample_sys x = Some 65507" "atexit_ok sample_sys" for n x by (simp_all add: sample_sys_def)
  show ?thesis
    by (simp add: openlog_def sample_logger_def logger0_def ia s open_socket_def bind_loop.simps open_bound_def open_done_def INVALID_SOCKET_def Let_def)
qed

theorem logger_sockets_witness:
  "open_sockets sample_logger = [7]"
  using logger_sockets[OF logger_reachable.openlog[OF logger_reachable.start sample_open]] by (simp add: sample_logger_def)

theorem vsyslog_result_witness:
  "\<exists>l'. vsyslog sample_sys 14 (''hi'' @ [CHR 0x0A]) sample_logger = Some l' \<and> datagrams_sent l' = [((0x0A000001, 80), ''<14>hi'')]"
proof -
  have f: "fmt_d 14 = ''14''" by code_simp
  have b: "14 AND LOG_FACMASK \<noteq> 0" "LOG_MASK (LOG_PRI 14) AND 0xFF \<noteq> 0" by code_simp+
  have p: "full_priority 14 sample_logger = 14" using b(1) by (simp add: full_priority_def)
  have r: "logger_reachable sample_logger" by (rule logger_reachable.openlog[OF logger_reachable.start sample_open])
  have h: "message_head (full_priority 14 sample_logger) = ''<14>''" by (simp add: p message_head_def f)
  have g: "initialized sample_logger" "datagramm_size sample_logger = 1024" "log_mask sample_logger = 0xFF" "datagrams_sent sample_logger = []"
    "sa_logger sample_logger = (0x0A000001, 80)" by (simp_all add: sample_logger_def logger0_def)
  from vsyslog_result[OF r, of 14 "''hi'' @ [CHR 0x0A]" sample_sys] b(2) show ?thesis
    by (simp add: h g) (simp add: upto_char_def)
qed

theorem first_message_facility_witness:
  "\<exists>l'. vsyslog sample_sys 6 ''hello'' logger0 = Some l' \<and> (\<exists>a body. datagrams_sent l' = [(a, message_head 6 @ body)])"
proof -
  have k: "logger_ok logger0" "\<not> initialized logger0" by (simp_all add: logger_ok_def logger0_def)
  have b: "6 AND LOG_FACMASK = 0" "LOG_MASK (LOG_PRI 6) AND log_mask logger0 \<noteq> 0" by code_simp+
  have f: "fmt_d 6 = ''6''" by code_simp
  have p: "full_priority 6 sample_logger = 6" using b(1) by (simp add: full_priority_def sample_logger_def logger0_def)
  have h: "message_head (full_priority 6 sample_logger) = ''<6>''" by (simp add: p message_head_def f)
  have g: "initialized sample_logger" "datagramm_size sample_logger = 1024" "log_mask sample_logger = 0xFF" "log_mask logger0 = 0xFF"
    by (simp_all add: sample_logger_def logger0_def)
  have "\<exists>l'. vsyslog sample_sys 6 ''hello'' sample_logger = Some l' \<and> initialized l'"
    using vsyslog_sends[of sample_logger 6 "''hello''" sample_sys] b(2) reachable_ok[OF logger_reachable.openlog[OF logger_reachable.start sample_open]]
    by (auto simp: h g)
  moreover have "vsyslog sample_sys 6 ''hello'' logger0 = vsyslog sample_sys 6 ''hello'' sample_logger"
    using b sample_open by (simp add: vsyslog_def openlog_def sample_logger_def logger0_def)
  ultimately have "\<exists>l'. vsyslog sample_sys 6 ''hello'' logger0 = Some l' \<and> initialized l'" by simp
  then show ?thesis using first_message_facility[OF k b] by (fastforce simp: logger0_def)
qed

end
