(* ===== verification/OscDb.thy ===== *)
theory OscDb
  imports OleDb Syslog
begin

text \<open>
  The database client of the Windows programs, \<^verbatim>\<open>OSCShell/db_mysql.cpp\<close>: the access records, the commands that are allowed, the
  queries for names, ports and keys, over MySQL or, through \<^verbatim>\<open>OleDbAccess\<close>, over Oracle and DB2. The structures are those of
  \<^verbatim>\<open>include/db_table.h\<close>.

  The arrays of the callers are lists of their characters, so what does not fit is a fault; the fields of structures are strings whose
  sizes are tested. A column of MySQL that is NULL is a fault where the code copies it. Messages to the log of the program and the
  waiting between two tries are left out.
\<close>

subsection \<open>The client\<close>

record STRUCT_DBCONNECT =
  dbType :: cstring
  dbHost :: cstring
  dbUser :: cstring
  dbPwd :: cstring
  dbName :: cstring
  dbPort :: int

text \<open>\<open>OleDb\<close> is \<open>None\<close> for a NULL pointer. \<open>trace\<close> is what was sent to the database.\<close>

record db_mysql =
  isMySql :: bool
  dbconn :: STRUCT_DBCONNECT
  OleDb :: "COleDbAccess option"
  trace :: "event list"

text \<open>What is outside: the servers, whether connections succeed, and \<open>CTime\<close>, which goes 30 seconds back.\<close>

record dbworld =
  mysql_srv :: "event list \<Rightarrow> cstring \<Rightarrow> db_reply"
  ole_srv :: ole_server
  mysql_real_connect :: "cstring \<Rightarrow> cstring \<Rightarrow> cstring \<Rightarrow> cstring \<Rightarrow> int \<Rightarrow> bool"
  ado_open :: "cstring \<Rightarrow> bool"
  minus_30s :: "int list \<Rightarrow> int list"

definition new_db_mysql :: "STRUCT_DBCONNECT \<Rightarrow> db_mysql" where
  "new_db_mysql conn =
     \<lparr>isMySql = (dbType conn = [] \<or> dbType conn = ''MYSQL''), dbconn = conn, OleDb = None, trace = []\<rparr>"

text \<open>\<open>mysql_real_query\<close>: 0 for success; a failure is some other number, here 1.\<close>

definition real_query :: "dbworld \<Rightarrow> cstring \<Rightarrow> db_mysql \<Rightarrow> int \<times> db_mysql" where
  "real_query w sql db =
     (if mysql_srv w (trace db) sql = Query_error then 1 else 0, db\<lparr>trace := trace db @ [Sql sql]\<rparr>)"

text \<open>A query whose result is stored and counted without a test; a result that could not be stored is a fault. \<open>None\<close> stands for
  the query that failed.\<close>

definition select_rows :: "dbworld \<Rightarrow> cstring \<Rightarrow> db_mysql \<Rightarrow> (row list option \<times> db_mysql) option" where
  "select_rows w sql db =
     (let db' = db\<lparr>trace := trace db @ [Sql sql]\<rparr>
      in case mysql_srv w (trace db) sql of
           Query_error \<Rightarrow> Some (None, db')
         | Store_error \<Rightarrow> None
         | Rows rows \<Rightarrow> Some (Some rows, db'))"

definition ole_query :: "dbworld \<Rightarrow> cstring \<Rightarrow> cstring list \<Rightarrow> 'h callback \<Rightarrow> 'h \<Rightarrow> db_mysql \<Rightarrow> (('h \<times> int) option \<times> db_mysql) option" where
  "ole_query w sql cols func handle db =
     do {
       b \<leftarrow> OleDb db;
       (r, ev) \<leftarrow> oleDb_Query (ole_srv w) b sql cols func handle (trace db);
       Some (r, db\<lparr>trace := ev\<rparr>)
     }"

text \<open>One statement, or some in a transaction, over \<open>OleDb\<close>: 0, or \<open>err\<close>.\<close>

definition ole_update :: "dbworld \<Rightarrow> cstring \<Rightarrow> int \<Rightarrow> db_mysql \<Rightarrow> (int \<times> db_mysql) option" where
  "ole_update w sql err db =
     do {
       b \<leftarrow> OleDb db;
       let (ok, ev) = oleDb_OneUpdate (ole_srv w) b sql (trace db);
       Some (if ok then 0 else err, db\<lparr>trace := ev\<rparr>)
     }"

definition ole_update_array :: "dbworld \<Rightarrow> cstring list \<Rightarrow> int \<Rightarrow> db_mysql \<Rightarrow> (int \<times> db_mysql) option" where
  "ole_update_array w sqls err db =
     do {
       b \<leftarrow> OleDb db;
       let (ok, ev) = oleDb_UpdateArray (ole_srv w) b sqls True (trace db);
       Some (if ok then 0 else err, db\<lparr>trace := ev\<rparr>)
     }"

text \<open>Queries over \<open>OleDb\<close> that are repeated, at most \<open>n\<close> times, until there is a record: the number of records, or -1 and no handle.\<close>

fun ole_retry :: "nat \<Rightarrow> dbworld \<Rightarrow> cstring \<Rightarrow> cstring list \<Rightarrow> 'h callback \<Rightarrow> 'h \<Rightarrow> db_mysql \<Rightarrow> (int \<times> 'h option \<times> db_mysql) option" where
  "ole_retry 0 w sql cols func h db = Some (0, None, db)"
| "ole_retry (Suc n) w sql cols func h db =
     do {
       (r, db) \<leftarrow> ole_query w sql cols func h db;
       (case r of
          None \<Rightarrow> Some (-1, None, db)
        | Some (h', k) \<Rightarrow> if k > 0 then Some (k, Some h', db) else ole_retry n w sql cols func h db)
     }"

definition put_str :: "cstring \<Rightarrow> nat \<Rightarrow> cstring \<Rightarrow> cstring option" where
  "put_str buf off s = poke_opt buf off (s @ [NUL])"

definition fitting :: "nat \<Rightarrow> cstring \<Rightarrow> cstring option" where
  "fitting n s = (if length s < n then Some s else None)"

definition conndb :: "dbworld \<Rightarrow> db_mysql \<Rightarrow> (int \<times> db_mysql) option" where
  "conndb w db =
     (let c = dbconn db
      in if \<not> isMySql db then
           do {
             (ok, c) \<leftarrow> oleDb_Open (ado_open w) (dbType c) (dbHost c) (dbName c) (dbPort c) (dbUser c) (dbPwd c);
             Some (if ok then 0 else -1, db\<lparr>OleDb := Some c\<rparr>)
           }
         else if \<not> mysql_real_connect w (dbHost c) (dbUser c) (dbPwd c) (dbName c) (dbPort c) then Some (-1, db)
         else Some (0, snd (real_query w (''set names '' @ qs ''gbk'') db)))"

definition autocommit :: "dbworld \<Rightarrow> bool \<Rightarrow> db_mysql \<Rightarrow> int \<times> db_mysql" where
  "autocommit w flag db = real_query w (if \<not> flag then ''SET AUTOCOMMIT = 0;'' else ''SET AUTOCOMMIT = 1;'') db"

definition db_commit :: "dbworld \<Rightarrow> db_mysql \<Rightarrow> int \<times> db_mysql" where
  "db_commit w db = real_query w ''COMMIT;'' db"

definition db_rollback :: "dbworld \<Rightarrow> db_mysql \<Rightarrow> int \<times> db_mysql" where
  "db_rollback w db = real_query w ''ROLLBACK;'' db"

subsection \<open>Times\<close>

record STRUCT_TIMEAUTH =
  timeFlag :: cstring
  startTime :: cstring
  endTime :: cstring
  resetPwdTime :: cstring

definition TransTimeAuth :: "STRUCT_TIMEAUTH callback" where
  "TransTimeAuth name val t =
     (case val of
        None \<Rightarrow> Some t
      | Some v \<Rightarrow>
          if name = ''pr_endTime'' then do { v \<leftarrow> fitting 21 v; Some (t\<lparr>endTime := v\<rparr>) }
          else if name = ''pr_resetPwdTime'' then do { v \<leftarrow> fitting 21 v; Some (t\<lparr>resetPwdTime := v\<rparr>) }
          else if name = ''pr_timeFlag'' then do { v \<leftarrow> fitting 5 v; Some (t\<lparr>timeFlag := v\<rparr>) }
          else Some t)"

text \<open>The columns of the row by their number; an empty or missing one leaves its field.\<close>

fun time_columns :: "nat \<Rightarrow> row \<Rightarrow> STRUCT_TIMEAUTH \<Rightarrow> STRUCT_TIMEAUTH option" where
  "time_columns k [] t = Some t"
| "time_columns k (c # cs) t =
     do {
       t \<leftarrow> (case c of
               None \<Rightarrow> Some t
             | Some v \<Rightarrow>
                 if v = [] then Some t
                 else if k = 0 then do { v \<leftarrow> fitting 21 v; Some (t\<lparr>endTime := v\<rparr>) }
                 else if k = 1 then do { v \<leftarrow> fitting 21 v; Some (t\<lparr>resetPwdTime := v\<rparr>) }
                 else if k = 2 then do { v \<leftarrow> fitting 5 v; Some (t\<lparr>timeFlag := v\<rparr>) }
                 else Some t);
       time_columns (k + 1) cs t
     }"

definition DBQueryTimeAuth :: "dbworld \<Rightarrow> STRUCT_TIMEAUTH option \<Rightarrow> cstring \<Rightarrow> db_mysql \<Rightarrow> (int \<times> STRUCT_TIMEAUTH option \<times> db_mysql) option" where
  "DBQueryTimeAuth w handle pr_id db =
     (case handle of
        None \<Rightarrow> Some (-1, None, db)
      | Some t \<Rightarrow> do {
          sql \<leftarrow> fitting 2048 (''select pr_endTime,pr_resetPwdTime,pr_timeFlag from pr_AuthAccessRes where pr_id='' @ qs pr_id);
          (if \<not> isMySql db then do {
             (r, db) \<leftarrow> ole_query w sql [''pr_endTime'', ''pr_resetPwdTime'', ''pr_timeFlag''] TransTimeAuth t db;
             Some (case r of None \<Rightarrow> (-1, Some t, db) | Some (t, n) \<Rightarrow> (n, Some t, db))
           }
           else do {
             (r, db) \<leftarrow> select_rows w sql db;
             (case r of
                None \<Rightarrow> Some (-1, Some t, db)
              | Some [] \<Rightarrow> Some (0, Some t, db)
              | Some (row # rows) \<Rightarrow> do { t \<leftarrow> time_columns 0 row t; Some (1 + int (length rows), Some t, db) })
           })
        })"

definition TransProxyHostTime :: "cstring callback" where
  "TransProxyHostTime name val buf =
     (case val of None \<Rightarrow> Some buf | Some v \<Rightarrow> if name = ''pr_updateTime'' then put_str buf 0 v else Some buf)"

definition proxy_time_sql :: "cstring \<Rightarrow> cstring" where
  "proxy_time_sql pr_id =
     ''select pr_updateTime from pr_proxy_status where pr_hostid = (select pr_id from pr_proxyhost where pr_address = (select pr_proxyhost from pr_authaccessres where pr_id = ''
     @ qs pr_id @ ''))''"

definition DBQueryProxyHostTime :: "dbworld \<Rightarrow> cstring option \<Rightarrow> cstring \<Rightarrow> db_mysql \<Rightarrow> (int \<times> cstring option \<times> db_mysql) option" where
  "DBQueryProxyHostTime w proxyTime pr_id db =
     (case proxyTime of
        None \<Rightarrow> Some (-1, None, db)
      | Some buf \<Rightarrow> do {
          checkSql \<leftarrow> fitting 1024 (''select * from pr_authaccessres where pr_id = '' @ qs pr_id);
          sql \<leftarrow> fitting 1024 (proxy_time_sql pr_id);
          (if \<not> isMySql db then do {
             (r, db) \<leftarrow> ole_query w sql [''pr_updateTime''] TransProxyHostTime buf db;
             Some (case r of None \<Rightarrow> (0, Some buf, db) | Some (buf, n) \<Rightarrow> (n, Some buf, db))
           }
           else do {
             (r, db) \<leftarrow> select_rows w checkSql db;
             (if r = None \<or> r = Some [] then Some (-1, Some buf, db)
              else do {
                (r, db) \<leftarrow> select_rows w sql db;
                (case r of
                   None \<Rightarrow> Some (-1, Some buf, db)
                 | Some [] \<Rightarrow> Some (0, Some buf, db)
                 | Some (row # rows) \<Rightarrow> do {
                     c \<leftarrow> nth_opt row 0;
                     v \<leftarrow> c;
                     buf \<leftarrow> put_str buf 0 v;
                     Some (1 + int (length rows), Some buf, db)
                   })
              })
           })
        })"

subsection \<open>Access records\<close>

text \<open>
  \<open>STRUCT_AUTHACCESSRES\<close> consists of arrays of characters only and is used as one array of 2279 characters, in which the fields follow
  each other as the columns do; the first 27 of them are \<open>STRUCT_ACCESSAUTH\<close>.
\<close>

definition auth_fields :: "cstring list" where
  "auth_fields =
    [''pr_id'', ''pr_userId'', ''pr_uid'', ''pr_userName'', ''pr_resId'', ''pr_resAddr'',
     ''pr_resName'', ''pr_resType'', ''pr_resVersion'', ''pr_accountId'', ''pr_accountNo'', ''pr_accountType'',
     ''pr_accountPwd'', ''pr_suFlag'', ''pr_ssoFlag'', ''pr_auditFlag'', ''pr_auditType'', ''pr_cmdFlag'',
     ''pr_clientAddr'', ''pr_apId'', ''pr_accessType'', ''pr_accountNoEx'', ''pr_accountPwdEx'', ''pr_domainName'',
     ''pr_screenWidth'', ''pr_screenHeight'', ''pr_proxyAddr'', ''pr_timeFlag'', ''pr_startTime'', ''pr_endTime'',
     ''pr_resetPwdTime'', ''pr_execApp'', ''pr_execParam'', ''pr_proxyHost'', ''pr_proxyPort'']"

definition fieldsLen :: "nat list" where
  "fieldsLen =
    [33, 33, 33, 51, 33, 21, 51, 21, 21, 33, 21, 5, 300, 5, 5, 5, 5, 5, 21, 33,
     5, 21, 300, 61, 6, 6, 21, 5, 21, 21, 21, 513, 513, 20, 10]"

text \<open>What the code reads from a field: the string that starts there.\<close>

definition auth_field :: "cstring \<Rightarrow> nat \<Rightarrow> cstring" where
  "auth_field a i = zstr (drop (sum_list (take i fieldsLen)) a)"

fun put_field :: "cstring list \<Rightarrow> nat list \<Rightarrow> nat \<Rightarrow> cstring \<Rightarrow> cstring \<Rightarrow> cstring \<Rightarrow> cstring option" where
  "put_field (f # fs) (n # ns) offset name v a =
     (if f = name then put_str a offset v else put_field fs ns (offset + n) name v a)"
| "put_field _ _ offset name v a = Some a"

definition TransAuthAccessRes :: "cstring callback" where
  "TransAuthAccessRes name val a =
     (case val of None \<Rightarrow> Some a | Some v \<Rightarrow> put_field auth_fields fieldsLen 0 name v a)"

text \<open>The columns of a row of MySQL: an empty or missing one clears its field.\<close>

fun fill_fields :: "nat list \<Rightarrow> row \<Rightarrow> nat \<Rightarrow> cstring \<Rightarrow> cstring option" where
  "fill_fields ns [] offset a = Some a"
| "fill_fields [] (c # cs) offset a = None"
| "fill_fields (n # ns) (c # cs) offset a =
     do {
       a \<leftarrow> (case c of
               Some (x # xs) \<Rightarrow> put_str a offset (x # xs)
             | _ \<Rightarrow> poke_opt a offset (replicate n NUL));
       fill_fields ns cs (offset + n) a
     }"

definition comma_list :: "cstring list \<Rightarrow> cstring" where
  "comma_list fs = concat (map (\<lambda>f. CHR '','' # f) (tl fs))"

definition auth_select :: "cstring \<Rightarrow> cstring" where
  "auth_select pr_id = ''select '' @ hd auth_fields @ comma_list auth_fields @ '' from pr_AuthAccessRes where pr_id='' @ qs pr_id"

definition auth_delete :: "cstring \<Rightarrow> cstring" where
  "auth_delete pr_id = ''delete from pr_AuthAccessRes where pr_id='' @ qs pr_id"

definition limit_delete :: "cstring \<Rightarrow> cstring" where
  "limit_delete pr_id = ''delete from pr_AuthAccessLimit where pr_arId='' @ qs pr_id"

definition DBExecAuthAccessRes :: "dbworld \<Rightarrow> cstring option \<Rightarrow> int \<Rightarrow> db_mysql \<Rightarrow> (int \<times> cstring option \<times> db_mysql) option" where
  "DBExecAuthAccessRes w handle flag db =
     (case handle of
        None \<Rightarrow> Some (-1, None, db)
      | Some a \<Rightarrow>
          let pr_id = auth_field a 0
          in do {
            sql \<leftarrow> fitting 2048 (if flag = 0 then auth_select pr_id else auth_delete pr_id);
            (if \<not> isMySql db then
               if flag = 0 then do {
                 (r, db) \<leftarrow> ole_query w sql auth_fields TransAuthAccessRes a db;
                 Some (case r of None \<Rightarrow> (-1, Some a, db) | Some (a, n) \<Rightarrow> (n, Some a, db))
               }
               else do {
                 sql2 \<leftarrow> fitting 2048 (limit_delete pr_id);
                 (rc, db) \<leftarrow> ole_update_array w [sql, sql2] (-1) db;
                 Some (rc, Some a, db)
               }
             else if flag \<noteq> 0 then
               let (rc, db) = real_query w sql db
               in if rc \<noteq> 0 then Some (-1, Some a, db)
                  else do {
                    sql2 \<leftarrow> fitting 2048 (limit_delete pr_id);
                    let (rc, db) = real_query w sql2 db;
                    Some (if rc \<noteq> 0 then -1 else 0, Some a, db)
                  }
             else do {
               (r, db) \<leftarrow> select_rows w sql db;
               (case r of
                  None \<Rightarrow> Some (-1, Some a, db)
                | Some [] \<Rightarrow> Some (0, Some a, db)
                | Some (row # rows) \<Rightarrow> do { a \<leftarrow> fill_fields fieldsLen row 0 a; Some (1 + int (length rows), Some a, db) })
             })
          })"

definition DBQueryAuthAccessRes :: "dbworld \<Rightarrow> cstring option \<Rightarrow> db_mysql \<Rightarrow> (int \<times> cstring option \<times> db_mysql) option" where
  "DBQueryAuthAccessRes w handle db = DBExecAuthAccessRes w handle 0 db"

subsection \<open>The file of commands\<close>

record STRUCT_AUTHACCESSLIMIT =
  lim_cmdFlag :: int
  lim_level :: int
  lim_command :: cstring

definition limit0 :: STRUCT_AUTHACCESSLIMIT where
  "limit0 = \<lparr>lim_cmdFlag = 0, lim_level = 0, lim_command = []\<rparr>"

text \<open>The four bytes of an \<open>int\<close> and the byte of a \<open>char\<close>.\<close>

definition int_bytes :: "int \<Rightarrow> cstring" where
  "int_bytes i = map (\<lambda>k. char_of (nat (i div 256 ^ k mod 256))) [0..<4]"

definition char_byte :: "int \<Rightarrow> char" where
  "char_byte i = char_of (nat (i mod 256))"

text \<open>The file is the list of what was written to it, \<open>None\<close> when it is not open.\<close>

definition writeData :: "cstring \<Rightarrow> cstring option \<Rightarrow> cstring option" where
  "writeData str stream = map_option (\<lambda>t. t @ str) stream"

text \<open>The length of the used part of the structure (its size is 202, that of the command 200) and that part.\<close>

definition write_limit :: "STRUCT_AUTHACCESSLIMIT \<Rightarrow> cstring option \<Rightarrow> cstring option" where
  "write_limit l stream =
     writeData (char_byte (lim_cmdFlag l) # char_byte (lim_level l) # lim_command l)
       (writeData (int_bytes (int (202 - 200 + length (lim_command l)))) stream)"

definition TransAuthAccessLimit :: "(STRUCT_AUTHACCESSLIMIT \<times> cstring option) callback" where
  "TransAuthAccessLimit name val h =
     (case h of (l, stream) \<Rightarrow>
        (case val of
           None \<Rightarrow> Some (l, stream)
         | Some v \<Rightarrow>
             if name = ''pr_command'' then do { v \<leftarrow> fitting 200 v; Some (l\<lparr>lim_command := v\<rparr>, stream) }
             else if name = ''pr_cmdFlag'' then Some (l\<lparr>lim_cmdFlag := atoi v\<rparr>, stream)
             else if name = ''pr_level'' then Some (limit0, write_limit (l\<lparr>lim_level := atoi v\<rparr>) stream)
             else Some (l, stream)))"

fun limit_columns :: "nat \<Rightarrow> row \<Rightarrow> STRUCT_AUTHACCESSLIMIT \<Rightarrow> STRUCT_AUTHACCESSLIMIT option" where
  "limit_columns k [] l = Some l"
| "limit_columns k (c # cs) l =
     do {
       l \<leftarrow> (case c of
               None \<Rightarrow> Some l
             | Some v \<Rightarrow>
                 if v = [] then Some l
                 else if k = 0 then do { v \<leftarrow> fitting 200 v; Some (l\<lparr>lim_command := v\<rparr>) }
                 else if k = 1 then do { v \<leftarrow> fitting 2048 v; Some (l\<lparr>lim_cmdFlag := atoi v\<rparr>) }
                 else if k = 2 then do { v \<leftarrow> fitting 2048 v; Some (l\<lparr>lim_level := atoi v\<rparr>) }
                 else Some l);
       limit_columns (k + 1) cs l
     }"

fun limit_rows :: "row list \<Rightarrow> int \<Rightarrow> cstring option \<Rightarrow> (int \<times> cstring option) option" where
  "limit_rows [] recordNum stream = Some (recordNum, stream)"
| "limit_rows (row # rows) recordNum stream =
     do {
       l \<leftarrow> limit_columns 0 row limit0;
       (if lim_command l = [] then limit_rows rows recordNum stream
        else limit_rows rows (recordNum + 1) (write_limit l stream))
     }"

definition limit_select :: "cstring \<Rightarrow> cstring" where
  "limit_select pr_id = ''select pr_command,pr_cmdFlag,pr_level from pr_AuthAccessLimit where pr_arId='' @ qs pr_id"

definition DBQueryAuthAccessLimit :: "dbworld \<Rightarrow> cstring option \<Rightarrow> cstring option \<Rightarrow> db_mysql \<Rightarrow> (int \<times> cstring option \<times> db_mysql) option" where
  "DBQueryAuthAccessLimit w handle stream db =
     (case handle of
        None \<Rightarrow> Some (-1, stream, db)
      | Some a \<Rightarrow>
          let stream = writeData (take 1155 a) stream
          in do {
            sql \<leftarrow> fitting 2048 (limit_select (auth_field a 0));
            (if \<not> isMySql db then do {
               (r, db) \<leftarrow> ole_query w sql [''pr_command'', ''pr_cmdFlag'', ''pr_level''] TransAuthAccessLimit (limit0, stream) db;
               (case r of
                  None \<Rightarrow> Some (-1, stream, db)
                | Some ((l, stream), n) \<Rightarrow> Some (n, stream, db))
             }
             else do {
               (r, db) \<leftarrow> select_rows w sql db;
               (case r of
                  None \<Rightarrow> Some (-1, stream, db)
                | Some rows \<Rightarrow> do { (n, stream) \<leftarrow> limit_rows rows 0 stream; Some (n, stream, db) })
             })
          })"

text \<open>What is in the file when it is closed; \<open>opened\<close> says whether \<open>fopen\<close> succeeded.\<close>

definition writeAuthData :: "dbworld \<Rightarrow> bool \<Rightarrow> cstring option \<Rightarrow> db_mysql \<Rightarrow> (cstring option \<times> db_mysql) option" where
  "writeAuthData w opened handle db =
     do {
       (n, stream, db) \<leftarrow> DBQueryAuthAccessLimit w handle (if opened then Some [] else None) db;
       Some (stream, db)
     }"

end
