(* ===== verification/OscQuery.thy ===== *)
theory OscQuery
  imports OscDb
begin

text \<open>
  The queries of \<^verbatim>\<open>OSCShell/db_mysql.cpp\<close> for single values: names, keys, sessions, the number of a login, ports, the names of databases
  and services (lines 311 to 381, 703 to 980, 1043 to 1093 and 1464 to 1687).
\<close>

subsection \<open>What the queries share\<close>

text \<open>The first column of a row, which the code copies without a test for NULL, or with one.\<close>

definition copy_first :: "row \<Rightarrow> cstring \<Rightarrow> cstring option" where
  "copy_first row buf = do { c \<leftarrow> nth_opt row 0; v \<leftarrow> c; put_str buf 0 v }"

definition copy_first_if :: "row \<Rightarrow> cstring \<Rightarrow> cstring option" where
  "copy_first_if row buf =
     do { c \<leftarrow> nth_opt row 0; (case c of None \<Rightarrow> Some buf | Some v \<Rightarrow> put_str buf 0 v) }"

text \<open>The first row of an answer of MySQL, with 2, 3 and 4 for no answer, no result and no row.\<close>

definition first_row_code :: "dbworld \<Rightarrow> cstring \<Rightarrow> (row \<Rightarrow> 'a \<Rightarrow> 'a option) \<Rightarrow> 'a \<Rightarrow> db_mysql \<Rightarrow> (int \<times> 'a \<times> db_mysql) option" where
  "first_row_code w sql f out db =
     (let db' = db\<lparr>trace := trace db @ [Sql sql]\<rparr>
      in case mysql_srv w (trace db) sql of
           Query_error \<Rightarrow> Some (2, out, db')
         | Store_error \<Rightarrow> Some (3, out, db')
         | Rows [] \<Rightarrow> Some (4, out, db')
         | Rows (row # _) \<Rightarrow> do { out \<leftarrow> f row out; Some (0, out, db') })"

text \<open>A callback for one field that is copied into an array.\<close>

definition text_callback :: "cstring \<Rightarrow> cstring callback" where
  "text_callback field name val buf =
     (case val of None \<Rightarrow> Some buf | Some v \<Rightarrow> if name = field then put_str buf 0 v else Some buf)"

definition TransDBQueryLoginlogId :: "cstring callback" where
  "TransDBQueryLoginlogId = text_callback ''pr_id''"

definition TransDBQueryLocalLang :: "cstring callback" where
  "TransDBQueryLocalLang = text_callback ''pr_locallang''"

definition TransDBQueryResName :: "cstring callback" where
  "TransDBQueryResName = text_callback ''pr_name''"

definition zeros :: "nat \<Rightarrow> cstring" where
  "zeros n = replicate n NUL"

subsection \<open>Requests and keys\<close>

definition TransDBQueryResPR :: "(cstring \<times> cstring) callback" where
  "TransDBQueryResPR name val h =
     (case val of
        None \<Rightarrow> Some h
      | Some v \<Rightarrow>
          if name = ''pr_cooperator'' then do { a \<leftarrow> put_str (fst h) 0 v; Some (a, snd h) }
          else if name = ''pr_accessMemo'' then do { b \<leftarrow> put_str (snd h) 0 v; Some (fst h, b) }
          else Some h)"

definition DBDBQueryAuthAccessResPR :: "dbworld \<Rightarrow> cstring \<Rightarrow> cstring \<Rightarrow> cstring \<Rightarrow> db_mysql \<Rightarrow> (int \<times> cstring \<times> cstring \<times> db_mysql) option" where
  "DBDBQueryAuthAccessResPR w authaccessresid pr_cooperator pr_accessMemo db =
     do {
       sql \<leftarrow> fitting 2048 (''select pr_cooperator,pr_accessMemo from pr_authaccessres where pr_id='' @ qs authaccessresid);
       (if \<not> isMySql db then do {
          (n, r, db) \<leftarrow> ole_retry 30 w sql [''pr_cooperator'', ''pr_accessMemo''] TransDBQueryResPR (zeros 1024, zeros 1024) db;
          (case r of
             None \<Rightarrow> Some (if n = -1 then -1 else 0, pr_cooperator, pr_accessMemo, db)
           | Some (a, b) \<Rightarrow> do {
               x \<leftarrow> put_str pr_cooperator 0 (zstr a);
               y \<leftarrow> put_str pr_accessMemo 0 (zstr b);
               Some (0, x, y, db)
             })
        }
        else do {
          (r, db) \<leftarrow> select_rows w sql db;
          (case r of
             None \<Rightarrow> Some (-1, pr_cooperator, pr_accessMemo, db)
           | Some [] \<Rightarrow> Some (0, pr_cooperator, pr_accessMemo, db)
           | Some (row # _) \<Rightarrow> do {
               a \<leftarrow> copy_first_if row pr_cooperator;
               b \<leftarrow> copy_first_if (tl row) pr_accessMemo;
               Some (0, a, b, db)
             })
        })
     }"

definition TransDBQueryKey :: "(cstring \<times> cstring) callback" where
  "TransDBQueryKey name val h =
     (case val of
        None \<Rightarrow> Some h
      | Some v \<Rightarrow>
          if name = ''pr_key'' then do { a \<leftarrow> put_str (fst h) 0 v; Some (a, snd h) }
          else if name = ''pr_baseKey'' then do { b \<leftarrow> put_str (snd h) 0 v; Some (fst h, b) }
          else Some h)"

definition DBQueryKey :: "dbworld \<Rightarrow> cstring \<Rightarrow> cstring \<Rightarrow> db_mysql \<Rightarrow> (int \<times> cstring \<times> cstring \<times> db_mysql) option" where
  "DBQueryKey w pr_key pr_basekey db =
     (let sql = ''SELECT pr_key,pr_baseKey from pr_productkey''
      in if \<not> isMySql db then do {
           (n, r, db) \<leftarrow> ole_retry 30 w sql [''pr_key'', ''pr_baseKey''] TransDBQueryKey (zeros 1024, zeros 1024) db;
           (case r of
              None \<Rightarrow> Some (n, pr_key, pr_basekey, db)
            | Some (a, b) \<Rightarrow> do {
                x \<leftarrow> put_str pr_key 0 (zstr a);
                y \<leftarrow> put_str pr_basekey 0 (zstr b);
                Some (n, x, y, db)
              })
         }
         else do {
           (r, db) \<leftarrow> select_rows w sql db;
           (case r of
              None \<Rightarrow> Some (-1, pr_key, pr_basekey, db)
            | Some [] \<Rightarrow> Some (0, pr_key, pr_basekey, db)
            | Some (row # rows) \<Rightarrow> do {
                a \<leftarrow> copy_first row pr_key;
                b \<leftarrow> copy_first (tl row) pr_basekey;
                Some (1 + int (length rows), a, b, db)
              })
         })"

subsection \<open>Sessions\<close>

text \<open>
  The array of \<open>WinSessionId\<close>: ten characters for each session. The callback takes the first of 2000 that is empty, or the one
  behind them.
\<close>

fun free_session :: "nat \<Rightarrow> nat \<Rightarrow> cstring \<Rightarrow> nat option" where
  "free_session 0 i a = Some i"
| "free_session (Suc n) i a =
     do { c \<leftarrow> nth_opt a (10 * i); if c = NUL then Some i else free_session n (i + 1) a }"

definition TransDBQueryWebOnline :: "cstring callback" where
  "TransDBQueryWebOnline name val a =
     (case val of
        None \<Rightarrow> Some a
      | Some v \<Rightarrow>
          if name = ''pr_windowssessionid'' then do { i \<leftarrow> free_session 2000 0 a; put_str a (10 * i) v } else Some a)"

fun session_rows :: "row list \<Rightarrow> nat \<Rightarrow> cstring \<Rightarrow> (nat \<times> cstring) option" where
  "session_rows [] count a = Some (count, a)"
| "session_rows (row # rows) count a =
     do {
       c \<leftarrow> nth_opt row 0;
       (case c of
          None \<Rightarrow> session_rows rows count a
        | Some v \<Rightarrow> do { a \<leftarrow> put_str a (10 * count) v; session_rows rows (count + 1) a })
     }"

definition DBQueryWebOnline :: "dbworld \<Rightarrow> cstring \<Rightarrow> cstring \<Rightarrow> db_mysql \<Rightarrow> (int \<times> cstring \<times> db_mysql) option" where
  "DBQueryWebOnline w websessionid a db =
     do {
       sql \<leftarrow> fitting 2048 (''select pr_windowssessionid from pr_authaccessres where pr_websessionid='' @ qs websessionid);
       (if \<not> isMySql db then do {
          (r, db) \<leftarrow> ole_query w sql [''pr_windowssessionid''] TransDBQueryWebOnline a db;
          Some (case r of None \<Rightarrow> (-1, a, db) | Some (a, n) \<Rightarrow> (n, a, db))
        }
        else do {
          (r, db) \<leftarrow> select_rows w sql db;
          (case r of
             None \<Rightarrow> Some (-1, a, db)
           | Some rows \<Rightarrow> do { (n, a) \<leftarrow> session_rows rows 0 a; Some (int n, a, db) })
        })
     }"

fun loginlog_tries :: "nat \<Rightarrow> dbworld \<Rightarrow> cstring \<Rightarrow> cstring \<Rightarrow> db_mysql \<Rightarrow> (int \<times> cstring \<times> db_mysql) option" where
  "loginlog_tries 0 w sql buf db = Some (0, buf, db)"
| "loginlog_tries (Suc n) w sql buf db =
     do {
       (r, db) \<leftarrow> select_rows w sql db;
       (case r of
          None \<Rightarrow> Some (-1, buf, db)
        | Some [] \<Rightarrow> loginlog_tries n w sql buf db
        | Some (row # rows) \<Rightarrow> do { buf \<leftarrow> copy_first row buf; Some (1 + int (length rows), buf, db) })
     }"

definition DBQueryLoginlogId :: "dbworld \<Rightarrow> cstring \<Rightarrow> cstring \<Rightarrow> db_mysql \<Rightarrow> (int \<times> cstring \<times> db_mysql) option" where
  "DBQueryLoginlogId w buf authaccessresid db =
     do {
       sql \<leftarrow> fitting 2048 (''select pr_id from Pr_LoginLog where pr_authaccessresid='' @ qs authaccessresid);
       (if \<not> isMySql db then do {
          (n, r, db) \<leftarrow> ole_retry 200 w sql [''pr_id''] TransDBQueryLoginlogId buf db;
          Some (n, case r of None \<Rightarrow> buf | Some b \<Rightarrow> b, db)
        }
        else loginlog_tries 200 w sql buf db)
     }"

text \<open>Over \<open>OleDb\<close> the code asks for the field \<open>pr_id\<close>, but the callback waits for \<open>pr_locallang\<close>.\<close>

definition DBQueryLocalLang :: "dbworld \<Rightarrow> cstring \<Rightarrow> cstring \<Rightarrow> db_mysql \<Rightarrow> (int \<times> cstring \<times> db_mysql) option" where
  "DBQueryLocalLang w localLang authaccessresid db =
     do {
       sql \<leftarrow> fitting 2048 (''select pr_locallang from pr_authaccessres where pr_id='' @ qs authaccessresid);
       (if \<not> isMySql db then do {
          (r, db) \<leftarrow> ole_query w sql [''pr_id''] TransDBQueryLocalLang localLang db;
          Some (case r of None \<Rightarrow> (-1, localLang, db) | Some (b, n) \<Rightarrow> (n, b, db))
        }
        else do {
          (r, db) \<leftarrow> select_rows w sql db;
          (case r of
             None \<Rightarrow> Some (-1, localLang, db)
           | Some [] \<Rightarrow> Some (0, localLang, db)
           | Some (row # rows) \<Rightarrow> do { b \<leftarrow> copy_first row localLang; Some (1 + int (length rows), b, db) })
        })
     }"

subsection \<open>Names and ports\<close>

text \<open>Over \<open>OleDb\<close> the name is copied without its terminator.\<close>

definition getResNamebyResType :: "dbworld \<Rightarrow> cstring \<Rightarrow> cstring \<Rightarrow> db_mysql \<Rightarrow> (cstring \<times> db_mysql) option" where
  "getResNamebyResType w apId resName db =
     do {
       sql \<leftarrow> fitting 1024 (''select pr_name from pr_accessprotocol where pr_id ='' @ apId);
       (if \<not> isMySql db then do {
          (n, r, db) \<leftarrow> ole_retry 30 w sql [''pr_name''] TransDBQueryResName (zeros 50) db;
          (case r of
             None \<Rightarrow> Some (resName, db)
           | Some a \<Rightarrow> do { x \<leftarrow> poke_opt resName 0 (zstr a); Some (x, db) })
        }
        else do {
          (n, b, db) \<leftarrow> first_row_code w sql copy_first resName db;
          Some (b, db)
        })
     }"

definition TransDBQueryPort :: "int callback" where
  "TransDBQueryPort name val p =
     (case val of None \<Rightarrow> Some p | Some v \<Rightarrow> if name = ''pr_port'' then Some (atoi v) else Some p)"

definition resource_port_sql :: "cstring \<Rightarrow> int \<Rightarrow> cstring" where
  "resource_port_sql pr_resId pr_code =
     ''SELECT pr_resprotocol.pr_port as pr_port from pr_resprotocol,pr_accessprotocol where pr_resprotocol.pr_resId='' @ qs pr_resId
     @ '' and pr_resprotocol.pr_apId=pr_accessprotocol.pr_id and ''
     @ (if pr_code = 502 then ''(pr_accessprotocol.pr_code='' @ fmt_d pr_code @ '' or pr_accessprotocol.pr_code=201 or pr_accessprotocol.pr_code=202)''
        else if pr_code = 602 then ''(pr_accessprotocol.pr_code='' @ fmt_d pr_code @ '' or pr_accessprotocol.pr_code=608 or pr_accessprotocol.pr_code=609)''
        else ''pr_accessprotocol.pr_code='' @ fmt_d pr_code)"

definition port_row :: "row \<Rightarrow> int \<Rightarrow> int option" where
  "port_row row p = do { c \<leftarrow> nth_opt row 0; v \<leftarrow> c; Some (atoi v) }"

definition osc_GetResourcePort :: "dbworld \<Rightarrow> cstring \<Rightarrow> int \<Rightarrow> int \<Rightarrow> db_mysql \<Rightarrow> (int \<times> int \<times> db_mysql) option" where
  "osc_GetResourcePort w pr_resId pr_code prt db =
     do {
       sql \<leftarrow> fitting 1024 (resource_port_sql pr_resId pr_code);
       (if \<not> isMySql db then do {
          (n, r, db) \<leftarrow> ole_retry 30 w sql [''pr_port''] TransDBQueryPort 0 db;
          Some (if n = -1 then -1 else 0, case r of None \<Rightarrow> prt | Some p \<Rightarrow> p, db)
        }
        else first_row_code w sql port_row prt db)
     }"

definition TransDBQueryDBName :: "cstring callback" where
  "TransDBQueryDBName name val buf = text_callback ''pr_dbName'' name val buf"

text \<open>The copy of a text found over \<open>OleDb\<close>, and the code 0 or -1.\<close>

definition ole_text :: "dbworld \<Rightarrow> cstring \<Rightarrow> cstring list \<Rightarrow> cstring \<Rightarrow> db_mysql \<Rightarrow> (int \<times> cstring \<times> db_mysql) option" where
  "ole_text w sql cols buf db =
     do {
       (n, r, db) \<leftarrow> ole_retry 30 w sql cols TransDBQueryDBName (zeros 1024) db;
       (case r of
          None \<Rightarrow> Some (if n = -1 then -1 else 0, buf, db)
        | Some a \<Rightarrow> do { x \<leftarrow> put_str buf 0 (zstr a); Some (0, x, db) })
     }"

definition GetResourceDBName :: "dbworld \<Rightarrow> cstring \<Rightarrow> cstring \<Rightarrow> db_mysql \<Rightarrow> (int \<times> cstring \<times> db_mysql) option" where
  "GetResourceDBName w pr_accountId buf db =
     do {
       sql \<leftarrow> fitting 1024 (''SELECT pr_dbName from pr_resaccount where pr_id='' @ qs pr_accountId);
       (if \<not> isMySql db then ole_text w sql [''pr_dbName''] buf db else first_row_code w sql copy_first_if buf db)
     }"

text \<open>The list of fields of \<open>GetServiceName\<close> is empty.\<close>

definition GetServiceName :: "dbworld \<Rightarrow> cstring \<Rightarrow> cstring \<Rightarrow> cstring \<Rightarrow> db_mysql \<Rightarrow> (int \<times> cstring \<times> db_mysql) option" where
  "GetServiceName w pr_raId pr_resId serviceName db =
     do {
       sql \<leftarrow> fitting 1024 (''SELECT pr_value from pr_resaccountext where pr_raId='' @ qs pr_raId
         @ '' and (select pr_value from pr_resourceext where pr_resId='' @ qs pr_resId @ '' and pr_varid='' @ qs ''103412485558360'' @ '')='' @ qs ''3'');
       (if \<not> isMySql db then ole_text w sql [] serviceName db else first_row_code w sql copy_first_if serviceName db)
     }"

end
