(* ===== verification/OscLog.thy ===== *)
theory OscLog
  imports OscQuery
begin

text \<open>
  The statements of \<^verbatim>\<open>OSCShell/db_mysql.cpp\<close> that write: the login record with its heartbeat and logout, the video record, messages,
  ports and sessions (lines 383 to 401, 685 to 702, 981 to 1042 and 1095 to 1462), with the escaping of \<open>preSqlStr\<close>.
\<close>

subsection \<open>Escaping\<close>

fun escaped :: "cstring \<Rightarrow> cstring" where
  "escaped [] = []"
| "escaped (c # s) =
     (if c = bslash then [c] else if c = CHR 0x27 then [bslash] else []) @ c # escaped s"

text \<open>\<open>preSqlStr\<close> on a string in an array of \<open>n\<close> characters. The copy has twice the length of the string, which leaves no terminator when every
  character is escaped.\<close>

definition preSqlStr :: "nat \<Rightarrow> cstring \<Rightarrow> cstring option" where
  "preSqlStr n sour =
     (let op = escaped sour
      in if length op < 2 * length sour \<and> length op < n then Some op else None)"

subsection \<open>Times as text\<close>

text \<open>\<open>%0<w>d\<close> of \<open>sscanf\<close>: blanks, a sign and digits, the last two at most \<open>w\<close> characters.\<close>

definition scan_d :: "nat \<Rightarrow> cstring \<Rightarrow> (int \<times> cstring) option" where
  "scan_d w s =
     (let t = dropWhile is_space s;
          sgn = (t \<noteq> [] \<and> (hd t = CHR ''-'' \<or> hd t = CHR ''+''));
          neg = (t \<noteq> [] \<and> hd t = CHR ''-'');
          t = (if sgn then tl t else t);
          ds = takeWhile is_digit (take (if sgn then w - 1 else w) t)
      in if ds = [] then None else Some (if neg then - digits_value ds else digits_value ds, drop (length ds) t))"

text \<open>Numbers with the character that follows each; what is not read stays 0.\<close>

fun scan_numbers :: "(nat \<times> char) list \<Rightarrow> cstring \<Rightarrow> int list" where
  "scan_numbers [] s = []"
| "scan_numbers ((w, c) # fs) s =
     (case scan_d w s of
        None \<Rightarrow> replicate (length fs + 1) 0
      | Some (v, r) \<Rightarrow>
          v # (if c = CHR '' '' then scan_numbers fs (dropWhile is_space r)
               else if r \<noteq> [] \<and> hd r = c then scan_numbers fs (tl r)
               else replicate (length fs) 0))"

definition scan_time :: "cstring \<Rightarrow> int list" where
  "scan_time s = scan_numbers [(4, CHR ''-''), (2, CHR ''-''), (2, CHR '' ''), (2, CHR '':''), (2, CHR '':''), (2, NUL)] s"

definition time_text :: "int list \<Rightarrow> cstring" where
  "time_text t =
     (case t of
        [y, m, d, h, mi, s] \<Rightarrow>
          fmt_0d 4 y @ ''-'' @ fmt_0d 2 m @ ''-'' @ fmt_0d 2 d @ '' '' @ fmt_0d 2 h @ '':'' @ fmt_0d 2 mi @ '':'' @ fmt_0d 2 s
      | _ \<Rightarrow> [])"

subsection \<open>The login record\<close>

record STRUCT_LOGINLOG =
  lg_id :: cstring
  lg_uid :: cstring
  lg_userName :: cstring
  lg_orgId :: cstring
  lg_orgName :: cstring
  lg_accountNo :: cstring
  lg_clientAddr :: cstring
  lg_resAddr :: cstring
  lg_resId :: cstring
  lg_resName :: cstring
  lg_resType :: cstring
  lg_apId :: cstring
  lg_accessType :: int
  lg_loginDate :: cstring
  lg_loginOutDate :: cstring
  lg_onLineTime :: cstring
  lg_proxyAddr :: cstring
  lg_cmdFlag :: int
  lg_nodeFlag :: int
  lg_authaccessresid :: cstring
  lg_cooperator :: cstring
  lg_accessMemo :: cstring
  lg_accessName :: cstring

definition is_oracle :: "db_mysql \<Rightarrow> bool" where
  "is_oracle db \<longleftrightarrow> dbType (dbconn db) = ''ORACLE''"

text \<open>A time as the database reads it.\<close>

definition sql_time :: "db_mysql \<Rightarrow> cstring \<Rightarrow> cstring" where
  "sql_time db t =
     (if is_oracle db then ''to_date('' @ qs t @ '','' @ qs ''yyyy-mm-dd hh24:mi:ss'' @ '')'' else qs t)"

definition quoted_list :: "cstring list \<Rightarrow> cstring" where
  "quoted_list vs = concat (map (\<lambda>v. qs v @ '','') vs)"

definition login_insert :: "db_mysql \<Rightarrow> STRUCT_LOGINLOG \<Rightarrow> cstring" where
  "login_insert db l =
     ''insert into Pr_LoginLog(pr_id,pr_uid,pr_userName,pr_orgId,pr_orgName,pr_accountNo,pr_clientAddr,pr_resAddr,pr_resId,pr_resName,pr_resType,pr_apId,pr_accessType,pr_loginDate,pr_onLineTime,pr_proxyAddr,pr_cmdFlag,pr_status,pr_nodeFlag,pr_authAccessResId,pr_cooperator,pr_accessMemo)  values(''
     @ quoted_list [lg_id l, lg_uid l, lg_userName l, lg_orgId l, lg_orgName l, lg_accountNo l, lg_clientAddr l, lg_resAddr l, lg_resId l,
         lg_resName l, lg_resType l, lg_apId l]
     @ fmt_d (lg_accessType l) @ '','' @ sql_time db (lg_loginDate l) @ '','' @ sql_time db (lg_loginDate l) @ '','' @ qs (lg_proxyAddr l)
     @ '','' @ fmt_d (lg_cmdFlag l) @ '',1,'' @ fmt_d (lg_nodeFlag l) @ '','' @ qs (lg_authaccessresid l) @ '','' @ qs (lg_cooperator l)
     @ '','' @ qs (lg_accessMemo l) @ '')''"

definition logout_update :: "db_mysql \<Rightarrow> STRUCT_LOGINLOG \<Rightarrow> cstring" where
  "logout_update db l =
     ''update Pr_LoginLog set pr_loginOutDate = '' @ sql_time db (lg_loginOutDate l) @ '',pr_status=0  where pr_id='' @ qs (lg_id l)"

definition online_update :: "db_mysql \<Rightarrow> STRUCT_LOGINLOG \<Rightarrow> cstring" where
  "online_update db l =
     ''update Pr_LoginLog set pr_onlineTime = '' @ sql_time db (lg_onLineTime l) @ '' where pr_id='' @ qs (lg_id l)"

text \<open>The message for the system log at a logout, as the build with \<open>SVW\<close> makes it.\<close>

definition logout_note :: "STRUCT_LOGINLOG \<Rightarrow> cstring" where
  "logout_note l =
     ''login'' @ concat (map (\<lambda>v. '','' @ v) [lg_uid l, lg_userName l, lg_accountNo l, lg_resName l, lg_resAddr l, lg_clientAddr l, lg_accessName l,
       lg_loginDate l, lg_loginOutDate l])"

text \<open>The change of the record and the statement for each flag: 0 for a login, 1 for a logout, 2 for the heartbeat.\<close>

definition login_statement :: "db_mysql \<Rightarrow> int \<Rightarrow> cstring \<Rightarrow> cstring \<Rightarrow> STRUCT_LOGINLOG \<Rightarrow> (STRUCT_LOGINLOG \<times> cstring) option" where
  "login_statement db flag proxyTime outDateTime l =
     (if flag = 0 then do { sql \<leftarrow> fitting 2048 (login_insert db l); Some (l, sql) }
      else if flag = 1 then do {
        t \<leftarrow> fitting 20 (time_text (scan_time outDateTime));
        let l = l\<lparr>lg_loginOutDate := t\<rparr>;
        sql \<leftarrow> fitting 2048 (logout_update db l);
        Some (l, sql)
      }
      else if flag = 2 then do {
        t \<leftarrow> fitting 20 (time_text (scan_time proxyTime));
        let l = l\<lparr>lg_onLineTime := t\<rparr>;
        sql \<leftarrow> fitting 2048 (online_update db l);
        Some (l, sql)
      }
      else Some (l, []))"

definition execute :: "dbworld \<Rightarrow> cstring \<Rightarrow> int \<Rightarrow> db_mysql \<Rightarrow> (int \<times> db_mysql) option" where
  "execute w sql err db =
     (if \<not> isMySql db then ole_update w sql err db
      else let (rc, db) = real_query w sql db in Some (if rc \<noteq> 0 then err else 0, db))"

definition DBExecLoginLog :: "dbworld \<Rightarrow> winsys \<Rightarrow> STRUCT_LOGINLOG option \<Rightarrow> int \<Rightarrow> cstring \<Rightarrow> cstring \<Rightarrow> db_mysql \<Rightarrow> logger
    \<Rightarrow> (int \<times> STRUCT_LOGINLOG option \<times> db_mysql \<times> logger) option" where
  "DBExecLoginLog w s handle flag proxyTime outDateTime db lg =
     (case handle of
        None \<Rightarrow> Some (-1, None, db, lg)
      | Some l \<Rightarrow> do {
          l \<leftarrow> (if length (lg_accountNo l) > 0
               then do { a \<leftarrow> preSqlStr 21 (lg_accountNo l); Some (l\<lparr>lg_accountNo := a\<rparr>) } else Some l);
          (l, sql) \<leftarrow> login_statement db flag proxyTime outDateTime l;
          lg \<leftarrow> (if flag = 1 then do { t \<leftarrow> fitting 2048 (logout_note l); syslog s (LOG_USER OR 6) t lg } else Some lg);
          (if length sql > 0 then do { (rc, db) \<leftarrow> execute w sql (-3) db; Some (rc, Some l, db, lg) }
           else Some (0, Some l, db, lg))
        })"

definition DBExecLoginLogStatus :: "dbworld \<Rightarrow> cstring \<Rightarrow> int \<Rightarrow> db_mysql \<Rightarrow> (int \<times> db_mysql) option" where
  "DBExecLoginLogStatus w pr_id status db =
     do {
       sql \<leftarrow> fitting 2048 (''update Pr_LoginLog set pr_status='' @ fmt_d status @ '' where pr_id='' @ qs pr_id);
       (if \<not> isMySql db then ole_update w sql (-1) db else Some (real_query w sql db))
     }"

text \<open>The end of sessions that have not been heard of for 30 seconds.\<close>

definition stale_update :: "db_mysql \<Rightarrow> cstring \<Rightarrow> cstring" where
  "stale_update db t =
     ''update Pr_LoginLog set pr_status=0,pr_loginOutDate='' @ sql_time db t @ '' where ''
     @ (if is_oracle db then ''(pr_status = 1 or pr_status = 2)'' else ''pr_status = 1'') @ '' and  pr_onlineTime<'' @ sql_time db t"

definition DBCheckLoginLog :: "dbworld \<Rightarrow> cstring \<Rightarrow> db_mysql \<Rightarrow> (int \<times> db_mysql) option" where
  "DBCheckLoginLog w proxyTime db =
     do {
       szTime \<leftarrow> fitting 40 (time_text (minus_30s w (scan_time proxyTime)));
       sql \<leftarrow> fitting 1024 (stale_update db szTime);
       execute w sql (-3) db
     }"

subsection \<open>The video record\<close>

record STRUCT_USERACTIVITYVIDEOLOG =
  vd_id :: cstring
  vd_resId :: cstring
  vd_resName :: cstring
  vd_resAddr :: cstring
  vd_clientAddr :: cstring
  vd_userId :: cstring
  vd_userName :: cstring
  vd_uid :: cstring
  vd_accountNo :: cstring
  vd_operDate :: cstring
  vd_sessionId :: cstring
  vd_filePath :: cstring

definition video_insert :: "db_mysql \<Rightarrow> STRUCT_USERACTIVITYVIDEOLOG \<Rightarrow> cstring" where
  "video_insert db v =
     ''insert into pr_userActivityVideoLog(pr_id,pr_resId,pr_resName,pr_resAddr,pr_clientAddr,pr_userId,pr_userName,pr_uid,pr_accountNo,pr_operDate,pr_sessionId,pr_filePath)  values(''
     @ quoted_list [vd_id v, vd_resId v, vd_resName v, vd_resAddr v, vd_clientAddr v, vd_userId v, vd_userName v, vd_uid v, vd_accountNo v]
     @ sql_time db (vd_operDate v) @ '','' @ qs (vd_sessionId v) @ '','' @ qs (vd_filePath v) @ '')''"

definition video_update :: "STRUCT_USERACTIVITYVIDEOLOG \<Rightarrow> cstring" where
  "video_update v = ''update Pr_LoginLog set pr_videoFlag = 1 where pr_id='' @ qs (vd_sessionId v)"

definition DBExecUserActivityVideoLog :: "dbworld \<Rightarrow> STRUCT_USERACTIVITYVIDEOLOG option \<Rightarrow> db_mysql
    \<Rightarrow> (int \<times> STRUCT_USERACTIVITYVIDEOLOG option \<times> db_mysql) option" where
  "DBExecUserActivityVideoLog w handle db =
     (case handle of
        None \<Rightarrow> Some (-1, None, db)
      | Some v \<Rightarrow> do {
          v \<leftarrow> (if length (vd_accountNo v) > 0
               then do { a \<leftarrow> preSqlStr 50 (vd_accountNo v); Some (v\<lparr>vd_accountNo := a\<rparr>) } else Some v);
          p \<leftarrow> preSqlStr 200 (vd_filePath v);
          let v = v\<lparr>vd_filePath := p\<rparr>;
          sql \<leftarrow> fitting 1024 (video_insert db v);
          (if \<not> isMySql db then do {
             sql2 \<leftarrow> fitting 1024 (video_update v);
             (rc, db) \<leftarrow> ole_update_array w [sql, sql2] (-3) db;
             Some (rc, Some v, db)
           }
           else let (rc, db) = real_query w sql db
                in if rc \<noteq> 0 then Some (-3, Some v, db)
                   else do {
                     sql2 \<leftarrow> fitting 1024 (video_update v);
                     let (rc, db) = real_query w sql2 db;
                     Some (if rc \<noteq> 0 then -3 else 0, Some v, db)
                   })
        })"

subsection \<open>Messages, ports and sessions\<close>

definition DBInsertAuthMessage :: "dbworld \<Rightarrow> cstring \<Rightarrow> cstring \<Rightarrow> cstring \<Rightarrow> cstring \<Rightarrow> cstring \<Rightarrow> cstring \<Rightarrow> cstring
    \<Rightarrow> db_mysql \<Rightarrow> (int \<times> db_mysql) option" where
  "DBInsertAuthMessage w authaccessresid uid userName resAddr accountNo clientAddr message db =
     do {
       sql \<leftarrow> fitting 2048 (''insert into pr_authmessage(pr_id,pr_uid,pr_userName,pr_resAddr,pr_accountNo,pr_clientAddr,pr_logInfo) ''
         @ replicate 5 (CHR 0x09) @ '' values(''
         @ quoted_list [authaccessresid, uid, userName, resAddr, accountNo, clientAddr] @ qs message @ '')'');
       (if \<not> isMySql db then ole_update w sql (-1) db else Some (real_query w sql db))
     }"

text \<open>Up to 61 tries; the result is 0 in the end whatever they gave.\<close>

fun port_tries :: "nat \<Rightarrow> dbworld \<Rightarrow> cstring \<Rightarrow> db_mysql \<Rightarrow> db_mysql" where
  "port_tries 0 w sql db = db"
| "port_tries (Suc n) w sql db =
     (let (rc, db) = real_query w sql db in if rc = 0 then db else port_tries n w sql db)"

definition DBExecSetPort :: "dbworld \<Rightarrow> cstring \<Rightarrow> int \<Rightarrow> cstring \<Rightarrow> db_mysql \<Rightarrow> (int \<times> db_mysql) option" where
  "DBExecSetPort w proxyAddr prt authaccessresid db =
     do {
       sql \<leftarrow> fitting 1024 (''update Pr_LoginLog set pr_proxyAddr='' @ qs proxyAddr @ '',pr_port='' @ fmt_d prt
         @ '' where pr_authaccessresid='' @ qs authaccessresid);
       (if \<not> isMySql db then ole_update w sql (-1) db else Some (0, port_tries 61 w sql db))
     }"

definition DBExecSessionID :: "dbworld \<Rightarrow> cstring \<Rightarrow> cstring \<Rightarrow> db_mysql \<Rightarrow> (int \<times> db_mysql) option" where
  "DBExecSessionID w authaccessresid windowssessionid db =
     do {
       sql \<leftarrow> fitting 1024 (''update pr_authaccessres set pr_windowssessionid='' @ qs windowssessionid @ '' where pr_id='' @ qs authaccessresid);
       (if \<not> isMySql db then ole_update w sql (-1) db else Some (0, snd (real_query w sql db)))
     }"

definition DBDeleteAuthAccessRes :: "dbworld \<Rightarrow> cstring \<Rightarrow> db_mysql \<Rightarrow> (int \<times> db_mysql) option" where
  "DBDeleteAuthAccessRes w websessionid db =
     do {
       sql \<leftarrow> fitting 1024 (''delete from pr_AuthAccessRes where pr_websessionid='' @ qs websessionid);
       (if \<not> isMySql db then ole_update w sql (-1) db else Some (0, snd (real_query w sql db)))
     }"

end
