(* ===== verification/OscDbLaws.thy ===== *)
theory OscDbLaws
  imports OscDb
begin

text \<open>
  What the access records and the file of commands of OscDb are worth: the fields of a record after a query, the deletion of a record, the
  commands that are read back from the file, over MySQL and over Oracle and DB2.
\<close>

subsection \<open>The fields of an access record\<close>

definition text_of :: "cstring option \<Rightarrow> cstring" where
  "text_of c = (case c of None \<Rightarrow> [] | Some v \<Rightarrow> v)"

definition fits :: "cstring option \<Rightarrow> nat \<Rightarrow> bool" where
  "fits c n \<longleftrightarrow> length (text_of c) < n \<and> NUL \<notin> set (text_of c)"

lemma text_of_simps [simp]: "text_of None = []" "text_of (Some v) = v"
  by (simp_all add: text_of_def)

lemma zstr_take:
  assumes "take n b = take n a" and "take (length v + 1) a = v @ [NUL]" and "length v < n" and "NUL \<notin> set v"
  shows "zstr b = v"
proof -
  have "take (length v + 1) b = take (length v + 1) a"
    using arg_cong[OF assms(1), of "take (length v + 1)"] assms(3) by (simp add: min_def)
  then have "b = v @ NUL # drop (length v + 1) b"
    using assms(2) append_take_drop_id[of "length v + 1" b] by simp
  then show ?thesis using assms(4) zstr_prefix by metis
qed

text \<open>The two kinds of writes: a text with its terminator, or zeros. Both leave the field with the text and touch nothing else.\<close>

lemma poke_region:
  assumes "off + length s \<le> length a"
  shows "length (poke a off s) = length a" and "take off (poke a off s) = take off a"
    and "take (length s) (drop off (poke a off s)) = s"
    and "drop (off + length s) (poke a off s) = drop (off + length s) a"
  using assms by (simp_all add: poke_def)

text \<open>One walk for both databases: \<open>clear\<close> says whether a missing text clears its field.\<close>

fun write_fields :: "bool \<Rightarrow> nat list \<Rightarrow> cstring option list \<Rightarrow> nat \<Rightarrow> cstring \<Rightarrow> cstring option" where
  "write_fields clr ns [] off a = Some a"
| "write_fields clr [] (c # cs) off a = None"
| "write_fields clr (n # ns) (c # cs) off a =
     do {
       a \<leftarrow> (case c of
               Some v \<Rightarrow> put_str a off v
             | None \<Rightarrow> if clr then poke_opt a off (replicate n NUL) else Some a);
       write_fields clr ns cs (off + n) a
     }"

lemma write_fields_result:
  assumes "list_all2 fits cs ns" and "off + sum_list ns \<le> length a"
  shows "\<exists>a'. write_fields clr ns cs off a = Some a' \<and> length a' = length a \<and> take off a' = take off a
    \<and> (\<forall>i<length cs. (clr \<or> cs ! i \<noteq> None \<longrightarrow> zstr (drop (off + sum_list (take i ns)) a') = text_of (cs ! i))
         \<and> (\<not> clr \<and> cs ! i = None \<longrightarrow> take (ns ! i) (drop (off + sum_list (take i ns)) a') = take (ns ! i) (drop (off + sum_list (take i ns)) a)))"
  using assms
proof (induction cs ns arbitrary: off a rule: list_all2_induct)
  case (Cons c cs n ns)
  define s where "s = (case c of Some v \<Rightarrow> v @ [NUL] | None \<Rightarrow> if clr then replicate n NUL else take n (drop off a))"
  have n: "length (text_of c) < n" "NUL \<notin> set (text_of c)" using Cons.hyps(1) by (auto simp: fits_def)
  have ls: "length s \<le> n" using n Cons.prems by (auto simp: s_def split: option.splits)
  have off: "off + length s \<le> length a" "off + n \<le> length a" using ls Cons.prems by auto
  let ?a = "poke a off s"
  have same: "poke a off (take n (drop off a)) = a" if "off + n \<le> length a" for n
    using that by (simp add: poke_def min_def) (metis add.commute append_assoc append_take_drop_id take_add)
  have first: "(case c of Some v \<Rightarrow> put_str a off v | None \<Rightarrow> if clr then poke_opt a off (replicate n NUL) else Some a) = Some ?a"
    using off same[OF off(2)] by (auto simp: s_def put_str_def split: option.splits)
  note reg = poke_region[OF off(1)]
  have "off + n + sum_list ns \<le> length ?a" using Cons.prems reg(1) by simp
  from Cons.IH[OF this] obtain a' where a': "write_fields clr ns cs (off + n) ?a = Some a'" "length a' = length ?a" "take (off + n) a' = take (off + n) ?a"
    and rest: "\<And>i. i < length cs \<Longrightarrow> (clr \<or> cs ! i \<noteq> None \<longrightarrow> zstr (drop (off + n + sum_list (take i ns)) a') = text_of (cs ! i))
       \<and> (\<not> clr \<and> cs ! i = None \<longrightarrow> take (ns ! i) (drop (off + n + sum_list (take i ns)) a') = take (ns ! i) (drop (off + n + sum_list (take i ns)) ?a))"
    by blast
  have here: "take n (drop off a') = take n (drop off ?a)"
    using arg_cong[OF a'(3), of "drop off"] by (simp add: take_drop add.commute)
  have old: "drop (off + n + k) ?a = drop (off + n + k) a" for k
  proof -
    have "drop (n - length s + k) (drop (off + length s) ?a) = drop (n - length s + k) (drop (off + length s) a)" using reg(4) by simp
    then show ?thesis using ls by (simp add: algebra_simps)
  qed
  have z: "zstr (drop off a') = text_of c" if "clr \<or> c \<noteq> None"
  proof (rule zstr_take[OF here])
    show "take (length (text_of c) + 1) (drop off ?a) = text_of c @ [NUL]"
    proof (cases c)
      case None
      then have "take (length s) (drop off ?a) = s" "s = replicate n NUL" using that reg(3) by (auto simp: s_def)
      then show ?thesis using None n by (cases n; cases "drop off ?a") auto
    next
      case (Some v)
      then show ?thesis using reg(3) by (simp add: s_def)
    qed
  qed (use n in simp_all)
  have k: "take n (drop off a') = take n (drop off a)" if "\<not> clr \<and> c = None"
    using here that same[OF off(2)] by (simp add: s_def)
  have "take off a' = take off a"
    using arg_cong[OF a'(3), of "take off"] reg(2) by (simp add: min_def)
  moreover have "(clr \<or> (c # cs) ! i \<noteq> None \<longrightarrow> zstr (drop (off + sum_list (take i (n # ns))) a') = text_of ((c # cs) ! i))
      \<and> (\<not> clr \<and> (c # cs) ! i = None \<longrightarrow> take ((n # ns) ! i) (drop (off + sum_list (take i (n # ns))) a')
           = take ((n # ns) ! i) (drop (off + sum_list (take i (n # ns))) a))" if "i < length (c # cs)" for i
  proof (cases i)
    case 0
    then show ?thesis using z k by auto
  next
    case (Suc j)
    then show ?thesis using that rest[of j] old[of "sum_list (take j ns)"] by (auto simp: add.assoc)
  qed
  ultimately show ?case using first a' reg(1) by auto
qed simp

definition nonempty :: "cstring option \<Rightarrow> cstring option" where
  "nonempty c = (case c of Some (x # xs) \<Rightarrow> Some (x # xs) | _ \<Rightarrow> None)"

lemma fill_fields_write: "fill_fields ns cs off a = write_fields True ns (map nonempty cs) off a"
  by (induction ns cs off a rule: fill_fields.induct) (auto simp: nonempty_def split: option.splits list.splits intro!: Option.bind_cong)

lemma put_field_at:
  "distinct fs \<Longrightarrow> length fs = length ns \<Longrightarrow> i < length fs
   \<Longrightarrow> put_field fs ns off (fs ! i) v a = put_str a (off + sum_list (take i ns)) v"
proof (induction fs arbitrary: ns i off)
  case (Cons f fs)
  then show ?case by (cases ns; cases i) (auto simp: add.assoc)
qed simp

lemma tell_fields:
  assumes "distinct (p @ fs)" and "length p = length q" and "length fs = length ns" and "length fs = length vs"
  shows "tell (\<lambda>name val a. case val of None \<Rightarrow> Some a | Some v \<Rightarrow> put_field (p @ fs) (q @ ns) 0 name v a) (zip fs vs) a
    = write_fields False ns vs (sum_list q) a"
  using assms
proof (induction fs arbitrary: p q ns vs a)
  case (Cons f fs)
  obtain n ns' v vs' where c: "ns = n # ns'" "vs = v # vs'" using Cons.prems by (cases ns; cases vs) auto
  have f: "put_field (p @ f # fs) (q @ ns) 0 f x a = put_str a (sum_list q) x" for x a
    using put_field_at[OF Cons.prems(1), of "q @ ns" "length p" 0 x a] Cons.prems(2,3) c(1) by (simp add: nth_append)
  have rest: "tell (\<lambda>name val a. case val of None \<Rightarrow> Some a | Some v \<Rightarrow> put_field (p @ f # fs) (q @ ns) 0 name v a) (zip fs vs') a
    = write_fields False ns' vs' (sum_list q + n) a" for a
    using Cons.IH[of "p @ [f]" "q @ [n]" ns' vs' a] Cons.prems c by (simp cong: option.case_cong)
  show ?case unfolding c by (auto simp: f[unfolded c] rest[unfolded c] split: option.splits intro!: Option.bind_cong)
qed simp

lemma auth_fields_ok: "distinct auth_fields" "length auth_fields = length fieldsLen" "length fieldsLen = 35" "sum_list fieldsLen = 2279"
  by (simp_all add: auth_fields_def fieldsLen_def)

lemma auth_record:
  assumes "\<forall>f\<in>set auth_fields. readable rec f"
  shows "tell TransAuthAccessRes (calls_of auth_fields rec) a = write_fields False fieldsLen (map (told rec) auth_fields) 0 a"
proof -
  have "TransAuthAccessRes = (\<lambda>name val a. case val of None \<Rightarrow> Some a | Some v \<Rightarrow> put_field ([] @ auth_fields) ([] @ fieldsLen) 0 name v a)"
    by (rule ext)+ (simp add: TransAuthAccessRes_def split: option.splits)
  moreover have "calls_of auth_fields rec = zip auth_fields (map (told rec) auth_fields)"
    by (simp add: calls_of_def zip_map2 zip_same_conv_map)
  ultimately show ?thesis
    using tell_fields[of "[]" auth_fields "[]" fieldsLen "map (told rec) auth_fields" a] auth_fields_ok by simp
qed

lemma length_auth_select: "length (auth_select s) = 474 + length s"
  by (simp add: auth_select_def qs_def comma_list_def auth_fields_def)

lemma length_deletes: "length (auth_delete s) = 43 + length s" "length (limit_delete s) = 47 + length s"
  by (simp_all add: auth_delete_def limit_delete_def qs_def)

lemma nonempty_text: "text_of (nonempty c) = text_of c"
  by (auto simp: nonempty_def split: option.splits list.splits)

text \<open>C29: the first row of an access record, of which each column fits its field, fills all 35 fields: over MySQL a column that is NULL or
  empty clears its field, over Oracle and DB2 it leaves what was there.\<close>

theorem DBQueryAuthAccessRes_fields:
  assumes "length a = 2279" and "length (auth_field a 0) < 33"
    and "list_all2 fits row fieldsLen"
    and "isMySql db \<Longrightarrow> mysql_srv w (trace db) (auth_select (auth_field a 0)) = Rows (row # rows)"
    and "\<not> isMySql db \<Longrightarrow> OleDb db = Some (Some True) \<and> ole_srv w (trace db) (auth_select (auth_field a 0)) = Records [rec]
      \<and> (\<forall>f\<in>set auth_fields. readable rec f) \<and> map (told rec) auth_fields = map nonempty row"
  shows "\<exists>a' n db'. DBQueryAuthAccessRes w (Some a) db = Some (n, Some a', db') \<and> n > 0 \<and> length a' = 2279
    \<and> (\<forall>i<35. nonempty (row ! i) \<noteq> None \<or> isMySql db \<longrightarrow> auth_field a' i = text_of (row ! i))
    \<and> (\<forall>i<35. nonempty (row ! i) = None \<and> \<not> isMySql db \<longrightarrow>
         take (fieldsLen ! i) (drop (sum_list (take i fieldsLen)) a') = take (fieldsLen ! i) (drop (sum_list (take i fieldsLen)) a))"
proof -
  have len: "length (auth_select (auth_field a 0)) < 2048" using assms(2) by (simp add: length_auth_select)
  have row: "length row = 35" "list_all2 fits (map nonempty row) fieldsLen"
    using list_all2_lengthD[OF assms(3)] assms(3) auth_fields_ok(3)
    by (auto simp: list_all2_conv_all_nth fits_def nonempty_text)
  obtain a' where a': "write_fields (isMySql db) fieldsLen (map nonempty row) 0 a = Some a'" "length a' = 2279"
    "\<And>i. i < 35 \<Longrightarrow> (isMySql db \<or> nonempty (row ! i) \<noteq> None \<longrightarrow> zstr (drop (sum_list (take i fieldsLen)) a') = text_of (row ! i))
       \<and> (\<not> isMySql db \<and> nonempty (row ! i) = None \<longrightarrow>
         take (fieldsLen ! i) (drop (sum_list (take i fieldsLen)) a') = take (fieldsLen ! i) (drop (sum_list (take i fieldsLen)) a))"
    using write_fields_result[OF row(2), of 0 a "isMySql db"] assms(1) row(1) auth_fields_ok(4) by (auto simp: nonempty_text)
  have "\<exists>n db'. DBQueryAuthAccessRes w (Some a) db = Some (n, Some a', db') \<and> n > 0"
  proof (cases "isMySql db")
    case True
    then show ?thesis
      using assms(4)[OF True] len a'(1)
      by (simp add: DBQueryAuthAccessRes_def DBExecAuthAccessRes_def Let_def fitting_def select_rows_def fill_fields_write)
  next
    case False
    note o = assms(5)[OF False]
    have "oleDb_Query (ole_srv w) (Some True) (auth_select (auth_field a 0)) auth_fields TransAuthAccessRes a (trace db)
      = Some (Some (a', 1), trace db @ [Sql (auth_select (auth_field a 0))])"
      using oleDb_Query_result[of "ole_srv w" "trace db" "auth_select (auth_field a 0)" "[rec]" auth_fields TransAuthAccessRes a]
        o auth_record[of rec a] a'(1) False by simp
    then show ?thesis
      using False o len by (simp add: DBQueryAuthAccessRes_def DBExecAuthAccessRes_def Let_def fitting_def ole_query_def)
  qed
  then show ?thesis using a' by (auto simp: auth_field_def)
qed

text \<open>C30: over Oracle and DB2 an access record and its commands are deleted together or, when the answer is -1, not at all; over MySQL the
  record is gone when only the second statement fails.\<close>

theorem DBExecAuthAccessRes_delete:
  assumes "flag \<noteq> 0" and "length (auth_field a 0) < 33"
    and "\<not> isMySql db \<Longrightarrow> OleDb db = Some (Some True) \<and> force (ole_srv w) (trace db) = (c, None)"
  shows "\<exists>rc db'. DBExecAuthAccessRes w (Some a) flag db = Some (rc, Some a, db') \<and> (rc = 0 \<or> rc = - 1)
    \<and> (\<not> isMySql db \<longrightarrow> force (ole_srv w) (trace db') =
          (if rc = 0 then (c @ [auth_delete (auth_field a 0), limit_delete (auth_field a 0)], None) else (c, None)))
    \<and> (isMySql db \<and> mysql_srv w (trace db) (auth_delete (auth_field a 0)) \<noteq> Query_error
         \<and> mysql_srv w (trace db @ [Sql (auth_delete (auth_field a 0))]) (limit_delete (auth_field a 0)) = Query_error
       \<longrightarrow> rc = - 1 \<and> trace db' = trace db @ [Sql (auth_delete (auth_field a 0)), Sql (limit_delete (auth_field a 0))])"
proof -
  let ?d = "auth_delete (auth_field a 0)" and ?l = "limit_delete (auth_field a 0)"
  have len: "length ?d < 2048" "length ?l < 2048" using assms(2) by (simp_all add: length_deletes)
  show ?thesis
  proof (cases "isMySql db")
    case True
    then show ?thesis using assms(1) len by (simp add: DBExecAuthAccessRes_def Let_def fitting_def real_query_def)
  next
    case False
    obtain ok ev where u: "oleDb_UpdateArray (ole_srv w) (Some True) [?d, ?l] True (trace db) = (ok, ev)"
      by (cases "oleDb_UpdateArray (ole_srv w) (Some True) [?d, ?l] True (trace db)")
    note o = assms(3)[OF False]
    have "force (ole_srv w) ev = (if ok then (c @ [?d, ?l], None) else (c, None))"
      using update_array_atomic[OF conjunct2[OF o] u] by auto
    then show ?thesis
      using assms(1) False o len u by (simp add: DBExecAuthAccessRes_def Let_def fitting_def ole_update_array_def)
  qed
qed


definition sample_world :: "(event list \<Rightarrow> cstring \<Rightarrow> db_reply) \<Rightarrow> ole_server \<Rightarrow> dbworld" where
  "sample_world my_srv o_srv = \<lparr>mysql_srv = my_srv, ole_srv = o_srv, mysql_real_connect = \<lambda>_ _ _ _ _. True, ado_open = \<lambda>_. True, minus_30s = \<lambda>t. t\<rparr>"

definition sample_db :: "cstring \<Rightarrow> db_mysql" where
  "sample_db t = (new_db_mysql \<lparr>dbType = t, dbHost = ''h'', dbUser = ''u'', dbPwd = ''p'', dbName = ''n'', dbPort = 3306\<rparr>)\<lparr>OleDb := Some (Some True)\<rparr>"

lemma sample_simps [simp]:
  "mysql_srv (sample_world f g) = f" "ole_srv (sample_world f g) = g" "isMySql (sample_db t) \<longleftrightarrow> t = [] \<or> t = ''MYSQL''"
  "trace (sample_db t) = []" "OleDb (sample_db t) = Some (Some True)" "dbType (dbconn (sample_db t)) = t"
  by (simp_all add: sample_world_def sample_db_def new_db_mysql_def)

lemma zstr_replicate_NUL [simp]: "zstr (replicate n NUL) = []"
  by (cases n) (simp_all add: zstr_def)

theorem DBQueryAuthAccessRes_fields_witness:
  "\<exists>a' n db'. DBQueryAuthAccessRes (sample_world (\<lambda>_ _. Rows [map (\<lambda>n. Some ''x'') fieldsLen]) (\<lambda>_ _. Com_error)) (Some (replicate 2279 NUL)) (sample_db ''MYSQL'')
      = Some (n, Some a', db') \<and> (\<forall>i<35. auth_field a' i = ''x'')"
proof -
  have r: "list_all2 fits (map (\<lambda>n. Some ''x'') fieldsLen) fieldsLen" by (simp add: fieldsLen_def fits_def)
  have a: "auth_field (replicate 2279 NUL) 0 = []" by (simp add: auth_field_def)
  have n: "nonempty (map (\<lambda>n. Some ''x'') fieldsLen ! i) \<noteq> None" "text_of (map (\<lambda>n. Some ''x'') fieldsLen ! i) = ''x''" if "i < 35" for i
    using that auth_fields_ok(3) by (simp_all add: nonempty_def)
  from DBQueryAuthAccessRes_fields[of "replicate 2279 NUL" "map (\<lambda>n. Some ''x'') fieldsLen" "sample_db ''MYSQL''"
      "sample_world (\<lambda>_ _. Rows [map (\<lambda>n. Some ''x'') fieldsLen]) (\<lambda>_ _. Com_error)" "[]"] r a n
  show ?thesis by fastforce
qed

theorem DBExecAuthAccessRes_delete_witness:
  "\<exists>db'. DBExecAuthAccessRes (sample_world (\<lambda>ev _. if ev = [] then Rows [] else Query_error) (\<lambda>_ _. Com_error)) (Some (''7'' @ replicate 2278 NUL)) 1 (sample_db ''MYSQL'')
      = Some (- 1, Some (''7'' @ replicate 2278 NUL), db') \<and> trace db' = [Sql (auth_delete ''7''), Sql (limit_delete ''7'')]"
proof -
  have a: "auth_field (''7'' @ replicate 2278 NUL) 0 = ''7''" by (simp add: auth_field_def zstr_def)
  from DBExecAuthAccessRes_delete[of 1 "''7'' @ replicate 2278 NUL" "sample_db ''MYSQL''"
      "sample_world (\<lambda>ev _. if ev = [] then Rows [] else Query_error) (\<lambda>_ _. Com_error)" "[]"] a
  show ?thesis by fastforce
qed

subsection \<open>The file of commands is read back\<close>

text \<open>A reader of the file behind its header: the length, the two flags and the command of each entry.\<close>

definition bytes_int :: "cstring \<Rightarrow> nat" where
  "bytes_int t = foldr (\<lambda>c n. of_char c + 256 * n) t 0"

function read_limits :: "cstring \<Rightarrow> STRUCT_AUTHACCESSLIMIT list option" where
  "read_limits t =
     (if t = [] then Some []
      else let j = bytes_int (take 4 t); r = drop 4 t
           in if j < 2 \<or> length r < j then None
              else map_option ((#) \<lparr>lim_cmdFlag = of_char (r ! 0), lim_level = of_char (r ! 1), lim_command = take (j - 2) (drop 2 r)\<rparr>)
                     (read_limits (drop j r)))"
  by pat_completeness auto
termination by (relation "measure length") auto

declare read_limits.simps [simp del]

definition entry :: "STRUCT_AUTHACCESSLIMIT \<Rightarrow> cstring" where
  "entry l = int_bytes (int (202 - 200 + length (lim_command l))) @ char_byte (lim_cmdFlag l) # char_byte (lim_level l) # lim_command l"

lemma write_limit_entry: "write_limit l stream = map_option (\<lambda>t. t @ entry l) stream"
  by (cases stream) (simp_all add: write_limit_def writeData_def entry_def)

definition stored :: "STRUCT_AUTHACCESSLIMIT \<Rightarrow> STRUCT_AUTHACCESSLIMIT" where
  "stored l = \<lparr>lim_cmdFlag = lim_cmdFlag l mod 256, lim_level = lim_level l mod 256, lim_command = lim_command l\<rparr>"

lemma char_byte_mod: "of_char (char_byte i) = (i mod 256 :: int)"
proof -
  have "int (of_char (char_byte i)) = i mod 256" by (simp add: char_byte_def)
  moreover have "int (of_char (char_byte i)) = of_char (char_byte i)" by (rule of_nat_of_char)
  ultimately show ?thesis by argo
qed

lemma bytes_int_bytes:
  assumes "0 \<le> i" and "i < 2 ^ 32"
  shows "int (bytes_int (int_bytes i)) = i"
proof -
  have "int_bytes i = [char_of (nat (i mod 256)), char_of (nat (i div 256 mod 256)), char_of (nat (i div 65536 mod 256)), char_of (nat (i div 16777216 mod 256))]"
    by (simp add: int_bytes_def upt_rec numeral_eq_Suc)
  then have "int (bytes_int (int_bytes i)) = i mod 256 + 256 * (i div 256 mod 256 + 256 * (i div 65536 mod 256 + 256 * (i div 16777216 mod 256)))"
    by (simp add: bytes_int_def)
  also have "\<dots> = i"
  proof -
    have "i div 65536 = (i div 256) div 256" "i div 16777216 = (i div 65536) div 256" by (simp_all flip: zdiv_zmult2_eq)
    moreover have "i div 16777216 mod 256 = i div 16777216" using assms by (intro mod_pos_pos_trivial) auto
    ultimately show ?thesis by presburger
  qed
  finally show ?thesis .
qed

lemma length_int_bytes [simp]: "length (int_bytes i) = 4"
  by (simp add: int_bytes_def)

lemma read_entry:
  assumes "length (lim_command l) < 200"
  shows "read_limits (entry l @ t) = map_option ((#) (stored l)) (read_limits t)"
proof -
  have j: "bytes_int (int_bytes (int (2 + length (lim_command l)))) = 2 + length (lim_command l)"
  proof -
    have "int (bytes_int (int_bytes (int (2 + length (lim_command l))))) = int (2 + length (lim_command l))"
      by (rule bytes_int_bytes) (use assms in auto)
    then show ?thesis by (simp only: of_nat_eq_iff)
  qed
  note j = j[simplified]
  have e: "entry l @ t = int_bytes (int (2 + length (lim_command l))) @ (char_byte (lim_cmdFlag l) # char_byte (lim_level l) # lim_command l @ t)"
    by (simp add: entry_def)
  have ne: "entry l @ t \<noteq> []" by (simp add: entry_def)
  show ?thesis
    by (subst read_limits.simps, simp only: ne if_False Let_def, unfold e) (simp add: j stored_def char_byte_mod)
qed

lemma read_entries:
  "\<forall>l\<in>set ls. length (lim_command l) < 200 \<Longrightarrow> read_limits (concat (map entry ls)) = Some (map stored ls)"
proof (induction ls)
  case (Cons l ls)
  then show ?case using read_entry[of l "concat (map entry ls)"] by simp
qed (simp add: read_limits.simps)

text \<open>A complete row: a command that fits, a flag and a level.\<close>

definition complete :: "row \<Rightarrow> bool" where
  "complete row \<longleftrightarrow> (\<exists>c f l. row = [Some c, Some f, Some l] \<and> c \<noteq> [] \<and> length c < 200 \<and> f \<noteq> [] \<and> length f < 2048 \<and> l \<noteq> [] \<and> length l < 2048)"

definition limit_of :: "row \<Rightarrow> STRUCT_AUTHACCESSLIMIT" where
  "limit_of row = \<lparr>lim_cmdFlag = atoi (text_of (row ! 1)), lim_level = atoi (text_of (row ! 2)), lim_command = text_of (row ! 0)\<rparr>"

lemma limit_rows_complete:
  "list_all complete rows \<Longrightarrow> limit_rows rows n (Some t) = Some (n + int (length rows), Some (t @ concat (map (entry \<circ> limit_of) rows)))"
proof (induction rows arbitrary: n t)
  case (Cons row rows)
  then obtain c f l where r: "row = [Some c, Some f, Some l]" "c \<noteq> []" "length c < 200" "f \<noteq> []" "length f < 2048" "l \<noteq> []" "length l < 2048"
    by (auto simp: complete_def)
  then have "limit_columns 0 row limit0 = Some (limit_of row)" "lim_command (limit_of row) \<noteq> []"
    by (simp_all add: fitting_def limit_of_def limit0_def)
  then show ?case using Cons by (simp add: write_limit_entry)
qed simp

lemma tell_complete:
  assumes "complete row" and "map (told rec) [''pr_command'', ''pr_cmdFlag'', ''pr_level''] = row"
  shows "tell TransAuthAccessLimit (calls_of [''pr_command'', ''pr_cmdFlag'', ''pr_level''] rec) (limit0, Some t)
    = Some (limit0, Some (t @ entry (limit_of row)))"
  using assms by (auto simp: complete_def calls_of_def TransAuthAccessLimit_def fitting_def write_limit_entry limit_of_def limit0_def)

lemma tell_all_complete:
  assumes "list_all2 (\<lambda>row rec. complete row \<and> map (told rec) [''pr_command'', ''pr_cmdFlag'', ''pr_level''] = row) rows recs"
  shows "tell TransAuthAccessLimit (concat (map (calls_of [''pr_command'', ''pr_cmdFlag'', ''pr_level'']) recs)) (limit0, Some t)
    = Some (limit0, Some (t @ concat (map (entry \<circ> limit_of) rows)))"
  using assms
proof (induction rows recs arbitrary: t rule: list_all2_induct)
  case (Cons row rows rec recs)
  then show ?case using tell_complete[of row rec t] by (simp add: tell_append)
qed simp

lemma length_limit_select: "length (limit_select s) = 78 + length s"
  by (simp add: limit_select_def qs_def)


text \<open>C31: the file of commands has the record as its header and reads back as the commands of the rows, with flag and level as bytes, from
  either database, when no column is missing.\<close>

theorem writeAuthData_roundtrip:
  assumes "length a = 2279" and "length (auth_field a 0) < 33" and "list_all complete rows"
    and "isMySql db \<Longrightarrow> mysql_srv w (trace db) (limit_select (auth_field a 0)) = Rows rows"
    and "\<not> isMySql db \<Longrightarrow> OleDb db = Some (Some True) \<and> ole_srv w (trace db) (limit_select (auth_field a 0)) = Records recs
      \<and> (\<forall>r\<in>set recs. \<forall>f\<in>set [''pr_command'', ''pr_cmdFlag'', ''pr_level'']. readable r f)
      \<and> map (\<lambda>r. map (told r) [''pr_command'', ''pr_cmdFlag'', ''pr_level'']) recs = rows"
  shows "\<exists>body db'. writeAuthData w True (Some a) db = Some (Some (take 1155 a @ body), db')
    \<and> read_limits body = Some (map (stored \<circ> limit_of) rows)"
proof -
  let ?body = "concat (map (entry \<circ> limit_of) rows)" and ?sql = "limit_select (auth_field a 0)"
  have len: "length ?sql < 2048" using assms(2) by (simp add: length_limit_select)
  have "\<forall>l\<in>set (map limit_of rows). length (lim_command l) < 200"
    using assms(3) by (auto simp: list_all_iff complete_def limit_of_def)
  from read_entries[OF this] have "read_limits ?body = Some (map (stored \<circ> limit_of) rows)" by simp
  moreover have "\<exists>db'. writeAuthData w True (Some a) db = Some (Some (take 1155 a @ ?body), db')"
  proof (cases "isMySql db")
    case True
    then show ?thesis
      using assms(4)[OF True] len limit_rows_complete[OF assms(3), of 0 "take 1155 a"]
      by (simp add: writeAuthData_def DBQueryAuthAccessLimit_def Let_def fitting_def select_rows_def writeData_def)
  next
    case False
    note o = assms(5)[OF False]
    have "list_all2 (\<lambda>row rec. complete row \<and> map (told rec) [''pr_command'', ''pr_cmdFlag'', ''pr_level''] = row) rows recs"
      using o assms(3) by (auto simp: list_all2_conv_all_nth list_all_length)
    from oleDb_Query_result[of "ole_srv w" "trace db" ?sql recs "[''pr_command'', ''pr_cmdFlag'', ''pr_level'']" TransAuthAccessLimit
        "(limit0, Some (take 1155 a))"] tell_all_complete[OF this, of "take 1155 a"] o
    show ?thesis
      using False len by (simp add: writeAuthData_def DBQueryAuthAccessLimit_def Let_def fitting_def ole_query_def writeData_def)
  qed
  ultimately show ?thesis by blast
qed

theorem writeAuthData_roundtrip_witness:
  "\<exists>body db'. writeAuthData (sample_world (\<lambda>_ _. Rows [[Some ''reboot'', Some ''1'', Some ''2'']]) (\<lambda>_ _. Com_error)) True (Some (replicate 2279 NUL))
       (sample_db ''MYSQL'') = Some (Some (replicate 1155 NUL @ body), db')
     \<and> read_limits body = Some [\<lparr>lim_cmdFlag = 1, lim_level = 2, lim_command = ''reboot''\<rparr>]"
proof -
  have c: "complete [Some ''reboot'', Some ''1'', Some ''2'']" by (simp add: complete_def)
  have v: "(stored \<circ> limit_of) [Some ''reboot'', Some ''1'', Some ''2''] = \<lparr>lim_cmdFlag = 1, lim_level = 2, lim_command = ''reboot''\<rparr>"
    by (simp add: stored_def limit_of_def atoi_def is_space_def is_digit_def digits_value_def)
  from writeAuthData_roundtrip[of "replicate 2279 NUL" "[[Some ''reboot'', Some ''1'', Some ''2'']]" "sample_db ''MYSQL''"
      "sample_world (\<lambda>_ _. Rows [[Some ''reboot'', Some ''1'', Some ''2'']]) (\<lambda>_ _. Com_error)" "[]"] c v
  show ?thesis by (simp add: auth_field_def take_replicate)
qed

text \<open>C32: a command without a level, the only row of its result, is written over MySQL, with level 0; over Oracle and DB2 it is not, so it is not among the
  commands that are looked for.\<close>

theorem limit_without_level:
  assumes "length a = 2279" and "length (auth_field a 0) < 33" and "c \<noteq> []" and "length c < 200" and "f \<noteq> []" and "length f < 2048"
    and "isMySql db \<Longrightarrow> mysql_srv w (trace db) (limit_select (auth_field a 0)) = Rows [[Some c, Some f, None]]"
    and "\<not> isMySql db \<Longrightarrow> OleDb db = Some (Some True) \<and> ole_srv w (trace db) (limit_select (auth_field a 0)) = Records [rec]
      \<and> (\<forall>f\<in>set [''pr_command'', ''pr_cmdFlag'', ''pr_level'']. readable rec f)
      \<and> map (told rec) [''pr_command'', ''pr_cmdFlag'', ''pr_level''] = [Some c, Some f, None]"
  shows "\<exists>body db'. writeAuthData w True (Some a) db = Some (Some (take 1155 a @ body), db')
    \<and> read_limits body = Some (if isMySql db then [\<lparr>lim_cmdFlag = atoi f mod 256, lim_level = 0, lim_command = c\<rparr>] else [])"
proof -
  let ?l = "\<lparr>lim_cmdFlag = atoi f, lim_level = 0, lim_command = c\<rparr>" and ?sql = "limit_select (auth_field a 0)"
  have len: "length ?sql < 2048" using assms(2) by (simp add: length_limit_select)
  have r: "read_limits (entry ?l) = Some [\<lparr>lim_cmdFlag = atoi f mod 256, lim_level = 0, lim_command = c\<rparr>]" "read_limits [] = Some []"
    using read_entries[of "[?l]"] assms(4) by (simp_all add: stored_def read_limits.simps[of "[]"])
  show ?thesis
  proof (cases "isMySql db")
    case True
    then have "writeAuthData w True (Some a) db = Some (Some (take 1155 a @ entry ?l), db\<lparr>trace := trace db @ [Sql ?sql]\<rparr>)"
      using assms(3-7) len
      by (simp add: writeAuthData_def DBQueryAuthAccessLimit_def Let_def fitting_def select_rows_def writeData_def write_limit_entry limit0_def)
    then show ?thesis using True r(1) by auto
  next
    case False
    note o = assms(8)[OF False]
    have "tell TransAuthAccessLimit (concat (map (calls_of [''pr_command'', ''pr_cmdFlag'', ''pr_level'']) [rec])) (limit0, Some (take 1155 a))
      = Some (\<lparr>lim_cmdFlag = atoi f, lim_level = 0, lim_command = c\<rparr>, Some (take 1155 a))"
      using o assms(4) by (simp add: calls_of_def TransAuthAccessLimit_def fitting_def limit0_def)
    with oleDb_Query_result[of "ole_srv w" "trace db" ?sql "[rec]" "[''pr_command'', ''pr_cmdFlag'', ''pr_level'']" TransAuthAccessLimit
        "(limit0, Some (take 1155 a))"] o
    have "\<exists>db'. writeAuthData w True (Some a) db = Some (Some (take 1155 a), db')"
      using False len by (simp add: writeAuthData_def DBQueryAuthAccessLimit_def Let_def fitting_def ole_query_def writeData_def)
    then show ?thesis using False r(2) by (intro exI[of _ "[]"]) simp
  qed
qed

definition unlevelled :: ole_record where
  "unlevelled f = (if f = ''pr_command'' then Some (VT_BSTR 6 (Some ''reboot'')) else if f = ''pr_cmdFlag'' then Some (VT_INT 1)
     else Some (VT_BSTR 0 None))"

theorem limit_without_level_witness:
  "\<exists>body db'. writeAuthData (sample_world (\<lambda>_ _. Query_error) (\<lambda>_ _. Records [unlevelled])) True (Some (replicate 2279 NUL)) (sample_db ''ORACLE'')
      = Some (Some (replicate 1155 NUL @ body), db') \<and> read_limits body = Some []"
proof -
  have d: "fmt_d 1 = ''1''" by code_simp
  have t: "map (told unlevelled) [''pr_command'', ''pr_cmdFlag'', ''pr_level''] = [Some ''reboot'', Some ''1'', None]"
    "\<forall>f\<in>set [''pr_command'', ''pr_cmdFlag'', ''pr_level'']. readable unlevelled f"
    by (simp_all add: told_def readable_def Table_Get_def unlevelled_def d)
  from limit_without_level[of "replicate 2279 NUL" "''reboot''" "''1''" "sample_db ''ORACLE''"
      "sample_world (\<lambda>_ _. Query_error) (\<lambda>_ _. Records [unlevelled])" unlevelled] t
  show ?thesis by (simp add: auth_field_def take_replicate)
qed

end
