(* ===== verification/OscLogLaws.thy ===== *)
theory OscLogLaws
  imports OscLog OscDbLaws
begin

text \<open>
  What is written to the database by OscLog and asked by OscQuery: escaped texts as literals, the account of a login that is
  escaped again by every heartbeat, times that are read back, the number of a login.
\<close>

subsection \<open>Escaped texts as literals\<close>

text \<open>
  How MySQL reads a literal, behind its opening quote: a backslash takes the next character, two quotes are one. \<open>unesc\<close> is what
  a character behind a backslash stands for. Oracle knows the second rule only.
\<close>

fun mysql_literal :: "(char \<Rightarrow> char) \<Rightarrow> cstring \<Rightarrow> (cstring \<times> cstring) option" where
  "mysql_literal unesc [] = None"
| "mysql_literal unesc [c] = (if c = CHR 0x27 then Some ([], []) else None)"
| "mysql_literal unesc (c # d # s) =
     (if c = bslash then map_option (\<lambda>(t, r). (unesc d # t, r)) (mysql_literal unesc s)
      else if c \<noteq> CHR 0x27 then map_option (\<lambda>(t, r). (c # t, r)) (mysql_literal unesc (d # s))
      else if d = CHR 0x27 then map_option (\<lambda>(t, r). (d # t, r)) (mysql_literal unesc s)
      else Some ([], d # s))"

fun oracle_literal :: "cstring \<Rightarrow> (cstring \<times> cstring) option" where
  "oracle_literal [] = None"
| "oracle_literal [c] = (if c = CHR 0x27 then Some ([], []) else None)"
| "oracle_literal (c # d # s) =
     (if c \<noteq> CHR 0x27 then map_option (\<lambda>(t, r). (c # t, r)) (oracle_literal (d # s))
      else if d = CHR 0x27 then map_option (\<lambda>(t, r). (d # t, r)) (oracle_literal s)
      else Some ([], d # s))"

lemma mysql_literal_escaped:
  assumes "unesc bslash = bslash" and "unesc (CHR 0x27) = CHR 0x27" and "r \<noteq> []" and "hd r \<noteq> CHR 0x27"
  shows "mysql_literal unesc (escaped s @ CHR 0x27 # r) = Some (s, r)"
proof (induction s)
  case Nil
  then show ?case using assms(3,4) by (cases r) (simp_all add: bslash_def)
next
  case (Cons c s)
  obtain x xs where e: "escaped s @ CHR 0x27 # r = x # xs" by (cases "escaped s @ CHR 0x27 # r") auto
  show ?case using Cons assms(1,2) by (auto simp: bslash_def e)
qed

lemma oracle_literal_plain:
  "CHR 0x27 \<notin> set s \<Longrightarrow> x \<noteq> CHR 0x27 \<Longrightarrow> oracle_literal (s @ CHR 0x27 # x # r) = Some (s, x # r)"
proof (induction s)
  case (Cons c s)
  then show ?case by (cases "s @ CHR 0x27 # x # r") auto
qed simp

fun special :: "cstring \<Rightarrow> nat" where
  "special [] = 0"
| "special (c # s) = (if c = bslash \<or> c = CHR 0x27 then 1 else 0) + special s"

lemma special_append: "special (a @ b) = special a + special b"
  by (induction a) auto

lemma length_escaped: "length (escaped s) = length s + special s"
  by (induction s) auto

lemma special_escaped: "special (escaped s) = 2 * special s"
  by (induction s) (auto simp: special_append)

lemma special_le: "special s \<le> length s"
  by (induction s) auto

lemma oracle_literal_through:
  "CHR 0x27 \<notin> set s \<Longrightarrow> oracle_literal (s @ CHR 0x27 # CHR 0x27 # r) = map_option (\<lambda>(t, r). (s @ CHR 0x27 # t, r)) (oracle_literal r)"
proof (induction s)
  case Nil
  then show ?case by simp
next
  case (Cons c s)
  then show ?case by (cases "s @ CHR 0x27 # CHR 0x27 # r") (auto simp: option.map_comp comp_def case_prod_unfold)
qed

lemma hd_escaped: "s \<noteq> [] \<Longrightarrow> escaped s \<noteq> [] \<and> hd (escaped s) \<noteq> CHR 0x27"
  by (cases s) (auto simp: bslash_def)

text \<open>C33: a text that \<open>preSqlStr\<close> has escaped is one literal for MySQL, which has the text as its value, whatever follows in the statement.
  Oracle knows no backslash in a literal: a text without a quote has its backslashes doubled there; the first quote in a text ends the literal
  before it, and what follows in the text is part of the statement; and a quote that is the last character of the text makes one with the
  quote that was to end the literal, which goes on into the statement.\<close>

theorem preSqlStr_literal:
  assumes "preSqlStr n s = Some e" and "r \<noteq> []" and "hd r \<noteq> CHR 0x27"
    and "unesc bslash = bslash" and "unesc (CHR 0x27) = CHR 0x27"
  shows "mysql_literal unesc (e @ CHR 0x27 # r) = Some (s, r)
    \<and> (CHR 0x27 \<notin> set s \<longrightarrow> oracle_literal (e @ CHR 0x27 # r) = Some (escaped s, r))
    \<and> (\<forall>s1 s2. s = s1 @ CHR 0x27 # s2 \<and> CHR 0x27 \<notin> set s1 \<longrightarrow>
        oracle_literal (e @ CHR 0x27 # r) =
          (if s2 \<noteq> [] then Some (escaped s1 @ [bslash], escaped s2 @ CHR 0x27 # r)
           else map_option (\<lambda>(t, rest). (escaped s1 @ [bslash] @ CHR 0x27 # t, rest)) (oracle_literal r)))"
proof -
  have e: "e = escaped s" using assms(1) by (simp add: preSqlStr_def Let_def split: if_splits)
  have app: "escaped (a @ b) = escaped a @ escaped b" for a b by (induction a) auto
  have nq: "CHR 0x27 \<notin> set (escaped a)" if "CHR 0x27 \<notin> set a" for a
    using that by (induction a) (auto simp: bslash_def)
  have plain: "oracle_literal (e @ CHR 0x27 # r) = Some (escaped s, r)" if "CHR 0x27 \<notin> set s"
    unfolding e using oracle_literal_plain[of "escaped s" "hd r" "tl r"] nq[OF that] assms(2,3) by simp
  have quoted: "oracle_literal (e @ CHR 0x27 # r) =
      (if s2 \<noteq> [] then Some (escaped s1 @ [bslash], escaped s2 @ CHR 0x27 # r)
       else map_option (\<lambda>(t, rest). (escaped s1 @ [bslash] @ CHR 0x27 # t, rest)) (oracle_literal r))"
    if s: "s = s1 @ CHR 0x27 # s2" "CHR 0x27 \<notin> set s1" for s1 s2
  proof (cases "s2 = []")
    case True
    then show ?thesis
      unfolding e using s oracle_literal_through[of "escaped s1 @ [bslash]" r] nq[of s1] by (simp add: app bslash_def)
  next
    case False
    obtain x t where x: "escaped s2 = x # t" "x \<noteq> CHR 0x27" using hd_escaped[OF False] by (cases "escaped s2") auto
    with False show ?thesis
      unfolding e using s oracle_literal_plain[of "escaped s1 @ [bslash]" x "t @ CHR 0x27 # r"] nq[of s1]
      by (simp add: app bslash_def)
  qed
  have "mysql_literal unesc (e @ CHR 0x27 # r) = Some (s, r)"
    unfolding e using mysql_literal_escaped assms(2-5) by blast
  with plain quoted show ?thesis by blast
qed

theorem preSqlStr_literal_witness:
  "preSqlStr 21 [CHR ''a'', CHR 0x27, CHR ''b''] = Some [CHR ''a'', bslash, CHR 0x27, CHR ''b'']
   \<and> mysql_literal (\<lambda>c. c) ([CHR ''a'', bslash, CHR 0x27, CHR ''b''] @ CHR 0x27 # '')'') = Some ([CHR ''a'', CHR 0x27, CHR ''b''], '')'')
   \<and> oracle_literal ([CHR ''a'', bslash, CHR 0x27, CHR ''b''] @ CHR 0x27 # '')'') = Some ([CHR ''a'', bslash], CHR ''b'' # CHR 0x27 # '')'')"
proof -
  have p: "preSqlStr 21 [CHR ''a'', CHR 0x27, CHR ''b''] = Some [CHR ''a'', bslash, CHR 0x27, CHR ''b'']"
    by (simp add: preSqlStr_def bslash_def)
  have c: "bslash \<noteq> CHR 0x27" "hd '')'' \<noteq> CHR 0x27" by (simp_all add: bslash_def)
  note l = preSqlStr_literal[OF p _ c(2), of "\<lambda>c. c"]
  have "oracle_literal ([CHR ''a'', bslash, CHR 0x27, CHR ''b''] @ CHR 0x27 # '')'')
    = (if ''b'' \<noteq> [] then Some (escaped ''a'' @ [bslash], escaped ''b'' @ CHR 0x27 # '')'')
       else map_option (\<lambda>(t, rest). (escaped ''a'' @ [bslash] @ CHR 0x27 # t, rest)) (oracle_literal '')''))"
    by (rule l[THEN conjunct2, THEN conjunct2, rule_format, of "''a''"]) simp_all
  then show ?thesis using l p by (simp add: bslash_def)
qed

subsection \<open>The heartbeat\<close>

text \<open>Calls of the heartbeat, one after the other, on the record the program keeps.\<close>

text \<open>A login with nothing but an account and a number.\<close>

definition sample_login :: "cstring \<Rightarrow> cstring \<Rightarrow> STRUCT_LOGINLOG" where
  "sample_login account n =
     \<lparr>lg_id = n, lg_uid = [], lg_userName = [], lg_orgId = [], lg_orgName = [], lg_accountNo = account, lg_clientAddr = [],
      lg_resAddr = [], lg_resId = [], lg_resName = [], lg_resType = [], lg_apId = [], lg_accessType = 0, lg_loginDate = [],
      lg_loginOutDate = [], lg_onLineTime = [], lg_proxyAddr = [], lg_cmdFlag = 0, lg_nodeFlag = 0, lg_authaccessresid = [],
      lg_cooperator = [], lg_accessMemo = [], lg_accessName = []\<rparr>"

fun heartbeats :: "nat \<Rightarrow> dbworld \<Rightarrow> winsys \<Rightarrow> cstring \<Rightarrow> STRUCT_LOGINLOG \<Rightarrow> db_mysql \<Rightarrow> logger \<Rightarrow> STRUCT_LOGINLOG option" where
  "heartbeats 0 w s t l db lg = Some l"
| "heartbeats (Suc n) w s t l db lg =
     do {
       (rc, l, db, lg) \<leftarrow> DBExecLoginLog w s (Some l) 2 t [] db lg;
       l \<leftarrow> l;
       heartbeats n w s t l db lg
     }"

lemma heartbeat_account:
  assumes "DBExecLoginLog w s (Some l) 2 t o' db lg = Some (rc, l', db', lg')"
  shows "\<exists>m. l' = Some m \<and> lg_accountNo m = escaped (lg_accountNo l)
    \<and> (lg_accountNo l \<noteq> [] \<longrightarrow> length (escaped (lg_accountNo l)) < 21 \<and> special (lg_accountNo l) < length (lg_accountNo l))"
  using assms
  by (auto simp: DBExecLoginLog_def login_statement_def preSqlStr_def Let_def length_escaped Option.bind_eq_Some_conv split: if_splits)

lemma heartbeats_account:
  assumes "heartbeats n w s t l db lg = Some m" and "0 < special (lg_accountNo l)"
  shows "special (lg_accountNo m) = 2 ^ n * special (lg_accountNo l)
    \<and> length (lg_accountNo m) + special (lg_accountNo l) = length (lg_accountNo l) + 2 ^ n * special (lg_accountNo l)
    \<and> (0 < n \<longrightarrow> length (lg_accountNo m) < 21 \<and> special (lg_accountNo l) < length (lg_accountNo l))"
  using assms
proof (induction n arbitrary: l db lg)
  case (Suc n)
  from Suc.prems(1) obtain rc l1 db' lg' where h: "DBExecLoginLog w s (Some l) 2 t [] db lg = Some (rc, Some l1, db', lg')"
    "heartbeats n w s t l1 db' lg' = Some m"
    by (auto simp: Option.bind_eq_Some_conv)
  have ne: "lg_accountNo l \<noteq> []" using Suc.prems(2) by auto
  from heartbeat_account[OF h(1)] ne have a: "lg_accountNo l1 = escaped (lg_accountNo l)"
    "length (escaped (lg_accountNo l)) < 21" "special (lg_accountNo l) < length (lg_accountNo l)" by auto
  have sp: "special (lg_accountNo l1) = 2 * special (lg_accountNo l)" using a(1) special_escaped by simp
  from Suc.IH[OF h(2)] Suc.prems(2) sp have r: "special (lg_accountNo m) = 2 ^ n * (2 * special (lg_accountNo l))"
    "length (lg_accountNo m) + 2 * special (lg_accountNo l) = length (lg_accountNo l1) + 2 ^ n * (2 * special (lg_accountNo l))"
    "0 < n \<longrightarrow> length (lg_accountNo m) < 21" by auto
  have "length (lg_accountNo m) + special (lg_accountNo l) = length (lg_accountNo l) + 2 ^ Suc n * special (lg_accountNo l)"
    using r(2) a(1) length_escaped[of "lg_accountNo l"] by simp
  moreover have "length (lg_accountNo m) < 21" using r(2,3) a(1,2) by (cases n) auto
  ultimately show ?case using r(1) a(3) by simp
qed simp

text \<open>C34: a login whose account has a quote or a backslash in it, as that of a domain has, does not live through five heartbeats: each one
  escapes the account in place once more, until it leaves its array of 21 characters.\<close>

theorem heartbeats_overflow:
  assumes "special (lg_accountNo l) > 0"
  shows "heartbeats 5 w s t l db lg = None"
proof (rule ccontr)
  assume "heartbeats 5 w s t l db lg \<noteq> None"
  then obtain m where "heartbeats 5 w s t l db lg = Some m" by auto
  from heartbeats_account[OF this assms] show False using assms by simp
qed

theorem heartbeats_overflow_witness:
  "heartbeats 5 (sample_world (\<lambda>_ _. Rows []) (\<lambda>_ _. Com_error)) sample_sys ''2024-01-01 00:00:00'' (sample_login (''d'' @ [bslash] @ ''u'') []) (sample_db ''MYSQL'') logger0 = None"
  by (rule heartbeats_overflow) (simp add: sample_login_def)

subsection \<open>Times are read back\<close>

lemma length_pad0: "0 < w \<Longrightarrow> n < 10 ^ w \<Longrightarrow> length (pad0 w (show_nat n)) = w"
  using length_show_nat[of n w] by (simp add: pad0_def)

lemma pad0_digits: "list_all is_digit (pad0 w (show_nat n))"
proof -
  have "is_digit (CHR ''0'')" by (simp add: is_digit_def)
  then show ?thesis using show_nat_digits[of _ n] digit_char_is_digit by (auto simp: pad0_def list_all_iff)
qed

lemma digits_value_pad0: "digits_value (pad0 w (show_nat n)) = int n"
proof -
  have "digits_value (replicate k (CHR ''0'') @ ds) = digits_value ds" for k ds
    by (induction k) (simp_all add: digits_value_def)
  then show ?thesis by (simp add: pad0_def digits_value_show_nat)
qed

lemma digit_not_blank: "is_digit c \<Longrightarrow> \<not> is_space c \<and> c \<noteq> CHR ''-'' \<and> c \<noteq> CHR ''+''"
  by (auto simp: is_digit_def is_space_def)

lemma scan_d_pad0:
  assumes "0 < w" and "n < 10 ^ w"
  shows "scan_d w (pad0 w (show_nat n) @ r) = Some (int n, r)"
proof -
  let ?p = "pad0 w (show_nat n)"
  have l: "length ?p = w" using length_pad0 assms by blast
  obtain c p where p: "?p = c # p" using l assms(1) by (cases ?p) auto
  have c: "is_digit c" "\<not> is_space c" "c \<noteq> CHR ''-''" "c \<noteq> CHR ''+''"
    using pad0_digits[of w n] digit_not_blank[of c] by (auto simp: p)
  have "takeWhile is_digit p = p" using pad0_digits[of w n] by (simp add: list_all_iff p)
  moreover have "take w (?p @ r) = ?p" "drop w (?p @ r) = r" using l by simp_all
  moreover have "dropWhile is_space (?p @ r) = ?p @ r" "hd (?p @ r) = c" using p c(2) by simp_all
  ultimately show ?thesis using c p l digits_value_pad0[of w n] assms(1) by (simp add: scan_d_def Let_def takeWhile_all)
qed

lemma fmt_0d_nat: "0 \<le> i \<Longrightarrow> fmt_0d w i = pad0 w (show_nat (nat i))"
  by (simp add: fmt_0d_def)

lemma scan_fmt:
  assumes "0 < w" and "0 \<le> i" and "i < 10 ^ w"
  shows "scan_d w (fmt_0d w i @ r) = Some (i, r)" and "scan_d w (fmt_0d w i) = Some (i, [])"
proof -
  have "nat i < 10 ^ w" using assms(2,3) by (simp add: nat_less_iff)
  then show "scan_d w (fmt_0d w i @ r) = Some (i, r)" for r
    using scan_d_pad0[OF assms(1), of "nat i" r] assms(2) by (simp add: fmt_0d_nat)
  from this[of "[]"] show "scan_d w (fmt_0d w i) = Some (i, [])" by simp
qed

definition time_ok :: "int list \<Rightarrow> bool" where
  "time_ok t \<longleftrightarrow> (\<exists>y m d h mi s. t = [y, m, d, h, mi, s] \<and> 0 \<le> y \<and> y \<le> 9999 \<and> list_all (\<lambda>i. 0 \<le> i \<and> i \<le> 99) [m, d, h, mi, s])"

lemma drop_blank: "0 \<le> i \<Longrightarrow> i < 100 \<Longrightarrow> dropWhile is_space (fmt_0d 2 i @ r) = fmt_0d 2 i @ r"
proof -
  assume i: "0 \<le> i" "i < 100"
  then have "length (pad0 2 (show_nat (nat i))) = 2" using length_pad0[of 2 "nat i"] by simp
  then show ?thesis using pad0_digits[of 2 "nat i"] digit_not_blank i
    by (cases "pad0 2 (show_nat (nat i))") (auto simp: fmt_0d_nat)
qed

lemma blank_space: "is_space (CHR '' '')"
  by (simp add: is_space_def)

lemma scan_time_text: "time_ok t \<Longrightarrow> scan_time (time_text t) = t"
  using drop_blank by (auto simp: time_ok_def scan_time_def time_text_def scan_fmt blank_space)

lemma length_time_text: "time_ok t \<Longrightarrow> length (time_text t) = 19"
  by (auto simp: time_ok_def time_text_def fmt_0d_nat length_pad0 nat_less_iff)

lemma escaped_plain: "special s = 0 \<Longrightarrow> escaped s = s"
  by (induction s) (auto split: if_splits)

text \<open>The heartbeat of an account without quotes and backslashes writes the time it is given, as it is, into the record and into one
  statement, and tells a refusal from success.\<close>

theorem heartbeat_result:
  assumes "time_ok t" and "special (lg_accountNo l) = 0" and "length (lg_accountNo l) < 21" and "length (lg_id l) < 33" and "isMySql db"
  shows "DBExecLoginLog w s (Some l) 2 (time_text t) o' db lg
    = Some (if mysql_srv w (trace db) (online_update db (l\<lparr>lg_onLineTime := time_text t\<rparr>)) = Query_error then - 3 else 0,
        Some (l\<lparr>lg_onLineTime := time_text t\<rparr>), db\<lparr>trace := trace db @ [Sql (online_update db (l\<lparr>lg_onLineTime := time_text t\<rparr>))]\<rparr>, lg)"
proof -
  let ?l = "l\<lparr>lg_onLineTime := time_text t\<rparr>"
  have a: "preSqlStr 21 (lg_accountNo l) = Some (lg_accountNo l)" if "lg_accountNo l \<noteq> []"
    using that assms(2,3) by (simp add: preSqlStr_def escaped_plain)
  have st: "fitting 20 (time_text (scan_time (time_text t))) = Some (time_text t)"
    using assms(1) by (simp add: scan_time_text length_time_text fitting_def)
  have sql: "length (online_update db ?l) < 2048" "online_update db ?l \<noteq> []"
    using assms(4) length_time_text[OF assms(1)] by (simp_all add: online_update_def sql_time_def qs_def)
  show ?thesis
    using a st sql assms(5)
    by (simp add: DBExecLoginLog_def login_statement_def fitting_def[of 2048] execute_def real_query_def Let_def)
qed

theorem heartbeat_result_witness:
  "DBExecLoginLog (sample_world (\<lambda>_ _. Rows []) (\<lambda>_ _. Com_error)) sample_sys (Some (sample_login ''joe'' ''7'')) 2 (time_text [2024, 1, 2, 3, 4, 5]) []
     (sample_db ''MYSQL'') logger0
   = Some (0, Some ((sample_login ''joe'' ''7'')\<lparr>lg_onLineTime := time_text [2024, 1, 2, 3, 4, 5]\<rparr>),
       (sample_db ''MYSQL'')\<lparr>trace := [Sql (online_update (sample_db ''MYSQL'') ((sample_login ''joe'' ''7'')\<lparr>lg_onLineTime := time_text [2024, 1, 2, 3, 4, 5]\<rparr>))]\<rparr>, logger0)"
proof -
  have t: "time_ok [2024, 1, 2, 3, 4, 5]" by (simp add: time_ok_def)
  from heartbeat_result[OF t, of "sample_login ''joe'' ''7''" "sample_db ''MYSQL''"] show ?thesis by (simp add: bslash_def sample_login_def)
qed

subsection \<open>Tries\<close>

lemma loginlog_tries_result:
  assumes "k < n" and "\<forall>i<k. mysql_srv w (trace db @ replicate i (Sql sql)) sql = Rows []"
    and "mysql_srv w (trace db @ replicate k (Sql sql)) sql = Rows ((Some v # cs) # rows)" and "length v < length buf"
  shows "loginlog_tries n w sql buf db
    = Some (1 + int (length rows), poke buf 0 (v @ [NUL]), db\<lparr>trace := trace db @ replicate (Suc k) (Sql sql)\<rparr>)"
  using assms
proof (induction k arbitrary: n db)
  case 0
  then obtain m where "n = Suc m" by (cases n) auto
  then show ?case using 0 by (simp add: select_rows_def Let_def copy_first_def nth_opt_def put_str_def poke_opt_def)
next
  case (Suc k)
  then obtain m where m: "n = Suc m" by (cases n) auto
  let ?db = "db\<lparr>trace := trace db @ [Sql sql]\<rparr>"
  have sh: "trace ?db @ replicate i (Sql sql) = trace db @ replicate (Suc i) (Sql sql)" for i
    by (simp flip: replicate_append_same)
  have "loginlog_tries m w sql buf ?db = Some (1 + int (length rows), poke buf 0 (v @ [NUL]), ?db\<lparr>trace := trace ?db @ replicate (Suc k) (Sql sql)\<rparr>)"
  proof (rule Suc.IH)
    show "\<forall>i<k. mysql_srv w (trace ?db @ replicate i (Sql sql)) sql = Rows []" unfolding sh using Suc.prems(2) by auto
    show "mysql_srv w (trace ?db @ replicate k (Sql sql)) sql = Rows ((Some v # cs) # rows)" unfolding sh by (rule Suc.prems(3))
  qed (use Suc.prems(1,4) m in simp_all)
  moreover have "mysql_srv w (trace db) sql = Rows []" using Suc.prems(2) by (auto dest: spec[of _ 0])
  ultimately show ?case using m by (simp add: select_rows_def Let_def)
qed

lemma loginlog_tries_none:
  assumes "\<forall>i<n. mysql_srv w (trace db @ replicate i (Sql sql)) sql = Rows []"
  shows "loginlog_tries n w sql buf db = Some (0, buf, db\<lparr>trace := trace db @ replicate n (Sql sql)\<rparr>)"
  using assms
proof (induction n arbitrary: db)
  case (Suc n)
  let ?db = "db\<lparr>trace := trace db @ [Sql sql]\<rparr>"
  have sh: "trace ?db @ replicate i (Sql sql) = trace db @ replicate (Suc i) (Sql sql)" for i
    by (simp flip: replicate_append_same)
  have "loginlog_tries n w sql buf ?db = Some (0, buf, ?db\<lparr>trace := trace ?db @ replicate n (Sql sql)\<rparr>)"
  proof (rule Suc.IH)
    show "\<forall>i<n. mysql_srv w (trace ?db @ replicate i (Sql sql)) sql = Rows []" unfolding sh using Suc.prems by auto
  qed
  moreover have "mysql_srv w (trace db) sql = Rows []" using Suc.prems by (auto dest: spec[of _ 0])
  ultimately show ?case by (simp add: select_rows_def Let_def)
qed simp

lemma loginlog_retry_none:
  assumes "OleDb db = Some (Some True)" and "\<forall>i<n. ole_srv w (trace db @ replicate i (Sql sql)) sql = Records []"
  shows "ole_retry n w sql cols f buf db = Some (0, None, db\<lparr>trace := trace db @ replicate n (Sql sql)\<rparr>)"
  using assms
proof (induction n arbitrary: db)
  case (Suc n)
  let ?db = "db\<lparr>trace := trace db @ [Sql sql]\<rparr>"
  have sh: "trace ?db @ replicate i (Sql sql) = trace db @ replicate (Suc i) (Sql sql)" for i
    by (simp flip: replicate_append_same)
  have "ole_retry n w sql cols f buf ?db = Some (0, None, ?db\<lparr>trace := trace ?db @ replicate n (Sql sql)\<rparr>)"
  proof (rule Suc.IH)
    show "\<forall>i<n. ole_srv w (trace ?db @ replicate i (Sql sql)) sql = Records []" unfolding sh using Suc.prems by auto
  qed (use Suc.prems in simp)
  moreover have "ole_srv w (trace db) sql = Records []" using Suc.prems by (auto dest: spec[of _ 0])
  ultimately show ?case
    using Suc.prems oleDb_Query_result[of "ole_srv w" "trace db" sql "[]" cols f buf] by (simp add: ole_query_def)
qed simp

lemma loginlog_retry_result:
  assumes "OleDb db = Some (Some True)" and "k < n" and "\<forall>i<k. ole_srv w (trace db @ replicate i (Sql sql)) sql = Records []"
    and "ole_srv w (trace db @ replicate k (Sql sql)) sql = Records recs" and "recs \<noteq> []"
    and "\<forall>r\<in>set recs. \<forall>f\<in>set cols. readable r f" and "tell func (concat (map (calls_of cols) recs)) buf = Some buf'"
  shows "ole_retry n w sql cols func buf db
    = Some (int (length recs), Some buf', db\<lparr>trace := trace db @ replicate (Suc k) (Sql sql)\<rparr>)"
  using assms
proof (induction k arbitrary: n db)
  case 0
  then obtain m where "n = Suc m" by (cases n) auto
  then show ?case
    using 0 oleDb_Query_result[of "ole_srv w" "trace db" sql recs cols func buf] by (simp add: ole_query_def)
next
  case (Suc k)
  then obtain m where m: "n = Suc m" by (cases n) auto
  let ?db = "db\<lparr>trace := trace db @ [Sql sql]\<rparr>"
  have sh: "trace ?db @ replicate i (Sql sql) = trace db @ replicate (Suc i) (Sql sql)" for i
    by (simp flip: replicate_append_same)
  have "ole_retry m w sql cols func buf ?db = Some (int (length recs), Some buf', ?db\<lparr>trace := trace ?db @ replicate (Suc k) (Sql sql)\<rparr>)"
  proof (rule Suc.IH)
    show "\<forall>i<k. ole_srv w (trace ?db @ replicate i (Sql sql)) sql = Records []" unfolding sh using Suc.prems(3) by auto
    show "ole_srv w (trace ?db @ replicate k (Sql sql)) sql = Records recs" unfolding sh by (rule Suc.prems(4))
  qed (use Suc.prems m in simp_all)
  moreover have "ole_srv w (trace db) sql = Records []" using Suc.prems(3) by (auto dest: spec[of _ 0])
  ultimately show ?case
    using Suc.prems m oleDb_Query_result[of "ole_srv w" "trace db" sql "[]" cols func buf] by (simp add: ole_query_def)
qed

text \<open>The records are copied one over the other.\<close>

lemma number_call: "TransDBQueryLoginlogId ''pr_id'' v buf = (case v of None \<Rightarrow> Some buf | Some v \<Rightarrow> put_str buf 0 v)"
  by (cases v) (simp_all add: TransDBQueryLoginlogId_def text_callback_def)

lemma calls_of_one: "concat (map (calls_of [f]) recs) = map (\<lambda>r. (f, told r f)) recs"
  by (induction recs) (simp_all add: calls_of_def)

lemma tell_numbers:
  assumes "\<forall>r\<in>set recs. length (text_of (told r ''pr_id'')) < length buf"
  shows "\<exists>buf'. tell TransDBQueryLoginlogId (concat (map (calls_of [''pr_id'']) recs)) buf = Some buf' \<and> length buf' = length buf"
  unfolding calls_of_one
  using assms
proof (induction recs arbitrary: buf)
  case (Cons r recs)
  show ?case
  proof (cases "told r ''pr_id''")
    case None
    with Cons show ?thesis by (simp add: number_call)
  next
    case (Some v)
    let ?b = "poke buf 0 (v @ [NUL])"
    have p: "put_str buf 0 v = Some ?b" "length ?b = length buf"
      using Some Cons.prems by (auto simp: put_str_def poke_opt_def poke_def)
    obtain buf' where "tell TransDBQueryLoginlogId (map (\<lambda>r. (''pr_id'', told r ''pr_id'')) recs) ?b = Some buf'" "length buf' = length ?b"
      using Cons.IH[of ?b] Cons.prems p(2) by auto
    with Some p show ?thesis by (simp add: number_call)
  qed
qed simp

lemma tell_last_number:
  assumes "\<forall>r\<in>set (recs @ [r]). length (text_of (told r ''pr_id'')) < length buf" and "told r ''pr_id'' = Some v"
  shows "\<exists>buf'. tell TransDBQueryLoginlogId (concat (map (calls_of [''pr_id'']) (recs @ [r]))) buf = Some (poke buf' 0 (v @ [NUL]))
    \<and> length buf' = length buf"
proof -
  obtain buf' where b: "tell TransDBQueryLoginlogId (concat (map (calls_of [''pr_id'']) recs)) buf = Some buf'" "length buf' = length buf"
    using tell_numbers[of recs buf] assms(1) by fastforce
  moreover have "put_str buf' 0 v = Some (poke buf' 0 (v @ [NUL]))"
    using assms b(2) by (auto simp: put_str_def poke_opt_def)
  ultimately show ?thesis
    unfolding calls_of_one using assms(2) by (intro exI[of _ buf']) (simp add: tell_append number_call)
qed

definition loginlog_select :: "cstring \<Rightarrow> cstring" where
  "loginlog_select r = ''select pr_id from Pr_LoginLog where pr_authaccessresid='' @ qs r"

text \<open>C35: the number of a login is looked for at most 200 times, and a program whose login is not recorded in time goes on with none. Over
  MySQL the number is that of the first row of the first answer with rows, over Oracle and DB2 that of its last record.\<close>

theorem DBQueryLoginlogId_result:
  assumes "length rid < 1000" and "k \<le> 200"
    and "isMySql db \<Longrightarrow> \<forall>i<k. mysql_srv w (trace db @ replicate i (Sql (loginlog_select rid))) (loginlog_select rid) = Rows []"
    and "\<not> isMySql db \<Longrightarrow> OleDb db = Some (Some True)
      \<and> (\<forall>i<k. ole_srv w (trace db @ replicate i (Sql (loginlog_select rid))) (loginlog_select rid) = Records [])"
  shows "(k = 200 \<longrightarrow> DBQueryLoginlogId w buf rid db = Some (0, buf, db\<lparr>trace := trace db @ replicate 200 (Sql (loginlog_select rid))\<rparr>))
    \<and> (\<forall>v cs rows. k < 200 \<and> isMySql db \<and> length v < length buf
          \<and> mysql_srv w (trace db @ replicate k (Sql (loginlog_select rid))) (loginlog_select rid) = Rows ((Some v # cs) # rows)
        \<longrightarrow> DBQueryLoginlogId w buf rid db
          = Some (1 + int (length rows), poke buf 0 (v @ [NUL]), db\<lparr>trace := trace db @ replicate (Suc k) (Sql (loginlog_select rid))\<rparr>))
    \<and> (\<forall>v recs r. k < 200 \<and> \<not> isMySql db \<and> told r ''pr_id'' = Some v
          \<and> (\<forall>r\<in>set (recs @ [r]). readable r ''pr_id'' \<and> length (text_of (told r ''pr_id'')) < length buf)
          \<and> ole_srv w (trace db @ replicate k (Sql (loginlog_select rid))) (loginlog_select rid) = Records (recs @ [r])
        \<longrightarrow> (\<exists>buf'. length buf' = length buf \<and> DBQueryLoginlogId w buf rid db
          = Some (1 + int (length recs), poke buf' 0 (v @ [NUL]), db\<lparr>trace := trace db @ replicate (Suc k) (Sql (loginlog_select rid))\<rparr>)))"
proof -
  have f: "fitting 2048 (''select pr_id from Pr_LoginLog where pr_authaccessresid='' @ qs rid) = Some (loginlog_select rid)"
    using assms(1) by (simp add: fitting_def loginlog_select_def qs_def)
  have e: "DBQueryLoginlogId w buf rid db = loginlog_tries 200 w (loginlog_select rid) buf db" if "isMySql db"
    using that by (simp only: DBQueryLoginlogId_def f) simp
  have o': "DBQueryLoginlogId w buf rid db = do {
      (n, r, db) \<leftarrow> ole_retry 200 w (loginlog_select rid) [''pr_id''] TransDBQueryLoginlogId buf db;
      Some (n, case r of None \<Rightarrow> buf | Some b \<Rightarrow> b, db) }" if "\<not> isMySql db"
    using that by (simp only: DBQueryLoginlogId_def f) simp
  show ?thesis
  proof (intro conjI allI impI)
    assume k: "k = 200"
    show "DBQueryLoginlogId w buf rid db = Some (0, buf, db\<lparr>trace := trace db @ replicate 200 (Sql (loginlog_select rid))\<rparr>)"
    proof (cases "isMySql db")
      case True
      then show ?thesis unfolding e[OF True] using loginlog_tries_none assms(3) k by blast
    next
      case False
      have "ole_retry 200 w (loginlog_select rid) [''pr_id''] TransDBQueryLoginlogId buf db
        = Some (0, None, db\<lparr>trace := trace db @ replicate 200 (Sql (loginlog_select rid))\<rparr>)"
        using assms(4)[OF False] k by (intro loginlog_retry_none) blast+
      then show ?thesis unfolding o'[OF False] by simp
    qed
  next
    fix v cs rows
    assume a: "k < 200 \<and> isMySql db \<and> length v < length buf
      \<and> mysql_srv w (trace db @ replicate k (Sql (loginlog_select rid))) (loginlog_select rid) = Rows ((Some v # cs) # rows)"
    then have m: "isMySql db" by blast
    show "DBQueryLoginlogId w buf rid db
      = Some (1 + int (length rows), poke buf 0 (v @ [NUL]), db\<lparr>trace := trace db @ replicate (Suc k) (Sql (loginlog_select rid))\<rparr>)"
      unfolding e[OF m] using loginlog_tries_result[OF _ assms(3)[OF m]] a by blast
  next
    fix v recs r
    assume a: "k < 200 \<and> \<not> isMySql db \<and> told r ''pr_id'' = Some v
      \<and> (\<forall>r\<in>set (recs @ [r]). readable r ''pr_id'' \<and> length (text_of (told r ''pr_id'')) < length buf)
      \<and> ole_srv w (trace db @ replicate k (Sql (loginlog_select rid))) (loginlog_select rid) = Records (recs @ [r])"
    then have m: "\<not> isMySql db" by blast
    obtain buf' where b: "tell TransDBQueryLoginlogId (concat (map (calls_of [''pr_id'']) (recs @ [r]))) buf = Some (poke buf' 0 (v @ [NUL]))"
      "length buf' = length buf"
      using tell_last_number[of recs r buf v] a by blast
    have "ole_retry 200 w (loginlog_select rid) [''pr_id''] TransDBQueryLoginlogId buf db
      = Some (int (length (recs @ [r])), Some (poke buf' 0 (v @ [NUL])), db\<lparr>trace := trace db @ replicate (Suc k) (Sql (loginlog_select rid))\<rparr>)"
      using a assms(4)[OF m] b(1) by (intro loginlog_retry_result) auto
    then show "\<exists>buf'. length buf' = length buf \<and> DBQueryLoginlogId w buf rid db
        = Some (1 + int (length recs), poke buf' 0 (v @ [NUL]), db\<lparr>trace := trace db @ replicate (Suc k) (Sql (loginlog_select rid))\<rparr>)"
      unfolding o'[OF m] using b(2) by (intro exI[of _ buf']) simp
  qed
qed

definition numbered :: "cstring \<Rightarrow> ole_record" where
  "numbered n f = Some (VT_BSTR (length n) (Some n))"

theorem DBQueryLoginlogId_result_witness:
  "DBQueryLoginlogId (sample_world (\<lambda>ev _. if length ev < 3 then Rows [] else Rows [[Some ''42'']]) (\<lambda>_ _. Com_error)) (replicate 33 NUL) ''7'' (sample_db ''MYSQL'')
   = Some (1, poke (replicate 33 NUL) 0 (''42'' @ [NUL]), (sample_db ''MYSQL'')\<lparr>trace := replicate 4 (Sql (loginlog_select ''7''))\<rparr>)
   \<and> (\<exists>buf' db'. DBQueryLoginlogId (sample_world (\<lambda>_ _. Query_error) (\<lambda>_ _. Records [numbered ''41'', numbered ''42''])) (replicate 33 NUL) ''7'' (sample_db ''ORACLE'')
     = Some (2, poke buf' 0 (''42'' @ [NUL]), db'))"
proof
  show "DBQueryLoginlogId (sample_world (\<lambda>ev _. if length ev < 3 then Rows [] else Rows [[Some ''42'']]) (\<lambda>_ _. Com_error)) (replicate 33 NUL) ''7'' (sample_db ''MYSQL'')
     = Some (1, poke (replicate 33 NUL) 0 (''42'' @ [NUL]), (sample_db ''MYSQL'')\<lparr>trace := replicate 4 (Sql (loginlog_select ''7''))\<rparr>)"
    using DBQueryLoginlogId_result[of "''7''" 3 "sample_db ''MYSQL''"
        "sample_world (\<lambda>ev _. if length ev < 3 then Rows [] else Rows [[Some ''42'']]) (\<lambda>_ _. Com_error)" "replicate 33 NUL"]
    by (simp add: numeral_eq_Suc)
  have t: "told (numbered n) ''pr_id'' = (if n = [] then None else Some n)" "length n < 100 \<Longrightarrow> readable (numbered n) ''pr_id''" for n
    by (auto simp: told_def readable_def numbered_def Table_Get_def split: list.splits)
  have "\<exists>buf'. length buf' = 33 \<and> DBQueryLoginlogId (sample_world (\<lambda>_ _. Query_error) (\<lambda>_ _. Records [numbered ''41'', numbered ''42'']))
     (replicate 33 NUL) ''7'' (sample_db ''ORACLE'')
     = Some (1 + int (length [numbered ''41'']), poke buf' 0 (''42'' @ [NUL]), (sample_db ''ORACLE'')\<lparr>trace := trace (sample_db ''ORACLE'') @ replicate (Suc 0) (Sql (loginlog_select ''7''))\<rparr>)"
    using DBQueryLoginlogId_result[of "''7''" 0 "sample_db ''ORACLE''"
        "sample_world (\<lambda>_ _. Query_error) (\<lambda>_ _. Records [numbered ''41'', numbered ''42''])" "replicate 33 NUL",
        THEN conjunct2, THEN conjunct2, rule_format, of "numbered ''42''" "''42''" "[numbered ''41'']"] t
    by simp
  then show "\<exists>buf' db'. DBQueryLoginlogId (sample_world (\<lambda>_ _. Query_error) (\<lambda>_ _. Records [numbered ''41'', numbered ''42''])) (replicate 33 NUL) ''7'' (sample_db ''ORACLE'')
     = Some (2, poke buf' 0 (''42'' @ [NUL]), db')"
    by auto
qed

lemma tell_unchanged: "(\<And>f v. (f, v) \<in> set xs \<Longrightarrow> func f v h = Some h) \<Longrightarrow> tell func xs h = Some h"
  by (induction xs) auto

text \<open>Over Oracle and DB2 the language of a user is never read: the answer is counted, but its text does not arrive.\<close>

theorem DBQueryLocalLang_ole:
  assumes "\<not> isMySql db" and "OleDb db = Some (Some True)" and "length rid < 1000"
    and "ole_srv w (trace db) (''select pr_locallang from pr_authaccessres where pr_id='' @ qs rid) = Records recs"
    and "\<forall>r\<in>set recs. readable r ''pr_id''"
  shows "\<exists>db'. DBQueryLocalLang w localLang rid db = Some (int (length recs), localLang, db')"
proof -
  let ?sql = "''select pr_locallang from pr_authaccessres where pr_id='' @ qs rid"
  have f: "fitting 2048 ?sql = Some ?sql" using assms(3) by (simp add: fitting_def qs_def)
  have "tell TransDBQueryLocalLang (concat (map (calls_of [''pr_id'']) recs)) localLang = Some localLang"
    by (rule tell_unchanged) (auto simp: calls_of_def TransDBQueryLocalLang_def text_callback_def split: option.splits)
  with oleDb_Query_result[of "ole_srv w" "trace db" ?sql recs "[''pr_id'']" TransDBQueryLocalLang localLang] assms(4,5)
  have q: "oleDb_Query (ole_srv w) (Some True) ?sql [''pr_id''] TransDBQueryLocalLang localLang (trace db)
    = Some (Some (localLang, int (length recs)), trace db @ [Sql ?sql])" by simp
  show ?thesis unfolding DBQueryLocalLang_def f using assms(1,2) q by (simp add: ole_query_def)
qed

end
