(* ===== verification/LoadCfg.thy ===== *)
theory LoadCfg
  imports OscDb
begin

text \<open>
  The settings of the Windows programs, \<open>loadCfgFile\<close> of \<^verbatim>\<open>public/pub.cpp\<close>. \<open>STRUCT_SYSCONFIG\<close> consists of arrays of characters
  only and is used as one array of 1138 characters. \<open>None\<close> is a write outside it, or a loop that does not end. A line end of the file is
  the one character that the stream makes of it.
\<close>

subsection \<open>Reading lines\<close>

text \<open>\<open>ifstream\<close>: what is left of the text, and its state.\<close>

record ifstream =
  ifs_left :: cstring
  failbit :: bool
  eofbit :: bool

text \<open>\<open>getline\<close> with room for \<open>n\<close> characters: a line that is longer sets \<open>failbit\<close>, and then nothing is read any more.\<close>

definition getline :: "nat \<Rightarrow> ifstream \<Rightarrow> cstring \<times> ifstream" where
  "getline n st =
     (let line = takeWhile (\<lambda>c. c \<noteq> CHR 0x0A) (ifs_left st)
      in if failbit st \<or> eofbit st then ([], st\<lparr>failbit := True\<rparr>)
         else if length line < n then
           if length line = length (ifs_left st) then (line, \<lparr>ifs_left = [], failbit = (line = []), eofbit = True\<rparr>)
           else (line, st\<lparr>ifs_left := drop (length line + 1) (ifs_left st)\<rparr>)
         else (take (n - 1) line, st\<lparr>ifs_left := drop (n - 1) (ifs_left st), failbit := True\<rparr>))"

subsection \<open>The settings\<close>

definition titleMsg :: "cstring list" where
  "titleMsg =
    [''audit.dbtype='', ''audit.ip='', ''audit.user='', ''audit.pwd='', ''audit.dbname='', ''audit.port='',
     ''osc.dbtype='', ''osc.ip='', ''osc.user='', ''osc.pwd='', ''osc.dbname='', ''osc.port='',
     ''node.code='', ''node.level='', ''node.monitorPort='', ''node.videoPath='', ''node.auditPath='', ''node.maxOutRows='',
     ''node.maxThreads='', ''node.maxCommitRows='', ''node.warningTimes_1='', ''node.warningTimes_2='', ''node.warningTimes_3='',
     ''node.proxyIp='', ''node.proxyConnectPort='']"

definition configFieldsLen :: "nat list" where
  "configFieldsLen =
    [10, 20, 20, 128, 20, 20,  10, 20, 20, 128, 20, 20,
     10, 50, 10, 256, 256, 10, 10, 10, 10, 10, 10, 50, 10]"

definition config_size :: nat where
  "config_size = sum_list configFieldsLen"

text \<open>What the code reads from a field: the string that starts there.\<close>

definition config_offset :: "nat \<Rightarrow> nat" where
  "config_offset i = sum_list (take i configFieldsLen)"

definition config_field :: "cstring \<Rightarrow> nat \<Rightarrow> cstring" where
  "config_field a i = zstr (drop (config_offset i) a)"

text \<open>The value behind the first title that occurs in the line, cut to the size of the field; its end is not marked.\<close>

fun config_put :: "cstring list \<Rightarrow> nat list \<Rightarrow> nat \<Rightarrow> cstring \<Rightarrow> cstring \<Rightarrow> cstring option" where
  "config_put (t # ts) (n # ns) offset line a =
     (case strstr line t of
        None \<Rightarrow> config_put ts ns (offset + n) line a
      | Some i \<Rightarrow> poke_opt a offset (take (n - 1) (drop (i + length t) line)))"
| "config_put _ _ offset line a = Some a"

definition config_section :: "cstring \<Rightarrow> cstring option" where
  "config_section buf =
     (if contains buf ''[audit]'' then Some ''audit''
      else if contains buf ''[osc]'' then Some ''osc''
      else if contains buf ''[node]'' then Some ''node''
      else None)"

partial_function (option) config_loop :: "ifstream \<Rightarrow> cstring \<Rightarrow> cstring \<Rightarrow> cstring option" where
  "config_loop st preSufix a =
     (if eofbit st then Some a
      else case getline 1023 st of
        (line, st') \<Rightarrow>
          (case config_section (zstr line) of
             Some p \<Rightarrow> config_loop st' p a
           | None \<Rightarrow> do {
               a \<leftarrow> config_put titleMsg configFieldsLen 0 (preSufix @ ''.'' @ zstr line) a;
               config_loop st' preSufix a
             }))"

text \<open>The settings are read once; a file that cannot be opened leaves them empty.\<close>

definition loadCfgFile :: "cstring option \<Rightarrow> cstring \<Rightarrow> cstring option" where
  "loadCfgFile file sysconfig =
     (if config_field sysconfig 0 \<noteq> [] then Some sysconfig
      else case file of
        None \<Rightarrow> Some (replicate config_size NUL)
      | Some s \<Rightarrow> config_loop \<lparr>ifs_left = s, failbit = False, eofbit = False\<rparr> [] (replicate config_size NUL))"

subsection \<open>A line that is too long\<close>

lemma getline_failed: "failbit st \<Longrightarrow> \<not> eofbit st \<Longrightarrow> getline n st = ([], st)"
  by (simp add: getline_def Let_def)

lemma config_put_length: "config_put ts ns offset line a = Some a' \<Longrightarrow> length a' = length a"
  by (induction ts ns offset line a rule: config_put.induct) (auto split: option.splits simp: poke_opt_def split: if_splits)

lemma no_title: "list_all (\<lambda>t. 6 < length t) titleMsg"
  by code_simp

lemma config_put_none:
  "(\<forall>t\<in>set ts. strstr line t = None) \<Longrightarrow> config_put ts ns offset line a = Some a"
  by (induction ts ns offset line a rule: config_put.induct) auto

lemma config_put_short: "length line \<le> 6 \<Longrightarrow> config_put titleMsg ns offset line a = Some a"
proof (rule config_put_none)
  assume "length line \<le> 6"
  have "strstr line t = None" if "t \<in> set titleMsg" for t
  proof (rule ccontr)
    assume "strstr line t \<noteq> None"
    then obtain i where "strstr line t = Some i" by auto
    from strstr_Some_le[OF this] \<open>length line \<le> 6\<close> have "length t \<le> 6" by simp
    with no_title that show False by (auto simp: list_all_iff)
  qed
  then show "\<forall>t\<in>set titleMsg. strstr line t = None" by blast
qed

lemma config_section_nil [simp]: "config_section [] = None"
  by (simp add: config_section_def contains_def)

text \<open>Nothing is read any more and nothing is found: the loop goes on for ever.\<close>

lemma config_loop_reads:
  assumes "config_loop st pre a = Some r"
  shows "failbit st \<longrightarrow> length pre \<le> 5 \<longrightarrow> eofbit st"
proof (rule config_loop.raw_induct[where P = "\<lambda>st pre a r. failbit st \<longrightarrow> length pre \<le> 5 \<longrightarrow> eofbit st", OF _ assms], intro impI, rule ccontr)
  fix f st pre a r
  assume IH: "\<And>st pre a r. f st pre a = Some r \<Longrightarrow> failbit st \<longrightarrow> length pre \<le> 5 \<longrightarrow> eofbit st"
    and body: "(if eofbit st then Some a
      else case getline 1023 st of
        (line, st') \<Rightarrow>
          (case config_section (zstr line) of
             Some p \<Rightarrow> f st' p a
           | None \<Rightarrow> do {
               a \<leftarrow> config_put titleMsg configFieldsLen 0 (pre @ ''.'' @ zstr line) a;
               f st' pre a
             })) = Some r"
    and st: "failbit st" "length pre \<le> 5" "\<not> eofbit st"
  have "config_put titleMsg configFieldsLen 0 (pre @ ''.'' @ []) a = Some a"
    using st by (intro config_put_short) simp
  with body st have "f st pre a = Some r"
    by (simp add: getline_failed zstr_def)
  from IH[OF this] st show False by simp
qed

subsection \<open>The lines of the file\<close>

text \<open>A file as its lines; the last one is what follows the last end of line.\<close>

function text_lines :: "cstring \<Rightarrow> cstring list" where
  "text_lines s =
     (let l = takeWhile (\<lambda>c. c \<noteq> CHR 0x0A) s
      in if length l = length s then [l] else l # text_lines (drop (length l + 1) s))"
  by pat_completeness auto
termination
proof (relation "measure length", goal_cases)
  case (2 s l)
  then show ?case using length_takeWhile_le[of "\<lambda>c. c \<noteq> CHR 0x0A" s] by (cases s) auto
qed simp

declare text_lines.simps [simp del]

fun config_lines :: "cstring list \<Rightarrow> cstring \<Rightarrow> cstring \<Rightarrow> cstring option" where
  "config_lines [] preSufix a = Some a"
| "config_lines (l # ls) preSufix a =
     (case config_section (zstr l) of
        Some p \<Rightarrow> config_lines ls p a
      | None \<Rightarrow> do {
          a \<leftarrow> config_put titleMsg configFieldsLen 0 (preSufix @ ''.'' @ zstr l) a;
          config_lines ls preSufix a
        })"

lemma config_section_length: "config_section l = Some p \<Longrightarrow> length p \<le> 5"
  by (auto simp: config_section_def split: if_splits)

lemma config_loop_step:
  assumes "\<not> eofbit st" and "getline 1023 st = (l, st')"
  shows "config_loop st pre a =
    (case config_section (zstr l) of
       Some p \<Rightarrow> config_loop st' p a
     | None \<Rightarrow> do {
         a \<leftarrow> config_put titleMsg configFieldsLen 0 (pre @ ''.'' @ zstr l) a;
         config_loop st' pre a
       })"
  using assms by (subst config_loop.simps) simp

lemma config_loop_failed:
  assumes "failbit st" and "\<not> eofbit st" and "length pre \<le> 5"
  shows "config_loop st pre a = None"
  using config_loop_reads[of st pre a] assms by (cases "config_loop st pre a") auto

lemma config_loop_lines:
  assumes "length pre \<le> 5"
  shows "config_loop \<lparr>ifs_left = s, failbit = False, eofbit = False\<rparr> pre a
    = (if list_all (\<lambda>l. length l \<le> 1022) (text_lines s) then config_lines (text_lines s) pre a else None)"
  using assms
proof (induction s arbitrary: pre a rule: text_lines.induct)
  case (1 s)
  define l where "l = takeWhile (\<lambda>c. c \<noteq> CHR 0x0A) s"
  let ?st = "\<lparr>ifs_left = s, failbit = False, eofbit = False\<rparr>"
  consider (long) "1022 < length l" | (last) "length l \<le> 1022" "length l = length s" | (more) "length l \<le> 1022" "length l \<noteq> length s"
    by linarith
  then show ?case
  proof cases
    case long
    have ls: "text_lines s = l # tl (text_lines s)" by (subst (1 2) text_lines.simps) (simp add: l_def Let_def)
    have g: "getline 1023 ?st = (take 1022 l, ?st\<lparr>ifs_left := drop 1022 s, failbit := True\<rparr>)"
      using long by (simp add: getline_def l_def Let_def)
    have f: "config_loop (?st\<lparr>ifs_left := drop 1022 s, failbit := True\<rparr>) p b = None" if "length p \<le> 5" for p b
      using that by (intro config_loop_failed) simp_all
    have "config_loop ?st pre a = None"
      by (subst config_loop_step[OF _ g])
        (use config_section_length "1.prems" f in \<open>simp_all split: option.split add: Option.bind_eq_None_conv\<close>)
    moreover have "\<not> list_all (\<lambda>l. length l \<le> 1022) (text_lines s)" by (subst ls) (use long in simp)
    ultimately show ?thesis by simp
  next
    case last
    have ls: "text_lines s = [l]" by (subst text_lines.simps) (use last in \<open>simp add: l_def Let_def\<close>)
    have g: "getline 1023 ?st = (l, \<lparr>ifs_left = [], failbit = (l = []), eofbit = True\<rparr>)"
      using last by (simp add: getline_def l_def Let_def)
    have e: "config_loop \<lparr>ifs_left = [], failbit = (l = []), eofbit = True\<rparr> p = config_lines [] p" for p
      by (rule ext) (simp add: config_loop.simps)
    show ?thesis
      by (subst config_loop_step[OF _ g]) (use last in \<open>simp_all add: ls e split: option.split\<close>)
  next
    case more
    have ls: "text_lines s = l # text_lines (drop (length l + 1) s)"
      by (subst text_lines.simps) (use more in \<open>simp add: l_def Let_def\<close>)
    have g: "getline 1023 ?st = (l, \<lparr>ifs_left = drop (length l + 1) s, failbit = False, eofbit = False\<rparr>)"
      using more by (simp add: getline_def l_def Let_def)
    let ?rest = "drop (length l + 1) s"
    have IH: "config_loop \<lparr>ifs_left = ?rest, failbit = False, eofbit = False\<rparr> p
      = (\<lambda>a. if list_all (\<lambda>l. length l \<le> 1022) (text_lines ?rest) then config_lines (text_lines ?rest) p a else None)"
      if "length p \<le> 5" for p
      by (rule ext) (use "1.IH"[of l p] more that in \<open>unfold l_def, blast\<close>)
    show ?thesis
    proof (cases "config_section (zstr l)")
      case None
      then show ?thesis
        by (subst config_loop_step[OF _ g]) (use more "1.prems" in \<open>simp_all add: ls IH[simplified] Option.bind_eq_None_conv split: if_split\<close>)
    next
      case (Some p)
      then show ?thesis
        by (subst config_loop_step[OF _ g]) (use more config_section_length[OF Some] in \<open>simp_all add: ls IH[simplified] Option.bind_eq_None_conv split: if_split\<close>)
    qed
  qed
qed

subsection \<open>A file that is read back\<close>

lemma config_put_at:
  assumes "length ns = length ts" and "i < length ts" and "\<And>j. j < i \<Longrightarrow> strstr line (ts ! j) = None" and "line = ts ! i @ v"
  shows "config_put ts ns offset line a = poke_opt a (offset + sum_list (take i ns)) (take (ns ! i - 1) v)"
  using assms
proof (induction ts arbitrary: ns i offset)
  case Nil
  then show ?case by simp
next
  case (Cons t ts)
  then obtain n ns' where ns: "ns = n # ns'" "length ns' = length ts" by (cases ns) auto
  show ?case
  proof (cases i)
    case 0
    have "prefix t line" using Cons.prems 0 by simp
    then have "strstr line t = Some 0" by (cases line) auto
    with Cons.prems ns 0 show ?thesis by simp
  next
    case (Suc k)
    have "strstr line t = None" using Cons.prems(3)[of 0] Suc by simp
    moreover have "config_put ts ns' (offset + n) line a = poke_opt a (offset + n + sum_list (take k ns')) (take (ns' ! k - 1) v)"
    proof (rule Cons.IH)
      show "strstr line (ts ! j) = None" if "j < k" for j
        using Cons.prems(3)[of "Suc j"] that Suc by simp
    qed (use Cons.prems ns Suc in auto)
    ultimately show ?thesis using ns Suc by (simp add: add.assoc)
  qed
qed

lemma titles_end:
  "list_all (\<lambda>t. t \<noteq> [] \<and> last t = CHR ''='' \<and> CHR ''='' \<notin> set (butlast t) \<and> list_all (\<lambda>u. suffix u t \<longrightarrow> u = t) titleMsg) titleMsg
   \<and> distinct titleMsg \<and> length titleMsg = 25 \<and> length configFieldsLen = 25 \<and> list_all (\<lambda>n. 0 < n) configFieldsLen"
  by code_simp

lemma sublist_key:
  assumes "sublist (u @ [c]) (k @ [c] @ v)" and "c \<notin> set k" and "c \<notin> set v"
  shows "suffix (u @ [c]) (k @ [c])"
proof -
  from assms(1) obtain p q where e: "k @ [c] @ v = p @ (u @ [c]) @ q" by (auto simp: sublist_def)
  have "k @ c # v = (p @ u) @ c # q" using e by simp
  then have "k = p @ u" using assms(2,3)
    by (metis append_eq_append_conv2 append_Cons append_Nil hd_append2 list.sel(1) in_set_conv_decomp append_Cons_eq_iff)
  then show ?thesis by (simp add: suffix_def)
qed

lemma title_shape:
  assumes "t \<in> set titleMsg"
  shows "\<exists>k. t = k @ [CHR ''=''] \<and> CHR ''='' \<notin> set k"
proof (intro exI conjI)
  have "t \<noteq> [] \<and> last t = CHR ''='' \<and> CHR ''='' \<notin> set (butlast t)" using titles_end assms unfolding list_all_iff by blast
  then show "t = butlast t @ [CHR ''='']" "CHR ''='' \<notin> set (butlast t)" by (metis append_butlast_last_id, blast)
qed

lemma titles_apart:
  assumes "t \<in> set titleMsg" and "u \<in> set titleMsg" and "suffix u t"
  shows "u = t"
  using titles_end assms unfolding list_all_iff by blast

lemma title_found:
  assumes "i < 25" and "j < i" and "CHR ''='' \<notin> set v"
  shows "strstr (titleMsg ! i @ v) (titleMsg ! j) = None"
proof -
  have m: "titleMsg ! i \<in> set titleMsg" "titleMsg ! j \<in> set titleMsg" using assms titles_end by simp_all
  obtain k where k: "titleMsg ! i = k @ [CHR ''='']" "CHR ''='' \<notin> set k"
    using title_shape[OF m(1)] by blast
  obtain u where u: "titleMsg ! j = u @ [CHR ''='']"
    using title_shape[OF m(2)] by blast
  have "titleMsg ! j \<noteq> titleMsg ! i" using titles_end assms by (simp add: nth_eq_iff_index_eq)
  then have "\<not> suffix (titleMsg ! j) (titleMsg ! i)" using titles_apart[OF m] by blast
  then have "\<not> sublist (titleMsg ! j) (titleMsg ! i @ v)"
    using sublist_key[of u "CHR ''=''" k v] k u assms(3) by auto
  then show ?thesis by (simp add: strstr_None)
qed

text \<open>What a line that sets a field writes: the value, cut, over the old one.\<close>

lemma config_line_writes:
  assumes "i < 25" and "CHR ''='' \<notin> set v"
  shows "config_put titleMsg configFieldsLen 0 (titleMsg ! i @ v) a = poke_opt a (config_offset i) (take (configFieldsLen ! i - 1) v)"
  using config_put_at[of configFieldsLen titleMsg i "titleMsg ! i @ v" v 0 a] title_found[of i _ v] assms titles_end
  by (simp add: config_offset_def)

text \<open>The array with the first \<open>k\<close> fields set.\<close>

definition filled :: "cstring list \<Rightarrow> nat \<Rightarrow> cstring" where
  "filled vs k = concat (map (\<lambda>i. vs ! i @ replicate (configFieldsLen ! i - length (vs ! i)) NUL) [0..<k]) @ replicate (sum_list (drop k configFieldsLen)) NUL"

definition good_values :: "cstring list \<Rightarrow> bool" where
  "good_values vs \<longleftrightarrow> length vs = 25 \<and> (\<forall>i<25. length (vs ! i) < configFieldsLen ! i
     \<and> {NUL, CHR 0x0A, CHR ''['', CHR ''=''} \<inter> set (vs ! i) = {})"

lemma good_value:
  "good_values vs \<Longrightarrow> i < 25 \<Longrightarrow> length (vs ! i) < configFieldsLen ! i \<and> {NUL, CHR 0x0A, CHR ''['', CHR ''=''} \<inter> set (vs ! i) = {}"
  unfolding good_values_def by blast

lemma filled_prefix_length:
  assumes "good_values vs" and "k \<le> 25"
  shows "length (concat (map (\<lambda>i. vs ! i @ replicate (configFieldsLen ! i - length (vs ! i)) NUL) [0..<k])) = config_offset k"
  using assms(2)
proof (induction k)
  case 0
  then show ?case by (simp add: config_offset_def)
next
  case (Suc k)
  then have "length (vs ! k) < configFieldsLen ! k" using good_value[OF assms(1)] by simp
  with Suc titles_end show ?case by (simp add: config_offset_def take_Suc_conv_app_nth)
qed

lemma filled_0: "filled vs 0 = replicate config_size NUL"
  by (simp add: filled_def config_size_def)

lemma filled_Suc:
  assumes "good_values vs" and "k < 25"
  shows "poke_opt (filled vs k) (config_offset k) (vs ! k) = Some (filled vs (Suc k))"
proof -
  have l: "length (vs ! k) < configFieldsLen ! k" using good_value[OF assms] by blast
  have d: "drop k configFieldsLen = configFieldsLen ! k # drop (Suc k) configFieldsLen"
    using assms(2) titles_end by (simp add: Cons_nth_drop_Suc)
  note p = filled_prefix_length[OF assms(1), of k]
  from p assms(2) l show ?thesis
    by (simp add: filled_def d poke_opt_def poke_def replicate_add[symmetric] del: replicate_add)
qed

lemma upt_split: "i < n \<Longrightarrow> [0..<n] = [0..<i] @ i # [Suc i..<n]"
  using upt_add_eq_append[of 0 i "n - i"] by (simp add: upt_conv_Cons)

lemma filled_field:
  assumes "good_values vs" and "i < 25"
  shows "config_field (filled vs 25) i = vs ! i"
proof -
  let ?b = "\<lambda>i. vs ! i @ replicate (configFieldsLen ! i - length (vs ! i)) NUL"
  have l: "length (vs ! i) < configFieldsLen ! i" "NUL \<notin> set (vs ! i)" using good_value[OF assms] by blast+
  obtain m where m: "configFieldsLen ! i - length (vs ! i) = Suc m"
    using that[of "configFieldsLen ! i - length (vs ! i) - 1"] l(1) by linarith
  have "\<exists>r. filled vs n = concat (map ?b [0..<i]) @ ?b i @ r" if "i < n" for n
    unfolding filled_def upt_split[OF that] by simp
  from this[OF assms(2)] obtain r where "filled vs 25 = concat (map ?b [0..<i]) @ ?b i @ r" ..
  then have "drop (config_offset i) (filled vs 25) = ?b i @ r"
    using filled_prefix_length[OF assms(1), of i] assms(2) by simp
  with l m show ?thesis by (simp add: config_field_def zstr_prefix)
qed

text \<open>The file with these values.\<close>

definition config_line_of :: "cstring \<Rightarrow> cstring list \<Rightarrow> nat \<Rightarrow> cstring" where
  "config_line_of sec vs i = drop (length sec + 1) (titleMsg ! i) @ vs ! i"

definition config_file_lines :: "cstring list \<Rightarrow> cstring list" where
  "config_file_lines vs =
     [''[audit]''] @ map (config_line_of ''audit'' vs) [0..<6] @ [''[osc]''] @ map (config_line_of ''osc'' vs) [6..<12]
     @ [''[node]''] @ map (config_line_of ''node'' vs) [12..<25]"

definition show_sysconfig :: "cstring list \<Rightarrow> cstring" where
  "show_sysconfig vs = concat (map (\<lambda>l. l @ [CHR 0x0A]) (config_file_lines vs))"

lemma text_lines_show:
  "list_all (\<lambda>l. CHR 0x0A \<notin> set l) ls \<Longrightarrow> text_lines (concat (map (\<lambda>l. l @ [CHR 0x0A]) ls)) = ls @ [[]]"
proof (induction ls)
  case Nil
  then show ?case by (simp add: text_lines.simps)
next
  case (Cons l ls)
  have "takeWhile (\<lambda>c. c \<noteq> CHR 0x0A) (l @ CHR 0x0A # concat (map (\<lambda>l. l @ [CHR 0x0A]) ls)) = l"
    using Cons.prems by (subst takeWhile_append2) auto
  with Cons show ?case by (subst text_lines.simps) (simp add: Let_def)
qed

lemma title_sections:
  "list_all (\<lambda>i. prefix ''audit.'' (titleMsg ! i)) [0..<6] \<and> list_all (\<lambda>i. prefix ''osc.'' (titleMsg ! i)) [6..<12]
   \<and> list_all (\<lambda>i. prefix ''node.'' (titleMsg ! i)) [12..<25]
   \<and> list_all (\<lambda>t. list_all (\<lambda>c. c \<noteq> NUL \<and> c \<noteq> CHR 0x0A \<and> c \<noteq> CHR ''['') t \<and> length t < 100) titleMsg"
  by code_simp

lemma config_section_plain:
  assumes "CHR ''['' \<notin> set l"
  shows "config_section l = None"
proof -
  have "\<not> contains l (CHR ''['' # p)" for p
    using assms by (auto simp: contains_sublist sublist_def)
  then show ?thesis by (simp add: config_section_def)
qed

lemma config_lines_run:
  assumes "good_values vs" and "m \<le> 25"
    and sec: "\<And>i. k \<le> i \<Longrightarrow> i < m \<Longrightarrow> prefix (sec @ ''.'') (titleMsg ! i)"
    and "k \<le> m"
  shows "config_lines (map (config_line_of sec vs) [k..<m] @ ls) sec (filled vs k) = config_lines ls sec (filled vs m)"
  using assms(4) sec
proof (induction "m - k" arbitrary: k)
  case 0
  then show ?case by simp
next
  case (Suc d)
  then have k: "k < m" "k < 25" using assms(2) by auto
  let ?l = "config_line_of sec vs k"
  have v: "length (vs ! k) < configFieldsLen ! k" "{NUL, CHR 0x0A, CHR ''['', CHR ''=''} \<inter> set (vs ! k) = {}"
    using good_value[OF assms(1) k(2)] by blast+
  have t: "titleMsg ! k \<in> set titleMsg" using k titles_end by simp
  then have c: "NUL \<notin> set (titleMsg ! k)" "CHR ''['' \<notin> set (titleMsg ! k)"
    using title_sections by (auto simp: list_all_iff)
  have e: "sec @ ''.'' @ ?l = titleMsg ! k @ vs ! k"
    using Suc.prems(2)[of k] k by (auto simp: prefix_def config_line_of_def)
  have sub: "set ?l \<subseteq> set (titleMsg ! k) \<union> set (vs ! k)"
    by (auto simp: config_line_of_def dest: in_set_dropD)
  have z: "zstr ?l = ?l" unfolding zstr_def using sub c(1) v(2) by (intro takeWhile_all) auto
  have n: "config_section ?l = None" using sub c(2) v(2) by (intro config_section_plain) auto
  have p: "config_put titleMsg configFieldsLen 0 (sec @ ''.'' @ ?l) (filled vs k) = Some (filled vs (Suc k))"
    unfolding e using config_line_writes[of k "vs ! k" "filled vs k"] filled_Suc[OF assms(1)] k v by simp
  have "config_lines (map (config_line_of sec vs) [k..<m] @ ls) sec (filled vs k)
    = config_lines (map (config_line_of sec vs) [Suc k..<m] @ ls) sec (filled vs (Suc k))"
    using k z n p by (simp add: upt_conv_Cons)
  also have "\<dots> = config_lines ls sec (filled vs m)"
    using Suc.hyps k Suc.prems(2) by simp
  finally show ?case .
qed

lemma config_lines_section:
  "config_lines (''[audit]'' # ls) sec a = config_lines ls ''audit'' a"
  "config_lines (''[osc]'' # ls) sec a = config_lines ls ''osc'' a"
  "config_lines (''[node]'' # ls) sec a = config_lines ls ''node'' a"
proof -
  have "config_section (zstr ''[audit]'') = Some ''audit''" "config_section (zstr ''[osc]'') = Some ''osc''"
    "config_section (zstr ''[node]'') = Some ''node''"
    by code_simp+
  then show "config_lines (''[audit]'' # ls) sec a = config_lines ls ''audit'' a"
    "config_lines (''[osc]'' # ls) sec a = config_lines ls ''osc'' a" "config_lines (''[node]'' # ls) sec a = config_lines ls ''node'' a"
    by simp_all
qed

lemma config_lines_all:
  assumes "good_values vs"
  shows "config_lines (config_file_lines vs @ [[]]) [] (filled vs 0) = Some (filled vs 25)"
proof -
  have a: "prefix (''audit'' @ ''.'') (titleMsg ! i)" if "0 \<le> i" "i < 6" for i
  proof -
    have "i \<in> set [0..<6]" using that by (simp only: set_upt atLeastLessThan_iff)
    then have "prefix ''audit.'' (titleMsg ! i)" using title_sections unfolding list_all_iff by blast
    then show ?thesis by simp
  qed
  have b: "prefix (''osc'' @ ''.'') (titleMsg ! i)" if "6 \<le> i" "i < 12" for i
  proof -
    have "i \<in> set [6..<12]" using that by (simp only: set_upt atLeastLessThan_iff)
    then have "prefix ''osc.'' (titleMsg ! i)" using title_sections unfolding list_all_iff by blast
    then show ?thesis by simp
  qed
  have c: "prefix (''node'' @ ''.'') (titleMsg ! i)" if "12 \<le> i" "i < 25" for i
  proof -
    have "i \<in> set [12..<25]" using that by (simp only: set_upt atLeastLessThan_iff)
    then have "prefix ''node.'' (titleMsg ! i)" using title_sections unfolding list_all_iff by blast
    then show ?thesis by simp
  qed
  have r: "config_lines (map (config_line_of ''audit'' vs) [0..<6] @ ls) ''audit'' (filled vs 0) = config_lines ls ''audit'' (filled vs 6)"
    "config_lines (map (config_line_of ''osc'' vs) [6..<12] @ ls) ''osc'' (filled vs 6) = config_lines ls ''osc'' (filled vs 12)"
    "config_lines (map (config_line_of ''node'' vs) [12..<25] @ ls) ''node'' (filled vs 12) = config_lines ls ''node'' (filled vs 25)" for ls
    by (rule config_lines_run[OF assms]; use a b c in simp)+
  have e: "config_lines [[]] ''node'' (filled vs 25) = Some (filled vs 25)"
    by (simp add: zstr_def config_put_short)
  show ?thesis
    unfolding config_file_lines_def append_Cons append_Nil append_assoc config_lines_section r e by (rule refl)
qed

lemma config_file_line:
  assumes "good_values vs" and "l \<in> set (config_file_lines vs)"
  shows "CHR 0x0A \<notin> set l \<and> length l \<le> 1022"
proof -
  have v: "CHR 0x0A \<notin> set (config_line_of sec vs i) \<and> length (config_line_of sec vs i) \<le> 1022" if "i < 25" for sec i
  proof -
    have t: "CHR 0x0A \<notin> set (titleMsg ! i)" "length (titleMsg ! i) < 100"
      using title_sections titles_end that unfolding list_all_iff by fastforce+
    have "configFieldsLen ! i \<in> set configFieldsLen" using that titles_end by simp
    then have "configFieldsLen ! i \<le> 256" by (auto simp: configFieldsLen_def)
    with t good_value[OF assms(1) that] show ?thesis
      by (auto simp: config_line_of_def dest: in_set_dropD)
  qed
  have run: "l \<in> set (map f [a..<b]) \<Longrightarrow> b \<le> 25 \<Longrightarrow> \<exists>i<25. l = f i" for f :: "nat \<Rightarrow> cstring" and a b
    by (metis (no_types, lifting) atLeastLessThan_iff imageE less_le_trans set_map set_upt)
  have "l \<in> {''[audit]'', ''[osc]'', ''[node]''} \<or> (\<exists>sec i. i < 25 \<and> l = config_line_of sec vs i)"
    using assms(2) run[of "config_line_of ''audit'' vs" 0 6] run[of "config_line_of ''osc'' vs" 6 12] run[of "config_line_of ''node'' vs" 12 25]
    unfolding config_file_lines_def set_append list.set by (auto simp del: set_map set_upt)
  with v show ?thesis by auto
qed

text \<open>No field is written beyond the array.\<close>

lemma config_put_room:
  "offset + sum_list ns \<le> length a \<Longrightarrow> config_put ts ns offset line a \<noteq> None"
  by (induction ts ns offset line a rule: config_put.induct) (auto split: option.split simp: poke_opt_def)

lemma config_lines_room:
  "length a = config_size \<Longrightarrow> config_lines ls p a \<noteq> None"
proof (induction ls arbitrary: p a)
  case Nil
  then show ?case by simp
next
  case (Cons l ls)
  obtain a' where a': "config_put titleMsg configFieldsLen 0 (p @ ''.'' @ zstr l) a = Some a'"
    using config_put_room[of 0 configFieldsLen a] Cons.prems unfolding config_size_def by fastforce
  have "length a' = config_size" using config_put_length[OF a'] Cons.prems by simp
  with Cons a' show ?case by (simp split: option.split)
qed

text \<open>A settings file written with the names of the settings is read back: every field of the structure holds its value, when no
  value is too long for its field or has a bracket, an equals sign or an end of line in it.\<close>

theorem loadCfgFile_roundtrip:
  assumes "config_field a 0 = []" and "good_values vs"
  shows "\<exists>a'. loadCfgFile (Some (show_sysconfig vs)) a = Some a' \<and> (\<forall>i<25. config_field a' i = vs ! i)"
proof -
  have l: "list_all (\<lambda>l. CHR 0x0A \<notin> set l) (config_file_lines vs)" "list_all (\<lambda>l. length l \<le> 1022) (config_file_lines vs)"
    using config_file_line[OF assms(2)] unfolding list_all_iff by blast+
  note t = text_lines_show[OF l(1), folded show_sysconfig_def]
  have "loadCfgFile (Some (show_sysconfig vs)) a = Some (filled vs 25)"
    using config_loop_lines[of "[]" "show_sysconfig vs" "filled vs 0"] config_lines_all[OF assms(2)] l(2) assms(1)
    by (simp add: loadCfgFile_def t filled_0)
  with filled_field[OF assms(2)] show ?thesis by blast
qed

text \<open>The reader of the settings returns exactly for the files whose lines have at most 1022 characters; a longer line makes it
  loop for ever, since the failed stream never reaches its end.\<close>

theorem loadCfgFile_returns:
  assumes "config_field a 0 = []"
  shows "loadCfgFile (Some s) a \<noteq> None \<longleftrightarrow> list_all (\<lambda>l. length l \<le> 1022) (text_lines s)"
  using assms config_lines_room[of "replicate config_size NUL"]
  by (simp add: loadCfgFile_def config_loop_lines)

lemma config_field_zeros: "config_field (replicate config_size NUL) i = []"
  by (cases "config_size - config_offset i") (simp_all add: config_field_def zstr_def)

lemma good_values_replicate:
  assumes "length v < 10" and "{NUL, CHR 0x0A, CHR ''['', CHR ''=''} \<inter> set v = {}"
  shows "good_values (replicate 25 v)"
  unfolding good_values_def length_replicate
proof (intro conjI allI impI)
  fix i :: nat
  assume i: "i < 25"
  have "configFieldsLen ! i \<in> set configFieldsLen" using i titles_end by simp
  then have "10 \<le> configFieldsLen ! i" by (auto simp: configFieldsLen_def)
  with assms show "length (replicate 25 v ! i) < configFieldsLen ! i"
    "{NUL, CHR 0x0A, CHR ''['', CHR ''=''} \<inter> set (replicate 25 v ! i) = {}"
    unfolding nth_replicate[OF i] by auto
qed (rule refl)

theorem loadCfgFile_roundtrip_witness:
  "\<exists>a'. loadCfgFile (Some (show_sysconfig (replicate 25 ''1''))) (replicate config_size NUL) = Some a' \<and> config_field a' 3 = ''1''"
proof -
  have g: "good_values (replicate 25 ''1'')" by (rule good_values_replicate) simp_all
  obtain a' where a: "loadCfgFile (Some (show_sysconfig (replicate 25 ''1''))) (replicate config_size NUL) = Some a'"
    "\<forall>i<25. config_field a' i = replicate 25 ''1'' ! i"
    using loadCfgFile_roundtrip[OF config_field_zeros g] by blast
  from a(2) have "config_field a' 3 = replicate 25 ''1'' ! 3" by (rule allE[of _ 3]) (erule mp, simp)
  also have "\<dots> = ''1''" by (rule nth_replicate) simp
  finally show ?thesis using a(1) by blast
qed

theorem loadCfgFile_returns_witness:
  "loadCfgFile (Some (replicate 1023 (CHR ''x''))) (replicate config_size NUL) = None"
proof -
  note e = config_field_zeros[of 0]
  have t: "takeWhile (\<lambda>c. c \<noteq> CHR 0x0A) (replicate n (CHR ''x'')) = replicate n (CHR ''x'')" for n
    by (rule takeWhile_all) simp
  have "text_lines (replicate n (CHR ''x'')) = [replicate n (CHR ''x'')]" for n
    by (subst text_lines.simps) (simp only: t Let_def simp_thms if_True)
  then show ?thesis
    using loadCfgFile_returns[OF e, of "replicate 1023 (CHR ''x'')"] by (simp only: list_all_iff length_replicate) simp
qed

text \<open>Of a value that is set again, what is longer in the old one stays.\<close>

theorem config_line_again:
  assumes "i < 25" and "config_offset i + configFieldsLen ! i \<le> length a" and "length new < length old" and "length old < configFieldsLen ! i"
    and "{NUL, CHR ''=''} \<inter> (set new \<union> set old) = {}"
  shows "\<exists>a1 a2. config_put titleMsg configFieldsLen 0 (titleMsg ! i @ old) (replicate config_size NUL) = Some a1
    \<and> config_put titleMsg configFieldsLen 0 (titleMsg ! i @ new) a1 = Some a2
    \<and> config_field a2 i = new @ drop (length new) old"
proof -
  have "i < length configFieldsLen" using assms(1) titles_end by simp
  then have "config_offset i + configFieldsLen ! i + sum_list (drop (Suc i) configFieldsLen) = config_size"
    unfolding config_offset_def config_size_def by (metis add.assoc id_take_nth_drop sum_list.append sum_list.Cons)
  then have r: "config_offset i + length old < config_size" using assms(4) by simp
  obtain k where k: "config_size = config_offset i + length old + Suc k" using less_imp_Suc_add[OF r] by auto
  define z where "z = replicate (config_offset i) NUL"
  let ?a1 = "z @ old @ replicate (Suc k) NUL" and ?a2 = "z @ new @ drop (length new) old @ replicate (Suc k) NUL"
  have z: "replicate config_size NUL = z @ replicate (length old) NUL @ replicate (Suc k) NUL" "length z = config_offset i"
    by (simp_all add: z_def k replicate_add[symmetric] add.assoc del: replicate.simps)
  have "poke_opt (z @ replicate (length old) NUL @ replicate (Suc k) NUL) (config_offset i) old = Some ?a1"
    using z(2) by (simp add: poke_opt_def poke_def)
  moreover have "poke_opt ?a1 (config_offset i) new = Some ?a2"
    using z(2) assms(3) by (simp add: poke_opt_def poke_def)
  moreover have "config_field ?a2 i = new @ drop (length new) old"
  proof -
    have "NUL \<notin> set (new @ drop (length new) old)" using assms(5) by (auto dest: in_set_dropD)
    from zstr_prefix[OF this, of "replicate k NUL"] show ?thesis by (simp add: config_field_def z(2))
  qed
  ultimately show ?thesis
    using config_line_writes[of i old] config_line_writes[of i new] assms(1,3,4,5) by (simp add: z(1))
qed

end
