(* ===== verification/Shell.thy ===== *)
theory Shell
  imports LoadCfg OscLogLaws Cipher
begin

text \<open>
  The launcher of the Windows programs, \<^verbatim>\<open>OSCShell/OSCShell.cpp\<close>: its globals, the database handle, the settings, and what
  \<open>OSCShellEx\<close> does up to the command line of the tool (lines 1699 to 2072).

  The globals are the record \<open>shell\<close>; \<open>None\<close> is a write outside an array, a NULL pointer that is followed or an exception that
  nobody catches. The structure \<open>p_aares\<close> is one array, as in OscDb. Messages to the log and the waiting are left out.
\<close>

subsection \<open>The state\<close>

record STRUCT_OSCSHELL =
  warningTimes_1 :: "32 word"
  warningTimes_2 :: "32 word"
  warningTimes_3 :: "32 word"
  videoFlag :: int
  debugLevel :: int
  sqlHandle :: "db_mysql option"
  exitFlag :: int
  pipeFlag :: int
  monitorPort :: int
  otherProcess :: int
  monitorProcess :: int
  resProcess :: int
  resThread :: int
  dwProcessId :: int
  wzFile1 :: cstring
  wzFile2 :: cstring

text \<open>What the program asks of Windows; a handle is a number, 0 for NULL.\<close>

datatype win_event =
    TerminateProcess int
  | CloseHandle int
  | DeleteFile cstring
  | CreateProcess cstring

text \<open>
  \<open>past\<close> holds the connections that were closed, with what was sent over them; \<open>p_access_set\<close> says that \<open>p_access\<close> points into
  \<open>p_aares\<close>; the field \<open>port\<close> of \<open>p_loginlog\<close> is \<open>loginlog_port\<close>.
\<close>

record shell =
  sysconfig :: cstring
  p_auditconn :: STRUCT_DBCONNECT
  p_oscconn :: STRUCT_DBCONNECT
  p_aares :: cstring
  p_access_set :: bool
  p_videolog :: STRUCT_USERACTIVITYVIDEOLOG
  p_loginlog :: STRUCT_LOGINLOG
  loginlog_port :: int
  p_shell :: STRUCT_OSCSHELL
  lastEndTime :: cstring
  aes_key :: cstring
  localLang :: cstring
  noPassword :: int
  past :: "(STRUCT_DBCONNECT \<times> event list) list"
  slog :: logger
  win_events :: "win_event list"

text \<open>
  What is outside: the databases as they answer a connection after the closed ones, Windows, the settings file, the address and
  session of the machine, a number for a login, \<open>CTime\<close> and \<^verbatim>\<open>libAES.dll\<close>, which takes a text, a key and a mode and may be missing.
  \<open>mk_ctime\<close> is \<open>None\<close> where the constructor of \<open>CTime\<close> throws.
\<close>

record osc_env =
  net :: "(STRUCT_DBCONNECT \<times> event list) list \<Rightarrow> STRUCT_DBCONNECT \<Rightarrow> dbworld"
  win :: winsys
  cfg_ini :: "cstring option"
  module_dir :: cstring
  local_address :: cstring
  windows_session :: int
  new_id :: cstring
  mk_ctime :: "int list \<Rightarrow> int option"
  ctime_fields :: "int \<Rightarrow> int list"
  libAES :: "(cstring \<Rightarrow> cstring \<Rightarrow> int \<Rightarrow> cstring) option"

subsection \<open>The database handle\<close>

abbreviation handle_of :: "shell \<Rightarrow> db_mysql option" where
  "handle_of s \<equiv> sqlHandle (p_shell s)"

definition set_handle :: "db_mysql option \<Rightarrow> shell \<Rightarrow> shell" where
  "set_handle h s = s\<lparr>p_shell := (p_shell s)\<lparr>sqlHandle := h\<rparr>\<rparr>"

definition db_closed :: "db_mysql \<Rightarrow> shell \<Rightarrow> shell" where
  "db_closed db s = s\<lparr>past := past s @ [(dbconn db, trace db)]\<rparr>"

definition closeDBHandle :: "shell \<Rightarrow> shell" where
  "closeDBHandle s =
     (case handle_of s of None \<Rightarrow> s | Some db \<Rightarrow> set_handle None (db_closed db s))"

definition world_of :: "osc_env \<Rightarrow> shell \<Rightarrow> STRUCT_DBCONNECT \<Rightarrow> dbworld" where
  "world_of e s conn = net e (past s) conn"

text \<open>An open handle is used again, whichever database it belongs to.\<close>

definition openDBHandle :: "osc_env \<Rightarrow> STRUCT_DBCONNECT \<Rightarrow> shell \<Rightarrow> (int \<times> shell) option" where
  "openDBHandle e conn s =
     (if handle_of s \<noteq> None then Some (0, s)
      else do {
        (rc, db) \<leftarrow> conndb (world_of e s conn) (new_db_mysql conn);
        Some (if rc = 0 then (0, set_handle (Some db) s) else (-1, closeDBHandle (set_handle (Some db) s)))
      })"

text \<open>A call of a method of \<open>p_shell.sqlHandle\<close>.\<close>

definition on_handle :: "osc_env \<Rightarrow> (dbworld \<Rightarrow> db_mysql \<Rightarrow> ('a \<times> db_mysql) option) \<Rightarrow> shell \<Rightarrow> ('a \<times> shell) option" where
  "on_handle e f s =
     do {
       db \<leftarrow> handle_of s;
       (r, db) \<leftarrow> f (world_of e s (dbconn db)) db;
       Some (r, set_handle (Some db) s)
     }"

text \<open>A client of its own, \<open>new db_mysql(conn)\<close>, which is used when it connects and deleted.\<close>

definition with_db :: "osc_env \<Rightarrow> STRUCT_DBCONNECT \<Rightarrow> 'a \<Rightarrow> (dbworld \<Rightarrow> db_mysql \<Rightarrow> ('a \<times> db_mysql) option) \<Rightarrow> shell \<Rightarrow> ('a \<times> shell) option" where
  "with_db e conn a f s =
     do {
       let w = world_of e s conn;
       (rc, db) \<leftarrow> conndb w (new_db_mysql conn);
       (r, db) \<leftarrow> (if rc = 0 then f w db else Some (a, db));
       Some (r, db_closed db s)
     }"

text \<open>Reshaping of the results of the queries, which have the client last.\<close>

definition pack3 :: "('a \<times> 'b \<times> db_mysql) option \<Rightarrow> (('a \<times> 'b) \<times> db_mysql) option" where
  "pack3 m = map_option (\<lambda>(a, b, db). ((a, b), db)) m"

definition pack4 :: "('a \<times> 'b \<times> 'c \<times> db_mysql) option \<Rightarrow> (('a \<times> 'b \<times> 'c) \<times> db_mysql) option" where
  "pack4 m = map_option (\<lambda>(a, b, c, db). ((a, b, c), db)) m"

subsection \<open>The access record\<close>

text \<open>The fields of \<open>p_aares\<close> by their number in the structure.\<close>

abbreviation access :: "shell \<Rightarrow> nat \<Rightarrow> cstring" where
  "access s i \<equiv> auth_field (p_aares s) i"

definition put_access :: "nat \<Rightarrow> cstring \<Rightarrow> shell \<Rightarrow> shell option" where
  "put_access i v s =
     do { a \<leftarrow> put_str (p_aares s) (sum_list (take i fieldsLen)) v; Some (s\<lparr>p_aares := a\<rparr>) }"

definition A_id :: nat where "A_id = 0"
definition A_userId :: nat where "A_userId = 1"
definition A_uid :: nat where "A_uid = 2"
definition A_userName :: nat where "A_userName = 3"
definition A_resId :: nat where "A_resId = 4"
definition A_resAddr :: nat where "A_resAddr = 5"
definition A_resName :: nat where "A_resName = 6"
definition A_resType :: nat where "A_resType = 7"
definition A_accountId :: nat where "A_accountId = 9"
definition A_accountNo :: nat where "A_accountNo = 10"
definition A_accountType :: nat where "A_accountType = 11"
definition A_accountPwd :: nat where "A_accountPwd = 12"
definition A_suFlag :: nat where "A_suFlag = 13"
definition A_ssoFlag :: nat where "A_ssoFlag = 14"
definition A_clientAddr :: nat where "A_clientAddr = 18"
definition A_apId :: nat where "A_apId = 19"
definition A_accessType :: nat where "A_accessType = 20"
definition A_accountNoEx :: nat where "A_accountNoEx = 21"
definition A_accountPwdEx :: nat where "A_accountPwdEx = 22"
definition A_proxyAddr :: nat where "A_proxyAddr = 26"
definition A_timeFlag :: nat where "A_timeFlag = 27"
definition A_startTime :: nat where "A_startTime = 28"
definition A_endTime :: nat where "A_endTime = 29"
definition A_resetPwdTime :: nat where "A_resetPwdTime = 30"
definition A_execApp :: nat where "A_execApp = 31"
definition A_execParam :: nat where "A_execParam = 32"
definition A_proxyHost :: nat where "A_proxyHost = 33"
definition A_proxyPort :: nat where "A_proxyPort = 34"

subsection \<open>The settings\<close>

text \<open>\<open>DataSafe._encrypt\<close> into an array of \<open>n\<close> characters, which is empty before.\<close>

definition datasafe_decrypt :: "nat \<Rightarrow> cstring \<Rightarrow> cstring option" where
  "datasafe_decrypt n t =
     do {
       out \<leftarrow> encrypts_inv (map of_char t @ [0]) (int (length t)) (replicate n 0);
       d \<leftarrow> cstr out;
       Some (map (\<lambda>b. char_of (unat b)) d)
     }"

text \<open>A connection from the six settings that start with number \<open>i\<close>.\<close>

definition conn_settings :: "cstring \<Rightarrow> nat \<Rightarrow> STRUCT_DBCONNECT option" where
  "conn_settings cfg i =
     do {
       t \<leftarrow> fitting 10 (config_field cfg i);
       h \<leftarrow> fitting 20 (config_field cfg (i + 1));
       u \<leftarrow> fitting 20 (config_field cfg (i + 2));
       n \<leftarrow> fitting 20 (config_field cfg (i + 4));
       let pw = config_field cfg (i + 3);
       p \<leftarrow> (if length pw < 20 then Some pw else datasafe_decrypt 20 pw);
       Some \<lparr>dbType = t, dbHost = h, dbUser = u, dbPwd = p, dbName = n, dbPort = atoi (config_field cfg (i + 5))\<rparr>
     }"

text \<open>The times of the three warnings: \<open>unsigned long\<close> from \<open>atoi\<close>, at least 300, 180 and 60, and sorted.\<close>

definition warning_min :: "32 word \<Rightarrow> cstring \<Rightarrow> 32 word" where
  "warning_min m v = (let n = word_of_int (atoi v) in if n \<le> m then m else n)"

definition warning_sort :: "32 word \<Rightarrow> 32 word \<Rightarrow> 32 word \<Rightarrow> 32 word \<times> 32 word \<times> 32 word" where
  "warning_sort a b c =
     (let (a, b) = (if a < b then (b, a) else (a, b));
          (a, c) = (if a < c then (c, a) else (a, c));
          (b, c) = (if b < c then (c, b) else (b, c))
      in (a, b, c))"

definition warning_times :: "cstring \<Rightarrow> 32 word \<times> 32 word \<times> 32 word" where
  "warning_times cfg =
     warning_sort (warning_min 300 (config_field cfg 20)) (warning_min 180 (config_field cfg 21)) (warning_min 60 (config_field cfg 22))"

definition monitor_port :: "cstring \<Rightarrow> int" where
  "monitor_port cfg = (let p = atoi (config_field cfg 14) in if p \<le> 0 then 6000 else p)"

definition debug_level :: "cstring \<Rightarrow> int" where
  "debug_level cfg = (if config_field cfg 13 = ''debug'' then 2 else if config_field cfg 13 = ''info'' then 1 else 0)"

text \<open>The directory of the audit files, in an array of 100 characters; it is only written to the log.\<close>

definition audit_path :: "cstring \<Rightarrow> cstring \<Rightarrow> cstring option" where
  "audit_path dir cfg =
     do {
       p \<leftarrow> fitting 100 (if config_field cfg 16 = [] then dir else config_field cfg 16);
       guard (p \<noteq> []);
       fitting 100 (if last p \<noteq> bslash then p @ [bslash] else p)
     }"

definition new_shell :: STRUCT_OSCSHELL where
  "new_shell =
     \<lparr>warningTimes_1 = 0, warningTimes_2 = 0, warningTimes_3 = 0, videoFlag = 0, debugLevel = 0, sqlHandle = None, exitFlag = 0, pipeFlag = 0,
      monitorPort = 0, otherProcess = 0, monitorProcess = 0, resProcess = 0, resThread = 0, dwProcessId = 0, wzFile1 = [], wzFile2 = []\<rparr>"

definition new_loginlog :: STRUCT_LOGINLOG where
  "new_loginlog =
     \<lparr>lg_id = [], lg_uid = [], lg_userName = [], lg_orgId = [], lg_orgName = [], lg_accountNo = [], lg_clientAddr = [],
      lg_resAddr = [], lg_resId = [], lg_resName = [], lg_resType = [], lg_apId = [], lg_accessType = 0, lg_loginDate = [],
      lg_loginOutDate = [], lg_onLineTime = [], lg_proxyAddr = [], lg_cmdFlag = 0, lg_nodeFlag = 0, lg_authaccessresid = [],
      lg_cooperator = [], lg_accessMemo = [], lg_accessName = []\<rparr>"

definition new_videolog :: STRUCT_USERACTIVITYVIDEOLOG where
  "new_videolog =
     \<lparr>vd_id = [], vd_resId = [], vd_resName = [], vd_resAddr = [], vd_clientAddr = [], vd_userId = [], vd_userName = [], vd_uid = [],
      vd_accountNo = [], vd_operDate = [], vd_sessionId = [], vd_filePath = []\<rparr>"

text \<open>
  The start of \<open>OSCShellEx\<close>: everything is cleared, the handle of an open database with it, and filled from the settings, which are
  read when they have no number of the node yet.
\<close>

definition shell_start :: "osc_env \<Rightarrow> cstring \<Rightarrow> shell \<Rightarrow> shell option" where
  "shell_start e szAccessID s =
     do {
       cfg \<leftarrow> (if config_field (sysconfig s) 12 = [] then loadCfgFile (cfg_ini e) (sysconfig s) else Some (sysconfig s));
       path \<leftarrow> audit_path (module_dir e) cfg;
       auditconn \<leftarrow> conn_settings cfg 0;
       oscconn \<leftarrow> conn_settings cfg 6;
       video \<leftarrow> fitting 200 (config_field cfg 15);
       accessid \<leftarrow> fitting 32 szAccessID;
       let (w1, w2, w3) = warning_times cfg;
       put_access A_id szAccessID
         (s\<lparr>sysconfig := cfg, p_auditconn := auditconn, p_oscconn := oscconn, p_aares := replicate 2279 NUL, p_access_set := True,
            p_videolog := new_videolog\<lparr>vd_filePath := video\<rparr>,
            p_loginlog := new_loginlog\<lparr>lg_nodeFlag := atoi (config_field cfg 12), lg_authaccessresid := accessid\<rparr>, loginlog_port := 0,
            p_shell := new_shell\<lparr>monitorPort := monitor_port cfg, warningTimes_1 := w1, warningTimes_2 := w2, warningTimes_3 := w3,
              debugLevel := debug_level cfg\<rparr>,
            localLang := []\<rparr>)
     }"

subsection \<open>The key and the language\<close>

definition const_key :: cstring where "const_key = ''Py*8Z)F92k&H)W@N''"
definition aes_const_key :: cstring where "aes_const_key = ''P$A8(r3E''"

definition GetLocalLang :: "shell \<Rightarrow> int" where
  "GetLocalLang s =
     (if localLang s = [] then 0 else if localLang s = ''zh'' then 0 else if localLang s = ''en'' then 1 else if localLang s = ''ja'' then 2 else 3)"

text \<open>The key for the passwords, from the two texts of the database.\<close>

definition password_key :: "(cstring \<Rightarrow> cstring \<Rightarrow> int \<Rightarrow> cstring) \<Rightarrow> cstring \<Rightarrow> cstring \<Rightarrow> cstring option" where
  "password_key dec pr_key pr_basekey =
     (let kekey = dec pr_basekey const_key 0
      in if length kekey = 8 then fitting 128 (dec pr_key (aes_const_key @ kekey) 0) else Some [])"

text \<open>A stored password: texts of the length of the old cipher are decrypted with it, others with the key, if there is one.\<close>

definition DecryptData :: "osc_env \<Rightarrow> cstring \<Rightarrow> nat \<Rightarrow> cstring \<Rightarrow> cstring option" where
  "DecryptData e key n indata =
     (if length indata mod 44 = 0 \<and> length indata < 100 then datasafe_decrypt n indata
      else case libAES e of
        Some dec \<Rightarrow> if key \<noteq> [] then fitting n (dec indata key 2) else datasafe_decrypt n indata
      | None \<Rightarrow> datasafe_decrypt n indata)"

text \<open>A password of the access record: a short text or one with a blank is used as it is, in an array of 20 characters.\<close>

definition plain_password :: "osc_env \<Rightarrow> cstring \<Rightarrow> cstring \<Rightarrow> cstring option" where
  "plain_password e key p =
     (if length p < 20 \<or> contains p '' '' then fitting 20 p else DecryptData e key 20 p)"

subsection \<open>The time that is left\<close>

text \<open>The numbers \<open>sscanf\<close> reads from a time, over the old values of the variables.\<close>

fun scan_read :: "(nat \<times> char) list \<Rightarrow> cstring \<Rightarrow> int list" where
  "scan_read [] s = []"
| "scan_read ((w, c) # fs) s =
     (case scan_d w s of
        None \<Rightarrow> []
      | Some (v, r) \<Rightarrow>
          v # (if c = CHR '' '' then scan_read fs (dropWhile is_space r)
               else if r \<noteq> [] \<and> hd r = c then scan_read fs (tl r)
               else []))"

definition scan_over :: "int list \<Rightarrow> cstring \<Rightarrow> int list" where
  "scan_over old s =
     (let vs = scan_read [(4, CHR ''-''), (2, CHR ''-''), (2, CHR '' ''), (2, CHR '':''), (2, CHR '':''), (2, NUL)] s
      in vs @ drop (length vs) old)"

definition no_time :: "int list" where "no_time = [0, 0, 0, 0, 0, 0]"

definition int32 :: "int \<Rightarrow> int" where "int32 n = sint (word_of_int n :: 32 word)"

text \<open>The minutes in a number of seconds, as C divides.\<close>

definition minutes :: "int \<Rightarrow> int" where
  "minutes n = (if n < 0 then - ((- n) div 60) else n div 60)"

definition time_auth :: "shell \<Rightarrow> STRUCT_TIMEAUTH" where
  "time_auth s = \<lparr>timeFlag = access s A_timeFlag, startTime = access s A_startTime, endTime = access s A_endTime, resetPwdTime = access s A_resetPwdTime\<rparr>"

text \<open>The times of the access record as the database has them now; without a connection those of the start stay.\<close>

definition current_times :: "osc_env \<Rightarrow> int \<Rightarrow> shell \<Rightarrow> (STRUCT_TIMEAUTH \<times> shell) option" where
  "current_times e flag s =
     (if flag = 1 then do {
        (rc, s) \<leftarrow> openDBHandle e (p_oscconn s) s;
        (t, s) \<leftarrow> (if rc = 0 then do {
                     ((r, t), s) \<leftarrow> on_handle e (\<lambda>w db. pack3 (DBQueryTimeAuth w (Some (time_auth s)) (access s A_id) db)) s;
                     t \<leftarrow> t;
                     Some (t, s)
                   } else Some (time_auth s, s));
        Some (t, closeDBHandle s)
      } else Some (time_auth s, s))"

text \<open>The result for a time that has not run out: the flag, or its negative when it is new and 9 or 16.\<close>

definition time_result :: "osc_env \<Rightarrow> int list \<Rightarrow> int \<Rightarrow> int \<Rightarrow> STRUCT_TIMEAUTH \<Rightarrow> shell \<Rightarrow> (int \<times> int \<times> shell) option" where
  "time_result e tms now end_time t s =
     do {
       let firstFlag = (timeFlag t \<noteq> [] \<and> access s A_timeFlag \<noteq> timeFlag t);
       s \<leftarrow> (if firstFlag then put_access A_timeFlag (timeFlag t) s else Some s);
       let flag = (if timeFlag t \<noteq> [] then atoi (timeFlag t) else 0);
       let timeout = int32 (end_time - now);
       (if firstFlag \<and> (flag = 16 \<or> flag = 9) then do {
          timeout \<leftarrow> (if flag = 9 \<and> resetPwdTime t \<noteq> [] then do {
                        reset \<leftarrow> mk_ctime e (scan_over tms (resetPwdTime t));
                        Some (int32 (minutes (reset - now)))
                      } else Some timeout);
          Some (- flag, timeout, s)
        }
        else Some (flag, timeout, s))
     }"

text \<open>The clock of the proxy; \<open>None\<close> for an access that is no longer in the database, which leaves the handle open.\<close>

definition proxy_query :: "osc_env \<Rightarrow> shell \<Rightarrow> (cstring option \<times> shell) option" where
  "proxy_query e s =
     do {
       ((r, buf), s) \<leftarrow> on_handle e (\<lambda>w db. pack3 (DBQueryProxyHostTime w (Some (zeros 30)) (access s A_id) db)) s;
       buf \<leftarrow> buf;
       Some (if r = -1 then (None, s) else (Some (zstr buf), closeDBHandle s))
     }"

definition proxy_time :: "osc_env \<Rightarrow> shell \<Rightarrow> (cstring option \<times> shell) option" where
  "proxy_time e s =
     do {
       (rc, s) \<leftarrow> openDBHandle e (p_oscconn s) s;
       (if rc = 0 then proxy_query e s else Some (Some [], closeDBHandle s))
     }"

text \<open>The time up to the end of the permission, from the broken-down clock of the proxy and its value.\<close>

definition time_left :: "osc_env \<Rightarrow> int \<Rightarrow> int option \<Rightarrow> int list \<Rightarrow> int \<Rightarrow> shell \<Rightarrow> (int \<times> int \<times> int option \<times> shell) option" where
  "time_left e flag delayFlag tms now s =
     do {
       (t, s) \<leftarrow> current_times e flag s;
       let delayFlag = (if delayFlag \<noteq> None \<and> lastEndTime s \<noteq> [] \<and> lastEndTime s \<noteq> endTime t then Some 4 else delayFlag);
       let tms = scan_over tms (endTime t);
       end_time \<leftarrow> mk_ctime e tms;
       last \<leftarrow> fitting 21 (endTime t);
       let s = s\<lparr>lastEndTime := last\<rparr>;
       (if now > end_time then Some (0, 0, delayFlag, s)
        else do {
          (r, timeout, s) \<leftarrow> time_result e tms now end_time t s;
          Some (r, timeout, delayFlag, s)
        })
     }"

text \<open>\<open>GetVistitime\<close>, with the results \<open>timeout\<close> and \<open>delayFlag\<close>; the latter is kept when the pointer is NULL.\<close>

definition GetVistitime :: "osc_env \<Rightarrow> int \<Rightarrow> int option \<Rightarrow> shell \<Rightarrow> (int \<times> int \<times> int option \<times> shell) option" where
  "GetVistitime e flag delayFlag s =
     do {
       (proxyTime, s) \<leftarrow> proxy_time e s;
       (case proxyTime of
          None \<Rightarrow> Some (0, 0, delayFlag, s)
        | Some p \<Rightarrow> do {
            let tms = scan_over no_time p;
            now \<leftarrow> mk_ctime e tms;
            (if access s A_startTime = [] then Some (0, 0, delayFlag, s)
             else if access s A_endTime = [] then Some (1, 65500, delayFlag, s)
             else time_left e flag delayFlag tms now s)
          })
     }"

definition GetVistitimeEx :: "osc_env \<Rightarrow> int option \<Rightarrow> shell \<Rightarrow> (int \<times> int \<times> int option \<times> shell) option" where
  "GetVistitimeEx e delayFlag s = GetVistitime e 1 delayFlag s"

subsection \<open>The opening of a session\<close>

text \<open>What \<open>OSCShellEx\<close> asks the database: the number of access records, or -1 without a connection.\<close>

definition query_key :: "osc_env \<Rightarrow> shell \<Rightarrow> shell option" where
  "query_key e s =
     do {
       ((n, k, b), s) \<leftarrow> on_handle e (\<lambda>w db. pack4 (DBQueryKey w (zeros 1024) (zeros 1024) db)) s;
       (case libAES e of
          None \<Rightarrow> Some s
        | Some dec \<Rightarrow>
            if n > 0 then do { key \<leftarrow> password_key dec (zstr k) (zstr b); Some (s\<lparr>aes_key := key\<rparr>) } else Some s)
     }"

definition query_access :: "osc_env \<Rightarrow> cstring \<Rightarrow> shell \<Rightarrow> (int \<times> shell) option" where
  "query_access e szAccessID s =
     do {
       (rc, s) \<leftarrow> openDBHandle e (p_oscconn s) s;
       (if rc = 0 then do {
          ((n, a), s) \<leftarrow> on_handle e (\<lambda>w db. pack3 (DBQueryAuthAccessRes w (Some (p_aares s)) db)) s;
          a \<leftarrow> a;
          s \<leftarrow> query_key e (s\<lparr>p_aares := a\<rparr>);
          session \<leftarrow> fitting 10 (fmt_d (windows_session e));
          (_, s) \<leftarrow> on_handle e (\<lambda>w db. DBExecSessionID w szAccessID session db) s;
          ((_, l), s) \<leftarrow> on_handle e (\<lambda>w db. pack3 (DBQueryLocalLang w (zeros 50) szAccessID db)) s;
          ((_, c, m), s) \<leftarrow> on_handle e (\<lambda>w db. pack4 (DBDBQueryAuthAccessResPR w (lg_authaccessresid (p_loginlog s)) (zeros 500) (zeros 200) db)) s;
          Some (n, closeDBHandle (s\<lparr>localLang := zstr l, p_loginlog := (p_loginlog s)\<lparr>lg_cooperator := zstr c, lg_accessMemo := zstr m\<rparr>\<rparr>))
        }
        else Some (rc, closeDBHandle s))
     }"

text \<open>The end of the processes that were started; \<open>exitFlag\<close> says that the tool has ended by itself. Windows is taken to close the handles it
  is asked to.\<close>

definition do_event :: "win_event \<Rightarrow> shell \<Rightarrow> shell" where
  "do_event ev s = s\<lparr>win_events := win_events s @ [ev]\<rparr>"

definition exitClear :: "shell \<Rightarrow> shell" where
  "exitClear s =
     (let p = p_shell s;
          s = (if otherProcess p \<noteq> 0 then do_event (TerminateProcess (otherProcess p)) s else s);
          s = (if monitorProcess p \<noteq> 0 then do_event (TerminateProcess (monitorProcess p)) s else s)
      in if resProcess p \<noteq> 0 \<and> exitFlag p = 0
         then do_event (CloseHandle (resThread p)) (do_event (CloseHandle (resProcess p)) (do_event (TerminateProcess (resProcess p)) s))
         else s)"

text \<open>The record of the login and that of the video, from the access record.\<close>

definition login_account :: "shell \<Rightarrow> cstring" where
  "login_account s = (if access s A_suFlag \<noteq> [] \<and> atoi (access s A_suFlag) = 1 then access s A_accountNoEx else access s A_accountNo)"

definition fill_client :: "shell \<Rightarrow> shell option" where
  "fill_client s =
     do {
       vc \<leftarrow> fitting 51 (access s A_clientAddr);
       lc \<leftarrow> fitting 20 (access s A_clientAddr);
       Some (s\<lparr>p_videolog := (p_videolog s)\<lparr>vd_clientAddr := vc\<rparr>,
         p_loginlog := (p_loginlog s)\<lparr>lg_clientAddr := lc, lg_accessType := atoi (access s A_accessType)\<rparr>\<rparr>)
     }"

definition fill_loginlog :: "osc_env \<Rightarrow> shell \<Rightarrow> shell option" where
  "fill_loginlog e s =
     do {
       proxy \<leftarrow> fitting 20 (if access s A_proxyAddr \<noteq> [] then access s A_proxyAddr else local_address e);
       account \<leftarrow> fitting 21 (login_account s);
       resAddr \<leftarrow> fitting 20 (access s A_resAddr);
       resId \<leftarrow> fitting 33 (access s A_resId);
       resName \<leftarrow> fitting 51 (access s A_resName);
       resType \<leftarrow> fitting 20 (access s A_resType);
       uid \<leftarrow> fitting 33 (access s A_uid);
       userName \<leftarrow> fitting 51 (access s A_userName);
       apId \<leftarrow> fitting 33 (access s A_apId);
       Some (s\<lparr>p_loginlog := (p_loginlog s)\<lparr>lg_proxyAddr := proxy,
         lg_accountNo := account, lg_resAddr := resAddr, lg_resId := resId, lg_resName := resName, lg_resType := resType, lg_uid := uid,
         lg_userName := userName, lg_apId := apId\<rparr>\<rparr>)
     }"

definition fill_videolog :: "shell \<Rightarrow> shell option" where
  "fill_videolog s =
     do {
       account \<leftarrow> fitting 50 (login_account s);
       resAddr \<leftarrow> fitting 51 (access s A_resAddr);
       resId \<leftarrow> fitting 33 (access s A_resId);
       resName \<leftarrow> fitting 51 (access s A_resName);
       uid \<leftarrow> fitting 33 (access s A_uid);
       userName \<leftarrow> fitting 51 (access s A_userName);
       userId \<leftarrow> fitting 32 (access s A_userId);
       Some (s\<lparr>p_videolog := (p_videolog s)\<lparr>vd_accountNo := account, vd_resAddr := resAddr, vd_resId := resId,
         vd_resName := resName, vd_uid := uid, vd_userName := userName, vd_userId := userId\<rparr>\<rparr>)
     }"

definition fill_id :: "osc_env \<Rightarrow> shell \<Rightarrow> shell option" where
  "fill_id e s =
     do {
       n \<leftarrow> fitting 33 (if debugLevel (p_shell s) = 2 then new_id e else access s A_id);
       Some (s\<lparr>p_loginlog := (p_loginlog s)\<lparr>lg_id := n\<rparr>\<rparr>)
     }"

text \<open>A stored password is replaced by the plain one; \<open>noPassword\<close> is 0 when there is none.\<close>

definition fill_password :: "osc_env \<Rightarrow> nat \<Rightarrow> shell \<Rightarrow> shell option" where
  "fill_password e i s =
     (let p = access s i
      in if p = [] then Some s
         else do {
           q \<leftarrow> plain_password e (aes_key s) p;
           (if length p < 20 \<or> contains p '' '' then Some s else put_access i q s)
         })"

text \<open>The address of the caller for a record without one; its length is not tested.\<close>

definition default_client :: "cstring \<Rightarrow> shell \<Rightarrow> shell option" where
  "default_client szClientIP s = (if access s A_clientAddr = [] then put_access A_clientAddr szClientIP s else Some s)"

text \<open>The records of the login and of the video, and the passwords.\<close>

definition fill_records :: "osc_env \<Rightarrow> shell \<Rightarrow> shell option" where
  "fill_records e s =
     do {
       s \<leftarrow> fill_loginlog e s;
       s \<leftarrow> fill_videolog s;
       s \<leftarrow> fill_id e s;
       let s = s\<lparr>noPassword := (if access s A_accountPwd = [] then 0 else 1)\<rparr>;
       s \<leftarrow> fill_password e A_accountPwd s;
       fill_password e A_accountPwdEx s
     }"

text \<open>The record of an access within its time; \<open>False\<close> when it has no type or no tool.\<close>

definition open_access :: "osc_env \<Rightarrow> shell \<Rightarrow> (bool \<times> shell) option" where
  "open_access e s =
     do {
       s \<leftarrow> fill_client s;
       (if atoi (access s A_accessType) = 0 then Some (False, exitClear s)
        else do {
          s \<leftarrow> fill_records e s;
          Some (if access s A_execApp = [] then (False, exitClear s) else (True, s))
        })
     }"

text \<open>What follows the queries, of which the first found \<open>n\<close> access records.\<close>

definition open_record :: "osc_env \<Rightarrow> int \<Rightarrow> cstring \<Rightarrow> shell \<Rightarrow> (bool \<times> shell) option" where
  "open_record e n szClientIP s =
     (if n \<le> 0 then Some (False, exitClear s)
      else do {
        s \<leftarrow> default_client szClientIP s;
        (v, timeout, delay, s) \<leftarrow> GetVistitime e 0 None s;
        (if v \<le> 0 then Some (False, exitClear s) else open_access e s)
      })"

text \<open>
  \<open>OSCShellEx\<close> up to the command line. \<open>False\<close> stands for \<open>exitClear\<close> and NULL: there is no access record, its time is over, it has no
  type or no tool.
\<close>

definition OSCShellEx_open :: "osc_env \<Rightarrow> cstring \<Rightarrow> cstring \<Rightarrow> shell \<Rightarrow> (bool \<times> shell) option" where
  "OSCShellEx_open e szAccessID szClientIP s =
     do {
       s \<leftarrow> shell_start e szAccessID s;
       (n, s) \<leftarrow> query_access e szAccessID s;
       open_record e n szClientIP s
     }"

end
