(* ===== verification/ShellSession.thy ===== *)
theory ShellSession
  imports Shell
begin

text \<open>
  The life of a session in \<^verbatim>\<open>OSCShell/OSCShell.cpp\<close> after the tool was started: the login record, the monitor with its messages,
  the end, and the watch over all sessions (lines 4609 to 5135 and 5595 to 5675).
\<close>

subsection \<open>The login record\<close>

text \<open>\<open>RemoveMapInfo\<close>: the access record is deleted, but not while debugging.\<close>

definition RemoveMapInfo :: "osc_env \<Rightarrow> shell \<Rightarrow> (int \<times> shell) option" where
  "RemoveMapInfo e s =
     (if debugLevel (p_shell s) \<noteq> 2 then do {
        (rc, s) \<leftarrow> openDBHandle e (p_oscconn s) s;
        s \<leftarrow> (if rc = 0 then do {
                 ((_, a), s) \<leftarrow> on_handle e (\<lambda>w db. pack3 (DBExecAuthAccessRes w (Some (p_aares s)) 1 db)) s;
                 Some s
               } else Some s);
        Some (rc, closeDBHandle s)
      } else Some (0, s))"

text \<open>The types of access whose login the proxy records itself, when there is a password.\<close>

definition proxy_logs :: "shell \<Rightarrow> bool" where
  "proxy_logs s =
     (let t = atoi (access s A_accessType); sso = (access s A_ssoFlag \<noteq> [] \<and> atoi (access s A_ssoFlag) = 1)
      in noPassword s = 1 \<and> (t \<in> {100, 101, 201, 202, 501, 503, 504, 505, 507} \<or> (t = 102 \<or> t = 103) \<and> sso)
         \<or> noPassword s = 0 \<and> (t = 100 \<or> t = 101))"

text \<open>The time of the proxy; whether the query succeeded is not asked.\<close>

definition log_time :: "osc_env \<Rightarrow> shell \<Rightarrow> (cstring \<times> shell) option" where
  "log_time e s =
     do {
       (rc, s) \<leftarrow> openDBHandle e (p_oscconn s) s;
       (t, s) \<leftarrow> (if rc = 0 then do {
                    ((_, buf), s) \<leftarrow> on_handle e (\<lambda>w db. pack3 (DBQueryProxyHostTime w (Some (zeros 30)) (access s A_id) db)) s;
                    buf \<leftarrow> buf;
                    Some (zstr buf, s)
                  } else Some ([], s));
       Some (t, closeDBHandle s)
     }"

text \<open>The name of the type of access, for the message of a logout.\<close>

definition fill_accessName :: "osc_env \<Rightarrow> shell \<Rightarrow> shell option" where
  "fill_accessName e s =
     do {
       let l = p_loginlog s;
       let buf = lg_accessName l @ replicate (50 - length (lg_accessName l)) NUL;
       (b, s) \<leftarrow> with_db e (p_oscconn s) buf (\<lambda>w db. getResNamebyResType w (lg_apId l) buf db) s;
       Some (s\<lparr>p_loginlog := l\<lparr>lg_accessName := zstr b\<rparr>\<rparr>)
     }"

definition write_login :: "osc_env \<Rightarrow> int \<Rightarrow> cstring \<Rightarrow> cstring \<Rightarrow> shell \<Rightarrow> (int \<times> shell) option" where
  "write_login e act proxyTime outDateTime s =
     do {
       let l = (if noPassword s = 0 then (p_loginlog s)\<lparr>lg_cmdFlag := 0\<rparr> else p_loginlog s);
       ((rc, l, lg), s) \<leftarrow> with_db e (p_auditconn s) (0, p_loginlog s, slog s)
          (\<lambda>w db. do {
             (rc, l, db, lg) \<leftarrow> DBExecLoginLog w (win e) (Some l) act proxyTime outDateTime db (slog s);
             l \<leftarrow> l;
             Some ((rc, l, lg), db)
           }) s;
       Some (rc, s\<lparr>p_loginlog := l, slog := lg\<rparr>)
     }"

text \<open>The record of a login (0) or logout (1); a logout gets a time ten seconds late. Without a connection the result is 0 as well.\<close>

definition DoLoginLog :: "osc_env \<Rightarrow> int \<Rightarrow> shell \<Rightarrow> (int \<times> shell) option" where
  "DoLoginLog e act s =
     (if proxy_logs s then Some (0, s)
      else do {
        s \<leftarrow> (if act = 1 then fill_accessName e s else Some s);
        (proxyTime, s) \<leftarrow> log_time e s;
        now \<leftarrow> mk_ctime e (scan_over no_time proxyTime);
        outDateTime \<leftarrow> fitting 40 (time_text (ctime_fields e (now + 10)));
        write_login e act proxyTime outDateTime s
      })"

subsection \<open>The end of a session\<close>

text \<open>The alias of a DB2 database, which the program removes first when it made one, is left out.\<close>

definition ExitRemoteControlServer :: "osc_env \<Rightarrow> int \<Rightarrow> shell \<Rightarrow> shell option" where
  "ExitRemoteControlServer e flag s =
     do {
       let s = (if wzFile1 (p_shell s) \<noteq> [] then do_event (DeleteFile (wzFile1 (p_shell s))) s else s);
       let s = (if wzFile2 (p_shell s) \<noteq> [] then do_event (DeleteFile (wzFile2 (p_shell s))) s else s);
       (_, s) \<leftarrow> RemoveMapInfo e s;
       (_, s) \<leftarrow> DoLoginLog e 1 s;
       Some (exitClear (s\<lparr>p_shell := (p_shell s)\<lparr>pipeFlag := 0, exitFlag := flag\<rparr>\<rparr>))
     }"

subsection \<open>The monitor\<close>

text \<open>The text behind the first occurrence of a word.\<close>

definition behind :: "cstring \<Rightarrow> cstring \<Rightarrow> cstring option" where
  "behind buf word = map_option (\<lambda>i. drop (i + length word) buf) (strstr buf word)"

definition set_status :: "osc_env \<Rightarrow> int \<Rightarrow> shell \<Rightarrow> shell option" where
  "set_status e status s =
     (if status = 1 \<or> status = 2
      then map_option snd (with_db e (p_auditconn s) 0 (\<lambda>w db. DBExecLoginLogStatus w (lg_id (p_loginlog s)) status db) s)
      else Some s)"

definition set_port :: "osc_env \<Rightarrow> int \<Rightarrow> shell \<Rightarrow> shell option" where
  "set_port e n s =
     map_option snd (with_db e (p_auditconn s) 0
       (\<lambda>w db. DBExecSetPort w (lg_proxyAddr (p_loginlog s)) n (lg_authaccessresid (p_loginlog s)) db) (s\<lparr>loginlog_port := n\<rparr>))"

text \<open>The status or, failing that, the port in a message.\<close>

definition monitor_values :: "osc_env \<Rightarrow> cstring \<Rightarrow> shell \<Rightarrow> shell option" where
  "monitor_values e buf s =
     (case behind buf ''STATUS:'' of
        Some t \<Rightarrow> set_status e (atoi t) s
      | None \<Rightarrow> (case behind buf ''PORT:'' of Some t \<Rightarrow> set_port e (atoi t) s | None \<Rightarrow> Some s))"

text \<open>A message of the monitor, in an array of 512 characters that is not terminated when it is full.\<close>

definition monitor_message :: "osc_env \<Rightarrow> cstring \<Rightarrow> shell \<Rightarrow> shell option" where
  "monitor_message e raw s =
     do {
       guard (length raw < 512 \<or> NUL \<in> set raw);
       let buf = zstr raw;
       (if buf = [] then Some s
        else do {
          s \<leftarrow> monitor_values e buf s;
          (if contains buf ''DISCONNECT:'' then ExitRemoteControlServer e 0 s else Some s)
        })
     }"

text \<open>\<open>MonitorThread\<close> over what the pipe brings: it ends when \<open>pipeFlag\<close> is 0.\<close>

fun monitor_loop :: "osc_env \<Rightarrow> cstring list \<Rightarrow> shell \<Rightarrow> shell option" where
  "monitor_loop e [] s = Some s"
| "monitor_loop e (raw # raws) s =
     (if pipeFlag (p_shell s) = 0 then Some s
      else do { s \<leftarrow> monitor_message e raw s; monitor_loop e raws s })"

definition MonitorThread :: "osc_env \<Rightarrow> cstring list \<Rightarrow> shell \<Rightarrow> shell option" where
  "MonitorThread e raws s = monitor_loop e raws (s\<lparr>p_shell := (p_shell s)\<lparr>pipeFlag := 1\<rparr>\<rparr>)"

text \<open>The number the database gave the login becomes that of the records; \<open>None\<close> for no connection.\<close>

definition fetch_id :: "osc_env \<Rightarrow> shell \<Rightarrow> (cstring \<times> shell) option" where
  "fetch_id e s =
     do {
       (rc, s) \<leftarrow> openDBHandle e (p_auditconn s) s;
       (if rc = 0 then do {
          ((_, buf), s) \<leftarrow> on_handle e (\<lambda>w db. pack3 (DBQueryLoginlogId w (zeros 40) (lg_authaccessresid (p_loginlog s)) db)) s;
          n \<leftarrow> fitting 33 (zstr buf);
          Some (n, s\<lparr>p_loginlog := (p_loginlog s)\<lparr>lg_id := n\<rparr>\<rparr>)
        }
        else Some ([], s))
     }"

definition video_record :: "osc_env \<Rightarrow> cstring \<Rightarrow> shell \<Rightarrow> shell option" where
  "video_record e n s =
     (if videoFlag (p_shell s) > 0 then do {
        let v = (if atoi (access s A_accessType) \<in> {100, 101, 102, 103, 201, 202, 501, 503, 504, 505, 507}
                 then (p_videolog s)\<lparr>vd_sessionId := n, vd_id := n\<rparr> else p_videolog s);
        ((_, v), s) \<leftarrow> on_handle e (\<lambda>w db. pack3 (DBExecUserActivityVideoLog w (Some v) db)) s;
        v \<leftarrow> v;
        Some (s\<lparr>p_videolog := v\<rparr>)
      } else Some s)"

text \<open>
  \<open>ShellRemoteControlServer\<close>: the login is recorded and the monitor is started, whose handle is \<open>h\<close>, 0 when Windows could not. The
  pipe and its thread are left out.
\<close>

definition ShellRemoteControlServer :: "osc_env \<Rightarrow> int \<Rightarrow> shell \<Rightarrow> (int \<times> shell) option" where
  "ShellRemoteControlServer e h s =
     do {
       (rc, s) \<leftarrow> DoLoginLog e 0 (s\<lparr>loginlog_port := 0\<rparr>);
       (if rc \<noteq> 0 then Some (1, s)
        else do {
          (n, s) \<leftarrow> fetch_id e s;
          s \<leftarrow> video_record e n s;
          let s = closeDBHandle s;
          let s = do_event (CreateProcess (module_dir e @ ''AuditMonitor.exe '' @ fmt_d (monitorPort (p_shell s)) @ ''@'' @ fmt_d (dwProcessId (p_shell s)))) s;
          Some (if h = 0 then (2, s) else (0, s\<lparr>p_shell := (p_shell s)\<lparr>monitorProcess := h\<rparr>\<rparr>))
        })
     }"

subsection \<open>The watch over all sessions\<close>

text \<open>The sessions \<open>MonitorSession\<close> ends, from the sessions of the processes: those that are disconnected.\<close>

fun logoff_sessions :: "(int \<Rightarrow> bool) \<Rightarrow> int \<Rightarrow> int list \<Rightarrow> int list" where
  "logoff_sessions disconnected prev [] = []"
| "logoff_sessions disconnected prev (sid # sids) =
     (if sid = 0 \<or> sid = prev then logoff_sessions disconnected prev sids
      else (if disconnected sid then [sid] else []) @ logoff_sessions disconnected sid sids)"

text \<open>What is done in every third round: logins that have not been heard of are ended.\<close>

definition check_logins :: "osc_env \<Rightarrow> shell \<Rightarrow> shell option" where
  "check_logins e s =
     do {
       (rc, s) \<leftarrow> openDBHandle e (p_auditconn s) s;
       s \<leftarrow> (if rc = 0 then do {
                (rc, s) \<leftarrow> openDBHandle e (p_oscconn s) s;
                (t, s) \<leftarrow> (if rc = 0 then do {
                             guard (p_access_set s);
                             ((_, buf), s) \<leftarrow> on_handle e (\<lambda>w db. pack3 (DBQueryProxyHostTime w (Some (zeros 30)) (access s A_id) db)) s;
                             buf \<leftarrow> buf;
                             Some (zstr buf, s)
                           } else Some ([], s));
                let s = closeDBHandle s;
                (_, s) \<leftarrow> on_handle e (\<lambda>w db. DBCheckLoginLog w t db) s;
                Some s
              } else Some s);
       Some (closeDBHandle s)
     }"

text \<open>\<open>n\<close> rounds of \<open>MonitorSession\<close>, with the processes found in each.\<close>

fun monitor_rounds :: "osc_env \<Rightarrow> (int \<Rightarrow> bool) \<Rightarrow> int list list \<Rightarrow> nat \<Rightarrow> int list \<Rightarrow> shell \<Rightarrow> (int list \<times> shell) option" where
  "monitor_rounds e disconnected [] count off s = Some (off, s)"
| "monitor_rounds e disconnected (sids # rounds) count off s =
     (let off = off @ logoff_sessions disconnected 0 sids
      in if 3 \<le> count + 1 then do { s \<leftarrow> check_logins e s; monitor_rounds e disconnected rounds 0 off s }
         else monitor_rounds e disconnected rounds (count + 1) off s)"

end
