(* ===== verification/ShellSamples.thy ===== *)
theory ShellSamples
  imports ShellSession
begin

text \<open>An environment and a launcher with concrete values, on which the theorems about the launcher are applied.\<close>

subsection \<open>A launcher\<close>

definition sample_conn :: "cstring \<Rightarrow> STRUCT_DBCONNECT" where
  "sample_conn h = \<lparr>dbType = [], dbHost = h, dbUser = ''u'', dbPwd = ''p'', dbName = ''n'', dbPort = 3306\<rparr>"

text \<open>Databases that answer as \<open>answer\<close> says, of which those on the hosts \<open>up\<close> can be reached, and a clock that is a number.\<close>

definition sample_env :: "(cstring \<Rightarrow> bool) \<Rightarrow> (cstring \<Rightarrow> db_reply) \<Rightarrow> osc_env" where
  "sample_env up answer =
     \<lparr>net = \<lambda>_ _. (sample_world (\<lambda>_ sql. answer sql) (\<lambda>_ _. Com_error))\<lparr>mysql_real_connect := \<lambda>h _ _ _ _. up h\<rparr>,
      win = sample_sys, cfg_ini = None, module_dir = ''C:'', local_address = ''10.0.0.1'', windows_session = 1, new_id = ''n'',
      mk_ctime = \<lambda>t. Some (fold (\<lambda>x n. 100 * n + x) t 0), ctime_fields = \<lambda>_. [2024, 1, 2, 3, 4, 15], libAES = None\<rparr>"

definition sample_shell :: "cstring \<Rightarrow> shell" where
  "sample_shell a =
     \<lparr>sysconfig = [], p_auditconn = sample_conn ''audit'', p_oscconn = sample_conn ''osc'', p_aares = a, p_access_set = True,
      p_videolog = new_videolog, p_loginlog = new_loginlog, loginlog_port = 0, p_shell = new_shell, lastEndTime = [], aes_key = [],
      localLang = [], noPassword = 1, past = [], slog = logger0, win_events = []\<rparr>"

lemma sample_shell_simps [simp]:
  "p_aares (sample_shell a) = a" "handle_of (sample_shell a) = None" "p_oscconn (sample_shell a) = sample_conn ''osc''"
  "p_auditconn (sample_shell a) = sample_conn ''audit''" "past (sample_shell a) = []"
  by (simp_all add: sample_shell_def new_shell_def)

lemma sample_env_simps [simp]:
  "world_of (sample_env up answer) s conn = (sample_world (\<lambda>_ sql. answer sql) (\<lambda>_ _. Com_error))\<lparr>mysql_real_connect := \<lambda>h _ _ _ _. up h\<rparr>"
  "mk_ctime (sample_env up answer) t = Some (fold (\<lambda>x n. 100 * n + x) t 0)"
  by (simp_all add: world_of_def sample_env_def)

lemma sample_env_more:
  "new_id (sample_env up answer) = ''n''" "local_address (sample_env up answer) = ''10.0.0.1''"
  "ctime_fields (sample_env up answer) t = [2024, 1, 2, 3, 4, 15]"
  by (simp_all add: sample_env_def)

text \<open>An access record: Telnet to a host with the program \<open>putty\<close>, until the end of a year.\<close>

definition sample_row :: row where
  "sample_row = map Some
    ([''7''] @ replicate 17 [] @ [''10.0.0.9'', [], ''100''] @ replicate 6 [] @ [''2'', ''2024-01-01 00:00:00'', ''2024-12-31 00:00:00'', [], ''putty''] @ replicate 3 [])"

lemma sample_fields:
  "sample_row ! 0 = Some ''7''"
  "sample_row ! 1 = Some []"
  "sample_row ! 2 = Some []"
  "sample_row ! 3 = Some []"
  "sample_row ! 4 = Some []"
  "sample_row ! 5 = Some []"
  "sample_row ! 6 = Some []"
  "sample_row ! 7 = Some []"
  "sample_row ! 10 = Some []"
  "sample_row ! 12 = Some []"
  "sample_row ! 13 = Some []"
  "sample_row ! 18 = Some ''10.0.0.9''"
  "sample_row ! 19 = Some []"
  "sample_row ! 20 = Some ''100''"
  "sample_row ! 22 = Some []"
  "sample_row ! 26 = Some []"
  "sample_row ! 27 = Some ''2''"
  "sample_row ! 28 = Some ''2024-01-01 00:00:00''"
  "sample_row ! 29 = Some ''2024-12-31 00:00:00''"
  "sample_row ! 30 = Some []"
  "sample_row ! 31 = Some ''putty''"
  by code_simp+

lemma sample_record: "\<exists>a. length a = 2279 \<and> auth_field a = (\<lambda>i. if i < 35 then text_of (sample_row ! i) else [])"
proof -
  have f: "list_all2 fits sample_row fieldsLen" by (simp add: sample_row_def fieldsLen_def fits_def numeral_eq_Suc)
  have l: "length sample_row = 35" by (simp add: sample_row_def)
  obtain a where "length a = 2279" "\<forall>i<35. auth_field a i = text_of (sample_row ! i)"
    using write_fields_result[OF f, of 0 "replicate 2279 NUL" True] auth_fields_ok l by (auto simp: auth_field_def)
  moreover have "auth_field a i = []" if "\<not> i < 35" "length a = 2279" for i a
    using that auth_fields_ok by (simp add: auth_field_def zstr_def)
  ultimately show ?thesis by (intro exI[of _ a]) auto
qed

lemma sample_time: "\<exists>b. put_str (zeros 30) 0 ''2024-06-01 00:00:00'' = Some b \<and> zstr b = ''2024-06-01 00:00:00''"
  by (simp add: put_str_def poke_opt_def poke_def zeros_def zstr_def)

lemma sample_proxy_time:
  assumes "auth_field a 0 = ''7''"
  shows "\<exists>s1. proxy_time (sample_env up (\<lambda>sql. Rows [[Some ''2024-06-01 00:00:00'']])) (sample_shell a) = Some (Some (if up ''osc'' then ''2024-06-01 00:00:00'' else []), s1)"
    "\<exists>s1. proxy_time (sample_env (\<lambda>h. True) (\<lambda>sql. Rows [])) (sample_shell a) = Some (None, s1)"
proof -
  note defs = proxy_time_def proxy_query_def openDBHandle_def conndb_def new_db_mysql_def sample_conn_def on_handle_def A_id_def
     DBQueryProxyHostTime_def fitting_def proxy_time_sql_def qs_def select_rows_def pack3_def real_query_def Let_def set_handle_def
  obtain b where b: "put_str (zeros 30) 0 ''2024-06-01 00:00:00'' = Some b" "zstr b = ''2024-06-01 00:00:00''"
    using sample_time by metis
  show "\<exists>s1. proxy_time (sample_env up (\<lambda>sql. Rows [[Some ''2024-06-01 00:00:00'']])) (sample_shell a) = Some (Some (if up ''osc'' then ''2024-06-01 00:00:00'' else []), s1)"
    using assms b by (simp add: defs nth_opt_def)
  show "\<exists>s1. proxy_time (sample_env (\<lambda>h. True) (\<lambda>sql. Rows [])) (sample_shell a) = Some (None, s1)"
    using assms by (simp add: defs)
qed

end
