(* ===== verification/ShellLaws.thy ===== *)
theory ShellLaws
  imports ShellSamples "HOL-Library.Multiset"
begin

text \<open>
  What the launcher keeps and what goes wrong in it: which database its handle belongs to, when a session is opened, logins that are
  not recorded, the watch over all sessions, stored passwords and warning times.
\<close>

subsection \<open>The connection of a client\<close>

named_theorems keeps_conn

lemma real_query_conn [keeps_conn]: "real_query w sql db = (rc, db') \<Longrightarrow> dbconn db' = dbconn db"
  by (auto elim!: bind_SomeE simp: real_query_def)

lemma select_rows_conn [keeps_conn]: "select_rows w sql db = Some (r, db') \<Longrightarrow> dbconn db' = dbconn db"
  by (auto elim!: bind_SomeE simp: select_rows_def Let_def split: db_reply.split_asm)

lemma ole_query_conn [keeps_conn]: "ole_query w sql cols f h db = Some (r, db') \<Longrightarrow> dbconn db' = dbconn db"
  by (auto elim!: bind_SomeE simp: ole_query_def)

lemma ole_update_conn [keeps_conn]: "ole_update w sql err db = Some (r, db') \<Longrightarrow> dbconn db' = dbconn db"
  by (auto elim!: bind_SomeE simp: ole_update_def Let_def split: prod.split_asm)

lemma ole_update_array_conn [keeps_conn]: "ole_update_array w sqls err db = Some (r, db') \<Longrightarrow> dbconn db' = dbconn db"
  by (auto elim!: bind_SomeE simp: ole_update_array_def Let_def split: prod.split_asm)

lemma ole_retry_conn [keeps_conn]: "ole_retry n w sql cols f h db = Some (r, o', db') \<Longrightarrow> dbconn db' = dbconn db"
proof (induction n arbitrary: db)
  case 0
  then show ?case by simp
next
  case (Suc n)
  from Suc.prems obtain q db1 where q: "ole_query w sql cols f h db = Some (q, db1)"
    and r: "(case q of None \<Rightarrow> Some (-1, None, db1) | Some (h', k) \<Rightarrow> if k > 0 then Some (k, Some h', db1) else ole_retry n w sql cols f h db1)
      = Some (r, o', db')"
    by (auto elim!: bind_SomeE )
  have "dbconn db' = dbconn db1" using r Suc.IH[of db1] by (auto split: option.split_asm if_split_asm elim!: bind_SomeE)
  with ole_query_conn[OF q] show ?case by simp
qed

lemma first_row_code_conn [keeps_conn]: "first_row_code w sql f out db = Some (r, o', db') \<Longrightarrow> dbconn db' = dbconn db"
  by (auto elim!: bind_SomeE simp: first_row_code_def Let_def split: db_reply.split_asm list.split_asm)

lemma loginlog_tries_conn [keeps_conn]: "loginlog_tries n w sql buf db = Some (r, b, db') \<Longrightarrow> dbconn db' = dbconn db"
proof (induction n arbitrary: db)
  case 0
  then show ?case by simp
next
  case (Suc n)
  from Suc.prems obtain q db1 where q: "select_rows w sql db = Some (q, db1)"
    and r: "(case q of None \<Rightarrow> Some (-1, buf, db1) | Some [] \<Rightarrow> loginlog_tries n w sql buf db1
      | Some (row # rows) \<Rightarrow> do { buf \<leftarrow> copy_first row buf; Some (1 + int (length rows), buf, db1) }) = Some (r, b, db')"
    by (auto elim!: bind_SomeE )
  have "dbconn db' = dbconn db1" using r Suc.IH[of db1] by (auto elim!: bind_SomeE simp: split: option.split_asm list.split_asm)
  with select_rows_conn[OF q] show ?case by simp
qed

lemma DBQueryProxyHostTime_conn [keeps_conn]: "DBQueryProxyHostTime w b i db = Some (r, b', db') \<Longrightarrow> dbconn db' = dbconn db"
  by (auto simp: DBQueryProxyHostTime_def split: option.split_asm if_split_asm list.split_asm dest!: keeps_conn elim!: bind_SomeE)

lemma DBQueryTimeAuth_conn [keeps_conn]: "DBQueryTimeAuth w t i db = Some (r, t', db') \<Longrightarrow> dbconn db' = dbconn db"
  by (auto simp: DBQueryTimeAuth_def split: option.split_asm if_split_asm list.split_asm dest!: keeps_conn elim!: bind_SomeE)

lemma DBExecAuthAccessRes_conn [keeps_conn]: "DBExecAuthAccessRes w a flag db = Some (r, a', db') \<Longrightarrow> dbconn db' = dbconn db"
  by (auto simp: DBExecAuthAccessRes_def Let_def split: option.split_asm if_split_asm list.split_asm prod.split_asm dest!: keeps_conn elim!: bind_SomeE)

lemma DBQueryAuthAccessRes_conn [keeps_conn]: "DBQueryAuthAccessRes w a db = Some (r, a', db') \<Longrightarrow> dbconn db' = dbconn db"
  unfolding DBQueryAuthAccessRes_def by (rule DBExecAuthAccessRes_conn)

lemma DBQueryKey_conn [keeps_conn]: "DBQueryKey w k b db = Some (r, k', b', db') \<Longrightarrow> dbconn db' = dbconn db"
  by (auto simp: DBQueryKey_def Let_def split: option.split_asm if_split_asm list.split_asm dest!: keeps_conn elim!: bind_SomeE)

lemma DBExecSessionID_conn [keeps_conn]: "DBExecSessionID w a i db = Some (r, db') \<Longrightarrow> dbconn db' = dbconn db"
  by (auto simp: DBExecSessionID_def split: if_split_asm dest!: keeps_conn elim!: bind_SomeE)
    (metis real_query_conn surjective_pairing)

lemma DBQueryLocalLang_conn [keeps_conn]: "DBQueryLocalLang w l i db = Some (r, l', db') \<Longrightarrow> dbconn db' = dbconn db"
  by (auto simp: DBQueryLocalLang_def split: option.split_asm if_split_asm list.split_asm dest!: keeps_conn elim!: bind_SomeE)

lemma DBDBQueryAuthAccessResPR_conn [keeps_conn]: "DBDBQueryAuthAccessResPR w i c m db = Some (r, c', m', db') \<Longrightarrow> dbconn db' = dbconn db"
  by (auto simp: DBDBQueryAuthAccessResPR_def split: option.split_asm if_split_asm list.split_asm dest!: keeps_conn elim!: bind_SomeE)

lemma DBQueryLoginlogId_conn [keeps_conn]: "DBQueryLoginlogId w b i db = Some (r, b', db') \<Longrightarrow> dbconn db' = dbconn db"
  by (auto simp: DBQueryLoginlogId_def split: option.split_asm if_split_asm dest!: keeps_conn elim!: bind_SomeE)

lemma DBExecUserActivityVideoLog_conn [keeps_conn]: "DBExecUserActivityVideoLog w v db = Some (r, v', db') \<Longrightarrow> dbconn db' = dbconn db"
  by (auto simp: DBExecUserActivityVideoLog_def Let_def split: option.split_asm if_split_asm prod.split_asm dest!: keeps_conn elim!: bind_SomeE)

lemma conndb_conn [keeps_conn]: "conndb w db = Some (r, db') \<Longrightarrow> dbconn db' = dbconn db"
  by (auto elim!: bind_SomeE simp: conndb_def Let_def split: if_split_asm) (metis real_query_conn surjective_pairing)

lemmas pack_defs = pack3_def pack4_def

lemma on_handle_state:
  assumes "on_handle e f s = Some (r, s')"
    and "\<And>w db r db'. f w db = Some (r, db') \<Longrightarrow> dbconn db' = dbconn db"
  shows "\<exists>db db'. handle_of s = Some db \<and> s' = set_handle (Some db') s \<and> dbconn db' = dbconn db"
  using assms(1) unfolding on_handle_def by (auto elim!: bind_SomeE dest: assms(2))

lemma handle_simps [simp]:
  "handle_of (set_handle h s) = h" "handle_of (closeDBHandle s) = None" "p_oscconn (set_handle h s) = p_oscconn s"
  "p_oscconn (closeDBHandle s) = p_oscconn s" "p_auditconn (set_handle h s) = p_auditconn s" "p_auditconn (closeDBHandle s) = p_auditconn s"
  "p_aares (set_handle h s) = p_aares s" "p_aares (closeDBHandle s) = p_aares s"
  "past (set_handle h s) = past s" "handle_of (db_closed db s) = handle_of s"
  by (auto simp: set_handle_def closeDBHandle_def db_closed_def split: option.split)

text \<open>The handle, when there is one, belongs to the database of the accesses.\<close>

definition osc_handle :: "shell \<Rightarrow> bool" where
  "osc_handle s \<longleftrightarrow> (\<forall>db. handle_of s = Some db \<longrightarrow> dbconn db = p_oscconn s)"

lemma osc_handle_closed [simp]: "handle_of s = None \<Longrightarrow> osc_handle s"
  by (simp add: osc_handle_def)

lemma osc_handle_kept:
  "p_oscconn s' = p_oscconn s \<Longrightarrow> handle_of s' = None \<or> handle_of s' = handle_of s \<Longrightarrow> osc_handle s \<Longrightarrow> osc_handle s'"
  by (auto simp: osc_handle_def)

lemma openDBHandle_result:
  assumes "openDBHandle e conn s = Some (rc, s')"
  shows "p_oscconn s' = p_oscconn s \<and> p_auditconn s' = p_auditconn s \<and> p_aares s' = p_aares s
    \<and> (if rc = 0 then \<exists>db. handle_of s' = Some db \<and> (handle_of s = Some db \<or> handle_of s = None \<and> dbconn db = conn) else handle_of s' = None)"
  using assms unfolding openDBHandle_def
  by (auto split: if_split_asm elim!: bind_SomeE dest!: conndb_conn simp: new_db_mysql_def)

lemma openDBHandle_osc:
  "openDBHandle e (p_oscconn s) s = Some (rc, s') \<Longrightarrow> osc_handle s \<Longrightarrow> osc_handle s'"
  using openDBHandle_result[of e "p_oscconn s" s rc s'] by (fastforce simp: osc_handle_def split: if_split_asm)

subsection \<open>Warning times\<close>

lemma warning_min_le: "m \<le> warning_min m v"
  using linear[of "word_of_int (atoi v)" m] by (auto simp: warning_min_def Let_def)

text \<open>The three warning times are sorted downwards, a permutation of the settings raised to their least values, and at least 300, 180 and 60
  seconds.\<close>

theorem warning_times_sorted:
  "case warning_times cfg of (a, b, c) \<Rightarrow>
     b \<le> a \<and> c \<le> b \<and> 300 \<le> a \<and> 180 \<le> b \<and> 60 \<le> c
     \<and> mset [a, b, c] = mset [warning_min 300 (config_field cfg 20), warning_min 180 (config_field cfg 21), warning_min 60 (config_field cfg 22)]"
proof -
  have A: "case warning_sort x y z of (a, b, c) \<Rightarrow> b \<le> a \<and> c \<le> b \<and> mset [a, b, c] = mset [x, y, z]" for x y z
    by (auto simp: warning_sort_def Let_def)
  have B: "case warning_sort x y z of (a, b, c) \<Rightarrow> 300 \<le> a \<and> 180 \<le> b \<and> 60 \<le> c"
    if "300 \<le> x" "180 \<le> y" "60 \<le> z" for x y z
  proof -
    show ?thesis using that
      by (cases "x < y"; cases "x < z"; cases "y < z") (auto simp: warning_sort_def word_le_nat_alt word_less_nat_alt)
  qed
  define x y z where "x = warning_min 300 (config_field cfg 20)" and "y = warning_min 180 (config_field cfg 21)"
    and "z = warning_min 60 (config_field cfg 22)"
  have "300 \<le> x" "180 \<le> y" "60 \<le> z" unfolding x_def y_def z_def by (rule warning_min_le)+
  from A[of x y z] B[OF this] show ?thesis
    unfolding warning_times_def x_def[symmetric] y_def[symmetric] z_def[symmetric] by (cases "warning_sort x y z") simp
qed

text \<open>A negative setting becomes a warning more than a century ahead.\<close>

theorem negative_warning: "warning_min m ''-1'' = 2 ^ 32 - 1"
proof -
  have a: "atoi ''-1'' = -1" by code_simp
  show ?thesis
  proof (cases "m = -1")
    case False
    then have "\<not> (-1 :: 32 word) \<le> m" by (simp add: word_order.extremum_unique)
    then show ?thesis by (simp add: warning_min_def a)
  qed (simp add: warning_min_def a)
qed

subsection \<open>The watch over all sessions\<close>

lemma logoff_sessions_set:
  "set (logoff_sessions d prev sids) \<union> {x. x = prev \<and> x \<noteq> 0 \<and> d x} = {x \<in> insert prev (set sids). x \<noteq> 0 \<and> d x}"
  by (induction d prev sids rule: logoff_sessions.induct) auto

text \<open>The sessions that are ended are exactly the disconnected ones with a process, but never the session of the services.\<close>

theorem logoff_sessions_result: "set (logoff_sessions d 0 sids) = {x \<in> set sids. x \<noteq> 0 \<and> d x}"
  using logoff_sessions_set[of d 0 sids] by auto

text \<open>What connects: the audit database takes the connection.\<close>

definition connects :: "osc_env \<Rightarrow> shell \<Rightarrow> STRUCT_DBCONNECT \<Rightarrow> bool" where
  "connects e s conn \<longleftrightarrow> (\<exists>db. conndb (world_of e s conn) (new_db_mysql conn) = Some (0, db))"

lemma check_logins_closed:
  assumes "handle_of s = None" and "connects e s (p_auditconn s)"
  shows "check_logins e s = None"
proof -
  obtain db where db: "conndb (world_of e s (p_auditconn s)) (new_db_mysql (p_auditconn s)) = Some (0, db)"
    using assms(2) by (auto simp: connects_def)
  let ?s = "set_handle (Some db) s"
  have o1: "openDBHandle e (p_auditconn s) s = Some (0, ?s)" using assms(1) db by (simp add: openDBHandle_def)
  have o2: "openDBHandle e (p_oscconn ?s) ?s = Some (0, ?s)" by (simp add: openDBHandle_def)
  have "on_handle e f (closeDBHandle s2) = None" for f :: "dbworld \<Rightarrow> db_mysql \<Rightarrow> (int \<times> db_mysql) option" and s2
    by (simp add: on_handle_def)
  then show ?thesis
    unfolding check_logins_def using o1 o2 by (auto simp: Option.bind_eq_None_conv)
qed

text \<open>The watch never ends a stale login: in the third round it asks for the time through the handle of the audit database, closes it and
  goes on with a NULL pointer. The program only gets on when the audit database cannot be reached.\<close>

theorem monitor_rounds_fault:
  assumes "handle_of s = None" and "connects e s (p_auditconn s)" and "3 \<le> length rounds"
  shows "monitor_rounds e d rounds 0 off s = None"
proof -
  obtain a b c rest where "rounds = a # b # c # rest"
    using assms(3) by (metis (no_types, opaque_lifting) Suc_le_length_iff numeral_3_eq_3)
  then show ?thesis using check_logins_closed[OF assms(1,2)] by simp
qed

lemma sample_connects: "connects (sample_env (\<lambda>h. True) answer) (sample_shell a) (sample_conn h)"
  by (simp add: connects_def conndb_def new_db_mysql_def sample_conn_def Let_def)

theorem monitor_rounds_fault_witness:
  "monitor_rounds (sample_env (\<lambda>h. True) (\<lambda>sql. Rows [])) (\<lambda>sid. sid = 3) [[1], [3], [3]] 0 [] (sample_shell []) = None"
  by (rule monitor_rounds_fault) (simp_all add: sample_connects)

subsection \<open>The time that is left\<close>

lemma proxy_query_state:
  assumes "proxy_query e s = Some (p, s')"
  shows "p_oscconn s' = p_oscconn s \<and> p_aares s' = p_aares s \<and> (osc_handle s \<longrightarrow> osc_handle s')
    \<and> (p \<noteq> None \<longrightarrow> handle_of s' = None) \<and> (p = None \<longrightarrow> handle_of s' \<noteq> None)"
proof -
  obtain q buf s2 where h: "on_handle e (\<lambda>w db. pack3 (DBQueryProxyHostTime w (Some (zeros 30)) (access s A_id) db)) s = Some ((q, Some buf), s2)"
    and e: "(p, s') = (if q = -1 then (None, s2) else (Some (zstr buf), closeDBHandle s2))"
    using assms unfolding proxy_query_def by (auto elim!: bind_SomeE)
  have "\<exists>db db'. handle_of s = Some db \<and> s2 = set_handle (Some db') s \<and> dbconn db' = dbconn db"
    by (rule on_handle_state[OF h]) (auto simp: pack3_def dest: DBQueryProxyHostTime_conn)
  with e show ?thesis by (auto simp: osc_handle_def split: if_split_asm)
qed

lemma proxy_time_state:
  assumes "proxy_time e s = Some (p, s')"
  shows "p_oscconn s' = p_oscconn s \<and> p_aares s' = p_aares s \<and> (osc_handle s \<longrightarrow> osc_handle s')
    \<and> (p \<noteq> None \<longrightarrow> handle_of s' = None) \<and> (p = None \<longrightarrow> handle_of s' \<noteq> None)"
proof -
  obtain rc s1 where o: "openDBHandle e (p_oscconn s) s = Some (rc, s1)"
    and r: "(if rc = 0 then proxy_query e s1 else Some (Some [], closeDBHandle s1)) = Some (p, s')"
    using assms unfolding proxy_time_def by (auto elim!: bind_SomeE)
  show ?thesis
  proof (cases "rc = 0")
    case True
    with r have "proxy_query e s1 = Some (p, s')" by simp
    from proxy_query_state[OF this] openDBHandle_result[OF o] openDBHandle_osc[OF o] show ?thesis by auto
  next
    case False
    with r openDBHandle_result[OF o] show ?thesis by auto
  qed
qed

lemma time_left_start:
  assumes "length (access s A_endTime) < 21" and "mk_ctime e (scan_over tms (access s A_endTime)) = Some end_time"
  shows "time_left e 0 None tms now s =
    Some (if end_time < now then (0, 0, None, s\<lparr>lastEndTime := access s A_endTime\<rparr>)
          else (if access s A_timeFlag = [] then 0 else atoi (access s A_timeFlag), int32 (end_time - now), None, s\<lparr>lastEndTime := access s A_endTime\<rparr>))"
  using assms by (simp add: time_left_def current_times_def time_auth_def time_result_def fitting_def Let_def)

text \<open>At the start of a session the time that is left is that between the clock of the proxy and the end of the permission, which both are read
  with \<open>sscanf\<close>. Within the permission the result is the number of the time flag, so that flag 0, or none, counts as no permission.\<close>

theorem visit_time_result:
  assumes "proxy_time e s = Some (Some p, s1)" and "mk_ctime e (scan_over no_time p) = Some now"
    and "access s A_startTime \<noteq> []" and "access s A_endTime \<noteq> []" and "length (access s A_endTime) < 21"
    and "mk_ctime e (scan_over (scan_over no_time p) (access s A_endTime)) = Some end_time"
  shows "GetVistitime e 0 None s =
    Some (if end_time < now then (0, 0, None, s1\<lparr>lastEndTime := access s A_endTime\<rparr>)
          else (if access s A_timeFlag = [] then 0 else atoi (access s A_timeFlag), int32 (end_time - now), None, s1\<lparr>lastEndTime := access s A_endTime\<rparr>))"
proof -
  have a: "p_aares s1 = p_aares s" using proxy_time_state[OF assms(1)] by simp
  show ?thesis
    using assms time_left_start[of s1 e "scan_over no_time p" end_time now] by (simp add: GetVistitime_def a Let_def)
qed

theorem visit_time_result_witness:
  "\<exists>a s1. GetVistitime (sample_env (\<lambda>h. True) (\<lambda>sql. Rows [[Some ''2024-06-01 00:00:00'']])) 0 None (sample_shell a)
     = Some (2, int32 (20241231000000 - 20240601000000), None, s1)"
proof -
  obtain a where a: "auth_field a = (\<lambda>i. if i < 35 then text_of (sample_row ! i) else [])" using sample_record by metis
  have f: "auth_field a 0 = ''7''" "access (sample_shell a) A_startTime = ''2024-01-01 00:00:00''" "access (sample_shell a) A_endTime = ''2024-12-31 00:00:00''"
    "access (sample_shell a) A_timeFlag = ''2''"
    by (simp_all add: a sample_fields A_startTime_def A_endTime_def A_timeFlag_def)
  obtain s1 where p: "proxy_time (sample_env (\<lambda>h. True) (\<lambda>sql. Rows [[Some ''2024-06-01 00:00:00'']])) (sample_shell a) = Some (Some ''2024-06-01 00:00:00'', s1)"
    using sample_proxy_time(1)[OF f(1), of "\<lambda>h. True"] by auto
  have s: "scan_over no_time ''2024-06-01 00:00:00'' = [2024, 6, 1, 0, 0, 0]" "scan_over [2024, 6, 1, 0, 0, 0] ''2024-12-31 00:00:00'' = [2024, 12, 31, 0, 0, 0]"
    "atoi ''2'' = 2" by code_simp+
  from visit_time_result[OF p, of 20240601000000 20241231000000] f s show ?thesis by auto
qed

lemma visit_time_positive:
  assumes "GetVistitime e 0 None s = Some (v, t, d, s')" and "0 < v"
  obtains p s1 now where "proxy_time e s = Some (Some p, s1)" and "mk_ctime e (scan_over no_time p) = Some now"
    and "access s A_startTime \<noteq> []"
    and "access s A_endTime = [] \<or> (\<exists>end_time. mk_ctime e (scan_over (scan_over no_time p) (access s A_endTime)) = Some end_time
       \<and> now \<le> end_time \<and> v = atoi (access s A_timeFlag))"
    and "p_aares s' = p_aares s" and "handle_of s' = None"
proof -
  from assms obtain q s1 where q: "proxy_time e s = Some (q, s1)"
    by (auto simp: GetVistitime_def elim!: bind_SomeE)
  note st = proxy_time_state[OF q]
  with assms q obtain p where p: "q = Some p" by (cases q) (auto simp: GetVistitime_def)
  with assms q obtain now where now: "mk_ctime e (scan_over no_time p) = Some now"
    by (auto simp: GetVistitime_def Let_def elim!: bind_SomeE)
  have a: "p_aares s1 = p_aares s" using st by simp
  have start: "access s A_startTime \<noteq> []" using assms q p now by (auto simp: GetVistitime_def a Let_def)
  show thesis
  proof (cases "access s A_endTime = []")
    case True
    with assms q p now start have "s' = s1" by (auto simp: GetVistitime_def a Let_def)
    with True q p now start st show thesis by (intro that[of p s1 now]) auto
  next
    case False
    with assms q p now start have tl: "time_left e 0 None (scan_over no_time p) now s1 = Some (v, t, d, s')"
      by (simp add: GetVistitime_def a Let_def)
    then obtain end_time where end_time: "mk_ctime e (scan_over (scan_over no_time p) (access s1 A_endTime)) = Some end_time"
      and len: "length (access s1 A_endTime) < 21"
      by (auto simp: time_left_def Let_def current_times_def time_auth_def fitting_def elim!: bind_SomeE split: if_split_asm)
    from time_left_start[OF len end_time] tl assms(2)
    have r: "now \<le> end_time" "v = atoi (access s1 A_timeFlag)" "s' = s1\<lparr>lastEndTime := access s1 A_endTime\<rparr>"
      by (auto split: if_split_asm)
    show thesis using q p now start st end_time r by (intro that[of p s1 now]) auto
  qed
qed

subsection \<open>What an operation leaves of the state\<close>

named_theorems shell_frame

lemma put_access_frame [shell_frame]:
  "put_access i v s = Some s' \<Longrightarrow> handle_of s' = handle_of s \<and> p_oscconn s' = p_oscconn s \<and> p_auditconn s' = p_auditconn s"
  by (auto simp: put_access_def elim!: bind_SomeE)

lemma exitClear_frame [simp]:
  "handle_of (exitClear s) = handle_of s" "p_oscconn (exitClear s) = p_oscconn s" "p_auditconn (exitClear s) = p_auditconn s"
  "p_shell (exitClear s) = p_shell s"
  by (auto simp: exitClear_def do_event_def Let_def)

lemma do_event_frame [simp]: "p_shell (do_event ev s) = p_shell s" "p_oscconn (do_event ev s) = p_oscconn s" "p_auditconn (do_event ev s) = p_auditconn s"
  by (auto simp: do_event_def)

lemma fill_client_frame [shell_frame]:
  "fill_client s = Some s' \<Longrightarrow> p_aares s' = p_aares s \<and> p_shell s' = p_shell s \<and> p_oscconn s' = p_oscconn s \<and> p_auditconn s' = p_auditconn s"
  by (auto simp: fill_client_def elim!: bind_SomeE)

lemma fill_loginlog_frame [shell_frame]:
  "fill_loginlog e s = Some s' \<Longrightarrow> p_aares s' = p_aares s \<and> p_shell s' = p_shell s \<and> p_oscconn s' = p_oscconn s \<and> p_auditconn s' = p_auditconn s"
  by (auto simp: fill_loginlog_def elim!: bind_SomeE)

lemma fill_videolog_frame [shell_frame]:
  "fill_videolog s = Some s' \<Longrightarrow> p_aares s' = p_aares s \<and> p_shell s' = p_shell s \<and> p_oscconn s' = p_oscconn s \<and> p_auditconn s' = p_auditconn s"
  by (auto simp: fill_videolog_def elim!: bind_SomeE)

lemma fill_id_frame [shell_frame]:
  "fill_id e s = Some s' \<Longrightarrow> p_aares s' = p_aares s \<and> p_shell s' = p_shell s \<and> p_oscconn s' = p_oscconn s \<and> p_auditconn s' = p_auditconn s"
  by (auto simp: fill_id_def elim!: bind_SomeE)

lemma fill_password_frame [shell_frame]:
  "fill_password e i s = Some s' \<Longrightarrow> handle_of s' = handle_of s \<and> p_oscconn s' = p_oscconn s \<and> p_auditconn s' = p_auditconn s"
  by (auto simp: fill_password_def Let_def dest: put_access_frame elim!: bind_SomeE split: if_split_asm)

lemma default_client_frame [shell_frame]:
  "default_client c s = Some s' \<Longrightarrow> handle_of s' = handle_of s \<and> p_oscconn s' = p_oscconn s \<and> p_auditconn s' = p_auditconn s"
  by (auto simp: default_client_def dest: put_access_frame split: if_split_asm)

lemma with_db_frame [shell_frame]:
  "with_db e conn a f s = Some (r, s') \<Longrightarrow> p_shell s' = p_shell s \<and> p_oscconn s' = p_oscconn s \<and> p_auditconn s' = p_auditconn s"
  by (auto simp: with_db_def db_closed_def Let_def elim!: bind_SomeE)

lemma shell_start_frame [shell_frame]:
  "shell_start e szAccessID s = Some s' \<Longrightarrow> handle_of s' = None"
  by (auto simp: shell_start_def Let_def new_shell_def dest!: put_access_frame elim!: bind_SomeE split: prod.split_asm)

lemma query_access_frame [shell_frame]:
  "query_access e szAccessID s = Some (n, s') \<Longrightarrow> handle_of s' = None"
  by (auto simp: query_access_def split: if_split_asm elim!: bind_SomeE)

lemma current_times_start [simp]: "current_times e 0 s = Some (time_auth s, s)"
  by (simp add: current_times_def)

lemma time_result_frame [shell_frame]:
  "time_result e tms now et t s = Some (r, timeout, s') \<Longrightarrow> handle_of s' = handle_of s \<and> p_oscconn s' = p_oscconn s \<and> p_auditconn s' = p_auditconn s"
  by (auto simp: time_result_def Let_def dest: put_access_frame elim!: bind_SomeE split: if_split_asm)

lemma on_handle_frame [shell_frame]:
  "on_handle e f s = Some (r, s') \<Longrightarrow> p_oscconn s' = p_oscconn s \<and> p_auditconn s' = p_auditconn s \<and> p_aares s' = p_aares s"
  by (auto simp: on_handle_def elim!: bind_SomeE)

lemma current_times_frame [shell_frame]:
  assumes "current_times e flag s = Some (t, s')"
  shows "p_oscconn s' = p_oscconn s \<and> (handle_of s' = None \<or> s' = s)"
  using assms
  by (auto simp: current_times_def dest!: openDBHandle_result on_handle_frame split: if_split_asm elim!: bind_SomeE)

lemma time_left_frame [shell_frame]:
  assumes "time_left e flag d tms now s = Some (v, t, d', s')"
  shows "p_oscconn s' = p_oscconn s \<and> (handle_of s' = None \<or> handle_of s' = handle_of s)"
  using assms
  by (auto simp: time_left_def Let_def dest!: current_times_frame time_result_frame split: if_split_asm elim!: bind_SomeE)

lemma GetVistitime_osc:
  assumes "GetVistitime e flag d s = Some (v, t, d', s')" and "osc_handle s"
  shows "p_oscconn s' = p_oscconn s \<and> osc_handle s'"
proof -
  from assms(1) obtain p s1 where p: "proxy_time e s = Some (p, s1)"
    and r: "(case p of None \<Rightarrow> Some (0, 0, d, s1)
      | Some p \<Rightarrow> do {
          let tms = scan_over no_time p;
          now \<leftarrow> mk_ctime e tms;
          (if access s1 A_startTime = [] then Some (0, 0, d, s1)
           else if access s1 A_endTime = [] then Some (1, 65500, d, s1)
           else time_left e flag d tms now s1)
        }) = Some (v, t, d', s')"
    unfolding GetVistitime_def by (auto elim!: bind_SomeE)
  have "p_oscconn s' = p_oscconn s1 \<and> (handle_of s' = None \<or> handle_of s' = handle_of s1)"
    using r by (auto simp: Let_def dest!: time_left_frame split: option.split_asm if_split_asm elim!: bind_SomeE)
  with proxy_time_state[OF p] assms(2) osc_handle_kept[of s' s1] show ?thesis by metis
qed

subsection \<open>The opening of a session\<close>

lemma fill_records_frame [shell_frame]:
  "fill_records e s = Some s' \<Longrightarrow> handle_of s' = handle_of s \<and> p_oscconn s' = p_oscconn s \<and> p_auditconn s' = p_auditconn s"
  by (auto simp: fill_records_def Let_def dest!: fill_loginlog_frame fill_videolog_frame fill_id_frame fill_password_frame elim!: bind_SomeE)

lemma open_access_frame:
  "open_access e s = Some (b, s') \<Longrightarrow> handle_of s' = handle_of s \<and> p_oscconn s' = p_oscconn s
    \<and> (b \<longrightarrow> access s' A_execApp \<noteq> [] \<and> atoi (access s A_accessType) \<noteq> 0)"
  by (auto simp: open_access_def dest!: fill_client_frame fill_records_frame elim!: bind_SomeE split: if_split_asm)

text \<open>C39: A session is opened only for an access record that was found, has its type and a tool, and whose times, read against the clock of
  the proxy with the address of the caller filled in, allow it: it has a start, and either no end or a time flag above 0 and an end that is not over. The
  handle of the database is closed then.\<close>

theorem session_opened:
  assumes "open_record e n szClientIP s = Some (True, s')"
  shows "0 < n \<and> handle_of s' = None \<and> access s' A_execApp \<noteq> []
    \<and> (\<exists>s1 p s2 now. default_client szClientIP s = Some s1 \<and> atoi (access s1 A_accessType) \<noteq> 0
      \<and> proxy_time e s1 = Some (Some p, s2) \<and> mk_ctime e (scan_over no_time p) = Some now \<and> access s1 A_startTime \<noteq> []
      \<and> (access s1 A_endTime = [] \<or> 0 < atoi (access s1 A_timeFlag)
        \<and> (\<exists>end_time. mk_ctime e (scan_over (scan_over no_time p) (access s1 A_endTime)) = Some end_time \<and> now \<le> end_time)))"
proof -
  from assms obtain s1 v t d s2 where c: "default_client szClientIP s = Some s1"
    and v: "GetVistitime e 0 None s1 = Some (v, t, d, s2)" "0 < v" and r: "open_access e s2 = Some (True, s')"
    unfolding open_record_def by (auto elim!: bind_SomeE split: if_split_asm)
  obtain p s3 now where w: "proxy_time e s1 = Some (Some p, s3)" "mk_ctime e (scan_over no_time p) = Some now" "access s1 A_startTime \<noteq> []"
    "access s1 A_endTime = [] \<or> (\<exists>end_time. mk_ctime e (scan_over (scan_over no_time p) (access s1 A_endTime)) = Some end_time
       \<and> now \<le> end_time \<and> v = atoi (access s1 A_timeFlag))"
    and a: "p_aares s2 = p_aares s1" and h: "handle_of s2 = None"
    using visit_time_positive[OF v] by metis
  have "handle_of s' = None" "access s' A_execApp \<noteq> []" "atoi (access s1 A_accessType) \<noteq> 0"
    using open_access_frame[OF r] h a by simp_all
  moreover have "access s1 A_endTime = [] \<or> 0 < atoi (access s1 A_timeFlag)
        \<and> (\<exists>end_time. mk_ctime e (scan_over (scan_over no_time p) (access s1 A_endTime)) = Some end_time \<and> now \<le> end_time)"
    using w(4) v(2) by metis
  moreover have "0 < n" using assms by (auto simp: open_record_def split: if_split_asm)
  ultimately show ?thesis using c w(1-3) by blast
qed

theorem session_opened_witness:
  "\<exists>a s' s1 p s2 now. open_record (sample_env (\<lambda>h. True) (\<lambda>sql. Rows [[Some ''2024-06-01 00:00:00'']])) 1 ''10.0.0.8'' (sample_shell a) = Some (True, s')
     \<and> access s' A_execApp \<noteq> [] \<and> default_client ''10.0.0.8'' (sample_shell a) = Some s1
     \<and> proxy_time (sample_env (\<lambda>h. True) (\<lambda>sql. Rows [[Some ''2024-06-01 00:00:00'']])) s1 = Some (Some p, s2)
     \<and> mk_ctime (sample_env (\<lambda>h. True) (\<lambda>sql. Rows [[Some ''2024-06-01 00:00:00'']])) (scan_over no_time p) = Some now"
proof -
  let ?e = "sample_env (\<lambda>h. True) (\<lambda>sql. Rows [[Some ''2024-06-01 00:00:00'']])"
  obtain a where a: "auth_field a = (\<lambda>i. if i < 35 then text_of (sample_row ! i) else [])" using sample_record by metis
  have f: "auth_field a 0 = ''7''" "access (sample_shell a) A_startTime = ''2024-01-01 00:00:00''" "access (sample_shell a) A_endTime = ''2024-12-31 00:00:00''"
    "access (sample_shell a) A_timeFlag = ''2''"
    by (simp_all add: a sample_fields A_startTime_def A_endTime_def A_timeFlag_def)
  obtain s1 where p: "proxy_time ?e (sample_shell a) = Some (Some ''2024-06-01 00:00:00'', s1)"
    using sample_proxy_time(1)[OF f(1), of "\<lambda>h. True"] by auto
  have s: "scan_over no_time ''2024-06-01 00:00:00'' = [2024, 6, 1, 0, 0, 0]" "scan_over [2024, 6, 1, 0, 0, 0] ''2024-12-31 00:00:00'' = [2024, 12, 31, 0, 0, 0]"
    "atoi ''2'' = 2" "atoi ''100'' = 100" "atoi [] = 0" by code_simp+
  have s1: "p_aares s1 = a" using proxy_time_state[OF p] by simp
  have g: "GetVistitime ?e 0 None (sample_shell a) = Some (2, int32 (20241231000000 - 20240601000000), None, s1\<lparr>lastEndTime := ''2024-12-31 00:00:00''\<rparr>)"
    using p f s s1 time_left_start[of s1 ?e "[2024, 6, 1, 0, 0, 0]" 20241231000000 20240601000000]
    by (simp add: GetVistitime_def Let_def)
  obtain s' where o': "open_access ?e (s1\<lparr>lastEndTime := ''2024-12-31 00:00:00''\<rparr>) = Some (True, s')"
    using s sample_fields(2) 
    by (cases "debugLevel (p_shell s1) = 2") (simp_all add: open_access_def fill_client_def fill_records_def fill_loginlog_def fill_videolog_def fill_id_def fill_password_def
      s1 a sample_fields fitting_def login_account_def Let_def A_clientAddr_def A_accessType_def A_proxyAddr_def A_suFlag_def A_resAddr_def
      A_resId_def A_resName_def A_resType_def A_uid_def A_userName_def A_apId_def A_userId_def A_accountPwd_def A_accountPwdEx_def A_execApp_def
      A_id_def A_accountNo_def sample_env_more)
  have o: "open_record ?e 1 ''10.0.0.8'' (sample_shell a) = Some (True, s')"
    using g o' by (simp add: open_record_def default_client_def A_clientAddr_def a sample_fields)
  from session_opened[OF o] o show ?thesis by blast
qed

subsection \<open>The handle that stays open\<close>

text \<open>When the access record is gone, the question for the time that is left ends with its handle open, and whatever the next operation wants
  to connect to, it gets that handle.\<close>

theorem lost_access_handle:
  assumes "proxy_time e s = Some (None, s1)"
  shows "GetVistitime e flag d s = Some (0, 0, d, s1) \<and> openDBHandle e conn s1 = Some (0, s1)"
  using assms proxy_time_state[OF assms] by (auto simp: GetVistitime_def openDBHandle_def)

theorem lost_access_handle_witness:
  "\<exists>a s1. GetVistitime (sample_env (\<lambda>h. True) (\<lambda>sql. Rows [])) 1 (Some 0) (sample_shell a) = Some (0, 0, Some 0, s1)
     \<and> openDBHandle (sample_env (\<lambda>h. True) (\<lambda>sql. Rows [])) (sample_conn ''audit'') s1 = Some (0, s1)"
proof -
  obtain a where "auth_field a = (\<lambda>i. if i < 35 then text_of (sample_row ! i) else [])" using sample_record by metis
  then have a: "auth_field a 0 = ''7''" by (simp add: sample_fields)
  obtain s1 where "proxy_time (sample_env (\<lambda>h. True) (\<lambda>sql. Rows [])) (sample_shell a) = Some (None, s1)"
    using sample_proxy_time(2)[OF a] by auto
  from lost_access_handle[OF this] show ?thesis by blast
qed

end
