(* ===== verification/ShellSteps.thy ===== *)
theory ShellSteps
  imports ShellLaws
begin

text \<open>
  The session of the launcher as a relation of steps: whose database the handle is, logins that are not recorded, and the end of the
  monitor.
\<close>

subsection \<open>What a step of the session leaves\<close>

lemma RemoveMapInfo_frame [shell_frame]:
  "RemoveMapInfo e s = Some (r, s') \<Longrightarrow> p_oscconn s' = p_oscconn s \<and> (handle_of s' = None \<or> s' = s)"
  by (auto simp: RemoveMapInfo_def dest!: openDBHandle_result on_handle_frame elim!: bind_SomeE split: if_split_asm)

lemma log_time_frame [shell_frame]:
  "log_time e s = Some (t, s') \<Longrightarrow> p_oscconn s' = p_oscconn s \<and> p_auditconn s' = p_auditconn s \<and> handle_of s' = None"
  by (auto simp: log_time_def dest!: openDBHandle_result on_handle_frame elim!: bind_SomeE split: if_split_asm)

lemma fill_accessName_frame [shell_frame]:
  "fill_accessName e s = Some s' \<Longrightarrow> p_oscconn s' = p_oscconn s \<and> p_auditconn s' = p_auditconn s \<and> p_shell s' = p_shell s"
  by (auto simp: fill_accessName_def Let_def dest!: with_db_frame elim!: bind_SomeE)

lemma write_login_frame [shell_frame]:
  "write_login e act t d s = Some (r, s') \<Longrightarrow> p_oscconn s' = p_oscconn s \<and> p_auditconn s' = p_auditconn s \<and> p_shell s' = p_shell s"
  by (auto simp: write_login_def Let_def dest!: with_db_frame elim!: bind_SomeE)

lemma DoLoginLog_frame [shell_frame]:
  "DoLoginLog e act s = Some (r, s') \<Longrightarrow> p_oscconn s' = p_oscconn s \<and> p_auditconn s' = p_auditconn s \<and> (handle_of s' = None \<or> s' = s)"
  by (auto simp: DoLoginLog_def dest!: fill_accessName_frame log_time_frame write_login_frame elim!: bind_SomeE split: if_split_asm)

lemma ExitRemoteControlServer_frame [shell_frame]:
  assumes "ExitRemoteControlServer e flag s = Some s'"
  shows "p_oscconn s' = p_oscconn s \<and> (handle_of s' = None \<or> handle_of s' = handle_of s) \<and> pipeFlag (p_shell s') = 0 \<and> exitFlag (p_shell s') = flag"
proof -
  define s0 where "s0 = (let s = (if wzFile1 (p_shell s) \<noteq> [] then do_event (DeleteFile (wzFile1 (p_shell s))) s else s)
    in if wzFile2 (p_shell s) \<noteq> [] then do_event (DeleteFile (wzFile2 (p_shell s))) s else s)"
  have k: "p_oscconn s0 = p_oscconn s" "handle_of s0 = handle_of s" by (auto simp: s0_def Let_def)
  obtain a s1 b s2 where r: "RemoveMapInfo e s0 = Some (a, s1)" and d: "DoLoginLog e 1 s1 = Some (b, s2)"
    and x: "s' = exitClear (s2\<lparr>p_shell := (p_shell s2)\<lparr>pipeFlag := 0, exitFlag := flag\<rparr>\<rparr>)"
    using assms unfolding ExitRemoteControlServer_def Let_def s0_def by (auto elim!: bind_SomeE)
  have "handle_of s2 = None \<or> handle_of s2 = handle_of s" "p_oscconn s2 = p_oscconn s"
    using RemoveMapInfo_frame[OF r] DoLoginLog_frame[OF d] k by metis+
  with x show ?thesis by simp
qed

lemma set_status_frame [shell_frame]:
  "set_status e n s = Some s' \<Longrightarrow> p_shell s' = p_shell s \<and> p_oscconn s' = p_oscconn s"
  by (auto simp: set_status_def dest: with_db_frame split: if_split_asm)

lemma set_port_frame [shell_frame]:
  "set_port e n s = Some s' \<Longrightarrow> p_shell s' = p_shell s \<and> p_oscconn s' = p_oscconn s"
  by (auto simp: set_port_def dest!: with_db_frame)

lemma monitor_values_frame [shell_frame]:
  "monitor_values e buf s = Some s' \<Longrightarrow> p_shell s' = p_shell s \<and> p_oscconn s' = p_oscconn s"
  by (auto simp: monitor_values_def dest!: set_status_frame set_port_frame split: option.split_asm)

lemma monitor_message_frame [shell_frame]:
  assumes "monitor_message e raw s = Some s'"
  shows "p_oscconn s' = p_oscconn s \<and> (handle_of s' = None \<or> handle_of s' = handle_of s)
    \<and> (contains (zstr raw) ''DISCONNECT:'' \<longrightarrow> pipeFlag (p_shell s') = 0)"
proof (cases "zstr raw = []")
  case True
  with assms show ?thesis by (auto simp: monitor_message_def contains_def elim!: bind_SomeE split: if_split_asm)
next
  case False
  with assms obtain s1 where s1: "p_oscconn s1 = p_oscconn s" "p_shell s1 = p_shell s"
    and r: "(if contains (zstr raw) ''DISCONNECT:'' then ExitRemoteControlServer e 0 s1 else Some s1) = Some s'"
    by (auto simp: monitor_message_def Let_def dest!: monitor_values_frame elim!: bind_SomeE split: if_split_asm)
  show ?thesis
  proof (cases "contains (zstr raw) ''DISCONNECT:''")
    case True
    with r ExitRemoteControlServer_frame[of e 0 s1 s'] s1 show ?thesis by simp
  next
    case False
    with r s1 show ?thesis by simp
  qed
qed

lemma ShellRemoteControlServer_frame [shell_frame]:
  assumes "ShellRemoteControlServer e h s = Some (r, s')"
  shows "p_oscconn s' = p_oscconn s \<and> (handle_of s' = None \<or> handle_of s' = handle_of s)"
proof -
  obtain rc s1 where d: "DoLoginLog e 0 (s\<lparr>loginlog_port := 0\<rparr>) = Some (rc, s1)"
    using assms unfolding ShellRemoteControlServer_def by (auto elim!: bind_SomeE)
  have k: "p_oscconn s1 = p_oscconn s \<and> (handle_of s1 = None \<or> handle_of s1 = handle_of s)"
    using DoLoginLog_frame[OF d] by auto
  show ?thesis
  proof (cases "rc = 0")
    case False
    with assms d k show ?thesis by (simp add: ShellRemoteControlServer_def)
  next
    case True
    have f: "p_oscconn b = p_oscconn a" if "fetch_id e a = Some (n, b)" for a b n
      using that by (auto simp: fetch_id_def dest!: openDBHandle_result on_handle_frame elim!: bind_SomeE split: if_split_asm)
    have v: "p_oscconn b = p_oscconn a" if "video_record e n a = Some b" for a b n
      using that by (auto simp: video_record_def Let_def dest!: on_handle_frame elim!: bind_SomeE split: if_split_asm)
    from True assms d k show ?thesis
      by (auto simp: ShellRemoteControlServer_def Let_def dest!: f v elim!: bind_SomeE split: if_split_asm)
  qed
qed

lemma check_logins_frame [shell_frame]:
  "check_logins e s = Some s' \<Longrightarrow> p_oscconn s' = p_oscconn s \<and> handle_of s' = None"
  by (auto simp: check_logins_def Let_def dest!: openDBHandle_result on_handle_frame elim!: bind_SomeE split: if_split_asm)

subsection \<open>The steps of a session\<close>

text \<open>What can happen in the launcher, in any order but one after the other, though the monitor is a thread of its own: the opening, a question for the time, the start of the monitor, one of its messages, the end
  and the watch over the logins.\<close>

inductive session_step :: "osc_env \<Rightarrow> shell \<Rightarrow> shell \<Rightarrow> bool" for e where
  step_open: "OSCShellEx_open e szAccessID szClientIP s = Some (b, s') \<Longrightarrow> session_step e s s'"
| step_time: "GetVistitime e flag d s = Some (v, t, d', s') \<Longrightarrow> session_step e s s'"
| step_start: "ShellRemoteControlServer e h s = Some (r, s') \<Longrightarrow> session_step e s s'"
| step_message: "monitor_message e raw s = Some s' \<Longrightarrow> session_step e s s'"
| step_exit: "ExitRemoteControlServer e flag s = Some s' \<Longrightarrow> session_step e s s'"
| step_watch: "check_logins e s = Some s' \<Longrightarrow> session_step e s s'"

inductive_cases session_stepE: "session_step e s s'"

lemma OSCShellEx_open_osc:
  assumes "OSCShellEx_open e szAccessID szClientIP s = Some (b, s')"
  shows "osc_handle s'"
proof -
  obtain s1 n s2 where q: "query_access e szAccessID s1 = Some (n, s2)" and r: "open_record e n szClientIP s2 = Some (b, s')"
    using assms unfolding OSCShellEx_open_def by (auto elim!: bind_SomeE)
  have h: "handle_of s2 = None" using query_access_frame[OF q] .
  show ?thesis
  proof (cases "n \<le> 0")
    case True
    with r h show ?thesis by (auto simp: open_record_def)
  next
    case False
    with r obtain s3 v t d s4 where c: "default_client szClientIP s2 = Some s3" and g: "GetVistitime e 0 None s3 = Some (v, t, d, s4)"
      and f: "(if v \<le> 0 then Some (False, exitClear s4) else open_access e s4) = Some (b, s')"
      by (auto simp: open_record_def elim!: bind_SomeE)
    have "osc_handle s3" using default_client_frame[OF c] h by simp
    with GetVistitime_osc[OF g] have o4: "osc_handle s4" by simp
    have "p_oscconn s' = p_oscconn s4 \<and> (handle_of s' = None \<or> handle_of s' = handle_of s4)"
      using f by (auto dest!: open_access_frame split: if_split_asm)
    with o4 osc_handle_kept show ?thesis by metis
  qed
qed

lemma session_step_osc: "session_step e s s' \<Longrightarrow> osc_handle s \<Longrightarrow> osc_handle s'"
  by (erule session_stepE)
     (metis OSCShellEx_open_osc GetVistitime_osc ShellRemoteControlServer_frame monitor_message_frame
        ExitRemoteControlServer_frame check_logins_frame osc_handle_kept)+



subsection \<open>The end of the monitor\<close>

text \<open>The message of a disconnection is the last one: the session is ended and what the pipe still brings is not read.\<close>

theorem monitor_stops:
  assumes "pipeFlag (p_shell s) \<noteq> 0" and "contains (zstr raw) ''DISCONNECT:''"
  shows "monitor_loop e (raw # raws) s = monitor_message e raw s"
proof (cases "monitor_message e raw s")
  case None
  with assms show ?thesis by simp
next
  case (Some s')
  have "monitor_loop e raws s' = Some s'"
    using monitor_message_frame[OF Some] assms(2) by (cases raws) auto
  with Some assms show ?thesis by simp
qed

theorem monitor_stops_witness:
  "monitor_loop (sample_env (\<lambda>h. True) (\<lambda>sql. Rows [])) [''STATUS:3 DISCONNECT:'', ''STATUS:1''] ((sample_shell [])\<lparr>p_shell := new_shell\<lparr>pipeFlag := 1\<rparr>\<rparr>)
     = monitor_message (sample_env (\<lambda>h. True) (\<lambda>sql. Rows [])) ''STATUS:3 DISCONNECT:'' ((sample_shell [])\<lparr>p_shell := new_shell\<lparr>pipeFlag := 1\<rparr>\<rparr>)"
proof -
  have "contains (zstr ''STATUS:3 DISCONNECT:'') ''DISCONNECT:''" by code_simp
  then show ?thesis by (intro monitor_stops) simp_all
qed

subsection \<open>Logins that are not recorded\<close>

lemma with_db_refused:
  assumes "conndb (world_of e s conn) (new_db_mysql conn) = Some (rc, db)" and "rc \<noteq> 0"
  shows "with_db e conn a f s = Some (a, db_closed db s)"
  using assms by (simp add: with_db_def)

text \<open>When the audit database refuses the connection, the record of a login or logout counts as written: the result is 0, and the client that
  was closed has sent nothing.\<close>

theorem login_lost:
  assumes "\<not> proxy_logs s" and "log_time e (if act = 1 then the (fill_accessName e s) else s) = Some (t, s1)"
    and "act = 1 \<longrightarrow> fill_accessName e s \<noteq> None"
    and "mk_ctime e (scan_over no_time t) = Some now" and "length (time_text (ctime_fields e (now + 10))) < 40"
    and "conndb (world_of e s1 (p_auditconn s1)) (new_db_mysql (p_auditconn s1)) = Some (rc, db)" and "rc \<noteq> 0"
  shows "DoLoginLog e act s = Some (0, db_closed db s1)"
proof -
  have "write_login e act t d s1 = Some (0, db_closed db s1)" for d
    by (simp add: write_login_def Let_def with_db_refused[OF assms(6,7)]) (simp add: db_closed_def)
  with assms show ?thesis by (auto simp: DoLoginLog_def fitting_def)
qed

theorem login_lost_witness:
  "\<exists>a t s1 db. log_time (sample_env (\<lambda>h. h = ''osc'') (\<lambda>sql. Rows [])) (sample_shell a) = Some (t, s1)
     \<and> DoLoginLog (sample_env (\<lambda>h. h = ''osc'') (\<lambda>sql. Rows [])) 0 (sample_shell a) = Some (0, db_closed db s1)"
proof -
  let ?e = "sample_env (\<lambda>h. h = ''osc'') (\<lambda>sql. Rows [])"
  obtain a where a: "auth_field a = (\<lambda>i. if i < 35 then text_of (sample_row ! i) else [])" using sample_record by metis
  let ?s = "sample_shell (replicate 2279 NUL)"
  obtain t s1 where l: "log_time ?e ?s = Some (t, s1)" and c: "p_auditconn s1 = sample_conn ''audit''"
    by (simp add: log_time_def openDBHandle_def conndb_def new_db_mysql_def sample_conn_def on_handle_def A_id_def
     DBQueryProxyHostTime_def fitting_def proxy_time_sql_def qs_def select_rows_def pack3_def real_query_def Let_def set_handle_def auth_field_def)
  have n: "\<not> proxy_logs ?s"
  proof -
    have "atoi [] = 0" by code_simp
    then show ?thesis by (simp add: proxy_logs_def sample_shell_def auth_field_def)
  qed
  have t: "length (time_text (ctime_fields ?e x)) < 40" for x by (simp add: sample_env_more) code_simp
  have "conndb (world_of ?e s1 (p_auditconn s1)) (new_db_mysql (p_auditconn s1)) = Some (-1, new_db_mysql (sample_conn ''audit''))"
    unfolding c by (simp add: conndb_def new_db_mysql_def sample_conn_def Let_def)
  from login_lost[of ?s ?e 0 t s1, OF n _ _ _ t this] l show ?thesis by auto
qed

end
