(* ===== verification/Spec2Isabelle.thy ===== *)
theory Spec2Isabelle
  imports Des Cipher StrReplace StrSplit Policy Config DBConn Db Access Session LogText AuditLog DbRecord Commands TnsText TnsRequest TnsValues TnsRows
    TnsRowLaws TnsAnswer TnsFields Aes AesText
    OscLogLaws Syslog LoadCfg Shell ShellSession ShellSamples ShellLaws ShellSteps
begin

text \<open>
  A verification library for the C core of OSCShell, an access proxy: users log in to the proxy, which
  looks up in a database whether their policies allow the target and the account, opens the
  connection for them, checks and records the commands they send, and records what comes back.

  \<^bold>\<open>The parts and their theories.\<close> The C code is the library \<^verbatim>\<open>DBRecord\<close> (DBoperate.c, dbrecord.c, datasafe.h)
  and its client for the Oracle protocol, \<^verbatim>\<open>OracleProxy\<close>; of the Windows programs the code without
  windows is modelled. Every definition has the name of the function or
  structure it models; helpers name a part of a function.

    \<^item> Prelude: the type of C strings, faults as \<open>None\<close>, arrays as lists, the collections of hints.
    \<^item> CLib: the functions of the C library the code calls (\<open>strstr\<close>, \<open>strtok\<close>, \<open>atoi\<close>, \<open>printf\<close> formats).
    \<^item> Des, Cipher: datasafe.h, the DES cipher and the text encryption of stored passwords.
    \<^item> StrReplace, StrSplit: the replacement routines of dbrecord.c and include/paraview/string.c, the
      splitting of SQL and the search for a table in DBoperate.c.
    \<^item> Policy: the checks of an address, a protocol, a time and a command against one policy.
    \<^item> Config: the readers of the configuration files. DBConn: the main and the audit connection.
    \<^item> Db: the queries for users, resources, accounts and keys, with the SQL text and the copy of the columns.
    \<^item> Access: the rows of a login and the policy of each (\<open>GetJOINTable\<close>, \<open>GetPolicy\<close>, \<open>GetLeveCmd\<close>).
    \<^item> Session: \<open>GetConfigForUser\<close> and \<open>GetConfigForID\<close>, the decision about a login.
    \<^item> LogText, AuditLog: text for the logs; the login, activity and output records, files and system log.
    \<^item> DbRecord: the interface \<open>GetConfig\<close>, \<open>GetAccessProtocol\<close> with the mutex, the connection and the globals.
    \<^item> Commands: the records of a command and of its output (\<open>InsertUseractivitylog\<close> and others), \<open>findSQL\<close>.
    \<^item> TnsText, TnsRequest: oraclefilter.c, the strings and redirections of the Oracle protocol and the packets of
      a client, up to \<open>RecvOracleDBClient\<close> of oracleproxy.c.
    \<^item> TnsValues, TnsRows: the text printed for a value of each Oracle type (\<open>PrintData\<close>), and the five decoders of
      result rows (\<open>DecodeTnsData0600\<close>, \<open>0601\<close>, \<open>0602\<close>, \<open>0602_64\<close>, \<open>061a\<close>) on the arrays they share, the record \<open>ora\<close>.
    \<^item> TnsRowLaws: what every decoder keeps, and that every one returns.
    \<^item> TnsAnswer: the messages and packets of a server, up to \<open>RecvOracleDBServer\<close>, and whole sessions.
    \<^item> TnsFields: the decoders of column descriptions, whose call is commented out.
    \<^item> OleDb: OleDbAccess, the access of the Windows programs to Oracle and DB2. Syslog: their system log (syslog-client.c).
    \<^item> OscDb, OscQuery, OscLog: their database client OSCShell/db_mysql.cpp, with the access records, the file of commands, the
      lookups, and the records of logins and videos; OscDbLaws, OscLogLaws: what these do.
    \<^item> LoadCfg: the settings of the Windows programs (public/pub.cpp). Shell: their launcher OSCShell/OSCShell.cpp up to the command line of
      the tool: the handle of the database, the settings, the access record, the time that is left, the passwords. ShellSession: what follows, the
      login record, the monitor, the end of a session and the watch over all of them. ShellLaws, ShellSteps: what these do; ShellSamples: values to try them on.
    \<^item> Aes, AesText: public/AES.cpp of the Windows programs, the AES cipher and the text encryption around it.

  \<^bold>\<open>How they interact.\<close> \<open>RecvOracleDBClient\<close> finds the statement of a packet and hands it to
  \<open>InsertUseractivitylog\<close>, which asks Policy about it and writes to AuditLog; when the level was raised,
  \<open>findSQL\<close> spoils the packet. \<open>RecvOracleDBServer\<close> decodes the rows of an answer and hands each to
  \<open>InsertUseractivityoutlog\<close>; the packet goes on as it is. \<open>GetConfig\<close> takes the mutex, connects (Config, DBConn), reads the key and the
  login (Session over Access, Policy and Db), and writes the login record (AuditLog).

  \<^bold>\<open>State.\<close> \<open>db_state\<close> is a connection with its settings; \<open>logs\<close> holds both connections, the statements sent
  over them, the files and the system log; \<open>gstate\<close> the globals of dbrecord.c; \<open>proxyinfo\<close> the structure
  \<open>PROXYINFO\<close> of a session; \<open>shell\<close> the globals of OSCShell.cpp, with the closed connections and what Windows was asked for; \<open>tns\<close> the globals of oraclefilter.c with a session and the logs, \<open>ora\<close> these with the arrays of a result. Operations take
  the state and return it changed.

  \<^bold>\<open>What comes from outside\<close> is an argument: the replies of a database server are a function of the
  statements sent so far and the next one (\<open>server\<close>), the ODBC variants of the queries return what they
  like, and so do the clock, \<open>rand\<close>, \<open>ioctl\<close>, sockets, the contents of files and the cipher with a key. The sizes
  of structures declared in headers outside the repository are the record \<open>sizes\<close>.

  \<^bold>\<open>Faults.\<close> A read or a write outside an object, a missing terminator, a loop that never ends and a lock that
  is never released give \<open>None\<close>. No fuel is used: loops are structural recursions, functions with a measure,
  or partial functions in the option type where they need not end (\<open>find_strings_count\<close>, \<open>strings_replace\<close>,
  \<open>str_replace_loop\<close>, \<open>climb_groups\<close>, \<open>free_port\<close>, \<open>rows_loop\<close>), and their theorems say when they end. The decoders of
  rows tell the two apart: \<open>None\<close> never returns, \<open>Some None\<close> leaves an array.

  \<^bold>\<open>What the lemmas show.\<close>

    \<^item> Cipher: decryption undoes encryption for every padding but one with a zero byte, which loses the text.
    \<^item> OleDb, OscDbLaws: a callback is told every field of every record; updates in a transaction are in force together or not at all; where
      MySQL and the other databases differ; the file of commands is read back.
    \<^item> OscLogLaws: escaped texts are literals of MySQL and not of Oracle; every heartbeat escapes the account once more.
    \<^item> Syslog: no socket is lost; which message is sent where.
    \<^item> AesText: decryption gives back each block up to its first control character; texts of up to 16 bytes
      are written beyond the array of \<open>_encrypt\<close>.
    \<^item> StrReplace, StrSplit: equality with replacement and search as one would define them, and where it fails.
    \<^item> Policy: each check is the existence of a rule that allows; order and letter case do not matter.
    \<^item> Config, DBConn: written settings are read back; the flag and the socket of a connection always agree.
    \<^item> Access: what \<open>GetPolicy\<close> leaves of an older policy; the climb through the groups finds the nearest item, and
      does not end on a cycle.
    \<^item> Session: access is granted only if each right comes from some policy, or no policy could be read.
    \<^item> AuditLog: the file of a minute has the activities of that minute line by line; which login records are lost; texts of the user reach the
      statements unescaped.
    \<^item> DbRecord: the mutex is free and the connection closed after every call.
    \<^item> TnsValues: an Oracle number is printed as its decimal text, but for the negative ones above -1 and the positive ones below 0.01.
    \<^item> TnsRowLaws, TnsAnswer: over whole sessions every packet of a server is decoded in the end; what is logged of a row and of a message.
    \<^item> LoadCfg: settings written with one line each are read back; a line of more than 1022 characters makes the reading go on for ever.
    \<^item> ShellLaws, ShellSteps: when a session is opened; the handle of the database belongs to the accesses between all operations; logins that are
      lost when the audit database cannot be reached; the watch that crashes in its third round.
    \<^item> Commands, TnsRequest: which text the policies see, and that it need not be the one the server runs.

  The contracts between the parts are locales (\<open>substring_search\<close>, \<open>block_cipher\<close>, \<open>codec\<close>, \<open>feistel\<close>, \<open>policy_check\<close>,
  \<open>keyed_reader\<close>, \<open>connection\<close>, \<open>row_query\<close>, \<open>log_operation\<close>, \<open>session_call\<close>, \<open>row_effects\<close>), each interpreted on the model;
  \<open>row_effects\<close>, the relations the steps of a decoder keep, is interpreted twice.

  \<^bold>\<open>Not modelled.\<close> The diagnostic output (\<open>printdblog\<close>, \<open>print2log\<close>, \<open>printf\<close>); memory that cannot be allocated; the
  code that is commented out or cannot be reached (the first branch of \<open>GetConfigForUser\<close>, the joining of split packets);
  in the launcher the messages to its log, the alias of a DB2 database, the command lines of the tools and what is done to their windows;
  the rest of the Windows programs, which is user interface, capture and glue around libraries that are not in the
  repository.
\<close>

end
